(* ===== verification/GoBase.thy ===== *)
theory GoBase
  imports
    Complex_Main
    "HOL-Library.Char_ord"
    "HOL-Library.List_Lexorder"
    "HOL-Library.Sublist"
    "HOL-Library.Multiset"
begin

text \<open>
  The prelude of the development: the fragments of the Go language and of its standard library
  that the packages under src/pkg share, with the lemmas about them that the component theories
  use.  A Go \<open>string\<close> is its sequence of bytes, a \<open>string\<close> of HOL; a Go
  \<open>int\<close> is an \<open>int\<close> that the operations keep in the range of 64 bits; a
  \<open>time.Time\<close> is the number of nanoseconds since the zero time and a
  \<open>time.Duration\<close> a number of nanoseconds.  A function that returns an error next to its
  result returns a value of a sum type, the error on the left.
\<close>

named_theorems go_str "equations of the string functions of the standard library"
named_theorems go_int "facts about machine integers and their decimal notation"

section \<open>Results\<close>

type_synonym ('e, 'a) result = "'e + 'a"

fun map_result :: "('e, 'a) result list \<Rightarrow> ('e, 'a list) result" where
  "map_result [] = Inr []"
| "map_result (Inl e # _) = Inl e"
| "map_result (Inr x # rs) = (case map_result rs of Inl e \<Rightarrow> Inl e | Inr xs \<Rightarrow> Inr (x # xs))"

section \<open>Integers of 64 bits\<close>

definition int64_min :: int where "int64_min = - 9223372036854775808"
definition int64_max :: int where "int64_max = 9223372036854775807"

definition wrap64 :: "int \<Rightarrow> int" where
  "wrap64 x = (x + 9223372036854775808) mod 18446744073709551616 - 9223372036854775808"

definition in_int64 :: "int \<Rightarrow> bool" where
  "in_int64 x = (int64_min \<le> x \<and> x \<le> int64_max)"

lemma wrap64_id [go_int]: "in_int64 x \<Longrightarrow> wrap64 x = x"
  by (simp add: wrap64_def in_int64_def int64_min_def int64_max_def)

lemma wrap64_range [go_int]: "in_int64 (wrap64 x)"
proof -
  have "0 \<le> (x + 9223372036854775808) mod 18446744073709551616"
    "(x + 9223372036854775808) mod 18446744073709551616 < 18446744073709551616" by simp_all
  then show ?thesis unfolding in_int64_def wrap64_def int64_min_def int64_max_def by linarith
qed

section \<open>Bytes\<close>

abbreviation byte :: "char \<Rightarrow> int" where "byte c \<equiv> of_char c"

definition chr :: "int \<Rightarrow> char" where "chr n = char_of n"

lemma byte_range [simp]: "0 \<le> byte c" "byte c < 256"
proof -
  have "byte c mod 256 = byte c" by (rule of_char_mod_256)
  then show "0 \<le> byte c" "byte c < 256"
    using pos_mod_bound [of 256 "byte c"] pos_mod_sign [of 256 "byte c"] by linarith+
qed

lemma byte_chr [simp]: "0 \<le> n \<Longrightarrow> n < 256 \<Longrightarrow> byte (chr n) = n"
  by (simp add: chr_def)

lemma chr_byte [simp]: "chr (byte c) = c"
  by (simp add: chr_def)

definition is_digit_byte :: "char \<Rightarrow> bool" where
  "is_digit_byte c = (48 \<le> byte c \<and> byte c \<le> 57)"

section \<open>Decimal notation: strconv.Itoa and strconv.Atoi\<close>

function dec_digits :: "int \<Rightarrow> string" where
  "dec_digits n = (if n < 10 then [chr (48 + n)] else dec_digits (n div 10) @ [chr (48 + n mod 10)])"
  by pat_completeness auto
termination
  by (relation "measure nat") auto

declare dec_digits.simps [simp del]

definition itoa :: "int \<Rightarrow> string" where
  "itoa i = (if i < 0 then CHR ''-'' # dec_digits (- i) else dec_digits i)"

definition digits_val :: "string \<Rightarrow> int" where
  "digits_val s = foldl (\<lambda>acc c. 10 * acc + (byte c - 48)) 0 s"

definition atoi :: "string \<Rightarrow> int option" where
  "atoi s =
    (let neg = (s \<noteq> [] \<and> hd s = CHR ''-'');
         ds = (if s \<noteq> [] \<and> (hd s = CHR ''-'' \<or> hd s = CHR ''+'') then tl s else s);
         v = (if neg then - digits_val ds else digits_val ds)
     in if ds \<noteq> [] \<and> list_all is_digit_byte ds \<and> in_int64 v then Some v else None)"

lemma dec_digits_not_Nil [simp]: "dec_digits n \<noteq> []"
  by (subst dec_digits.simps) simp

lemma is_digit_chr: "0 \<le> d \<Longrightarrow> d < 10 \<Longrightarrow> is_digit_byte (chr (48 + d))"
  by (simp add: is_digit_byte_def)

lemma dec_digits_digits [go_int]: "0 \<le> n \<Longrightarrow> list_all is_digit_byte (dec_digits n)"
proof (induction n rule: dec_digits.induct)
  case (1 n)
  then show ?case by (subst dec_digits.simps) (auto intro: is_digit_chr)
qed

lemma itoa_digits: "0 \<le> n \<Longrightarrow> list_all is_digit_byte (itoa n)"
  by (simp add: itoa_def dec_digits_digits)

lemma digits_val_snoc [simp]: "digits_val (s @ [c]) = 10 * digits_val s + (byte c - 48)"
  by (simp add: digits_val_def)

lemma digits_val_Nil [simp]: "digits_val [] = 0"
  by (simp add: digits_val_def)

lemma digits_val_single [simp]: "digits_val [c] = byte c - 48"
  by (simp add: digits_val_def)

lemma digits_val_nonneg: "list_all is_digit_byte s \<Longrightarrow> 0 \<le> digits_val s"
  by (induction s rule: rev_induct) (auto simp: is_digit_byte_def)

lemma digits_val_dec_digits [go_int]: "0 \<le> n \<Longrightarrow> digits_val (dec_digits n) = n"
proof (induction n rule: dec_digits.induct)
  case (1 n)
  show ?case
  proof (cases "n < 10")
    case True
    then show ?thesis using 1 by (subst dec_digits.simps) simp
  next
    case False
    then have "digits_val (dec_digits (n div 10)) = n div 10" using 1 by simp
    moreover have "48 + n mod 10 < 256" "0 \<le> 48 + n mod 10"
      using pos_mod_bound [of 10 n] pos_mod_sign [of 10 n] by linarith+
    ultimately show ?thesis using False by (subst dec_digits.simps) simp
  qed
qed

lemma dec_digits_inject [simp]:
  "0 \<le> m \<Longrightarrow> 0 \<le> n \<Longrightarrow> dec_digits m = dec_digits n \<longleftrightarrow> m = n"
  by (metis digits_val_dec_digits)

lemma dec_digits_hd_digit: "0 \<le> n \<Longrightarrow> is_digit_byte (hd (dec_digits n))"
  using dec_digits_digits [of n] by (cases "dec_digits n") simp_all

lemma digit_not_sign: "is_digit_byte c \<Longrightarrow> c \<noteq> CHR ''-'' \<and> c \<noteq> CHR ''+''"
  by (auto simp: is_digit_byte_def)

lemma atoi_itoa [go_int]: "in_int64 i \<Longrightarrow> atoi (itoa i) = Some i"
  using dec_digits_hd_digit [of i] dec_digits_digits
  by (auto simp: atoi_def itoa_def Let_def go_int dest: digit_not_sign)

lemma atoi_in_int64 [go_int]: "atoi s = Some i \<Longrightarrow> in_int64 i"
  by (auto simp: atoi_def Let_def split: if_splits)

lemma itoa_not_Nil [simp]: "itoa i \<noteq> []"
  by (simp add: itoa_def)

lemma itoa_inject [simp]: "itoa i = itoa j \<longleftrightarrow> i = j"
proof
  assume eq: "itoa i = itoa j"
  show "i = j"
  proof (cases "i < 0 \<longleftrightarrow> j < 0")
    case True
    then show ?thesis using eq by (auto simp: itoa_def split: if_splits)
  next
    case False
    then show ?thesis
      using eq dec_digits_hd_digit [of i] dec_digits_hd_digit [of j]
      by (auto simp: itoa_def not_less dest: digit_not_sign split: if_splits)
        (metis digit_not_sign list.sel(1))+
  qed
qed simp

text \<open>A list of digits is the longest such prefix: used for prefix-free concatenations.\<close>

lemma takeWhile_digits_append:
  "list_all is_digit_byte s \<Longrightarrow> (t = [] \<or> \<not> is_digit_byte (hd t)) \<Longrightarrow>
   takeWhile is_digit_byte (s @ t) = s"
  by (induction s) (cases t; auto)+

section \<open>Hexadecimal notation: hex.EncodeToString\<close>

definition hex_digit :: "int \<Rightarrow> char" where
  "hex_digit n = (if n < 10 then chr (48 + n) else chr (87 + n))"

definition hex_encode :: "int list \<Rightarrow> string" where
  "hex_encode bs = concat (map (\<lambda>b. [hex_digit (b div 16), hex_digit (b mod 16)]) bs)"

lemma length_hex_encode [simp]: "length (hex_encode bs) = 2 * length bs"
  by (induction bs) (simp_all add: hex_encode_def)

lemma hex_digit_inject:
  assumes "0 \<le> m" "m < 16" "0 \<le> n" "n < 16" "hex_digit m = hex_digit n" shows "m = n"
proof -
  have b: "byte (hex_digit k) = (if k < 10 then 48 + k else 87 + k)" if "0 \<le> k" "k < 16" for k
    using that by (simp add: hex_digit_def)
  have "byte (hex_digit m) = byte (hex_digit n)" unfolding assms(5) by (rule refl)
  then have "(if m < 10 then 48 + m else 87 + m) = (if n < 10 then 48 + n else 87 + n)"
    unfolding b [OF assms(1,2)] b [OF assms(3,4)] .
  then show ?thesis using assms(1-4) by (simp split: if_splits)
qed

lemma hex_encode_inject:
  assumes "list_all (\<lambda>b. 0 \<le> b \<and> b < 256) xs" "list_all (\<lambda>b. 0 \<le> b \<and> b < 256) ys"
    "hex_encode xs = hex_encode ys"
  shows "xs = ys"
  using assms
proof (induction xs arbitrary: ys)
  case Nil
  then show ?case by (cases ys) (auto simp: hex_encode_def)
next
  case (Cons x xs)
  then obtain y ys' where ys: "ys = y # ys'" by (cases ys) (auto simp: hex_encode_def)
  then have d: "hex_digit (x div 16) = hex_digit (y div 16)" "hex_digit (x mod 16) = hex_digit (y mod 16)"
    and t: "hex_encode xs = hex_encode ys'"
    using Cons.prems(3) by (simp_all add: hex_encode_def)
  have "x div 16 = y div 16" "x mod 16 = y mod 16"
    using Cons.prems(1,2) ys by (auto intro!: hex_digit_inject [OF _ _ _ _ d(1)] hex_digit_inject [OF _ _ _ _ d(2)])
  then have "x = y" by (metis div_mult_mod_eq)
  then show ?case using Cons.IH [OF _ _ t] Cons.prems ys by simp
qed

section \<open>Strings\<close>

definition has_prefix :: "string \<Rightarrow> string \<Rightarrow> bool" where
  "has_prefix s p = (take (length p) s = p)"

definition has_suffix :: "string \<Rightarrow> string \<Rightarrow> bool" where
  "has_suffix s p = (length p \<le> length s \<and> drop (length s - length p) s = p)"

definition trim_prefix :: "string \<Rightarrow> string \<Rightarrow> string" where
  "trim_prefix s p = (if has_prefix s p then drop (length p) s else s)"

definition trim_suffix :: "string \<Rightarrow> string \<Rightarrow> string" where
  "trim_suffix s p = (if has_suffix s p then take (length s - length p) s else s)"

lemma has_prefix_append [simp]: "has_prefix (p @ s) p"
  by (simp add: has_prefix_def)

lemma has_suffix_append [simp]: "has_suffix (s @ p) p"
  by (simp add: has_suffix_def)

lemma trim_prefix_append [simp]: "trim_prefix (p @ s) p = s"
  by (simp add: trim_prefix_def)

lemma trim_suffix_append [simp]: "trim_suffix (s @ p) p = s"
  by (simp add: trim_suffix_def)

lemma has_prefix_iff: "has_prefix s p \<longleftrightarrow> (\<exists>t. s = p @ t)"
  by (metis append_eq_conv_conj append_take_drop_id has_prefix_def)

fun joined :: "string \<Rightarrow> string list \<Rightarrow> string" where
  "joined sep [] = []"
| "joined sep [x] = x"
| "joined sep (x # y # zs) = x @ sep @ joined sep (y # zs)"

lemma joined_Cons: "joined sep (x # xs) = (if xs = [] then x else x @ sep @ joined sep xs)"
  by (cases xs) auto

fun contains_sub :: "string \<Rightarrow> string \<Rightarrow> bool" where
  "contains_sub [] p = (p = [])"
| "contains_sub (c # s) p = (has_prefix (c # s) p \<or> contains_sub s p)"

lemma contains_sub_iff: "contains_sub s p \<longleftrightarrow> (\<exists>u v. s = u @ p @ v)"
proof (induction s)
  case (Cons c s)
  show ?case
  proof
    assume "contains_sub (c # s) p"
    then consider "has_prefix (c # s) p" | "contains_sub s p" by auto
    then show "\<exists>u v. c # s = u @ p @ v"
    proof cases
      case 1
      then show ?thesis by (metis append_Nil has_prefix_iff)
    next
      case 2
      then show ?thesis using Cons.IH by (metis append_Cons)
    qed
  next
    assume "\<exists>u v. c # s = u @ p @ v"
    then obtain u v where uv: "c # s = u @ p @ v" by blast
    show "contains_sub (c # s) p"
    proof (cases u)
      case Nil
      then have "has_prefix (c # s) p" using uv by (auto simp: has_prefix_iff)
      then show ?thesis by simp
    next
      case (Cons d u')
      then have "s = u' @ p @ v" using uv by simp
      then show ?thesis using Cons.IH by auto
    qed
  qed
qed simp

fun split_on :: "char \<Rightarrow> string \<Rightarrow> string list" where
  "split_on sep [] = [[]]"
| "split_on sep (c # s) =
    (if c = sep then [] # split_on sep s
     else (case split_on sep s of [] \<Rightarrow> [[c]] | w # ws \<Rightarrow> (c # w) # ws))"

text \<open>\<open>split_first c s\<close> is \<open>strings.SplitN(s, c, 2)\<close>.\<close>

definition split_first :: "char \<Rightarrow> string \<Rightarrow> string list" where
  "split_first c s =
    (case dropWhile (\<lambda>x. x \<noteq> c) s of
       [] \<Rightarrow> [s]
     | _ # rest \<Rightarrow> [takeWhile (\<lambda>x. x \<noteq> c) s, rest])"

lemma split_first_pair:
  "split_first c s = [p, q] \<longleftrightarrow> s = p @ c # q \<and> c \<notin> set p"
proof
  assume "split_first c s = [p, q]"
  then obtain x where "dropWhile (\<lambda>x. x \<noteq> c) s = x # q" "p = takeWhile (\<lambda>x. x \<noteq> c) s"
    by (auto simp: split_first_def split: list.splits)
  then show "s = p @ c # q \<and> c \<notin> set p"
    using takeWhile_dropWhile_id [of "\<lambda>x. x \<noteq> c" s] hd_dropWhile [of "\<lambda>x. x \<noteq> c" s]
    by (auto dest: set_takeWhileD)
next
  assume "s = p @ c # q \<and> c \<notin> set p"
  then have "takeWhile (\<lambda>x. x \<noteq> c) s = p" "dropWhile (\<lambda>x. x \<noteq> c) s = c # q"
    by (auto simp: takeWhile_append dropWhile_append)
  then show "split_first c s = [p, q]" by (simp add: split_first_def)
qed

lemma split_first_cases:
  obtains "split_first c s = [s]" "c \<notin> set s" | p q where "split_first c s = [p, q]"
proof (cases "dropWhile (\<lambda>x. x \<noteq> c) s")
  case Nil
  then have "split_first c s = [s]" by (simp only: split_first_def Nil list.case)
  moreover have "c \<notin> set s" using Nil by (auto simp: dropWhile_eq_Nil_conv)
  ultimately show ?thesis by (rule that(1))
next
  case (Cons x q)
  then show ?thesis using that(2) by (simp add: split_first_def)
qed

section \<open>UTF-8\<close>

text \<open>The decoder of package unicode/utf8: the first rune of a string and its width, the
  replacement rune of width one for an ill-formed sequence.\<close>

definition rune_error :: int where "rune_error = 65533"

definition cont_byte :: "int \<Rightarrow> bool" where "cont_byte b = (128 \<le> b \<and> b \<le> 191)"

definition second_range :: "int \<Rightarrow> int \<times> int" where
  "second_range b =
    (if b = 224 then (160, 191) else if b = 237 then (128, 159)
     else if b = 240 then (144, 191) else if b = 244 then (128, 143) else (128, 191))"

definition nth_byte :: "string \<Rightarrow> nat \<Rightarrow> int" where
  "nth_byte s i = (if i < length s then byte (s ! i) else 0)"

definition decode_rune :: "string \<Rightarrow> int \<times> nat" where
  "decode_rune s =
    (let b0 = nth_byte s 0; b1 = nth_byte s 1; b2 = nth_byte s 2; b3 = nth_byte s 3;
         ok1 = (fst (second_range b0) \<le> b1 \<and> b1 \<le> snd (second_range b0))
     in if b0 < 128 then (b0, 1)
        else if 194 \<le> b0 \<and> b0 \<le> 223 \<and> ok1 then ((b0 - 192) * 64 + (b1 - 128), 2)
        else if 224 \<le> b0 \<and> b0 \<le> 239 \<and> ok1 \<and> cont_byte b2
          then ((b0 - 224) * 4096 + (b1 - 128) * 64 + (b2 - 128), 3)
        else if 240 \<le> b0 \<and> b0 \<le> 244 \<and> ok1 \<and> cont_byte b2 \<and> cont_byte b3
          then ((b0 - 240) * 262144 + (b1 - 128) * 4096 + (b2 - 128) * 64 + (b3 - 128), 4)
        else (rune_error, 1))"

lemma decode_rune_width: "0 < snd (decode_rune s)"
  by (auto simp: decode_rune_def Let_def)

function runes :: "string \<Rightarrow> int list" where
  "runes s = (if s = [] then [] else fst (decode_rune s) # runes (drop (snd (decode_rune s)) s))"
  by pat_completeness auto
termination
  by (relation "measure length") (auto simp: decode_rune_width)

declare runes.simps [simp del]

definition encode_rune :: "int \<Rightarrow> string" where
  "encode_rune r =
    (if r < 128 then [chr r]
     else if r < 2048 then [chr (192 + r div 64), chr (128 + r mod 64)]
     else if 1114111 < r \<or> (55296 \<le> r \<and> r \<le> 57343) then [chr 239, chr 191, chr 189]
     else if r < 65536 then [chr (224 + r div 4096), chr (128 + r div 64 mod 64), chr (128 + r mod 64)]
     else [chr (240 + r div 262144), chr (128 + r div 4096 mod 64), chr (128 + r div 64 mod 64),
           chr (128 + r mod 64)])"

text \<open>The lower-case mapping of package unicode outside ASCII, as ranges: a rune of the range
  \<open>lo, lo + stride, .., hi\<close> is mapped by adding the offset.\<close>

definition lower_ranges :: "(int \<times> int \<times> int \<times> int) list" where
  "lower_ranges = [
   (192,214,1,32), (216,222,1,32), (256,302,2,1), (304,304,1,-199), (306,310,2,1),
   (313,327,2,1), (330,374,2,1), (376,376,1,-121), (377,381,2,1), (385,385,1,210),
   (386,388,2,1), (390,390,1,206), (391,391,1,1), (393,394,1,205), (395,395,1,1),
   (398,398,1,79), (399,399,1,202), (400,400,1,203), (401,401,1,1), (403,403,1,205),
   (404,404,1,207), (406,406,1,211), (407,407,1,209), (408,408,1,1), (412,412,1,211),
   (413,413,1,213), (415,415,1,214), (416,420,2,1), (422,422,1,218), (423,423,1,1),
   (425,425,1,218), (428,428,1,1), (430,430,1,218), (431,431,1,1), (433,434,1,217),
   (435,437,2,1), (439,439,1,219), (440,440,1,1), (444,444,1,1), (452,452,1,2),
   (453,453,1,1), (455,455,1,2), (456,456,1,1), (458,458,1,2), (459,475,2,1),
   (478,494,2,1), (497,497,1,2), (498,500,2,1), (502,502,1,-97), (503,503,1,-56),
   (504,542,2,1), (544,544,1,-130), (546,562,2,1), (570,570,1,10795), (571,571,1,1),
   (573,573,1,-163), (574,574,1,10792), (577,577,1,1), (579,579,1,-195), (580,580,1,69),
   (581,581,1,71), (582,590,2,1), (880,882,2,1), (886,886,1,1), (895,895,1,116),
   (902,902,1,38), (904,906,1,37), (908,908,1,64), (910,911,1,63), (913,929,1,32),
   (931,939,1,32), (975,975,1,8), (984,1006,2,1), (1012,1012,1,-60), (1015,1015,1,1),
   (1017,1017,1,-7), (1018,1018,1,1), (1021,1023,1,-130), (1024,1039,1,80), (1040,1071,1,32),
   (1120,1152,2,1), (1162,1214,2,1), (1216,1216,1,15), (1217,1229,2,1), (1232,1326,2,1),
   (1329,1366,1,48), (4256,4293,1,7264), (4295,4295,1,7264), (4301,4301,1,7264), (5024,5103,1,38864),
   (5104,5109,1,8), (7312,7354,1,-3008), (7357,7359,1,-3008), (7680,7828,2,1), (7838,7838,1,-7615),
   (7840,7934,2,1), (7944,7951,1,-8), (7960,7965,1,-8), (7976,7983,1,-8), (7992,7999,1,-8),
   (8008,8013,1,-8), (8025,8031,2,-8), (8040,8047,1,-8), (8072,8079,1,-8), (8088,8095,1,-8),
   (8104,8111,1,-8), (8120,8121,1,-8), (8122,8123,1,-74), (8124,8124,1,-9), (8136,8139,1,-86),
   (8140,8140,1,-9), (8152,8153,1,-8), (8154,8155,1,-100), (8168,8169,1,-8), (8170,8171,1,-112),
   (8172,8172,1,-7), (8184,8185,1,-128), (8186,8187,1,-126), (8188,8188,1,-9), (8486,8486,1,-7517),
   (8490,8490,1,-8383), (8491,8491,1,-8262), (8498,8498,1,28), (8544,8559,1,16), (8579,8579,1,1),
   (9398,9423,1,26), (11264,11311,1,48), (11360,11360,1,1), (11362,11362,1,-10743), (11363,11363,1,-3814),
   (11364,11364,1,-10727), (11367,11371,2,1), (11373,11373,1,-10780), (11374,11374,1,-10749), (11375,11375,1,-10783),
   (11376,11376,1,-10782), (11378,11378,1,1), (11381,11381,1,1), (11390,11391,1,-10815), (11392,11490,2,1),
   (11499,11501,2,1), (11506,11506,1,1), (42560,42604,2,1), (42624,42650,2,1), (42786,42798,2,1),
   (42802,42862,2,1), (42873,42875,2,1), (42877,42877,1,-35332), (42878,42886,2,1), (42891,42891,1,1),
   (42893,42893,1,-42280), (42896,42898,2,1), (42902,42920,2,1), (42922,42922,1,-42308), (42923,42923,1,-42319),
   (42924,42924,1,-42315), (42925,42925,1,-42305), (42926,42926,1,-42308), (42928,42928,1,-42258), (42929,42929,1,-42282),
   (42930,42930,1,-42261), (42931,42931,1,928), (42932,42946,2,1), (42948,42948,1,-48), (42949,42949,1,-42307),
   (42950,42950,1,-35384), (42951,42953,2,1), (42960,42960,1,1), (42966,42968,2,1), (42997,42997,1,1),
   (65313,65338,1,32), (66560,66599,1,40), (66736,66771,1,40), (66928,66938,1,39), (66940,66954,1,39),
   (66956,66962,1,39), (66964,66965,1,39), (68736,68786,1,64), (71840,71871,1,32), (93760,93791,1,32),
   (125184,125217,1,34)]"

fun lower_lookup :: "(int \<times> int \<times> int \<times> int) list \<Rightarrow> int \<Rightarrow> int" where
  "lower_lookup [] r = r"
| "lower_lookup ((lo, hi, st, d) # rs) r =
    (if lo \<le> r \<and> r \<le> hi \<and> (r - lo) mod st = 0 then r + d else lower_lookup rs r)"

definition unicode_to_lower :: "int \<Rightarrow> int" where
  "unicode_to_lower r =
    (if r < 128 then (if 65 \<le> r \<and> r \<le> 90 then r + 32 else r)
     else lower_lookup lower_ranges r)"

definition is_ascii :: "string \<Rightarrow> bool" where
  "is_ascii s = list_all (\<lambda>c. byte c < 128) s"

definition ascii_lower :: "char \<Rightarrow> char" where
  "ascii_lower c = (if 65 \<le> byte c \<and> byte c \<le> 90 then chr (byte c + 32) else c)"

definition ascii_upper :: "char \<Rightarrow> char" where
  "ascii_upper c = (if 97 \<le> byte c \<and> byte c \<le> 122 then chr (byte c - 32) else c)"

definition to_lower :: "string \<Rightarrow> string" where
  "to_lower s =
    (if is_ascii s then map ascii_lower s
     else concat (map (\<lambda>r. encode_rune (unicode_to_lower r)) (runes s)))"

lemma ascii_lower_idem [simp]: "ascii_lower (ascii_lower c) = ascii_lower c"
  by (simp add: ascii_lower_def)

lemma to_lower_ascii [go_str]: "is_ascii s \<Longrightarrow> to_lower s = map ascii_lower s"
  by (simp add: to_lower_def)

lemma to_lower_id:
  assumes "list_all (\<lambda>c. byte c < 128 \<and> \<not> (65 \<le> byte c \<and> byte c \<le> 90)) s"
  shows "to_lower s = s"
proof -
  have "is_ascii s" using assms by (simp add: is_ascii_def list_all_iff)
  moreover have "map ascii_lower s = s"
    using assms by (induction s) (auto simp: ascii_lower_def)
  ultimately show ?thesis by (simp add: to_lower_def)
qed

text \<open>\<open>strings.TrimSpace\<close>: the runes of \<open>unicode.IsSpace\<close> are removed at both
  ends.  A string starts (ends) with such a rune exactly if it starts (ends) with its encoding.\<close>

definition space_encodings :: "string list" where
  "space_encodings = map (\<lambda>b. [chr b]) [9, 10, 11, 12, 13, 32] @
    map encode_rune ([133, 160, 5760] @ [8192..8202] @ [8232, 8233, 8239, 8287, 12288])"

function trim_left :: "string \<Rightarrow> string" where
  "trim_left s = (case find (\<lambda>e. has_prefix s e) space_encodings of
      None \<Rightarrow> s
    | Some e \<Rightarrow> if s = [] then [] else trim_left (drop (max 1 (length e)) s))"
  by pat_completeness auto
termination
  by (relation "measure length") auto

function trim_right :: "string \<Rightarrow> string" where
  "trim_right s = (case find (\<lambda>e. has_suffix s e) space_encodings of
      None \<Rightarrow> s
    | Some e \<Rightarrow> if s = [] then [] else trim_right (take (length s - max 1 (length e)) s))"
  by pat_completeness auto
termination
  by (relation "measure length") (simp_all add: less_diff_conv2 flip: length_greater_0_conv)

declare trim_left.simps [simp del] trim_right.simps [simp del]

definition trim_space :: "string \<Rightarrow> string" where
  "trim_space s = trim_right (trim_left s)"

text \<open>No space begins or ends with a printable ASCII character.\<close>

lemma space_encodings_bytes:
  "list_all (\<lambda>e. e \<noteq> [] \<and> (byte (hd e) \<le> 32 \<or> 127 \<le> byte (hd e)) \<and> (byte (last e) \<le> 32 \<or> 127 \<le> byte (last e)))
     space_encodings"
  by code_simp

lemma trim_space_id [go_str]:
  assumes "s \<noteq> []" "32 < byte (hd s)" "byte (hd s) < 127" "32 < byte (last s)" "byte (last s) < 127"
  shows "trim_space s = s"
proof -
  have "\<not> has_prefix s e \<and> \<not> has_suffix s e" if "e \<in> set space_encodings" for e
  proof -
    have e: "e \<noteq> []" "byte (hd e) \<le> 32 \<or> 127 \<le> byte (hd e)" "byte (last e) \<le> 32 \<or> 127 \<le> byte (last e)"
      using space_encodings_bytes that by (auto simp: list_all_iff)
    have "hd s = hd e" if "has_prefix s e"
      using that e(1) assms(1) by (cases s; cases e) (auto simp: has_prefix_def)
    moreover have "last s = last e" if h: "has_suffix s e"
    proof -
      have "drop (length s - length e) s = e" using h by (simp add: has_suffix_def)
      then show ?thesis using e(1) by (metis drop_eq_Nil last_drop linorder_not_le)
    qed
    ultimately show ?thesis using e assms by auto
  qed
  then have "find (\<lambda>e. has_prefix s e) space_encodings = None" "find (\<lambda>e. has_suffix s e) space_encodings = None"
    by (auto simp: find_None_iff)
  then show ?thesis by (simp add: trim_space_def trim_left.simps [of s] trim_right.simps [of s])
qed

section \<open>Time\<close>

text \<open>Nanoseconds since January 1 of year 1, and spans of time.\<close>

type_synonym time = int
type_synonym duration = int

definition second_ns :: duration where "second_ns = 1000000000"
definition minute_ns :: duration where "minute_ns = 60 * 1000000000"
definition hour_ns :: duration where "hour_ns = 3600 * 1000000000"
definition millisecond_ns :: duration where "millisecond_ns = 1000000"

definition is_zero_time :: "time \<Rightarrow> bool" where "is_zero_time t = (t = 0)"

text \<open>\<open>Time.Sub\<close> saturates at the ends of the range of a duration.\<close>

definition time_sub :: "time \<Rightarrow> time \<Rightarrow> duration" where
  "time_sub t u = max int64_min (min int64_max (t - u))"

section \<open>Lists\<close>

lemma find_Some_set: "find P xs = Some x \<Longrightarrow> x \<in> set xs \<and> P x"
  by (auto simp: find_Some_iff)

lemma find_append:
  "find P (xs @ ys) = (case find P xs of None \<Rightarrow> find P ys | Some x \<Rightarrow> Some x)"
  by (induction xs) auto

lemma find_NoneI: "(\<And>x. x \<in> set xs \<Longrightarrow> \<not> P x) \<Longrightarrow> find P xs = None"
  by (auto simp: find_None_iff)

lemma list_all_takeWhile: "list_all P (takeWhile P xs)"
  by (induction xs) auto

lemma dropWhile_hd_neg: "dropWhile P xs \<noteq> [] \<Longrightarrow> \<not> P (hd (dropWhile P xs))"
  by (rule hd_dropWhile)

end
