(* ===== verification/GoFloat.thy ===== *)
theory GoFloat
  imports GoBase
begin

text \<open>
  The type float64 of Go: a finite value is the rational number it denotes, and every operation is
  the exact operation followed by rounding to 53 significant bits, ties to even, with gradual
  underflow at the exponent -1074 and overflow at 2 to the 1024.  The two zeros are identified.
  The arithmetic classes of HOL are instantiated, so that a numeric routine of the source can be
  written once and evaluated both on float64 and on exact rationals.  The theory also holds
  strconv.ParseFloat on decimal numerals and strconv.FormatFloat with the verb f and the shortest
  precision.
\<close>

named_theorems go_float "facts about float64 arithmetic"

section \<open>Powers and logarithms\<close>

definition pow2 :: "int \<Rightarrow> rat" where
  "pow2 k = (if 0 \<le> k then of_int (2 ^ nat k) else inverse (of_int (2 ^ nat (- k))))"

function ilog2 :: "int \<Rightarrow> nat" where
  "ilog2 n = (if n < 2 then 0 else Suc (ilog2 (n div 2)))"
  by pat_completeness auto
termination
  by (relation "measure nat") auto

declare ilog2.simps [simp del]

definition flog2 :: "rat \<Rightarrow> int" where
  "flog2 x = (let (a, b) = quotient_of x; k = int (ilog2 a) - int (ilog2 b)
              in if pow2 k \<le> x then k else k - 1)"

lemma pow2_powi: "pow2 k = 2 powi k"
  by (simp add: pow2_def power_int_def flip: power_inverse)

lemma pow2_pos [simp]: "0 < pow2 k"
  by (simp add: pow2_def)

lemma pow2_add: "pow2 (a + b) = pow2 a * pow2 b"
  by (simp add: pow2_powi power_int_add)

lemma pow2_mono: "a \<le> b \<Longrightarrow> pow2 a \<le> pow2 b"
  by (simp add: pow2_powi power_int_increasing)

lemma pow2_0 [simp]: "pow2 0 = 1"
  by (simp add: pow2_def)

lemma pow2_1 [simp]: "pow2 1 = 2"
  by (simp add: pow2_def)

lemma pow2_nonneg_int: "0 \<le> k \<Longrightarrow> pow2 k = of_int (2 ^ nat k)"
  by (simp add: pow2_def)

lemma pow2_diff: "pow2 (a - b) = pow2 a / pow2 b"
  by (simp add: pow2_powi power_int_diff)

lemma ilog2_bounds: "0 < n \<Longrightarrow> 2 ^ ilog2 n \<le> n \<and> n < 2 * 2 ^ ilog2 n"
proof (induction n rule: ilog2.induct)
  case (1 n)
  show ?case
  proof (cases "n < 2")
    case True
    then show ?thesis using 1 by (subst (1 2) ilog2.simps) simp
  next
    case False
    then have "2 ^ ilog2 (n div 2) \<le> n div 2 \<and> n div 2 < 2 * 2 ^ ilog2 (n div 2)"
      using 1 by simp
    then show ?thesis using False by (subst (1 2) ilog2.simps) (simp, linarith)
  qed
qed

lemma rat_pow_le: "(2::int) ^ i \<le> a \<Longrightarrow> (2::rat) ^ i \<le> of_int a"
  using of_int_le_iff [of "2 ^ i" a, where 'a = rat] by simp

lemma rat_less_pow: "a < 2 * (2::int) ^ i \<Longrightarrow> of_int a < (2::rat) * 2 ^ i"
  using of_int_less_iff [of a "2 * 2 ^ i", where 'a = rat] by simp

lemma flog2_bounds:
  assumes "0 < x"
  shows "pow2 (flog2 x) \<le> x \<and> x < pow2 (flog2 x + 1)"
proof -
  obtain a b where q: "quotient_of x = (a, b)" by (cases "quotient_of x") auto
  have b: "0 < b" using quotient_of_denom_pos [OF q] .
  have x: "x = of_int a / of_int b" using quotient_of_div [OF q] .
  have a: "0 < a" using assms b x by (simp add: zero_less_divide_iff)
  define i j where "i = ilog2 a" and "j = ilog2 b"
  have ai: "(2::int) ^ i \<le> a" "a < 2 * 2 ^ i"
    using ilog2_bounds [of a] a unfolding i_def by simp_all
  have bj: "(2::int) ^ j \<le> b" "b < 2 * 2 ^ j"
    using ilog2_bounds [of b] b unfolding j_def by simp_all
  have ar: "(2::rat) ^ i \<le> of_int a" "of_int a < (2::rat) * 2 ^ i"
    and br: "(2::rat) ^ j \<le> of_int b" "of_int b < (2::rat) * 2 ^ j"
    using ai bj by (auto intro: rat_pow_le rat_less_pow)
  define k where "k = int i - int j"
  have pk: "pow2 k = 2 ^ i / 2 ^ j"
    by (simp add: k_def pow2_diff) (simp add: pow2_def)
  have hi: "x < pow2 (k + 1)"
  proof -
    have "x < (2 * 2 ^ i) / 2 ^ j"
      unfolding x using ar br a b by (intro frac_less) (auto simp: less_imp_le)
    then show ?thesis by (simp add: pow2_add pk mult.commute)
  qed
  have lo: "pow2 (k - 1) \<le> x"
  proof -
    have "2 ^ i / (2 * 2 ^ j) \<le> x"
      unfolding x using ar br a b by (intro frac_le) (auto simp: less_imp_le)
    then show ?thesis by (simp add: pow2_diff pk)
  qed
  have "flog2 x = (if pow2 k \<le> x then k else k - 1)"
    by (simp add: flog2_def q i_def j_def k_def)
  then show ?thesis using hi lo by auto
qed

section \<open>Rounding\<close>

definition rne :: "rat \<Rightarrow> int" where
  "rne y = (let f = floor y; d = y - of_int f
            in if d < 1/2 then f else if 1/2 < d then f + 1 else if even f then f else f + 1)"

definition ulp_exp :: "rat \<Rightarrow> int" where
  "ulp_exp x = max (flog2 \<bar>x\<bar> - 52) (- 1074)"

definition rnd :: "rat \<Rightarrow> rat" where
  "rnd x = (if x = 0 then 0 else of_int (rne (x / pow2 (ulp_exp x))) * pow2 (ulp_exp x))"

lemma rne_of_int [simp]: "rne (of_int n) = n"
  by (simp add: rne_def)

lemma rne_cases: "rne y = floor y \<or> rne y = floor y + 1"
  by (auto simp: rne_def Let_def)

lemma rne_mono: assumes "x \<le> y" shows "rne x \<le> rne y"
proof (cases "floor x = floor y")
  case True
  then show ?thesis using assms by (auto simp: rne_def Let_def)
next
  case False
  then have "floor x < floor y" using floor_mono [OF assms] by simp
  then show ?thesis using rne_cases [of x] rne_cases [of y] by auto
qed

lemma rne_le_int: "x \<le> of_int n \<Longrightarrow> rne x \<le> n"
  using rne_mono [of x "of_int n"] by simp

lemma int_le_rne: "of_int n \<le> x \<Longrightarrow> n \<le> rne x"
  using rne_mono [of "of_int n" x] by simp

lemma rnd_0 [simp]: "rnd 0 = 0"
  by (simp add: rnd_def)

lemma floor_uminus_nonint: fixes y :: rat
  assumes "y \<noteq> of_int (floor y)" shows "floor (- y) = - floor y - 1"
  using assms by (intro floor_unique) (auto, linarith+)

lemma rne_uminus: "rne (- y) = - rne y"
proof (cases "y = of_int (floor y)")
  case True
  then show ?thesis by (metis rne_of_int of_int_minus)
next
  case False
  have "y - of_int \<lfloor>y\<rfloor> = 1 - (- y - of_int \<lfloor>- y\<rfloor>)" using floor_uminus_nonint [OF False] by simp
  then show ?thesis using floor_uminus_nonint [OF False] by (auto simp: rne_def Let_def)
qed

lemma rnd_uminus: "rnd (- x) = - rnd x"
  by (simp add: rnd_def ulp_exp_def rne_uminus)

lemma rnd_nonneg: "0 \<le> x \<Longrightarrow> 0 \<le> rnd x"
  unfolding rnd_def using int_le_rne [of 0] by (auto simp: less_imp_le)

lemma rnd_le_pow2:
  assumes "0 < x" "x \<le> pow2 k" "ulp_exp x \<le> k"
  shows "rnd x \<le> pow2 k"
proof -
  define u where "u = ulp_exp x"
  have "x / pow2 u \<le> pow2 (k - u)"
    using assms pow2_pos [of u] by (simp add: pow2_diff divide_right_mono less_imp_le)
  then have "rne (x / pow2 u) \<le> 2 ^ nat (k - u)"
    using assms by (intro rne_le_int) (simp add: u_def pow2_def)
  then have "(of_int (rne (x / pow2 u)) :: rat) \<le> pow2 (k - u)"
    using assms by (simp add: u_def pow2_nonneg_int flip: of_int_le_iff)
  then show ?thesis using assms
    by (simp add: rnd_def u_def [symmetric] pow2_diff pos_le_divide_eq)
qed

lemma pow2_le_rnd:
  assumes "pow2 k \<le> x" "ulp_exp x \<le> k"
  shows "pow2 k \<le> rnd x"
proof -
  have x: "0 < x" using assms(1) pow2_pos [of k] by linarith
  define u where "u = ulp_exp x"
  have "pow2 (k - u) \<le> x / pow2 u"
    using assms pow2_pos [of u] by (simp add: pow2_diff divide_right_mono less_imp_le)
  then have "2 ^ nat (k - u) \<le> rne (x / pow2 u)"
    using assms by (intro int_le_rne) (simp add: u_def pow2_def)
  then have "pow2 (k - u) \<le> (of_int (rne (x / pow2 u)) :: rat)"
    using assms by (simp add: u_def pow2_nonneg_int flip: of_int_le_iff)
  then show ?thesis using x
    by (simp add: rnd_def u_def [symmetric] pow2_diff pos_divide_le_eq)
qed

lemma ulp_exp_pow2: "- 1074 \<le> k \<Longrightarrow> ulp_exp (pow2 k) \<le> k"
proof -
  assume k: "- 1074 \<le> k"
  have "flog2 (pow2 k) \<le> k"
  proof (rule ccontr)
    assume "\<not> ?thesis"
    then have "pow2 (k + 1) \<le> pow2 (flog2 (pow2 k))" by (intro pow2_mono) simp
    then show False using flog2_bounds [of "pow2 k"] pow2_add [of k 1] pow2_pos [of k] by simp
  qed
  then show ?thesis using k by (simp add: ulp_exp_def abs_of_pos)
qed

lemma rnd_pow2: "- 1074 \<le> k \<Longrightarrow> rnd (pow2 k) = pow2 k"
  by (simp add: antisym pow2_le_rnd rnd_le_pow2 ulp_exp_pow2)

lemma flog2_mono:
  assumes "0 < x" "x \<le> y" shows "flog2 x \<le> flog2 y"
proof (rule ccontr)
  assume "\<not> ?thesis"
  then have "flog2 y + 1 \<le> flog2 x" by simp
  then have "pow2 (flog2 y + 1) \<le> pow2 (flog2 x)" by (rule pow2_mono)
  then show False using flog2_bounds [of x] flog2_bounds [of y] assms by linarith
qed

lemma ulp_exp_mono:
  assumes "0 < x" "x \<le> y" shows "ulp_exp x \<le> ulp_exp y"
  using flog2_mono [OF assms] assms by (auto simp: ulp_exp_def)

lemma rnd_mono_pos:
  assumes "0 < x" "x \<le> y" shows "rnd x \<le> rnd y"
proof (cases "ulp_exp x = ulp_exp y")
  case True
  then have "rne (x / pow2 (ulp_exp x)) \<le> rne (y / pow2 (ulp_exp y))"
    using assms by (intro rne_mono) (simp add: divide_right_mono less_imp_le)
  then show ?thesis using assms True by (simp add: rnd_def mult_right_mono less_imp_le)
next
  case False
  then have lt: "ulp_exp x < ulp_exp y" using ulp_exp_mono [OF assms] by simp
  then have uy: "ulp_exp y = flog2 y - 52" and fl: "flog2 x < flog2 y"
    using assms by (auto simp: ulp_exp_def)
  have "x \<le> pow2 (flog2 x + 1)" using flog2_bounds [of x] assms by simp
  also have "\<dots> \<le> pow2 (flog2 y)" using fl by (intro pow2_mono) simp
  finally have "rnd x \<le> pow2 (flog2 y)" using assms lt uy by (intro rnd_le_pow2) auto
  also have "\<dots> \<le> rnd y" using flog2_bounds [of y] assms uy by (intro pow2_le_rnd) auto
  finally show ?thesis .
qed

lemma rnd_mono [go_float]: assumes "x \<le> y" shows "rnd x \<le> rnd y"
proof -
  consider "0 < x" | "x \<le> 0" "0 \<le> y" | "y < 0" by linarith
  then show ?thesis
  proof cases
    case 1
    then show ?thesis using assms by (rule rnd_mono_pos)
  next
    case 2
    then have "0 \<le> rnd (- x)" "0 \<le> rnd y" by (auto intro: rnd_nonneg)
    then show ?thesis by (simp add: rnd_uminus)
  next
    case 3
    then have "rnd (- y) \<le> rnd (- x)" using assms by (intro rnd_mono_pos) auto
    then show ?thesis by (simp add: rnd_uminus)
  qed
qed

lemma rnd_exact:
  assumes "x = of_int n * pow2 k" "\<bar>n\<bar> \<le> 9007199254740992" "- 1074 \<le> k"
  shows "rnd x = x"
proof (cases "x = 0")
  case False
  have ax: "0 < \<bar>x\<bar>" using False by simp
  have "\<bar>x\<bar> \<le> of_int 9007199254740992 * pow2 k"
    using assms(2) unfolding assms(1) abs_mult
    by (intro mult_mono) (simp_all add: less_imp_le abs_of_pos flip: of_int_abs)
  also have "\<dots> = pow2 (53 + k)" unfolding pow2_add by (simp add: pow2_def)
  finally have le: "\<bar>x\<bar> \<le> pow2 (53 + k)" .
  show ?thesis
  proof (cases "\<bar>x\<bar> = pow2 (53 + k)")
    case True
    then have pos: "rnd \<bar>x\<bar> = \<bar>x\<bar>" using assms(3) by (simp add: rnd_pow2)
    show ?thesis
    proof (cases "0 < x")
      case True
      then show ?thesis using pos by simp
    next
      case False
      then show ?thesis using pos by (simp add: rnd_uminus)
    qed
  next
    case False
    then have "\<bar>x\<bar> < pow2 (53 + k)" using le by simp
    then have "flog2 \<bar>x\<bar> < 53 + k"
      using flog2_bounds [OF ax] pow2_mono [of "53 + k" "flog2 \<bar>x\<bar>"] by linarith
    then have u: "ulp_exp x \<le> k" using assms(3) by (simp add: ulp_exp_def)
    have "x / pow2 (ulp_exp x) = of_int n * pow2 (k - ulp_exp x)"
      by (simp add: assms(1) pow2_diff)
    also have "\<dots> = of_int (n * 2 ^ nat (k - ulp_exp x))" using u by (simp add: pow2_nonneg_int)
    finally have "rne (x / pow2 (ulp_exp x)) = n * 2 ^ nat (k - ulp_exp x)" by (metis rne_of_int)
    moreover have "(of_int (2 ^ nat (k - ulp_exp x)) :: rat) = pow2 (k - ulp_exp x)"
      using u by (subst pow2_nonneg_int) simp_all
    moreover have "pow2 (k - ulp_exp x) * pow2 (ulp_exp x) = pow2 k"
      by (simp flip: pow2_add)
    ultimately show ?thesis
      using ax by (simp add: rnd_def) (simp add: assms(1) mult.assoc)
  qed
qed simp

section \<open>The type and its operations\<close>

datatype f64 = FFin rat | FInf bool | FNaN

definition f64_overflow :: rat where
  "f64_overflow = 179769313486231590772930519078902473361797697894230657273430081157732675805500963132708477322407536021120113879871393357658789768814416622492847430639474124377767893424865485276302219601246094119453082952085005768838150682342462881473913110540827237163350510684586298239947245938479716304835356329624224137216"

lemma f64_overflow_pow: "f64_overflow = 2 ^ 1024"
  by (simp add: f64_overflow_def)

definition fl :: "rat \<Rightarrow> f64" where
  "fl x = (let r = rnd x in if f64_overflow \<le> \<bar>r\<bar> then FInf (r < 0) else FFin r)"

definition f64_of_int :: "int \<Rightarrow> f64" where "f64_of_int n = fl (of_int n)"

fun f64_neg :: "f64 \<Rightarrow> f64" where
  "f64_neg (FFin a) = FFin (- a)"
| "f64_neg (FInf s) = FInf (\<not> s)"
| "f64_neg FNaN = FNaN"

fun f64_add :: "f64 \<Rightarrow> f64 \<Rightarrow> f64" where
  "f64_add (FFin a) (FFin b) = fl (a + b)"
| "f64_add (FInf s) (FInf t) = (if s = t then FInf s else FNaN)"
| "f64_add (FInf s) (FFin _) = FInf s"
| "f64_add (FFin _) (FInf s) = FInf s"
| "f64_add _ _ = FNaN"

fun f64_mul :: "f64 \<Rightarrow> f64 \<Rightarrow> f64" where
  "f64_mul (FFin a) (FFin b) = fl (a * b)"
| "f64_mul (FInf s) (FInf t) = FInf (s \<noteq> t)"
| "f64_mul (FInf s) (FFin b) = (if b = 0 then FNaN else FInf (s \<noteq> (b < 0)))"
| "f64_mul (FFin a) (FInf s) = (if a = 0 then FNaN else FInf (s \<noteq> (a < 0)))"
| "f64_mul _ _ = FNaN"

fun f64_div :: "f64 \<Rightarrow> f64 \<Rightarrow> f64" where
  "f64_div (FFin a) (FFin b) =
    (if b = 0 then (if a = 0 then FNaN else FInf (a < 0)) else fl (a / b))"
| "f64_div (FInf s) (FFin b) = FInf (s \<noteq> (b < 0))"
| "f64_div (FFin _) (FInf _) = FFin 0"
| "f64_div _ _ = FNaN"

fun f64_le :: "f64 \<Rightarrow> f64 \<Rightarrow> bool" where
  "f64_le (FFin a) (FFin b) = (a \<le> b)"
| "f64_le (FInf s) (FInf t) = (s \<or> \<not> t)"
| "f64_le (FInf s) (FFin _) = s"
| "f64_le (FFin _) (FInf s) = (\<not> s)"
| "f64_le _ _ = False"

fun f64_lt :: "f64 \<Rightarrow> f64 \<Rightarrow> bool" where
  "f64_lt (FFin a) (FFin b) = (a < b)"
| "f64_lt (FInf s) (FInf t) = (s \<and> \<not> t)"
| "f64_lt (FInf s) (FFin _) = s"
| "f64_lt (FFin _) (FInf s) = (\<not> s)"
| "f64_lt _ _ = False"

fun f64_abs :: "f64 \<Rightarrow> f64" where
  "f64_abs (FFin a) = FFin \<bar>a\<bar>"
| "f64_abs (FInf _) = FInf False"
| "f64_abs FNaN = FNaN"

text \<open>The comparison \<open>==\<close> of the source: false on NaN.\<close>

definition f64_eq :: "f64 \<Rightarrow> f64 \<Rightarrow> bool" where
  "f64_eq x y = (x = y \<and> x \<noteq> FNaN)"

fun f64_is_nan :: "f64 \<Rightarrow> bool" where
  "f64_is_nan FNaN = True"
| "f64_is_nan _ = False"

instantiation f64 :: "{zero, one, plus, minus, uminus, times, inverse, ord, abs}"
begin

definition zero_f64 :: f64 where "zero_f64 = FFin 0"
definition one_f64 :: f64 where "one_f64 = FFin 1"
definition plus_f64 :: "f64 \<Rightarrow> f64 \<Rightarrow> f64" where "plus_f64 = f64_add"
definition uminus_f64 :: "f64 \<Rightarrow> f64" where "uminus_f64 = f64_neg"
definition minus_f64 :: "f64 \<Rightarrow> f64 \<Rightarrow> f64" where "minus_f64 x y = f64_add x (f64_neg y)"
definition times_f64 :: "f64 \<Rightarrow> f64 \<Rightarrow> f64" where "times_f64 = f64_mul"
definition divide_f64 :: "f64 \<Rightarrow> f64 \<Rightarrow> f64" where "divide_f64 = f64_div"
definition inverse_f64 :: "f64 \<Rightarrow> f64" where "inverse_f64 x = f64_div (FFin 1) x"
definition less_eq_f64 :: "f64 \<Rightarrow> f64 \<Rightarrow> bool" where "less_eq_f64 = f64_le"
definition less_f64 :: "f64 \<Rightarrow> f64 \<Rightarrow> bool" where "less_f64 = f64_lt"
definition abs_f64 :: "f64 \<Rightarrow> f64" where "abs_f64 = f64_abs"

instance ..

end

lemmas f64_ops = zero_f64_def one_f64_def plus_f64_def uminus_f64_def minus_f64_def times_f64_def
  divide_f64_def inverse_f64_def less_eq_f64_def less_f64_def abs_f64_def

section \<open>Facts about the operations\<close>

lemma rnd_form: "\<exists>n k. rnd r = of_int n * pow2 k \<and> \<bar>n\<bar> \<le> 9007199254740992 \<and> - 1074 \<le> k"
proof (cases "r = 0")
  case True
  then show ?thesis by (intro exI [of _ 0]) simp
next
  case False
  define u where "u = ulp_exp r"
  have "\<bar>r\<bar> < pow2 (flog2 \<bar>r\<bar> + 1)" using flog2_bounds [of "\<bar>r\<bar>"] False by simp
  also have "\<dots> \<le> pow2 (u + 53)" by (rule pow2_mono) (simp add: u_def ulp_exp_def)
  also have "\<dots> = 9007199254740992 * pow2 u" unfolding pow2_add by (simp add: pow2_def)
  finally have "\<bar>r\<bar> / pow2 u \<le> 9007199254740992" by (simp add: divide_le_eq)
  then have "\<bar>r / pow2 u\<bar> \<le> of_int 9007199254740992"
    by (simp add: abs_divide abs_of_pos [OF pow2_pos])
  then have b: "r / pow2 u \<le> of_int 9007199254740992" "of_int (- 9007199254740992) \<le> r / pow2 u"
    unfolding abs_le_iff by simp_all
  then have "\<bar>rne (r / pow2 u)\<bar> \<le> 9007199254740992" using rne_le_int [OF b(1)] int_le_rne [OF b(2)] by simp
  moreover have "rnd r = of_int (rne (r / pow2 u)) * pow2 u" using False by (simp add: rnd_def u_def)
  moreover have "- 1074 \<le> u" by (simp add: u_def ulp_exp_def)
  ultimately show ?thesis by blast
qed

lemma rnd_rnd: "rnd (rnd r) = rnd r"
  using rnd_form [of r] rnd_exact by metis

lemma rnd_of_int_exact: "\<bar>n\<bar> \<le> 9007199254740992 \<Longrightarrow> rnd (of_int n) = of_int n"
  by (rule rnd_exact [of _ n 0]) simp_all

lemma rnd_1 [simp]: "rnd 1 = 1"
  using rnd_of_int_exact [of 1] by simp

lemma f64_overflow_big: "9007199254740992 < f64_overflow"
  by (simp add: f64_overflow_def)

lemma fl_exact_bounded:
  "\<bar>rnd x\<bar> \<le> 9007199254740992 \<Longrightarrow> fl x = FFin (rnd x)"
  using f64_overflow_big by (simp add: fl_def Let_def)

lemma f64_of_int_exact [go_float]:
  assumes "\<bar>n\<bar> \<le> 9007199254740992" shows "f64_of_int n = FFin (of_int n)"
proof -
  have "\<bar>rnd (of_int n)\<bar> \<le> (9007199254740992 :: rat)"
    using assms by (simp add: rnd_of_int_exact flip: of_int_abs)
  then show ?thesis using assms by (simp add: f64_of_int_def fl_exact_bounded rnd_of_int_exact)
qed

lemma fl_0 [simp]: "fl 0 = FFin 0"
  by (simp add: fl_def f64_overflow_def)

lemma fl_1 [simp]: "fl 1 = FFin 1"
  by (simp add: fl_def f64_overflow_def)

lemma fl_mono [go_float]: "x \<le> y \<Longrightarrow> f64_le (fl x) (fl y)"
  using rnd_mono [of x y] by (auto simp: fl_def Let_def f64_overflow_def)

lemma fl_unit_interval [go_float]:
  assumes "0 \<le> x" "x \<le> 1"
  shows "\<exists>r. fl x = FFin r \<and> 0 \<le> r \<and> r \<le> 1"
proof -
  have "0 \<le> rnd x" "rnd x \<le> 1" using rnd_mono [of 0 x] rnd_mono [of x 1] assms by auto
  then show ?thesis by (simp add: fl_exact_bounded)
qed

lemma fl_not_nan [simp]: "fl x \<noteq> FNaN"
  by (simp add: fl_def Let_def)

lemma f64_le_refl [simp]: "f64_le x x \<longleftrightarrow> x \<noteq> FNaN"
  by (cases x) auto

lemma f64_le_trans [trans]: "f64_le x y \<Longrightarrow> f64_le y z \<Longrightarrow> f64_le x z"
  by (cases x; cases y; cases z) auto

lemma f64_lt_le_trans: "f64_lt x y \<Longrightarrow> f64_le y z \<Longrightarrow> f64_lt x z"
  by (cases x; cases y; cases z) auto

lemma f64_le_lt_trans: "f64_le x y \<Longrightarrow> f64_lt y z \<Longrightarrow> f64_lt x z"
  by (cases x; cases y; cases z) auto

lemma f64_not_le: "x \<noteq> FNaN \<Longrightarrow> y \<noteq> FNaN \<Longrightarrow> \<not> f64_le x y \<longleftrightarrow> f64_lt y x"
  by (cases x; cases y) auto

lemma f64_lt_imp_le: "f64_lt x y \<Longrightarrow> f64_le x y"
  by (cases x; cases y) auto

text \<open>The complement of a representable number below one does not round to zero.\<close>

lemma rnd_pos_of_pow2: "pow2 (- 1074) \<le> x \<Longrightarrow> 0 < rnd x"
  using rnd_mono [of "pow2 (- 1074)" x] pow2_pos [of "- 1074"] by (simp add: rnd_pow2 del: pow2_pos)

lemma rnd_one_minus_pos:
  assumes "rnd r = r" "0 < r" "r < 1"
  shows "0 < rnd (1 - r)"
proof (rule rnd_pos_of_pow2)
  define u n where "u = ulp_exp r" and "n = rne (r / pow2 (ulp_exp r))"
  have r: "r = of_int n * pow2 u" using assms by (simp add: rnd_def u_def n_def)
  have u1: "- 1074 \<le> u" by (simp add: u_def ulp_exp_def)
  have "flog2 r < 0"
  proof (rule ccontr)
    assume "\<not> ?thesis"
    then have "pow2 0 \<le> pow2 (flog2 r)" by (intro pow2_mono) simp
    then show False using flog2_bounds [of r] assms by simp
  qed
  then have u0: "u \<le> 0" using assms by (simp add: u_def ulp_exp_def)
  have one: "(1::rat) = of_int (2 ^ nat (- u)) * pow2 u"
    using u0 pow2_add [of "- u" u] pow2_nonneg_int [of "- u"] by simp
  have eq: "1 - r = of_int (2 ^ nat (- u) - n) * pow2 u"
  proof -
    have "1 - r = of_int (2 ^ nat (- u)) * pow2 u - of_int n * pow2 u" using one r by argo
    then show ?thesis by (simp add: left_diff_distrib)
  qed
  have "0 < (of_int (2 ^ nat (- u) - n) :: rat) * pow2 u" using eq assms(3) by simp
  then have "0 < 2 ^ nat (- u) - n" using pow2_pos [of u]
    by (simp add: zero_less_mult_iff del: of_int_diff pow2_pos)
  then have "1 \<le> (of_int (2 ^ nat (- u) - n) :: rat)" by linarith
  then have "1 * pow2 u \<le> 1 - r" unfolding eq
    by (intro mult_right_mono) (simp_all add: less_imp_le)
  moreover have "pow2 (- 1074) \<le> pow2 u" using u1 by (rule pow2_mono)
  ultimately show "pow2 (- 1074) \<le> 1 - r" by simp
qed

section \<open>Decimal numerals\<close>

definition pow10 :: "int \<Rightarrow> rat" where
  "pow10 k = (if 0 \<le> k then of_int (10 ^ nat k) else inverse (of_int (10 ^ nat (- k))))"

text \<open>strconv.ParseFloat on the numerals that the query language has: digits, with an optional
  point and more digits; an error when the value rounds to infinity.\<close>

definition parse_float :: "string \<Rightarrow> f64 option" where
  "parse_float s =
    (let ip = takeWhile is_digit_byte s; rest = dropWhile is_digit_byte s;
         fp = (if rest \<noteq> [] \<and> hd rest = CHR ''.'' then tl rest else []);
         okf = (rest = [] \<or> hd rest = CHR ''.'' \<and> list_all is_digit_byte fp)
     in if okf \<and> ip @ fp \<noteq> []
        then (case fl (of_int (digits_val (ip @ fp)) * pow10 (- int (length fp))) of
                FFin r \<Rightarrow> Some (FFin r)
              | _ \<Rightarrow> None)
        else None)"

text \<open>strconv.FormatFloat with the verb f and precision -1: the fewest significant digits that
  read back as the same value, the nearest of the two candidates when both do.\<close>

primrec dec_exp :: "nat \<Rightarrow> rat \<Rightarrow> int \<Rightarrow> int" where
  "dec_exp 0 x k = k"
| "dec_exp (Suc fuel) x k =
    (if pow10 k \<le> x then dec_exp fuel x (k + 1)
     else if x < pow10 (k - 1) then dec_exp fuel x (k - 1) else k)"

primrec shortest_from :: "nat \<Rightarrow> rat \<Rightarrow> int \<Rightarrow> int \<Rightarrow> int \<times> int" where
  "shortest_from 0 x k n = (floor (x / pow10 (k - n)), k - n)"
| "shortest_from (Suc fuel) x k n =
    (let u = pow10 (k - n); m = floor (x / u); dn = of_int m * u; up = of_int (m + 1) * u;
         okdn = (rnd dn = x); okup = (rnd up = x)
     in if okdn \<and> okup
        then (if x - dn < up - x \<or> x - dn = up - x \<and> even m then m else m + 1, k - n)
        else if okdn then (m, k - n) else if okup then (m + 1, k - n)
        else shortest_from fuel x k (n + 1))"

fun strip_zeros :: "int \<times> int \<Rightarrow> int \<times> int" where
  "strip_zeros (m, q) = (if q < 0 \<and> m mod 10 = 0 then strip_zeros (m div 10, q + 1) else (m, q))"

declare strip_zeros.simps [simp del]

definition format_pos :: "rat \<Rightarrow> string" where
  "format_pos x =
    (let (m, q) = strip_zeros (shortest_from 17 x (dec_exp 800 x 0) 1)
     in if 0 \<le> q then dec_digits (m * 10 ^ nat q)
        else (let w = nat (- q); ip = m div 10 ^ w; fp = dec_digits (m mod 10 ^ w)
              in dec_digits ip @ CHR ''.'' # replicate (w - length fp) CHR ''0'' @ fp))"

fun format_float :: "f64 \<Rightarrow> string" where
  "format_float (FFin x) =
    (if x = 0 then ''0'' else if x < 0 then CHR ''-'' # format_pos (- x) else format_pos x)"
| "format_float (FInf s) = (if s then ''-Inf'' else ''+Inf'')"
| "format_float FNaN = ''NaN''"

section \<open>Durations in seconds, and single precision\<close>

text \<open>\<open>Duration.Seconds\<close>: the whole and the fractional part are converted on their own.\<close>

definition dur_Seconds :: "duration \<Rightarrow> f64" where
  "dur_Seconds d =
    (let q = (if 0 \<le> d then d div second_ns else - ((- d) div second_ns))
     in f64_of_int q + f64_of_int (d - q * second_ns) / FFin 1000000000)"

text \<open>A \<open>float32\<close> is the double of the same value: the conversion rounds to 24 bits, to multiples of the
  smallest subnormal below \<open>2 ^ - 126\<close>, and overflows at \<open>2 ^ 128\<close>.\<close>

definition rnd32 :: "rat \<Rightarrow> rat" where
  "rnd32 x =
    (if x = 0 then 0
     else let e = max (flog2 \<bar>x\<bar> - 23) (- 149) in of_int (rne (x / pow2 e)) * pow2 e)"

definition to_f32 :: "f64 \<Rightarrow> f64" where
  "to_f32 x =
    (case x of
       FFin r \<Rightarrow> (let s = rnd32 r in if pow2 128 \<le> \<bar>s\<bar> then FInf (s < 0) else FFin s)
     | _ \<Rightarrow> x)"

end
