(* ===== verification/NetqlTypes.thy ===== *)
theory NetqlTypes
  imports GoFloat
begin

text \<open>
  The data of package netql (pkg/netql/types.go): tokens, operators, literal values, the
  expression tree, durations, queries and the errors of the four passes.  The \<open>Expr\<close> struct of
  the source, of whose pointers exactly one is set, and the tagged \<open>Value\<close> struct are datatypes;
  the message of an error is a constructor with the values that the source formats into it.
\<close>

section \<open>Tokens\<close>

datatype TokenKind = TokEOF | TokIdent | TokString | TokNumber | TokInt | TokDuration
  | TokLParen | TokRParen | TokComma | TokEq | TokNe | TokLt | TokLe | TokGt | TokGe | TokKeyword

definition keyword_set :: "string list" where
  "keyword_set = [''by'', ''where'', ''and'', ''or'', ''not'', ''in'', ''contains'', ''matches'',
     ''over'', ''step'', ''order'', ''asc'', ''desc'', ''limit'']"

record Token =
  tok_Kind :: TokenKind
  tok_Value :: string
  tok_Pos :: nat

definition mk_token :: "TokenKind \<Rightarrow> string \<Rightarrow> nat \<Rightarrow> Token" where
  "mk_token k v p = \<lparr>tok_Kind = k, tok_Value = v, tok_Pos = p\<rparr>"

lemma mk_token_simps [simp]:
  "tok_Kind (mk_token k v p) = k" "tok_Value (mk_token k v p) = v" "tok_Pos (mk_token k v p) = p"
  by (simp_all add: mk_token_def)

fun tokenKindName :: "TokenKind \<Rightarrow> string" where
  "tokenKindName TokEOF = ''eof''"
| "tokenKindName TokIdent = ''ident''"
| "tokenKindName TokString = ''string''"
| "tokenKindName TokNumber = ''number''"
| "tokenKindName TokInt = ''int''"
| "tokenKindName TokDuration = ''duration''"
| "tokenKindName TokLParen = ''(''"
| "tokenKindName TokRParen = '')''"
| "tokenKindName TokComma = '',''"
| "tokenKindName TokEq = ''=''"
| "tokenKindName TokNe = ''!=''"
| "tokenKindName TokLt = ''<''"
| "tokenKindName TokLe = ''<=''"
| "tokenKindName TokGt = ''>''"
| "tokenKindName TokGe = ''>=''"
| "tokenKindName TokKeyword = ''keyword''"

section \<open>Operators and values\<close>

datatype Op = OpEq | OpNe | OpLt | OpLe | OpGt | OpGe | OpIn | OpContains | OpMatches

fun op_text :: "Op \<Rightarrow> string" where
  "op_text OpEq = ''=''"
| "op_text OpNe = ''!=''"
| "op_text OpLt = ''<''"
| "op_text OpLe = ''<=''"
| "op_text OpGt = ''>''"
| "op_text OpGe = ''>=''"
| "op_text OpIn = ''in''"
| "op_text OpContains = ''contains''"
| "op_text OpMatches = ''matches''"

datatype ValueKind = KString | KNumber | KStringList | KNumberList

datatype Value = ValString string | ValNumber f64 | ValStringList "string list"
  | ValNumberList "f64 list"

fun val_Kind :: "Value \<Rightarrow> ValueKind" where
  "val_Kind (ValString _) = KString"
| "val_Kind (ValNumber _) = KNumber"
| "val_Kind (ValStringList _) = KStringList"
| "val_Kind (ValNumberList _) = KNumberList"

text \<open>The field \<open>String\<close> of a value: the zero value unless the kind is a string.\<close>

fun val_String :: "Value \<Rightarrow> string" where
  "val_String (ValString s) = s"
| "val_String _ = []"

section \<open>The syntax tree\<close>

record Predicate =
  pr_Field :: string
  pr_Op :: Op
  pr_Value :: Value
  pr_Pos :: nat

datatype Expr = EPred Predicate nat | EAnd "Expr list" nat | EOr "Expr list" nat | ENot Expr nat

fun ex_Pos :: "Expr \<Rightarrow> nat" where
  "ex_Pos (EPred _ p) = p"
| "ex_Pos (EAnd _ p) = p"
| "ex_Pos (EOr _ p) = p"
| "ex_Pos (ENot _ p) = p"

datatype Direction = DirAsc | DirDesc

record Duration =
  dur_Count :: int
  dur_Unit :: string
  dur_Pos :: nat

record OrderBy =
  ob_Field :: string
  ob_Direction :: Direction
  ob_Pos :: nat

record Query =
  q_Metric :: string
  q_GroupBy :: "string list"
  q_Filter :: "Expr option"
  q_Over :: "Duration option"
  q_Step :: "Duration option"
  q_OrderBy :: "OrderBy option"
  q_Limit :: "int option"
  q_Pos :: nat

section \<open>Errors\<close>

datatype LexMsg = ExpectedEqAfterBang | UnexpectedCharacter char | UnterminatedString

datatype Got = GotToken Token | GotText string

datatype FieldKind = FieldString | FieldNumber | FieldDuration

datatype TypeReason = NilQuery | NilRegistry | UnknownMetric string
  | CannotGroupBy string string | CannotFilterBy string string
  | InvalidOperator Op string FieldKind ValueKind | OrderByNotSelected string | LimitNotPositive

datatype Backend = BackendClickHouse | BackendPrometheus

datatype TranslateReason = WrongBackend string Backend | NoPromSpec string
  | PromNoOr | PromNoNot | UnknownLabel string | NotExpressible Op

datatype netql_error = LexError nat LexMsg | ParseError nat string Got | TypeError TypeReason
  | TranslateError TranslateReason | OutOfFuel

text \<open>The predicates that the expression tree holds, from left to right.\<close>

fun predicates :: "Expr \<Rightarrow> Predicate list" where
  "predicates (EPred p _) = [p]"
| "predicates (EAnd es _) = concat (map predicates es)"
| "predicates (EOr es _) = concat (map predicates es)"
| "predicates (ENot e _) = predicates e"

end
