(* ===== verification/NetqlParse.thy ===== *)
theory NetqlParse
  imports NetqlLex
begin

text \<open>
  The recursive-descent parser of package netql (pkg/netql/parser.go), one function per production.
  The parser state of the source, a token slice with a position, is the list of the tokens from
  that position on; the last token is never consumed.  The four mutually recursive productions of
  expressions take fuel; \<open>Parse\<close> gives four units for every token, and the lemmas show that
  this is always enough.
\<close>

type_synonym tokens = "Token list"
type_synonym 'a parse = "(netql_error, 'a \<times> tokens) result"

section \<open>Primitives\<close>

definition eof_token :: Token where "eof_token = mk_token TokEOF [] 0"

definition peek :: "tokens \<Rightarrow> Token" where
  "peek ts = (case ts of [] \<Rightarrow> eof_token | t # _ \<Rightarrow> t)"

definition advance :: "tokens \<Rightarrow> tokens" where
  "advance ts = (if tl ts = [] then ts else tl ts)"

definition accept_tok :: "TokenKind \<Rightarrow> string list \<Rightarrow> tokens \<Rightarrow> (Token \<times> tokens) option" where
  "accept_tok kind vals ts =
    (let t = peek ts
     in if tok_Kind t \<noteq> kind then None
        else if vals \<noteq> [] \<and> tok_Value t \<notin> set vals then None
        else Some (t, advance ts))"

definition unexpected :: "string \<Rightarrow> tokens \<Rightarrow> netql_error" where
  "unexpected want ts = ParseError (tok_Pos (peek ts)) want (GotToken (peek ts))"

definition expect :: "TokenKind \<Rightarrow> string \<Rightarrow> string list \<Rightarrow> tokens \<Rightarrow> Token parse" where
  "expect kind want vals ts =
    (case accept_tok kind vals ts of
       None \<Rightarrow> Inl (unexpected want ts)
     | Some r \<Rightarrow> Inr r)"

definition at_keyword :: "string \<Rightarrow> tokens \<Rightarrow> bool" where
  "at_keyword kw ts = (tok_Kind (peek ts) = TokKeyword \<and> tok_Value (peek ts) = kw)"

definition quoted :: "string \<Rightarrow> string" where
  "quoted s = CHR 0x27 # s @ [CHR 0x27]"

section \<open>Consumption\<close>

lemma advance_length: "length (advance ts) \<le> length ts"
  by (simp add: advance_def)

lemma advance_Cons [simp]: "ts \<noteq> [] \<Longrightarrow> advance (t # ts) = ts"
  by (simp add: advance_def)

lemma peek_Cons [simp]: "peek (t # ts) = t"
  by (simp add: peek_def)

lemma accept_tok_Some:
  "accept_tok k vs ts = Some (t, ts') \<longleftrightarrow>
     t = peek ts \<and> tok_Kind t = k \<and> (vs = [] \<or> tok_Value t \<in> set vs) \<and> ts' = advance ts"
  by (auto simp: accept_tok_def Let_def)

lemma expect_Inr:
  "expect k w vs ts = Inr (t, ts') \<longleftrightarrow>
     t = peek ts \<and> tok_Kind t = k \<and> (vs = [] \<or> tok_Value t \<in> set vs) \<and> ts' = advance ts"
  by (auto simp: expect_def accept_tok_def Let_def)

lemma expect_Inl: "expect k w vs ts = Inl e \<Longrightarrow> e \<noteq> OutOfFuel"
  by (auto simp: expect_def unexpected_def split: option.splits)

lemma two_steps_shrink:
  assumes "tok_Kind (peek ts) = TokComma" "tok_Kind (peek (advance ts)) \<noteq> TokComma"
  shows "length (advance (advance ts)) < length ts"
proof -
  have "tl ts \<noteq> []" using assms by (auto simp: advance_def)
  then have "advance ts = tl ts" "0 < length ts" by (auto simp: advance_def)
  then show ?thesis using advance_length [of "tl ts"] by (cases ts) auto
qed

section \<open>Lists, values and predicates\<close>

text \<open>The loops \<open>("," item)*\<close> of the three kinds of list.\<close>

function ident_loop :: "tokens \<Rightarrow> string list parse" where
  "ident_loop ts =
    (case accept_tok TokComma [] ts of
       None \<Rightarrow> Inr ([], ts)
     | Some (_, ts1) \<Rightarrow>
         (case expect TokIdent (''identifier after '' @ quoted '','') [] ts1 of
            Inl e \<Rightarrow> Inl e
          | Inr (t, ts2) \<Rightarrow>
              (case ident_loop ts2 of
                 Inl e \<Rightarrow> Inl e
               | Inr (xs, ts3) \<Rightarrow> Inr (tok_Value t # xs, ts3))))"
  by pat_completeness auto
termination
  by (relation "measure length") (auto simp: accept_tok_Some expect_Inr dest: sym intro!: two_steps_shrink)

definition parseGroupBy :: "tokens \<Rightarrow> string list parse" where
  "parseGroupBy ts =
    (case expect TokKeyword (quoted ''by'') [''by''] ts of
       Inl e \<Rightarrow> Inl e
     | Inr (_, ts1) \<Rightarrow>
         (case expect TokIdent (''identifier after '' @ quoted ''by'') [] ts1 of
            Inl e \<Rightarrow> Inl e
          | Inr (first, ts2) \<Rightarrow>
              (case ident_loop ts2 of
                 Inl e \<Rightarrow> Inl e
               | Inr (xs, ts3) \<Rightarrow> Inr (tok_Value first # xs, ts3))))"

definition parseOrderBy :: "tokens \<Rightarrow> OrderBy parse" where
  "parseOrderBy ts =
    (case expect TokKeyword (quoted ''order'') [''order''] ts of
       Inl e \<Rightarrow> Inl e
     | Inr (_, ts1) \<Rightarrow>
         (case expect TokKeyword (quoted ''by'') [''by''] ts1 of
            Inl e \<Rightarrow> Inl e
          | Inr (_, ts2) \<Rightarrow>
              (case expect TokIdent (''identifier after '' @ quoted ''order by'') [] ts2 of
                 Inl e \<Rightarrow> Inl e
               | Inr (id', ts3) \<Rightarrow>
                   (case accept_tok TokKeyword [''asc'', ''desc''] ts3 of
                      Some (t, ts4) \<Rightarrow>
                        Inr (\<lparr>ob_Field = tok_Value id',
                              ob_Direction = (if tok_Value t = ''desc'' then DirDesc else DirAsc),
                              ob_Pos = tok_Pos id'\<rparr>, ts4)
                    | None \<Rightarrow>
                        Inr (\<lparr>ob_Field = tok_Value id', ob_Direction = DirAsc,
                              ob_Pos = tok_Pos id'\<rparr>, ts3)))))"

definition parseOp :: "tokens \<Rightarrow> Op parse" where
  "parseOp ts =
    (let t = peek ts; ok = (\<lambda>op. Inr (op, advance ts));
         bad = Inl (unexpected
           ''predicate operator (=, !=, <, <=, >, >=, in, contains, matches)'' ts)
     in case tok_Kind t of
          TokEq \<Rightarrow> ok OpEq
        | TokNe \<Rightarrow> ok OpNe
        | TokLt \<Rightarrow> ok OpLt
        | TokLe \<Rightarrow> ok OpLe
        | TokGt \<Rightarrow> ok OpGt
        | TokGe \<Rightarrow> ok OpGe
        | TokKeyword \<Rightarrow>
            if tok_Value t = ''in'' then ok OpIn
            else if tok_Value t = ''contains'' then ok OpContains
            else if tok_Value t = ''matches'' then ok OpMatches
            else bad
        | _ \<Rightarrow> bad)"

function string_loop :: "tokens \<Rightarrow> string list parse" where
  "string_loop ts =
    (case accept_tok TokComma [] ts of
       None \<Rightarrow> Inr ([], ts)
     | Some (_, ts1) \<Rightarrow>
         (case expect TokString (''string after '' @ quoted '','') [] ts1 of
            Inl e \<Rightarrow> Inl e
          | Inr (t, ts2) \<Rightarrow>
              (case string_loop ts2 of
                 Inl e \<Rightarrow> Inl e
               | Inr (xs, ts3) \<Rightarrow> Inr (tok_Value t # xs, ts3))))"
  by pat_completeness auto
termination
  by (relation "measure length") (auto simp: accept_tok_Some expect_Inr dest: sym intro!: two_steps_shrink)

definition close_list :: "'a \<times> tokens \<Rightarrow> 'a parse" where
  "close_list r =
    (case expect TokRParen (quoted '')'' @ '' to close list'') [] (snd r) of
       Inl e \<Rightarrow> Inl e
     | Inr (_, ts) \<Rightarrow> Inr (fst r, ts))"

definition parseStringList :: "tokens \<Rightarrow> string list parse" where
  "parseStringList ts =
    (case expect TokString ''string in list'' [] ts of
       Inl e \<Rightarrow> Inl e
     | Inr (first, ts1) \<Rightarrow>
         (case string_loop ts1 of
            Inl e \<Rightarrow> Inl e
          | Inr (xs, ts2) \<Rightarrow> close_list (tok_Value first # xs, ts2)))"

definition is_number_kind :: "TokenKind \<Rightarrow> bool" where
  "is_number_kind k = (k = TokNumber \<or> k = TokInt)"

definition token_number :: "Token \<Rightarrow> (netql_error, f64) result" where
  "token_number t =
    (case parse_float (tok_Value t) of
       None \<Rightarrow> Inl (ParseError (tok_Pos t) ''valid number'' (GotText (tok_Value t)))
     | Some f \<Rightarrow> Inr f)"

function number_loop :: "tokens \<Rightarrow> f64 list parse" where
  "number_loop ts =
    (case accept_tok TokComma [] ts of
       None \<Rightarrow> Inr ([], ts)
     | Some (_, ts1) \<Rightarrow>
         if \<not> is_number_kind (tok_Kind (peek ts1))
         then Inl (unexpected (''number after '' @ quoted '','') ts1)
         else
           (case token_number (peek ts1) of
              Inl e \<Rightarrow> Inl e
            | Inr f \<Rightarrow>
                (case number_loop (advance ts1) of
                   Inl e \<Rightarrow> Inl e
                 | Inr (fs, ts3) \<Rightarrow> Inr (f # fs, ts3))))"
  by pat_completeness auto
termination
  by (relation "measure length")
    (auto simp: accept_tok_Some is_number_kind_def dest: sym intro!: two_steps_shrink)

declare ident_loop.simps [simp del] string_loop.simps [simp del] number_loop.simps [simp del]

definition parseNumberList :: "tokens \<Rightarrow> f64 list parse" where
  "parseNumberList ts =
    (case token_number (peek ts) of
       Inl e \<Rightarrow> Inl e
     | Inr f \<Rightarrow>
         (case number_loop (advance ts) of
            Inl e \<Rightarrow> Inl e
          | Inr (fs, ts2) \<Rightarrow> close_list (f # fs, ts2)))"

definition parseValueList :: "tokens \<Rightarrow> Value parse" where
  "parseValueList ts =
    (case expect TokLParen (quoted ''('' @ '' to start list'') [] ts of
       Inl e \<Rightarrow> Inl e
     | Inr (_, ts1) \<Rightarrow>
         if tok_Kind (peek ts1) = TokString then
           (case parseStringList ts1 of Inl e \<Rightarrow> Inl e | Inr (ss, ts2) \<Rightarrow> Inr (ValStringList ss, ts2))
         else if is_number_kind (tok_Kind (peek ts1)) then
           (case parseNumberList ts1 of Inl e \<Rightarrow> Inl e | Inr (ns, ts2) \<Rightarrow> Inr (ValNumberList ns, ts2))
         else Inl (unexpected ''string or number in list'' ts1))"

definition parseValue :: "Op \<Rightarrow> tokens \<Rightarrow> Value parse" where
  "parseValue op ts =
    (if op = OpIn then parseValueList ts
     else if tok_Kind (peek ts) = TokString then Inr (ValString (tok_Value (peek ts)), advance ts)
     else if is_number_kind (tok_Kind (peek ts)) then
       (case token_number (peek ts) of
          Inl e \<Rightarrow> Inl e
        | Inr f \<Rightarrow> Inr (ValNumber f, advance ts))
     else Inl (unexpected ''string or number value'' ts))"

definition parsePredicate :: "tokens \<Rightarrow> Predicate parse" where
  "parsePredicate ts =
    (case expect TokIdent ''predicate field identifier'' [] ts of
       Inl e \<Rightarrow> Inl e
     | Inr (id', ts1) \<Rightarrow>
         (case parseOp ts1 of
            Inl e \<Rightarrow> Inl e
          | Inr (op, ts2) \<Rightarrow>
              (case parseValue op ts2 of
                 Inl e \<Rightarrow> Inl e
               | Inr (v, ts3) \<Rightarrow>
                   Inr (\<lparr>pr_Field = tok_Value id', pr_Op = op, pr_Value = v,
                         pr_Pos = tok_Pos id'\<rparr>, ts3))))"

section \<open>Expressions\<close>

fun parseExpr :: "nat \<Rightarrow> tokens \<Rightarrow> Expr parse"
and or_loop :: "nat \<Rightarrow> tokens \<Rightarrow> Expr list parse"
and parseAndExpr :: "nat \<Rightarrow> tokens \<Rightarrow> Expr parse"
and and_loop :: "nat \<Rightarrow> tokens \<Rightarrow> Expr list parse"
and parseUnary :: "nat \<Rightarrow> tokens \<Rightarrow> Expr parse"
and parseTerm :: "nat \<Rightarrow> tokens \<Rightarrow> Expr parse" where
  "parseExpr 0 ts = Inl OutOfFuel"
| "parseExpr (Suc n) ts =
    (case parseAndExpr n ts of
       Inl e \<Rightarrow> Inl e
     | Inr (left, ts1) \<Rightarrow>
         if \<not> at_keyword ''or'' ts1 then Inr (left, ts1)
         else (case or_loop n ts1 of
                 Inl e \<Rightarrow> Inl e
               | Inr (terms, ts2) \<Rightarrow> Inr (EOr (left # terms) (ex_Pos left), ts2)))"
| "or_loop 0 ts = Inl OutOfFuel"
| "or_loop (Suc n) ts =
    (case accept_tok TokKeyword [''or''] ts of
       None \<Rightarrow> Inr ([], ts)
     | Some (_, ts1) \<Rightarrow>
         (case parseAndExpr n ts1 of
            Inl e \<Rightarrow> Inl e
          | Inr (nxt, ts2) \<Rightarrow>
              (case or_loop n ts2 of
                 Inl e \<Rightarrow> Inl e
               | Inr (terms, ts3) \<Rightarrow> Inr (nxt # terms, ts3))))"
| "parseAndExpr 0 ts = Inl OutOfFuel"
| "parseAndExpr (Suc n) ts =
    (case parseUnary n ts of
       Inl e \<Rightarrow> Inl e
     | Inr (left, ts1) \<Rightarrow>
         if \<not> at_keyword ''and'' ts1 then Inr (left, ts1)
         else (case and_loop n ts1 of
                 Inl e \<Rightarrow> Inl e
               | Inr (terms, ts2) \<Rightarrow> Inr (EAnd (left # terms) (ex_Pos left), ts2)))"
| "and_loop 0 ts = Inl OutOfFuel"
| "and_loop (Suc n) ts =
    (case accept_tok TokKeyword [''and''] ts of
       None \<Rightarrow> Inr ([], ts)
     | Some (_, ts1) \<Rightarrow>
         (case parseUnary n ts1 of
            Inl e \<Rightarrow> Inl e
          | Inr (nxt, ts2) \<Rightarrow>
              (case and_loop n ts2 of
                 Inl e \<Rightarrow> Inl e
               | Inr (terms, ts3) \<Rightarrow> Inr (nxt # terms, ts3))))"
| "parseUnary 0 ts = Inl OutOfFuel"
| "parseUnary (Suc n) ts =
    (case accept_tok TokKeyword [''not''] ts of
       Some (t, ts1) \<Rightarrow>
         (case parseTerm n ts1 of
            Inl e \<Rightarrow> Inl e
          | Inr (inner, ts2) \<Rightarrow> Inr (ENot inner (tok_Pos t), ts2))
     | None \<Rightarrow> parseTerm n ts)"
| "parseTerm 0 ts = Inl OutOfFuel"
| "parseTerm (Suc n) ts =
    (case accept_tok TokLParen [] ts of
       Some (_, ts1) \<Rightarrow>
         (case parseExpr n ts1 of
            Inl e \<Rightarrow> Inl e
          | Inr (inner, ts2) \<Rightarrow>
              (case expect TokRParen (quoted '')'' @ '' to close grouped expression'') [] ts2 of
                 Inl e \<Rightarrow> Inl e
               | Inr (_, ts3) \<Rightarrow> Inr (inner, ts3)))
     | None \<Rightarrow>
         (case parsePredicate ts of
            Inl e \<Rightarrow> Inl e
          | Inr (p, ts1) \<Rightarrow> Inr (EPred p (pr_Pos p), ts1)))"

section \<open>Queries\<close>

definition parseDurationToken :: "Token \<Rightarrow> (netql_error, Duration) result" where
  "parseDurationToken t =
    (let v = tok_Value t; unit = drop (length v - 1) v; digits = take (length v - 1) v
     in if length v < 2 then Inl (ParseError (tok_Pos t) ''duration like 24h'' (GotText v))
        else (case atoi digits of
                None \<Rightarrow> Inl (ParseError (tok_Pos t) ''duration count integer'' (GotText digits))
              | Some n \<Rightarrow>
                  if n \<le> 0 then Inl (ParseError (tok_Pos t) ''duration count > 0'' (GotText digits))
                  else Inr \<lparr>dur_Count = n, dur_Unit = unit, dur_Pos = tok_Pos t\<rparr>))"

definition parse_duration_clause :: "string \<Rightarrow> tokens \<Rightarrow> Duration option parse" where
  "parse_duration_clause kw ts =
    (if at_keyword kw ts then
       (case expect TokDuration (''duration after '' @ quoted kw) [] (advance ts) of
          Inl e \<Rightarrow> Inl e
        | Inr (dt, ts1) \<Rightarrow>
            (case parseDurationToken dt of
               Inl e \<Rightarrow> Inl e
             | Inr d \<Rightarrow> Inr (Some d, ts1)))
     else Inr (None, ts))"

definition parse_group_clause :: "tokens \<Rightarrow> string list parse" where
  "parse_group_clause ts = (if at_keyword ''by'' ts then parseGroupBy ts else Inr ([], ts))"

definition parse_where_clause :: "nat \<Rightarrow> tokens \<Rightarrow> Expr option parse" where
  "parse_where_clause fuel ts =
    (if at_keyword ''where'' ts then
       (case parseExpr fuel (advance ts) of
          Inl e \<Rightarrow> Inl e
        | Inr (ex, ts1) \<Rightarrow> Inr (Some ex, ts1))
     else Inr (None, ts))"

definition parse_order_clause :: "tokens \<Rightarrow> OrderBy option parse" where
  "parse_order_clause ts =
    (if at_keyword ''order'' ts then
       (case parseOrderBy ts of Inl e \<Rightarrow> Inl e | Inr (ob, ts1) \<Rightarrow> Inr (Some ob, ts1))
     else Inr (None, ts))"

definition parse_limit_clause :: "tokens \<Rightarrow> int option parse" where
  "parse_limit_clause ts =
    (if at_keyword ''limit'' ts then
       (case expect TokInt (''integer after '' @ quoted ''limit'') [] (advance ts) of
          Inl e \<Rightarrow> Inl e
        | Inr (nt, ts1) \<Rightarrow>
            (case atoi (tok_Value nt) of
               None \<Rightarrow> Inl (ParseError (tok_Pos nt) ''valid integer'' (GotText (tok_Value nt)))
             | Some n \<Rightarrow> Inr (Some n, ts1)))
     else Inr (None, ts))"

definition parseQuery :: "nat \<Rightarrow> tokens \<Rightarrow> Query parse" where
  "parseQuery fuel ts0 =
    (case expect TokIdent ''metric identifier'' [] ts0 of Inl e \<Rightarrow> Inl e | Inr (mt, ts1) \<Rightarrow>
    (case parse_group_clause ts1 of Inl e \<Rightarrow> Inl e | Inr (gb, ts2) \<Rightarrow>
    (case parse_where_clause fuel ts2 of Inl e \<Rightarrow> Inl e | Inr (flt, ts3) \<Rightarrow>
    (case parse_duration_clause ''over'' ts3 of Inl e \<Rightarrow> Inl e | Inr (ov, ts4) \<Rightarrow>
    (case parse_duration_clause ''step'' ts4 of Inl e \<Rightarrow> Inl e | Inr (st, ts5) \<Rightarrow>
    (case parse_order_clause ts5 of Inl e \<Rightarrow> Inl e | Inr (ob, ts6) \<Rightarrow>
    (case parse_limit_clause ts6 of Inl e \<Rightarrow> Inl e | Inr (lmt, ts7) \<Rightarrow>
       Inr (\<lparr>q_Metric = tok_Value mt, q_GroupBy = gb, q_Filter = flt, q_Over = ov, q_Step = st,
             q_OrderBy = ob, q_Limit = lmt, q_Pos = tok_Pos mt\<rparr>, ts7))))))))"

definition expr_fuel :: "tokens \<Rightarrow> nat" where
  "expr_fuel ts = 4 * length ts + 4"

definition Parse :: "string \<Rightarrow> (netql_error, Query) result" where
  "Parse input =
    (case Lex input of
       Inl e \<Rightarrow> Inl e
     | Inr toks \<Rightarrow>
         (case parseQuery (expr_fuel toks) toks of
            Inl e \<Rightarrow> Inl e
          | Inr (q, ts) \<Rightarrow>
              if tok_Kind (peek ts) \<noteq> TokEOF then Inl (unexpected ''end of input'' ts)
              else Inr q))"

section \<open>The fuel is enough\<close>

definition eof_ended :: "tokens \<Rightarrow> bool" where
  "eof_ended ts = (ts \<noteq> [] \<and> tok_Kind (last ts) = TokEOF)"

definition keeps :: "tokens \<Rightarrow> 'a parse \<Rightarrow> bool" where
  "keeps ts r = (case r of Inl e \<Rightarrow> e \<noteq> OutOfFuel
     | Inr (_, ts') \<Rightarrow> eof_ended ts' \<and> length ts' \<le> length ts)"

definition consumes :: "tokens \<Rightarrow> 'a parse \<Rightarrow> bool" where
  "consumes ts r = (case r of Inl e \<Rightarrow> e \<noteq> OutOfFuel
     | Inr (_, ts') \<Rightarrow> eof_ended ts' \<and> length ts' < length ts)"

named_theorems netql_fuel "what the productions leave of the token stream"

lemma consumes_Inl [simp]: "consumes ts (Inl e) \<longleftrightarrow> e \<noteq> OutOfFuel"
  by (simp add: consumes_def)

lemma consumes_Inr [simp]:
  "consumes ts (Inr (x, ts')) \<longleftrightarrow> eof_ended ts' \<and> length ts' < length ts"
  by (simp add: consumes_def)

lemma keeps_Inl [simp]: "keeps ts (Inl e) \<longleftrightarrow> e \<noteq> OutOfFuel"
  by (simp add: keeps_def)

lemma keeps_Inr [simp]:
  "keeps ts (Inr (x, ts')) \<longleftrightarrow> eof_ended ts' \<and> length ts' \<le> length ts"
  by (simp add: keeps_def)

lemma advance_eof:
  assumes "eof_ended ts" "tok_Kind (peek ts) \<noteq> TokEOF"
  shows "eof_ended (advance ts) \<and> length (advance ts) < length ts"
  using assms by (cases ts) (auto simp: eof_ended_def advance_def split: if_splits)

lemma accept_tok_consumes:
  "eof_ended ts \<Longrightarrow> k \<noteq> TokEOF \<Longrightarrow> accept_tok k vs ts = Some (t, ts') \<Longrightarrow>
   eof_ended ts' \<and> length ts' < length ts"
  using advance_eof [of ts] by (auto simp: accept_tok_Some)

lemma expect_consumes:
  "eof_ended ts \<Longrightarrow> k \<noteq> TokEOF \<Longrightarrow> consumes ts (expect k w vs ts)"
  using accept_tok_consumes [of ts k vs]
  by (auto simp: expect_def unexpected_def split: option.splits)

lemma consumes_bind:
  assumes "consumes ts r"
    and "\<And>x ts'. r = Inr (x, ts') \<Longrightarrow> eof_ended ts' \<Longrightarrow> length ts' < length ts \<Longrightarrow> keeps ts' (f x ts')"
  shows "consumes ts (case r of Inl e \<Rightarrow> Inl e | Inr (x, ts') \<Rightarrow> f x ts')"
proof (cases r)
  case (Inl e)
  then show ?thesis using assms(1) by simp
next
  case (Inr y)
  then obtain x ts' where r: "r = Inr (x, ts')" by (cases y) auto
  then have "keeps ts' (f x ts')" "length ts' < length ts" using assms by auto
  then show ?thesis using r by (auto simp: keeps_def consumes_def split: sum.splits)
qed

lemma keeps_bind:
  assumes "keeps ts r"
    and "\<And>x ts'. r = Inr (x, ts') \<Longrightarrow> eof_ended ts' \<Longrightarrow> length ts' \<le> length ts \<Longrightarrow> keeps ts' (f x ts')"
  shows "keeps ts (case r of Inl e \<Rightarrow> Inl e | Inr (x, ts') \<Rightarrow> f x ts')"
proof (cases r)
  case (Inl e)
  then show ?thesis using assms(1) by simp
next
  case (Inr y)
  then obtain x ts' where r: "r = Inr (x, ts')" by (cases y) auto
  then have "keeps ts' (f x ts')" "length ts' \<le> length ts" using assms by auto
  then show ?thesis using r by (auto simp: keeps_def split: sum.splits)
qed

lemma keeps_if: "(c \<Longrightarrow> keeps ts a) \<Longrightarrow> (\<not> c \<Longrightarrow> keeps ts b) \<Longrightarrow> keeps ts (if c then a else b)"
  by simp

lemma consumes_keeps: "consumes ts r \<Longrightarrow> keeps ts r"
  by (auto simp: consumes_def keeps_def split: sum.splits)

lemma keeps_mono: "keeps ts' r \<Longrightarrow> length ts' \<le> length ts \<Longrightarrow> keeps ts r"
  by (auto simp: keeps_def split: sum.splits)

lemma keeps_consumes: "keeps ts' r \<Longrightarrow> length ts' < length ts \<Longrightarrow> consumes ts r"
  by (auto simp: keeps_def consumes_def split: sum.splits)

lemma accept_case_keeps:
  assumes "eof_ended ts" "k \<noteq> TokEOF" "keeps ts g"
    and "\<And>t ts1. eof_ended ts1 \<Longrightarrow> length ts1 < length ts \<Longrightarrow> keeps ts1 (f t ts1)"
  shows "keeps ts (case accept_tok k vs ts of None \<Rightarrow> g | Some (t, ts1) \<Rightarrow> f t ts1)"
proof (cases "accept_tok k vs ts")
  case None
  then show ?thesis using assms by simp
next
  case (Some p)
  then obtain t ts1 where p: "accept_tok k vs ts = Some (t, ts1)" by (cases p) auto
  have c: "eof_ended ts1" "length ts1 < length ts"
    using accept_tok_consumes [OF assms(1,2) p] by auto
  have "keeps ts1 (f t ts1)" using c by (rule assms(4))
  then have "keeps ts (f t ts1)" using c by (meson keeps_mono less_imp_le)
  then show ?thesis using p by simp
qed

lemma ident_loop_keeps: "eof_ended ts \<Longrightarrow> keeps ts (ident_loop ts)"
proof (induction ts rule: length_induct)
  case (1 ts)
  have IH: "length us < length ts \<Longrightarrow> eof_ended us \<Longrightarrow> keeps us (ident_loop us)" for us
    using 1 by blast
  show ?case using "1.prems"
    by (subst ident_loop.simps)
      (intro accept_case_keeps keeps_bind [OF consumes_keeps [OF expect_consumes]] keeps_bind [OF IH];
       simp)
qed

lemma string_loop_keeps: "eof_ended ts \<Longrightarrow> keeps ts (string_loop ts)"
proof (induction ts rule: length_induct)
  case (1 ts)
  have IH: "length us < length ts \<Longrightarrow> eof_ended us \<Longrightarrow> keeps us (string_loop us)" for us
    using 1 by blast
  show ?case using "1.prems"
    by (subst string_loop.simps)
      (intro accept_case_keeps keeps_bind [OF consumes_keeps [OF expect_consumes]] keeps_bind [OF IH];
       simp)
qed

lemma token_number_not_fuel: "token_number t = Inl e \<Longrightarrow> e \<noteq> OutOfFuel"
  by (auto simp: token_number_def split: option.splits)

lemma number_advance:
  "eof_ended ts \<Longrightarrow> is_number_kind (tok_Kind (peek ts)) \<Longrightarrow>
   eof_ended (advance ts) \<and> length (advance ts) < length ts"
  by (auto simp: is_number_kind_def intro!: advance_eof)

lemma number_loop_keeps: "eof_ended ts \<Longrightarrow> keeps ts (number_loop ts)"
proof (induction ts rule: length_induct)
  case (1 ts)
  have IH: "length us < length ts \<Longrightarrow> eof_ended us \<Longrightarrow> keeps us (number_loop us)" for us
    using 1 by blast
  show ?case
  proof (cases "accept_tok TokComma [] ts")
    case None
    then show ?thesis using "1.prems" by (subst number_loop.simps) simp
  next
    case (Some p)
    obtain t ts1 where p: "accept_tok TokComma [] ts = Some (t, ts1)" using Some by (cases p) auto
    have c: "eof_ended ts1" "length ts1 < length ts"
      using accept_tok_consumes [OF "1.prems" _ p] by auto
    show ?thesis
    proof (cases "is_number_kind (tok_Kind (peek ts1))")
      case False
      then show ?thesis by (subst number_loop.simps) (simp add: p unexpected_def)
    next
      case True
      have a: "eof_ended (advance ts1)" "length (advance ts1) < length ts1"
        using number_advance [OF c(1) True] by auto
      then have "keeps (advance ts1) (number_loop (advance ts1))" using c by (intro IH) auto
      then show ?thesis using a c True
        by (subst number_loop.simps)
          (auto simp: p split: sum.splits dest: token_number_not_fuel)
    qed
  qed
qed

lemma parseGroupBy_consumes: "eof_ended ts \<Longrightarrow> consumes ts (parseGroupBy ts)"
  unfolding parseGroupBy_def
  by (auto intro!: consumes_bind [OF expect_consumes] keeps_bind [OF consumes_keeps [OF expect_consumes]]
      keeps_bind [OF ident_loop_keeps])

lemma parseOrderBy_consumes: "eof_ended ts \<Longrightarrow> consumes ts (parseOrderBy ts)"
  unfolding parseOrderBy_def
  by (intro consumes_bind [OF expect_consumes] keeps_bind [OF consumes_keeps [OF expect_consumes]]
      accept_case_keeps; simp)

lemma close_list_keeps: "eof_ended ts \<Longrightarrow> keeps ts (close_list (x, ts))"
  unfolding close_list_def
  by (auto intro!: keeps_bind [OF consumes_keeps [OF expect_consumes]])

lemma parseStringList_consumes: "eof_ended ts \<Longrightarrow> consumes ts (parseStringList ts)"
  unfolding parseStringList_def
  by (auto intro!: consumes_bind [OF expect_consumes] keeps_bind [OF string_loop_keeps]
      close_list_keeps)

lemma parseNumberList_consumes:
  assumes "eof_ended ts" "is_number_kind (tok_Kind (peek ts))"
  shows "consumes ts (parseNumberList ts)"
proof (cases "token_number (peek ts)")
  case (Inl e)
  then show ?thesis using token_number_not_fuel by (simp add: parseNumberList_def)
next
  case (Inr f)
  have a: "eof_ended (advance ts)" "length (advance ts) < length ts"
    using number_advance [OF assms] by auto
  have "keeps (advance ts) (parseNumberList ts)"
    unfolding parseNumberList_def using a Inr
    by (auto intro!: keeps_bind [OF number_loop_keeps] close_list_keeps)
  then show ?thesis using a(2) by (rule keeps_consumes)
qed

lemma parseOp_consumes: "eof_ended ts \<Longrightarrow> consumes ts (parseOp ts)"
  using advance_eof [of ts]
  by (auto simp: parseOp_def Let_def unexpected_def split: TokenKind.splits)

lemma parseValueList_consumes: "eof_ended ts \<Longrightarrow> consumes ts (parseValueList ts)"
  unfolding parseValueList_def
  by (auto simp: unexpected_def intro!: consumes_bind [OF expect_consumes]
      keeps_bind [OF consumes_keeps [OF parseStringList_consumes]]
      keeps_bind [OF consumes_keeps [OF parseNumberList_consumes]])

lemma parseValue_consumes: "eof_ended ts \<Longrightarrow> consumes ts (parseValue op ts)"
  using parseValueList_consumes [of ts] advance_eof [of ts] number_advance [of ts]
  by (auto simp: parseValue_def unexpected_def split: sum.splits dest: token_number_not_fuel)

lemma parsePredicate_consumes: "eof_ended ts \<Longrightarrow> consumes ts (parsePredicate ts)"
  unfolding parsePredicate_def
  by (auto intro!: consumes_bind [OF expect_consumes] keeps_bind [OF consumes_keeps [OF parseOp_consumes]]
      keeps_bind [OF consumes_keeps [OF parseValue_consumes]])

lemma accept_case_consumes:
  assumes "eof_ended ts" "k \<noteq> TokEOF" "consumes ts g"
    and "\<And>t ts1. eof_ended ts1 \<Longrightarrow> length ts1 < length ts \<Longrightarrow> keeps ts1 (f t ts1)"
  shows "consumes ts (case accept_tok k vs ts of None \<Rightarrow> g | Some (t, ts1) \<Rightarrow> f t ts1)"
proof (cases "accept_tok k vs ts")
  case None
  then show ?thesis using assms by simp
next
  case (Some p)
  then obtain t ts1 where p: "accept_tok k vs ts = Some (t, ts1)" by (cases p) auto
  have c: "eof_ended ts1" "length ts1 < length ts"
    using accept_tok_consumes [OF assms(1,2) p] by auto
  have "keeps ts1 (f t ts1)" using c by (rule assms(4))
  then have "consumes ts (f t ts1)" using c by (meson keeps_consumes)
  then show ?thesis using p by simp
qed

text \<open>With four units for every token and a few more for the production, no production runs out
  of fuel, and each consumes tokens.\<close>

definition fuel_ok :: "nat \<Rightarrow> bool" where
  "fuel_ok n = (\<forall>ts. eof_ended ts \<longrightarrow>
     (4 * length ts + 4 \<le> n \<longrightarrow> consumes ts (parseExpr n ts)) \<and>
     (4 * length ts + 1 \<le> n \<longrightarrow> keeps ts (or_loop n ts)) \<and>
     (4 * length ts + 3 \<le> n \<longrightarrow> consumes ts (parseAndExpr n ts)) \<and>
     (4 * length ts + 1 \<le> n \<longrightarrow> keeps ts (and_loop n ts)) \<and>
     (4 * length ts + 2 \<le> n \<longrightarrow> consumes ts (parseUnary n ts)) \<and>
     (4 * length ts + 1 \<le> n \<longrightarrow> consumes ts (parseTerm n ts)))"

lemma fuel_okD:
  assumes "fuel_ok n" "eof_ended ts"
  shows "4 * length ts + 4 \<le> n \<Longrightarrow> consumes ts (parseExpr n ts)"
    "4 * length ts + 1 \<le> n \<Longrightarrow> keeps ts (or_loop n ts)"
    "4 * length ts + 3 \<le> n \<Longrightarrow> consumes ts (parseAndExpr n ts)"
    "4 * length ts + 1 \<le> n \<Longrightarrow> keeps ts (and_loop n ts)"
    "4 * length ts + 2 \<le> n \<Longrightarrow> consumes ts (parseUnary n ts)"
    "4 * length ts + 1 \<le> n \<Longrightarrow> consumes ts (parseTerm n ts)"
  using assms unfolding fuel_ok_def by blast+

lemma fuel_ok_step:
  assumes n: "fuel_ok n"
  shows "fuel_ok (Suc n)"
  unfolding fuel_ok_def
proof (intro allI impI conjI)
  fix ts assume ts: "eof_ended ts"
  note D = fuel_okD [OF n]
  note expect = keeps_bind [OF consumes_keeps [OF expect_consumes]]
  show "consumes ts (parseExpr (Suc n) ts)" if "4 * length ts + 4 \<le> Suc n"
    unfolding parseExpr.simps using that ts
    by (intro consumes_bind [OF D(3)] keeps_if keeps_bind [OF D(2)]; simp)
  show "keeps ts (or_loop (Suc n) ts)" if "4 * length ts + 1 \<le> Suc n"
    unfolding or_loop.simps using that ts
    by (intro accept_case_keeps keeps_bind [OF consumes_keeps [OF D(3)]] keeps_bind [OF D(2)]; simp)
  show "consumes ts (parseAndExpr (Suc n) ts)" if "4 * length ts + 3 \<le> Suc n"
    unfolding parseAndExpr.simps using that ts
    by (intro consumes_bind [OF D(5)] keeps_if keeps_bind [OF D(4)]; simp)
  show "keeps ts (and_loop (Suc n) ts)" if "4 * length ts + 1 \<le> Suc n"
    unfolding and_loop.simps using that ts
    by (intro accept_case_keeps keeps_bind [OF consumes_keeps [OF D(5)]] keeps_bind [OF D(4)]; simp)
  show "consumes ts (parseUnary (Suc n) ts)" if "4 * length ts + 2 \<le> Suc n"
    unfolding parseUnary.simps using that ts
    by (intro accept_case_consumes keeps_bind [OF consumes_keeps [OF D(6)]] D(6); simp)
  show "consumes ts (parseTerm (Suc n) ts)" if "4 * length ts + 1 \<le> Suc n"
    unfolding parseTerm.simps using that ts
    by (intro accept_case_consumes consumes_bind [OF parsePredicate_consumes]
        keeps_bind [OF consumes_keeps [OF D(1)]] expect; simp)
qed

lemma fuel_ok: "fuel_ok n"
proof (induction n)
  case 0
  then show ?case by (simp add: fuel_ok_def)
next
  case (Suc n)
  then show ?case by (rule fuel_ok_step)
qed

lemma parseExpr_consumes: "eof_ended ts \<Longrightarrow> expr_fuel ts \<le> n \<Longrightarrow> consumes ts (parseExpr n ts)"
  using fuel_okD(1) [OF fuel_ok] by (simp add: expr_fuel_def)

lemma at_keyword_advance:
  "eof_ended ts \<Longrightarrow> at_keyword kw ts \<Longrightarrow> eof_ended (advance ts) \<and> length (advance ts) < length ts"
  by (auto simp: at_keyword_def intro!: advance_eof)

lemma keyword_case_keeps:
  assumes "eof_ended ts" "keeps ts b"
    and "eof_ended (advance ts) \<Longrightarrow> length (advance ts) < length ts \<Longrightarrow> keeps (advance ts) a"
  shows "keeps ts (if at_keyword kw ts then a else b)"
proof (cases "at_keyword kw ts")
  case True
  then have c: "eof_ended (advance ts)" "length (advance ts) < length ts"
    using at_keyword_advance [OF assms(1)] by auto
  then have "keeps (advance ts) a" by (rule assms(3))
  then show ?thesis using c True by (auto dest: keeps_mono [OF _ less_imp_le])
next
  case False
  then show ?thesis using assms by simp
qed

lemma parse_group_clause_keeps: "eof_ended ts \<Longrightarrow> keeps ts (parse_group_clause ts)"
  using consumes_keeps [OF parseGroupBy_consumes] by (simp add: parse_group_clause_def)

lemma parse_order_clause_keeps: "eof_ended ts \<Longrightarrow> keeps ts (parse_order_clause ts)"
  unfolding parse_order_clause_def
  by (intro keeps_if keeps_bind [OF consumes_keeps [OF parseOrderBy_consumes]]) simp_all

lemma parse_where_clause_keeps:
  assumes "eof_ended ts" "expr_fuel ts \<le> n" shows "keeps ts (parse_where_clause n ts)"
  unfolding parse_where_clause_def using assms
  by (intro keyword_case_keeps keeps_bind [OF consumes_keeps [OF parseExpr_consumes]])
    (simp_all add: expr_fuel_def)

lemma parseDurationToken_not_fuel: "parseDurationToken t = Inl e \<Longrightarrow> e \<noteq> OutOfFuel"
  by (auto simp: parseDurationToken_def Let_def split: if_splits option.splits)

lemma parse_duration_clause_keeps: "eof_ended ts \<Longrightarrow> keeps ts (parse_duration_clause kw ts)"
  unfolding parse_duration_clause_def
  by (intro keyword_case_keeps keeps_bind [OF consumes_keeps [OF expect_consumes]])
    (auto split: sum.splits dest: parseDurationToken_not_fuel)

lemma parse_limit_clause_keeps: "eof_ended ts \<Longrightarrow> keeps ts (parse_limit_clause ts)"
  unfolding parse_limit_clause_def
  by (intro keyword_case_keeps keeps_bind [OF consumes_keeps [OF expect_consumes]])
    (auto split: option.splits)

lemma parseQuery_consumes:
  assumes "eof_ended ts" "expr_fuel ts \<le> n" shows "consumes ts (parseQuery n ts)"
  unfolding parseQuery_def using assms
  by (intro consumes_bind [OF expect_consumes] keeps_bind [OF parse_group_clause_keeps]
      keeps_bind [OF parse_where_clause_keeps] keeps_bind [OF parse_duration_clause_keeps]
      keeps_bind [OF parse_order_clause_keeps] keeps_bind [OF parse_limit_clause_keeps])
    (simp_all add: expr_fuel_def)

lemma stream_ok_eof_ended: "stream_ok lo n ts \<Longrightarrow> eof_ended ts"
  by (induction lo n ts rule: stream_ok.induct) (auto simp: eof_ended_def)

lemma Lex_eof_ended: "Lex s = Inr ts \<Longrightarrow> eof_ended ts"
  unfolding Lex_def by (rule stream_ok_eof_ended [OF Lex_loop_stream])

lemma next_token_not_fuel: "next_token c = Inl e \<Longrightarrow> e \<noteq> OutOfFuel"
  unfolding next_token_def Let_def lexString_def lexNumberOrDuration_def lexIdentOrKeyword_def
  by (auto split: list.splits if_splits)

lemma Lex_not_fuel: "Lex s = Inl e \<Longrightarrow> e \<noteq> OutOfFuel"
proof -
  have "Lex_loop c = Inl e \<Longrightarrow> e \<noteq> OutOfFuel" for c
  proof (induction c rule: Lex_loop.induct)
    case (1 c)
    show ?case
    proof (cases "next_token c")
      case (Inl e')
      then show ?thesis using "1.prems" next_token_not_fuel by (subst (asm) Lex_loop.simps) auto
    next
      case (Inr r)
      obtain t c' where r: "next_token c = Inr (t, c')" using Inr by (cases r) auto
      then have "tok_Kind t \<noteq> TokEOF \<and> Lex_loop c' = Inl e"
        using "1.prems" by (subst (asm) Lex_loop.simps) (auto split: sum.splits if_splits)
      then show ?thesis using "1.IH" [OF r refl] by auto
    qed
  qed
  then show "Lex s = Inl e \<Longrightarrow> e \<noteq> OutOfFuel" by (simp add: Lex_def)
qed

section \<open>Properties\<close>

lemma Parse_fuel: "Parse s \<noteq> Inl OutOfFuel"
proof (cases "Lex s")
  case (Inl e)
  then show ?thesis using Lex_not_fuel by (simp add: Parse_def)
next
  case (Inr ts)
  then have "consumes ts (parseQuery (expr_fuel ts) ts)"
    by (intro parseQuery_consumes Lex_eof_ended) auto
  then show ?thesis using Inr
    by (auto simp: Parse_def unexpected_def split: sum.splits)
qed

text \<open>C34 (termination).  The fuel that the parser is given, four units for every token and four
  more, is enough for every input: the recursive descent over expressions always returns a tree or
  a lexical, syntactic or numeric error of the source.\<close>

theorem Parse_not_out_of_fuel: "Parse s \<noteq> Inl OutOfFuel"
  by (rule Parse_fuel)

end
