(* ===== verification/NetqlSyntax.thy ===== *)
theory NetqlSyntax
  imports NetqlParse
begin

text \<open>
  The surface syntax of netql as an abstract specification of the lexer and the parser: a printer
  that writes every syntax tree as a list of tokens and as text, with the brackets that the
  precedence of the operators requires.  The lemmas of the first part show that the parser reads
  the tokens of a tree back as the tree, up to the positions; those of the second part that the
  lexer reads the text of the tokens back.
\<close>

section \<open>The printer\<close>

type_synonym lexeme = "TokenKind \<times> string"

definition lexeme_of :: "Token \<Rightarrow> lexeme" where
  "lexeme_of t = (tok_Kind t, tok_Value t)"

primrec num_width :: "nat \<Rightarrow> rat \<Rightarrow> nat" where
  "num_width 0 r = 0"
| "num_width (Suc k) r = (if r = of_int (floor r) then 0 else Suc (num_width k (r * 10)))"

primrec fixed_digits :: "nat \<Rightarrow> int \<Rightarrow> string" where
  "fixed_digits 0 m = []"
| "fixed_digits (Suc w) m = fixed_digits w (m div 10) @ [chr (48 + m mod 10)]"

text \<open>A float64 is written with all the digits of its exact decimal expansion.\<close>

definition num_lexeme :: "f64 \<Rightarrow> lexeme" where
  "num_lexeme f =
    (case f of
       FFin r \<Rightarrow>
         let w = num_width 1074 r; n = floor (r * 10 ^ w)
         in if w = 0 then (TokInt, dec_digits n)
            else (TokNumber, dec_digits (n div 10 ^ w) @ CHR ''.'' # fixed_digits w (n mod 10 ^ w))
     | _ \<Rightarrow> (TokInt, []))"

fun comma_list :: "lexeme list \<Rightarrow> lexeme list" where
  "comma_list [] = []"
| "comma_list [x] = [x]"
| "comma_list (x # xs) = x # (TokComma, '','') # comma_list xs"

definition str_lexeme :: "string \<Rightarrow> lexeme" where "str_lexeme s = (TokString, s)"
definition kw :: "string \<Rightarrow> lexeme" where "kw s = (TokKeyword, s)"
definition ident :: "string \<Rightarrow> lexeme" where "ident s = (TokIdent, s)"

abbreviation lpar :: lexeme where "lpar \<equiv> (TokLParen, ''('')"
abbreviation rpar :: lexeme where "rpar \<equiv> (TokRParen, '')'')"

fun val_lexemes :: "Value \<Rightarrow> lexeme list" where
  "val_lexemes (ValString s) = [str_lexeme s]"
| "val_lexemes (ValNumber f) = [num_lexeme f]"
| "val_lexemes (ValStringList ss) = lpar # comma_list (map str_lexeme ss) @ [rpar]"
| "val_lexemes (ValNumberList ns) = lpar # comma_list (map num_lexeme ns) @ [rpar]"

fun op_lexeme :: "Op \<Rightarrow> lexeme" where
  "op_lexeme OpEq = (TokEq, ''='')"
| "op_lexeme OpNe = (TokNe, ''!='')"
| "op_lexeme OpLt = (TokLt, ''<'')"
| "op_lexeme OpLe = (TokLe, ''<='')"
| "op_lexeme OpGt = (TokGt, ''>'')"
| "op_lexeme OpGe = (TokGe, ''>='')"
| "op_lexeme OpIn = kw ''in''"
| "op_lexeme OpContains = kw ''contains''"
| "op_lexeme OpMatches = kw ''matches''"

definition pred_lexemes :: "Predicate \<Rightarrow> lexeme list" where
  "pred_lexemes p = ident (pr_Field p) # op_lexeme (pr_Op p) # val_lexemes (pr_Value p)"

fun sep_list :: "lexeme \<Rightarrow> lexeme list list \<Rightarrow> lexeme list" where
  "sep_list s [] = []"
| "sep_list s [u] = u"
| "sep_list s (u # us) = u @ s # sep_list s us"

definition brackets :: "bool \<Rightarrow> lexeme list \<Rightarrow> lexeme list" where
  "brackets b us = (if b then lpar # us @ [rpar] else us)"

text \<open>The tree at a level of the grammar: 0 for \<open>expr\<close>, 1 for \<open>and_expr\<close>, 2 for \<open>unary\<close> and
  3 for \<open>term\<close>.\<close>

fun expr_lexemes :: "nat \<Rightarrow> Expr \<Rightarrow> lexeme list" where
  "expr_lexemes l (EPred p _) = pred_lexemes p"
| "expr_lexemes l (ENot e _) = brackets (2 < l) (kw ''not'' # expr_lexemes 3 e)"
| "expr_lexemes l (EAnd es _) = brackets (1 < l) (sep_list (kw ''and'') (map (expr_lexemes 2) es))"
| "expr_lexemes l (EOr es _) = brackets (0 < l) (sep_list (kw ''or'') (map (expr_lexemes 1) es))"

definition duration_lexemes :: "string \<Rightarrow> Duration option \<Rightarrow> lexeme list" where
  "duration_lexemes k d =
    (case d of None \<Rightarrow> [] | Some x \<Rightarrow> [kw k, (TokDuration, itoa (dur_Count x) @ dur_Unit x)])"

definition query_lexemes :: "Query \<Rightarrow> lexeme list" where
  "query_lexemes q =
    ident (q_Metric q)
    # (if q_GroupBy q = [] then [] else kw ''by'' # comma_list (map ident (q_GroupBy q)))
    @ (case q_Filter q of None \<Rightarrow> [] | Some e \<Rightarrow> kw ''where'' # expr_lexemes 0 e)
    @ duration_lexemes ''over'' (q_Over q)
    @ duration_lexemes ''step'' (q_Step q)
    @ (case q_OrderBy q of None \<Rightarrow> []
       | Some ob \<Rightarrow> [kw ''order'', kw ''by'', ident (ob_Field ob),
           kw (case ob_Direction ob of DirAsc \<Rightarrow> ''asc'' | DirDesc \<Rightarrow> ''desc'')])
    @ (case q_Limit q of None \<Rightarrow> [] | Some n \<Rightarrow> [kw ''limit'', (TokInt, itoa n)])"

definition lexeme_text :: "lexeme \<Rightarrow> string" where
  "lexeme_text l = (if fst l = TokString then quoted (snd l) else snd l)"

definition render :: "lexeme list \<Rightarrow> string" where
  "render ls = concat (map (\<lambda>l. lexeme_text l @ '' '') ls)"

definition query_text :: "Query \<Rightarrow> string" where
  "query_text q = render (query_lexemes q)"

section \<open>Trees up to positions, and the trees that have a surface form\<close>

definition strip_pred :: "Predicate \<Rightarrow> Predicate" where
  "strip_pred p = p\<lparr>pr_Pos := 0\<rparr>"

fun strip_expr :: "Expr \<Rightarrow> Expr" where
  "strip_expr (EPred p _) = EPred (strip_pred p) 0"
| "strip_expr (EAnd es _) = EAnd (map strip_expr es) 0"
| "strip_expr (EOr es _) = EOr (map strip_expr es) 0"
| "strip_expr (ENot e _) = ENot (strip_expr e) 0"

definition strip_query :: "Query \<Rightarrow> Query" where
  "strip_query q = q\<lparr>q_Filter := map_option strip_expr (q_Filter q),
     q_Over := map_option (\<lambda>d. d\<lparr>dur_Pos := 0\<rparr>) (q_Over q),
     q_Step := map_option (\<lambda>d. d\<lparr>dur_Pos := 0\<rparr>) (q_Step q),
     q_OrderBy := map_option (\<lambda>o'. o'\<lparr>ob_Pos := 0\<rparr>) (q_OrderBy q), q_Pos := 0\<rparr>"

definition ident_byte :: "char \<Rightarrow> bool" where
  "ident_byte c = (c = CHR ''_'' \<or> 97 \<le> byte c \<and> byte c \<le> 122)"

definition ident_ok :: "string \<Rightarrow> bool" where
  "ident_ok s = (s \<noteq> [] \<and> ident_byte (hd s) \<and> list_all (\<lambda>c. ident_byte c \<or> isDigit c) s
     \<and> s \<notin> set keyword_set)"

definition string_ok :: "string \<Rightarrow> bool" where
  "string_ok s = (CHR 0x27 \<notin> set s)"

fun number_ok :: "f64 \<Rightarrow> bool" where
  "number_ok (FFin r) = (0 \<le> r \<and> rnd r = r \<and> r < f64_overflow)"
| "number_ok _ = False"

fun value_ok :: "Op \<Rightarrow> Value \<Rightarrow> bool" where
  "value_ok op (ValString s) = (op \<noteq> OpIn \<and> string_ok s)"
| "value_ok op (ValNumber f) = (op \<noteq> OpIn \<and> number_ok f)"
| "value_ok op (ValStringList ss) = (op = OpIn \<and> ss \<noteq> [] \<and> list_all string_ok ss)"
| "value_ok op (ValNumberList ns) = (op = OpIn \<and> ns \<noteq> [] \<and> list_all number_ok ns)"

definition pred_ok :: "Predicate \<Rightarrow> bool" where
  "pred_ok p = (ident_ok (pr_Field p) \<and> value_ok (pr_Op p) (pr_Value p))"

fun expr_ok :: "Expr \<Rightarrow> bool" where
  "expr_ok (EPred p _) = pred_ok p"
| "expr_ok (EAnd es _) = (2 \<le> length es \<and> list_all expr_ok es)"
| "expr_ok (EOr es _) = (2 \<le> length es \<and> list_all expr_ok es)"
| "expr_ok (ENot e _) = expr_ok e"

definition duration_ok :: "Duration \<Rightarrow> bool" where
  "duration_ok d = (0 < dur_Count d \<and> in_int64 (dur_Count d)
     \<and> dur_Unit d \<in> set [''s'', ''m'', ''h'', ''d'', ''w''])"

definition query_ok :: "Query \<Rightarrow> bool" where
  "query_ok q = (ident_ok (q_Metric q) \<and> list_all ident_ok (q_GroupBy q)
     \<and> (case q_Filter q of None \<Rightarrow> True | Some e \<Rightarrow> expr_ok e)
     \<and> (case q_Over q of None \<Rightarrow> True | Some d \<Rightarrow> duration_ok d)
     \<and> (case q_Step q of None \<Rightarrow> True | Some d \<Rightarrow> duration_ok d)
     \<and> (case q_OrderBy q of None \<Rightarrow> True | Some ob \<Rightarrow> ident_ok (ob_Field ob))
     \<and> (case q_Limit q of None \<Rightarrow> True | Some n \<Rightarrow> 0 \<le> n \<and> in_int64 n))"

section \<open>The numerals\<close>

lemma digits_val_append: "digits_val (s @ t) = digits_val s * 10 ^ length t + digits_val t"
proof (induction t rule: rev_induct)
  case (snoc c t)
  then show ?case
    by (simp only: append_assoc [symmetric] digits_val_snoc) (simp add: algebra_simps)
qed simp

lemma length_fixed_digits [simp]: "length (fixed_digits w m) = w"
  by (induction w arbitrary: m) auto

lemma fixed_digits_digits: "list_all is_digit_byte (fixed_digits w m)"
  by (induction w arbitrary: m) (auto intro: is_digit_chr)

lemma digits_val_fixed: "digits_val (fixed_digits w m) = m mod 10 ^ w"
proof (induction w arbitrary: m)
  case (Suc w)
  have "48 + m mod 10 < 256" "0 \<le> 48 + m mod 10"
    using pos_mod_bound [of 10 m] pos_mod_sign [of 10 m] by linarith+
  then show ?case by (simp add: Suc zmod_zmult2_eq)
qed simp

lemma num_width_int: "r * 10 ^ k \<in> \<int> \<Longrightarrow> r * 10 ^ num_width k r \<in> \<int>"
proof (induction k arbitrary: r)
  case (Suc k)
  have "r * 10 ^ num_width (Suc k) r \<in> \<int>" if "r \<noteq> of_int (floor r)"
    using Suc.IH [of "r * 10"] Suc.prems that by (simp add: mult.assoc)
  moreover have "r * 10 ^ num_width (Suc k) r \<in> \<int>" if "r = of_int (floor r)"
    using that by (metis Ints_of_int mult.right_neutral num_width.simps(2) power_0)
  ultimately show ?case by blast
qed simp

lemma representable_decimal:
  assumes "rnd r = r" shows "r * 10 ^ 1074 \<in> \<int>"
proof (cases "r = 0")
  case False
  define n u where "n = rne (r / pow2 (ulp_exp r))" and "u = ulp_exp r"
  have r: "r = of_int n * pow2 u" using assms False by (simp add: rnd_def n_def u_def)
  have u: "- 1074 \<le> u" by (simp add: u_def ulp_exp_def)
  define K :: nat where "K = 1074"
  have uK: "0 \<le> u + int K" using u by (simp add: K_def)
  have "(10::rat) ^ K = pow2 (int K) * 5 ^ K"
    by (simp add: pow2_powi flip: power_mult_distrib)
  then have "r * 10 ^ K = of_int n * pow2 (u + int K) * 5 ^ K"
    by (simp only: r pow2_add mult.assoc)
  also have "\<dots> = of_int (n * 2 ^ nat (u + int K) * 5 ^ K)"
    using uK by (simp add: pow2_nonneg_int)
  finally have "r * 10 ^ K \<in> \<int>" by (metis Ints_of_int)
  then show ?thesis unfolding K_def .
qed (simp only: mult_zero_left Ints_0)


lemma number_ok_cases:
  assumes "number_ok f"
  obtains r where "f = FFin r" "0 \<le> r" "rnd r = r" "r < f64_overflow"
  using assms by (cases f) auto

lemma fl_representable: "rnd r = r \<Longrightarrow> 0 \<le> r \<Longrightarrow> r < f64_overflow \<Longrightarrow> fl r = FFin r"
  by (simp add: fl_def)

lemma takeWhile_digits_dot:
  "list_all is_digit_byte s \<Longrightarrow> takeWhile is_digit_byte (s @ CHR ''.'' # t) = s"
  by (rule takeWhile_digits_append) (simp_all add: is_digit_byte_def)

lemma dropWhile_digits_dot:
  "list_all is_digit_byte s \<Longrightarrow> dropWhile is_digit_byte (s @ CHR ''.'' # t) = CHR ''.'' # t"
  by (induction s) (auto simp: is_digit_byte_def)

lemma takeWhile_all: "list_all P s \<Longrightarrow> takeWhile P s = s"
  by (induction s) auto

lemma dropWhile_all: "list_all P s \<Longrightarrow> dropWhile P s = []"
  by (induction s) auto

lemma parse_float_decimal:
  assumes "list_all is_digit_byte s" "list_all is_digit_byte t" "s \<noteq> []"
  shows "parse_float (s @ CHR ''.'' # t) =
    (case fl (of_int (digits_val (s @ t)) * pow10 (- int (length t))) of
       FFin r \<Rightarrow> Some (FFin r) | _ \<Rightarrow> None)"
  using assms
  by (simp add: parse_float_def Let_def takeWhile_digits_dot dropWhile_digits_dot)

lemma parse_float_integer:
  assumes "list_all is_digit_byte s" "s \<noteq> []"
  shows "parse_float s = (case fl (of_int (digits_val s)) of FFin r \<Rightarrow> Some (FFin r) | _ \<Rightarrow> None)"
  using assms by (simp add: parse_float_def Let_def takeWhile_all dropWhile_all pow10_def)

lemma pow10_neg: "pow10 (- int w) = 1 / 10 ^ w"
  by (cases "w = 0") (simp_all add: pow10_def inverse_eq_divide)

lemma parse_num_lexeme:
  assumes "number_ok f"
  shows "parse_float (snd (num_lexeme f)) = Some f"
proof -
  obtain r where f: "f = FFin r" and r: "0 \<le> r" "rnd r = r" "r < f64_overflow"
    using assms by (rule number_ok_cases)
  define w n where "w = num_width 1074 r" and "n = floor (r * 10 ^ w)"
  have "r * 10 ^ w \<in> \<int>" unfolding w_def by (intro num_width_int representable_decimal r)
  then have n: "of_int n = r * 10 ^ w" by (auto simp: n_def elim: Ints_cases)
  have n0: "0 \<le> n" using r(1) by (simp add: n_def)
  have flr: "fl r = FFin r" using r by (intro fl_representable)
  show ?thesis
  proof (cases "w = 0")
    case True
    then have "num_lexeme f = (TokInt, dec_digits n)"
      by (simp add: num_lexeme_def f w_def n_def)
    moreover have "of_int n = r" using n True by simp
    ultimately show ?thesis
      using n0 flr by (simp add: parse_float_integer dec_digits_digits digits_val_dec_digits f)
  next
    case False
    then have l: "num_lexeme f = (TokNumber, dec_digits (n div 10 ^ w) @ CHR ''.'' # fixed_digits w (n mod 10 ^ w))"
      by (simp add: num_lexeme_def f w_def n_def Let_def)
    have d0: "0 \<le> n div 10 ^ w" using n0 by (simp add: pos_imp_zdiv_nonneg_iff)
    have "digits_val (dec_digits (n div 10 ^ w) @ fixed_digits w (n mod 10 ^ w)) = n"
      using d0 div_mult_mod_eq [of n "10 ^ w"]
      by (simp only: digits_val_append digits_val_dec_digits digits_val_fixed length_fixed_digits
          mod_mod_trivial)
    moreover have "of_int n * pow10 (- int w) = r" using n by (simp add: pow10_neg)
    ultimately show ?thesis
      unfolding l using d0 flr
      by (simp add: parse_float_decimal dec_digits_digits fixed_digits_digits f)
  qed
qed

lemma num_lexeme_kind: "is_number_kind (fst (num_lexeme f))"
  by (cases f) (auto simp: num_lexeme_def is_number_kind_def Let_def)

section \<open>Reading back the tokens of a list, a value and a predicate\<close>

text \<open>A production reads a list of lexemes as a value if, from every token stream that starts with
  tokens of these lexemes and goes on, it gives the value and the rest.\<close>

definition toks :: "lexeme list \<Rightarrow> tokens \<Rightarrow> bool" where
  "toks ls ts = (map lexeme_of ts = ls)"

lemma toks_Nil [simp]: "toks [] ts \<longleftrightarrow> ts = []"
  by (auto simp: toks_def)

lemma toks_Cons: "toks (l # ls) ts \<longleftrightarrow> (\<exists>t us. ts = t # us \<and> lexeme_of t = l \<and> toks ls us)"
  by (auto simp: toks_def map_eq_Cons_conv)

lemma toks_append: "toks (ls @ ms) ts \<longleftrightarrow> (\<exists>us vs. ts = us @ vs \<and> toks ls us \<and> toks ms vs)"
  by (auto simp: toks_def map_eq_append_conv)

lemma toks_length: "toks ls ts \<Longrightarrow> length ts = length ls"
  by (auto simp: toks_def)

lemma lexeme_of_iff: "lexeme_of t = (k, v) \<longleftrightarrow> tok_Kind t = k \<and> tok_Value t = v"
  by (auto simp: lexeme_of_def)

lemmas lexeme_defs = lexeme_of_iff str_lexeme_def kw_def ident_def

lemma accept_lexeme:
  "lexeme_of t = (k, v) \<Longrightarrow> vs = [] \<or> v \<in> set vs \<Longrightarrow> ts \<noteq> [] \<Longrightarrow>
   accept_tok k vs (t # ts) = Some (t, ts)"
  by (auto simp: accept_tok_def lexeme_of_def)

lemma expect_lexeme:
  "lexeme_of t = (k, v) \<Longrightarrow> vs = [] \<or> v \<in> set vs \<Longrightarrow> ts \<noteq> [] \<Longrightarrow>
   expect k w vs (t # ts) = Inr (t, ts)"
  by (simp add: expect_def accept_lexeme)

definition no_comma :: "tokens \<Rightarrow> bool" where
  "no_comma ts = (ts \<noteq> [] \<and> tok_Kind (peek ts) \<noteq> TokComma)"

lemma accept_no_comma: "no_comma ts \<Longrightarrow> accept_tok TokComma vs ts = None"
  by (simp add: accept_tok_def no_comma_def)

text \<open>The tail of a list: a comma before every element.\<close>

definition comma_tail :: "lexeme list \<Rightarrow> lexeme list" where
  "comma_tail ls = concat (map (\<lambda>l. [(TokComma, '',''), l]) ls)"

lemma comma_tail_simps [simp]:
  "comma_tail [] = []" "comma_tail (l # ls) = (TokComma, '','') # l # comma_tail ls"
  by (simp_all add: comma_tail_def)

lemma comma_list_Cons: "comma_list (l # ls) = l # comma_tail ls"
  by (induction ls arbitrary: l) auto

lemma ident_loop_reads:
  "toks (comma_tail (map ident xs)) ts \<Longrightarrow> no_comma rest \<Longrightarrow> ident_loop (ts @ rest) = Inr (xs, rest)"
proof (induction xs arbitrary: ts)
  case Nil
  then show ?case by (subst ident_loop.simps) (simp add: accept_no_comma)
next
  case (Cons x xs)
  then obtain c t us where ts: "ts = c # t # us" "lexeme_of c = (TokComma, '','')"
    "lexeme_of t = ident x" "toks (comma_tail (map ident xs)) us"
    by (auto simp: toks_Cons)
  have "us @ rest \<noteq> []" using Cons.prems by (auto simp: no_comma_def)
  then show ?case
    using ts Cons.IH [OF ts(4) Cons.prems(2)]
    by (subst ident_loop.simps) (simp add: accept_lexeme expect_lexeme lexeme_defs)
qed

lemma string_loop_reads:
  "toks (comma_tail (map str_lexeme xs)) ts \<Longrightarrow> no_comma rest \<Longrightarrow>
   string_loop (ts @ rest) = Inr (xs, rest)"
proof (induction xs arbitrary: ts)
  case Nil
  then show ?case by (subst string_loop.simps) (simp add: accept_no_comma)
next
  case (Cons x xs)
  then obtain c t us where ts: "ts = c # t # us" "lexeme_of c = (TokComma, '','')"
    "lexeme_of t = str_lexeme x" "toks (comma_tail (map str_lexeme xs)) us"
    by (auto simp: toks_Cons)
  have "us @ rest \<noteq> []" using Cons.prems by (auto simp: no_comma_def)
  then show ?case
    using ts Cons.IH [OF ts(4) Cons.prems(2)]
    by (subst string_loop.simps) (simp add: accept_lexeme expect_lexeme lexeme_defs)
qed

lemma token_number_reads:
  "lexeme_of t = num_lexeme f \<Longrightarrow> number_ok f \<Longrightarrow>
   is_number_kind (tok_Kind t) \<and> token_number t = Inr f"
  using parse_num_lexeme [of f] num_lexeme_kind [of f]
  by (auto simp: token_number_def lexeme_of_def dest: arg_cong [where f = snd] arg_cong [where f = fst])

lemma number_loop_reads:
  "toks (comma_tail (map num_lexeme xs)) ts \<Longrightarrow> list_all number_ok xs \<Longrightarrow> no_comma rest \<Longrightarrow>
   number_loop (ts @ rest) = Inr (xs, rest)"
proof (induction xs arbitrary: ts)
  case Nil
  then show ?case by (subst number_loop.simps) (simp add: accept_no_comma)
next
  case (Cons x xs)
  then obtain c t us where ts: "ts = c # t # us" "lexeme_of c = (TokComma, '','')"
    "lexeme_of t = num_lexeme x" "toks (comma_tail (map num_lexeme xs)) us"
    by (auto simp: toks_Cons)
  have "us @ rest \<noteq> []" using Cons.prems by (auto simp: no_comma_def)
  moreover have "number_loop (us @ rest) = Inr (xs, rest)" using Cons ts(4) by simp
  ultimately show ?case
    using ts Cons.prems token_number_reads [OF ts(3)]
    by (subst number_loop.simps) (simp add: accept_lexeme)
qed

lemma close_list_reads:
  "lexeme_of t = rpar \<Longrightarrow> rest \<noteq> [] \<Longrightarrow> close_list (x, t # rest) = Inr (x, rest)"
  by (simp add: close_list_def expect_lexeme)

lemma parseStringList_reads:
  assumes "toks (comma_list (map str_lexeme ss) @ [rpar]) ts" "ss \<noteq> []" "rest \<noteq> []"
  shows "parseStringList (ts @ rest) = Inr (ss, rest)"
proof -
  obtain s ss' where ss: "ss = s # ss'" using assms(2) by (cases ss) auto
  obtain t us r where ts: "ts = t # us @ [r]" "lexeme_of t = str_lexeme s"
    "toks (comma_tail (map str_lexeme ss')) us" "lexeme_of r = rpar"
    using assms(1) by (auto simp: ss comma_list_Cons toks_Cons toks_append)
  have "no_comma (r # rest)" using ts(4) by (auto simp: no_comma_def lexeme_of_iff)
  from string_loop_reads [OF ts(3) this] show ?thesis
    using ts assms(3)
    by (simp add: parseStringList_def expect_lexeme lexeme_defs close_list_reads ss)
qed

lemma parseNumberList_reads:
  assumes "toks (comma_list (map num_lexeme ns) @ [rpar]) ts" "ns \<noteq> []" "list_all number_ok ns" "rest \<noteq> []"
  shows "parseNumberList (ts @ rest) = Inr (ns, rest)"
proof -
  obtain n ns' where ns: "ns = n # ns'" using assms(2) by (cases ns) auto
  obtain t us r where ts: "ts = t # us @ [r]" "lexeme_of t = num_lexeme n"
    "toks (comma_tail (map num_lexeme ns')) us" "lexeme_of r = rpar"
    using assms(1) by (auto simp: ns comma_list_Cons toks_Cons toks_append)
  have "no_comma (r # rest)" using ts(4) by (auto simp: no_comma_def lexeme_of_iff)
  moreover have "list_all number_ok ns'" using assms(3) ns by simp
  ultimately have "number_loop (us @ r # rest) = Inr (ns', r # rest)"
    using number_loop_reads [OF ts(3)] by simp
  then show ?thesis
    using ts assms(3,4) token_number_reads [OF ts(2)]
    by (simp add: parseNumberList_def close_list_reads ns)
qed

lemma parseValue_reads:
  assumes "toks (val_lexemes v) ts" "value_ok op v" "rest \<noteq> []"
  shows "parseValue op (ts @ rest) = Inr (v, rest)"
proof (cases v)
  case (ValString s)
  then show ?thesis using assms by (auto simp: parseValue_def toks_Cons lexeme_defs)
next
  case (ValNumber f)
  then obtain t where t: "ts = [t]" "lexeme_of t = num_lexeme f" using assms by (auto simp: toks_Cons)
  then show ?thesis using assms token_number_reads [OF t(2)] ValNumber
    by (auto simp: parseValue_def is_number_kind_def)
next
  case (ValStringList ss)
  then obtain t us where ts: "ts = t # us" "lexeme_of t = lpar"
    "toks (comma_list (map str_lexeme ss) @ [rpar]) us" using assms(1) by (auto simp: toks_Cons)
  have ss: "op = OpIn" "ss \<noteq> []" using assms ValStringList by auto
  then obtain s ss' u us' where "us = u # us'" "tok_Kind u = TokString"
    using ts(3) by (cases ss) (auto simp: comma_list_Cons toks_Cons lexeme_defs)
  then show ?thesis
    using ts ss assms(3) parseStringList_reads [OF ts(3) ss(2) assms(3)] ValStringList
    by (simp add: parseValue_def parseValueList_def expect_lexeme)
next
  case (ValNumberList ns)
  then obtain t us where ts: "ts = t # us" "lexeme_of t = lpar"
    "toks (comma_list (map num_lexeme ns) @ [rpar]) us" using assms(1) by (auto simp: toks_Cons)
  have ns: "op = OpIn" "ns \<noteq> []" "list_all number_ok ns" using assms ValNumberList by auto
  then obtain n ns' u us' where u: "us = u # us'" "ns = n # ns'" "lexeme_of u = num_lexeme n"
    using ts(3) by (cases ns) (auto simp: comma_list_Cons toks_Cons)
  then have "is_number_kind (tok_Kind u)" using token_number_reads ns(3) by auto
  then show ?thesis
    using ts ns u assms(3) parseNumberList_reads [OF ts(3) ns(2,3) assms(3)] ValNumberList
    by (auto simp: parseValue_def parseValueList_def expect_lexeme is_number_kind_def)
qed

lemma parseOp_reads:
  "lexeme_of t = op_lexeme op \<Longrightarrow> rest \<noteq> [] \<Longrightarrow> parseOp (t # rest) = Inr (op, rest)"
  by (cases op) (simp_all add: parseOp_def lexeme_defs)

lemma val_lexemes_not_Nil [simp]: "val_lexemes v \<noteq> []"
  by (cases v) auto

lemma parsePredicate_reads:
  assumes "toks (pred_lexemes p) ts" "pred_ok p" "rest \<noteq> []"
  shows "\<exists>p'. parsePredicate (ts @ rest) = Inr (p', rest) \<and> strip_pred p' = strip_pred p"
proof -
  obtain i o' us where ts: "ts = i # o' # us" "lexeme_of i = ident (pr_Field p)"
    "lexeme_of o' = op_lexeme (pr_Op p)" "toks (val_lexemes (pr_Value p)) us"
    using assms(1) by (auto simp: pred_lexemes_def toks_Cons)
  have "parseValue (pr_Op p) (us @ rest) = Inr (pr_Value p, rest)"
    using assms ts(4) by (intro parseValue_reads) (auto simp: pred_ok_def)
  moreover have "parseOp (o' # us @ rest) = Inr (pr_Op p, us @ rest)"
    using assms(3) ts(3) by (simp add: parseOp_reads)
  ultimately show ?thesis
    using ts by (simp add: parsePredicate_def expect_lexeme lexeme_defs strip_pred_def)
qed

section \<open>Reading back the tokens of an expression\<close>

fun parse_level :: "nat \<Rightarrow> nat \<Rightarrow> tokens \<Rightarrow> Expr parse" where
  "parse_level 0 = parseExpr"
| "parse_level (Suc 0) = parseAndExpr"
| "parse_level (Suc (Suc 0)) = parseUnary"
| "parse_level (Suc (Suc (Suc _))) = parseTerm"

lemma parse_level_numeral [simp]:
  "parse_level 1 = parseAndExpr" "parse_level 2 = parseUnary" "parse_level 3 = parseTerm"
  by (simp_all add: numeral_2_eq_2 numeral_3_eq_3)

definition follow :: "nat \<Rightarrow> tokens \<Rightarrow> bool" where
  "follow l ts = (ts \<noteq> [] \<and> (l < 1 \<longrightarrow> \<not> at_keyword ''or'' ts) \<and> (l < 2 \<longrightarrow> \<not> at_keyword ''and'' ts))"

definition reads :: "nat \<Rightarrow> lexeme list \<Rightarrow> Expr \<Rightarrow> bool" where
  "reads l ls e = (\<forall>n ts rest. toks ls ts \<longrightarrow> follow l rest \<longrightarrow> 4 * length (ts @ rest) + 4 \<le> n + l \<longrightarrow>
     (\<exists>e'. parse_level l n (ts @ rest) = Inr (e', rest) \<and> strip_expr e' = strip_expr e))"

lemma readsD:
  assumes "reads l ls e" "toks ls ts" "follow l rest" "4 * length (ts @ rest) + 4 \<le> n + l"
  obtains e' where "parse_level l n (ts @ rest) = Inr (e', rest)" "strip_expr e' = strip_expr e"
  using assms unfolding reads_def by blast

lemma readsI:
  assumes "\<And>n ts rest. toks ls ts \<Longrightarrow> follow l rest \<Longrightarrow> 4 * length (ts @ rest) + 4 \<le> Suc n + l \<Longrightarrow>
    \<exists>e'. parse_level l (Suc n) (ts @ rest) = Inr (e', rest) \<and> strip_expr e' = strip_expr e"
    and "l \<le> 3"
  shows "reads l ls e"
  unfolding reads_def
proof (intro allI impI)
  fix n ts rest
  assume *: "toks ls ts" "follow l rest" "4 * length (ts @ rest) + 4 \<le> n + l"
  then obtain m where "n = Suc m" using assms(2) by (cases n) auto
  then show "\<exists>e'. parse_level l n (ts @ rest) = Inr (e', rest) \<and> strip_expr e' = strip_expr e"
    using assms(1) * by blast
qed

lemma accept_follow:
  "follow 1 ts \<Longrightarrow> accept_tok TokKeyword [''and''] ts = None"
  "follow 0 ts \<Longrightarrow> accept_tok TokKeyword [''or''] ts = None"
  by (auto simp: follow_def accept_tok_def at_keyword_def Let_def)

lemma follow_up: "follow l rest \<Longrightarrow> l \<le> l' \<Longrightarrow> follow l' rest"
  by (auto simp: follow_def)

lemma reads_pred: "pred_ok p \<Longrightarrow> reads 3 (pred_lexemes p) (EPred p k)"
proof (rule readsI)
  fix n ts rest assume *: "toks (pred_lexemes p) ts" "follow 3 rest" "pred_ok p"
  then obtain p' where p': "parsePredicate (ts @ rest) = Inr (p', rest)" "strip_pred p' = strip_pred p"
    using parsePredicate_reads [OF *(1) *(3)] *(2) by (auto simp: follow_def)
  have "accept_tok TokLParen [] (ts @ rest) = None"
    using *(1) by (auto simp: pred_lexemes_def toks_Cons accept_tok_def lexeme_defs)
  then show "\<exists>e'. parse_level 3 (Suc n) (ts @ rest) = Inr (e', rest)
      \<and> strip_expr e' = strip_expr (EPred p k)"
    using p' by simp
qed simp

definition starts_plain :: "lexeme list \<Rightarrow> bool" where
  "starts_plain ls = (ls \<noteq> [] \<and> hd ls \<noteq> kw ''not'')"

lemma reads_unary:
  assumes "reads 3 ls e" "starts_plain ls" shows "reads 2 ls e"
proof (rule readsI)
  fix n ts rest
  assume *: "toks ls ts" "follow 2 rest" "4 * length (ts @ rest) + 4 \<le> Suc n + 2"
  have "accept_tok TokKeyword [''not''] (ts @ rest) = None"
    using *(1) assms(2)
    by (cases ls; cases ts) (auto simp: starts_plain_def toks_Cons accept_tok_def lexeme_defs lexeme_of_def)
  moreover obtain e' where "parseTerm n (ts @ rest) = Inr (e', rest)" "strip_expr e' = strip_expr e"
    using readsD [OF assms(1) *(1), of rest n] follow_up [OF *(2)] *(3) by auto
  ultimately show "\<exists>e'. parse_level 2 (Suc n) (ts @ rest) = Inr (e', rest) \<and> strip_expr e' = strip_expr e"
    by simp
qed simp

lemma reads_not: assumes "reads 3 ls e" shows "reads 2 (kw ''not'' # ls) (ENot e k)"
proof (rule readsI)
  fix n ts rest
  assume *: "toks (kw ''not'' # ls) ts" "follow 2 rest" "4 * length (ts @ rest) + 4 \<le> Suc n + 2"
  then obtain t us where ts: "ts = t # us" "lexeme_of t = kw ''not''" "toks ls us"
    by (auto simp: toks_Cons)
  obtain e' where "parseTerm n (us @ rest) = Inr (e', rest)" "strip_expr e' = strip_expr e"
    using readsD [OF assms ts(3), of rest n] follow_up [OF *(2)] *(3) ts(1) by auto
  then show "\<exists>e'. parse_level 2 (Suc n) (ts @ rest) = Inr (e', rest)
      \<and> strip_expr e' = strip_expr (ENot e k)"
    using ts *(2) by (simp add: accept_lexeme kw_def follow_def)
qed simp

lemma reads_and_up: assumes "reads 2 ls e" shows "reads 1 ls e"
proof (rule readsI)
  fix n ts rest
  assume *: "toks ls ts" "follow 1 rest" "4 * length (ts @ rest) + 4 \<le> Suc n + 1"
  then obtain e' where "parseUnary n (ts @ rest) = Inr (e', rest)" "strip_expr e' = strip_expr e"
    using readsD [OF assms *(1), of rest n] follow_up [OF *(2)] *(3) by auto
  then show "\<exists>e'. parse_level 1 (Suc n) (ts @ rest) = Inr (e', rest) \<and> strip_expr e' = strip_expr e"
    using *(2) by (simp add: follow_def)
qed simp

lemma reads_or_up: assumes "reads 1 ls e" shows "reads 0 ls e"
proof (rule readsI)
  fix n ts rest
  assume *: "toks ls ts" "follow 0 rest" "4 * length (ts @ rest) + 4 \<le> Suc n + 0"
  then obtain e' where "parseAndExpr n (ts @ rest) = Inr (e', rest)" "strip_expr e' = strip_expr e"
    using readsD [OF assms *(1), of rest n] follow_up [OF *(2)] *(3) by auto
  then show "\<exists>e'. parse_level 0 (Suc n) (ts @ rest) = Inr (e', rest) \<and> strip_expr e' = strip_expr e"
    using *(2) by (simp add: follow_def)
qed simp

lemma reads_brackets: assumes "reads 0 ls e" shows "reads 3 (lpar # ls @ [rpar]) e"
proof (rule readsI)
  fix n ts rest
  assume *: "toks (lpar # ls @ [rpar]) ts" "follow 3 rest" "4 * length (ts @ rest) + 4 \<le> Suc n + 3"
  then obtain t us r where ts: "ts = t # us @ [r]" "lexeme_of t = lpar" "toks ls us" "lexeme_of r = rpar"
    by (auto simp: toks_Cons toks_append)
  have "follow 0 (r # rest)" using ts(4) by (simp add: follow_def at_keyword_def lexeme_of_iff)
  then obtain e' where "parseExpr n (us @ r # rest) = Inr (e', r # rest)" "strip_expr e' = strip_expr e"
    using readsD [OF assms ts(3), of "r # rest" n] *(3) ts(1) by auto
  then show "\<exists>e'. parse_level 3 (Suc n) (ts @ rest) = Inr (e', rest) \<and> strip_expr e' = strip_expr e"
    using ts *(2) by (simp add: accept_lexeme expect_lexeme follow_def)
qed simp

text \<open>The loops over \<open>and\<close> and \<open>or\<close>: an operator and an operand per round.\<close>

definition op_tail :: "lexeme \<Rightarrow> lexeme list list \<Rightarrow> lexeme list" where
  "op_tail s us = concat (map (\<lambda>u. s # u) us)"

lemma op_tail_simps [simp]: "op_tail s [] = []" "op_tail s (u # us) = s # u @ op_tail s us"
  by (simp_all add: op_tail_def)

lemma sep_list_Cons: "sep_list s (u # us) = u @ op_tail s us"
  by (induction us arbitrary: u) auto

lemma op_tail_follow:
  assumes "toks (op_tail (kw k) us) ts" "follow l rest" "k \<in> {''and'', ''or''}"
    "l = (if k = ''and'' then 1 else 0)"
  shows "follow (Suc l) (ts @ rest)"
proof (cases us)
  case Nil
  then show ?thesis using assms by (auto intro: follow_up)
next
  case (Cons u us')
  then show ?thesis using assms by (auto simp: toks_Cons follow_def at_keyword_def lexeme_defs)
qed

lemma and_loop_reads:
  assumes "list_all2 (reads 2) uss es" "toks (op_tail (kw ''and'') uss) ts" "follow 1 rest"
    "4 * length (ts @ rest) + 1 \<le> n"
  shows "\<exists>es'. and_loop n (ts @ rest) = Inr (es', rest) \<and> map strip_expr es' = map strip_expr es"
  using assms
proof (induction uss es arbitrary: ts n rule: list_all2_induct)
  case Nil
  then obtain m where "n = Suc m" by (cases n) auto
  then show ?case using Nil by (simp add: accept_follow)
next
  case (Cons u us e es)
  obtain m where n: "n = Suc m" using Cons.prems by (cases n) auto
  obtain t vs ws where ts: "ts = t # vs @ ws" "lexeme_of t = kw ''and''" "toks u vs"
    "toks (op_tail (kw ''and'') us) ws"
    using Cons.prems(1) by (auto simp: toks_Cons toks_append)
  have ne: "vs @ ws @ rest \<noteq> []" using Cons.prems by (auto simp: follow_def)
  have f2: "follow 2 (ws @ rest)"
    using op_tail_follow [OF ts(4) Cons.prems(2)] by (simp add: numeral_2_eq_2)
  obtain e' where e': "parseUnary m (vs @ ws @ rest) = Inr (e', ws @ rest)" "strip_expr e' = strip_expr e"
    using readsD [OF Cons.hyps(1) ts(3) f2, of m] Cons.prems(3) n ts(1) by auto
  obtain es' where "and_loop m (ws @ rest) = Inr (es', rest)" "map strip_expr es' = map strip_expr es"
    using Cons.IH [OF ts(4) Cons.prems(2), of m] Cons.prems(3) n ts(1) by auto
  then show ?case
    using e' ts ne n by (simp add: accept_lexeme kw_def)
qed

lemma or_loop_reads:
  assumes "list_all2 (reads 1) uss es" "toks (op_tail (kw ''or'') uss) ts" "follow 0 rest"
    "4 * length (ts @ rest) + 1 \<le> n"
  shows "\<exists>es'. or_loop n (ts @ rest) = Inr (es', rest) \<and> map strip_expr es' = map strip_expr es"
  using assms
proof (induction uss es arbitrary: ts n rule: list_all2_induct)
  case Nil
  then obtain m where "n = Suc m" by (cases n) auto
  then show ?case using Nil by (simp add: accept_follow)
next
  case (Cons u us e es)
  obtain m where n: "n = Suc m" using Cons.prems by (cases n) auto
  obtain t vs ws where ts: "ts = t # vs @ ws" "lexeme_of t = kw ''or''" "toks u vs"
    "toks (op_tail (kw ''or'') us) ws"
    using Cons.prems(1) by (auto simp: toks_Cons toks_append)
  have ne: "vs @ ws @ rest \<noteq> []" using Cons.prems by (auto simp: follow_def)
  have f1: "follow 1 (ws @ rest)"
    using op_tail_follow [OF ts(4) Cons.prems(2)] by simp
  obtain e' where e': "parseAndExpr m (vs @ ws @ rest) = Inr (e', ws @ rest)" "strip_expr e' = strip_expr e"
    using readsD [OF Cons.hyps(1) ts(3) f1, of m] Cons.prems(3) n ts(1) by auto
  obtain es' where "or_loop m (ws @ rest) = Inr (es', rest)" "map strip_expr es' = map strip_expr es"
    using Cons.IH [OF ts(4) Cons.prems(2), of m] Cons.prems(3) n ts(1) by auto
  then show ?case
    using e' ts ne n by (simp add: accept_lexeme kw_def)
qed

lemma list_cons2: "2 \<le> length es \<Longrightarrow> \<exists>e1 e2 es'. es = e1 # e2 # es'"
  by (cases es; cases "tl es") auto

lemma reads_and:
  assumes "list_all2 (reads 2) uss es" "2 \<le> length es"
  shows "reads 1 (sep_list (kw ''and'') uss) (EAnd es k)"
proof (rule readsI)
  fix n ts rest
  assume *: "toks (sep_list (kw ''and'') uss) ts" "follow 1 rest" "4 * length (ts @ rest) + 4 \<le> Suc n + 1"
  obtain e1 e2 es' where es: "es = e1 # e2 # es'" using list_cons2 [OF assms(2)] by auto
  obtain u1 us where uss: "uss = u1 # us" "reads 2 u1 e1" "list_all2 (reads 2) us (e2 # es')"
    using assms(1) by (auto simp: es list_all2_Cons2)
  obtain vs ws where ts: "ts = vs @ ws" "toks u1 vs" "toks (op_tail (kw ''and'') us) ws"
    using *(1) by (auto simp: uss(1) sep_list_Cons toks_append)
  have f2: "follow 2 (ws @ rest)"
    using op_tail_follow [OF ts(3) *(2)] by (simp add: numeral_2_eq_2)
  have kw_and: "at_keyword ''and'' (ws @ rest)"
    using ts(3) uss(3) by (auto simp: list_all2_Cons2 toks_Cons at_keyword_def lexeme_defs)
  obtain e' where e': "parseUnary n (vs @ ws @ rest) = Inr (e', ws @ rest)" "strip_expr e' = strip_expr e1"
    using readsD [OF uss(2) ts(2) f2, of n] *(3) ts(1) by auto
  obtain es'' where "and_loop n (ws @ rest) = Inr (es'', rest)"
      "map strip_expr es'' = map strip_expr (e2 # es')"
    using and_loop_reads [OF uss(3) ts(3) *(2), of n] *(3) ts(1) by auto
  then show "\<exists>e'. parse_level 1 (Suc n) (ts @ rest) = Inr (e', rest)
      \<and> strip_expr e' = strip_expr (EAnd es k)"
    using e' kw_and ts es by simp
qed simp

lemma reads_or:
  assumes "list_all2 (reads 1) uss es" "2 \<le> length es"
  shows "reads 0 (sep_list (kw ''or'') uss) (EOr es k)"
proof (rule readsI)
  fix n ts rest
  assume *: "toks (sep_list (kw ''or'') uss) ts" "follow 0 rest" "4 * length (ts @ rest) + 4 \<le> Suc n + 0"
  obtain e1 e2 es' where es: "es = e1 # e2 # es'" using list_cons2 [OF assms(2)] by auto
  obtain u1 us where uss: "uss = u1 # us" "reads 1 u1 e1" "list_all2 (reads 1) us (e2 # es')"
    using assms(1) by (auto simp: es list_all2_Cons2)
  obtain vs ws where ts: "ts = vs @ ws" "toks u1 vs" "toks (op_tail (kw ''or'') us) ws"
    using *(1) by (auto simp: uss(1) sep_list_Cons toks_append)
  have f1: "follow 1 (ws @ rest)"
    using op_tail_follow [OF ts(3) *(2)] by simp
  have kw_or: "at_keyword ''or'' (ws @ rest)"
    using ts(3) uss(3) by (auto simp: list_all2_Cons2 toks_Cons at_keyword_def lexeme_defs)
  obtain e' where e': "parseAndExpr n (vs @ ws @ rest) = Inr (e', ws @ rest)" "strip_expr e' = strip_expr e1"
    using readsD [OF uss(2) ts(2) f1, of n] *(3) ts(1) by auto
  obtain es'' where "or_loop n (ws @ rest) = Inr (es'', rest)"
      "map strip_expr es'' = map strip_expr (e2 # es')"
    using or_loop_reads [OF uss(3) ts(3) *(2), of n] *(3) ts(1) by auto
  then show "\<exists>e'. parse_level 0 (Suc n) (ts @ rest) = Inr (e', rest)
      \<and> strip_expr e' = strip_expr (EOr es k)"
    using e' kw_or ts es by simp
qed simp

lemma starts_plain_pred: "starts_plain (pred_lexemes p)"
  by (simp add: starts_plain_def pred_lexemes_def ident_def kw_def)

lemma starts_plain_brackets: "starts_plain (lpar # ls)"
  by (simp add: starts_plain_def kw_def)

text \<open>The printed tree is read back at every level of the grammar.\<close>

definition reads_all :: "Expr \<Rightarrow> bool" where
  "reads_all e = (reads 0 (expr_lexemes 0 e) e \<and> reads 1 (expr_lexemes 1 e) e
     \<and> reads 2 (expr_lexemes 2 e) e \<and> reads 3 (expr_lexemes 3 e) e)"

lemma reads_from_term: "starts_plain ls \<Longrightarrow> reads 3 ls e \<Longrightarrow> reads 2 ls e \<and> reads 1 ls e \<and> reads 0 ls e"
  by (blast intro: reads_unary reads_and_up reads_or_up)

lemma reads_from_brackets:
  "reads 0 ls e \<Longrightarrow> reads 3 (lpar # ls @ [rpar]) e \<and> reads 2 (lpar # ls @ [rpar]) e
     \<and> reads 1 (lpar # ls @ [rpar]) e"
  using reads_from_term [OF starts_plain_brackets reads_brackets] reads_brackets by blast

lemma list_all2_reads:
  "\<forall>e \<in> set es. reads l (f e) e \<Longrightarrow> list_all2 (reads l) (map f es) es"
  by (simp add: list_all2_map1 list.rel_refl_strong)

lemma expr_reads: "expr_ok e \<Longrightarrow> reads_all e"
proof (induction e)
  case (EPred p k)
  then have "reads 3 (pred_lexemes p) (EPred p k)" by (intro reads_pred) simp
  then show ?case using reads_from_term [OF starts_plain_pred] by (simp add: reads_all_def)
next
  case (EAnd es k)
  then have "\<forall>e \<in> set es. reads 2 (expr_lexemes 2 e) e"
    by (auto simp: reads_all_def list_all_iff)
  then have "reads 1 (sep_list (kw ''and'') (map (expr_lexemes 2) es)) (EAnd es k)"
    using EAnd.prems by (intro reads_and list_all2_reads) auto
  then show ?case using reads_from_brackets reads_or_up by (simp add: reads_all_def brackets_def)
next
  case (EOr es k)
  then have "\<forall>e \<in> set es. reads 1 (expr_lexemes 1 e) e"
    by (auto simp: reads_all_def list_all_iff)
  then have "reads 0 (sep_list (kw ''or'') (map (expr_lexemes 1) es)) (EOr es k)"
    using EOr.prems by (intro reads_or list_all2_reads) auto
  then show ?case using reads_from_brackets by (simp add: reads_all_def brackets_def)
next
  case (ENot e k)
  then have "reads 2 (kw ''not'' # expr_lexemes 3 e) (ENot e k)"
    by (intro reads_not) (simp add: reads_all_def)
  moreover from this have "reads 0 (kw ''not'' # expr_lexemes 3 e) (ENot e k)"
    by (intro reads_or_up reads_and_up)
  ultimately show ?case using reads_brackets [of "kw ''not'' # expr_lexemes 3 e"] reads_and_up
    by (simp add: reads_all_def brackets_def)
qed

section \<open>Reading back the tokens of a query\<close>

lemma parseDurationToken_reads:
  assumes "duration_ok d" "lexeme_of t = (TokDuration, itoa (dur_Count d) @ dur_Unit d)"
  shows "\<exists>d'. parseDurationToken t = Inr d' \<and> d'\<lparr>dur_Pos := 0\<rparr> = d\<lparr>dur_Pos := 0\<rparr>"
proof -
  have u: "length (dur_Unit d) = 1" using assms(1) by (auto simp: duration_ok_def)
  have v: "tok_Value t = itoa (dur_Count d) @ dur_Unit d" using assms(2) by (simp add: lexeme_of_def)
  have "0 < length (itoa (dur_Count d))" by simp
  then show ?thesis using assms(1) u
    by (auto simp: parseDurationToken_def v duration_ok_def atoi_itoa)
qed

text \<open>The keywords that may start what follows a clause.\<close>

definition clause_start :: "string list \<Rightarrow> tokens \<Rightarrow> bool" where
  "clause_start ks ts = (ts \<noteq> [] \<and> (tok_Kind (peek ts) = TokEOF
     \<or> tok_Kind (peek ts) = TokKeyword \<and> tok_Value (peek ts) \<in> set ks))"

lemma clause_startD:
  "clause_start ks ts \<Longrightarrow> k \<notin> set ks \<Longrightarrow> \<not> at_keyword k ts"
  "clause_start ks ts \<Longrightarrow> ts \<noteq> []"
  "clause_start ks ts \<Longrightarrow> no_comma ts"
  "clause_start ks ts \<Longrightarrow> k \<notin> set ks \<Longrightarrow> \<not> at_keyword k ts"
  by (auto simp: clause_start_def at_keyword_def no_comma_def)

lemma clause_start_mono: "clause_start ks ts \<Longrightarrow> set ks \<subseteq> set ks' \<Longrightarrow> clause_start ks' ts"
  by (auto simp: clause_start_def)

lemma group_clause_reads:
  assumes "toks (if gs = [] then [] else kw ''by'' # comma_list (map ident gs)) ts"
    "clause_start ks rest" "''by'' \<notin> set ks"
  shows "parse_group_clause (ts @ rest) = Inr (gs, rest)"
proof (cases gs)
  case Nil
  then show ?thesis using assms clause_startD by (simp add: parse_group_clause_def)
next
  case (Cons g gs')
  then obtain t i us where ts: "ts = t # i # us" "lexeme_of t = kw ''by''" "lexeme_of i = ident g"
    "toks (comma_tail (map ident gs')) us"
    using assms(1) by (auto simp: comma_list_Cons toks_Cons)
  then show ?thesis
    using ident_loop_reads [OF ts(4) clause_startD(3) [OF assms(2)]] clause_startD(2) [OF assms(2)] Cons
    by (simp add: parse_group_clause_def parseGroupBy_def at_keyword_def expect_lexeme lexeme_defs)
qed

lemma where_clause_reads:
  assumes "toks (case flt of None \<Rightarrow> [] | Some e \<Rightarrow> kw ''where'' # expr_lexemes 0 e) ts"
    "clause_start ks rest" "''where'' \<notin> set ks" "''and'' \<notin> set ks" "''or'' \<notin> set ks"
    "case flt of None \<Rightarrow> True | Some e \<Rightarrow> expr_ok e" "4 * length (ts @ rest) + 4 \<le> n"
  shows "\<exists>flt'. parse_where_clause n (ts @ rest) = Inr (flt', rest)
    \<and> map_option strip_expr flt' = map_option strip_expr flt"
proof (cases flt)
  case None
  then show ?thesis using assms clause_startD(1) [OF assms(2,3)] by (simp add: parse_where_clause_def)
next
  case (Some e)
  then obtain t us where ts: "ts = t # us" "lexeme_of t = kw ''where''" "toks (expr_lexemes 0 e) us"
    using assms(1) by (auto simp: toks_Cons)
  have "reads 0 (expr_lexemes 0 e) e" using expr_reads assms(6) Some by (simp add: reads_all_def)
  moreover have "follow 0 rest" using assms by (simp add: follow_def clause_startD)
  ultimately obtain e' where "parseExpr n (us @ rest) = Inr (e', rest)" "strip_expr e' = strip_expr e"
    using readsD [OF _ ts(3), of 0 e rest n] assms(7) ts(1) by auto
  then show ?thesis
    using ts Some clause_startD(2) [OF assms(2)]
    by (simp add: parse_where_clause_def at_keyword_def lexeme_defs)
qed

lemma duration_clause_reads:
  assumes "toks (duration_lexemes k d) ts" "clause_start ks rest" "k \<notin> set ks"
    "case d of None \<Rightarrow> True | Some x \<Rightarrow> duration_ok x"
  shows "\<exists>d'. parse_duration_clause k (ts @ rest) = Inr (d', rest)
    \<and> map_option (\<lambda>d. d\<lparr>dur_Pos := 0\<rparr>) d' = map_option (\<lambda>d. d\<lparr>dur_Pos := 0\<rparr>) d"
proof (cases d)
  case None
  then show ?thesis using assms clause_startD(1) [OF assms(2,3)]
    by (simp add: parse_duration_clause_def duration_lexemes_def)
next
  case (Some x)
  then obtain t u where ts: "ts = [t, u]" "lexeme_of t = kw k"
    "lexeme_of u = (TokDuration, itoa (dur_Count x) @ dur_Unit x)"
    using assms(1) by (auto simp: duration_lexemes_def toks_Cons)
  obtain x' where "parseDurationToken u = Inr x'" "x'\<lparr>dur_Pos := 0\<rparr> = x\<lparr>dur_Pos := 0\<rparr>"
    using parseDurationToken_reads [OF _ ts(3)] assms(4) Some by auto
  then show ?thesis
    using ts Some clause_startD(2) [OF assms(2)]
    by (simp add: parse_duration_clause_def at_keyword_def expect_lexeme lexeme_defs)
qed

definition order_lexemes :: "OrderBy option \<Rightarrow> lexeme list" where
  "order_lexemes o' = (case o' of None \<Rightarrow> []
     | Some ob \<Rightarrow> [kw ''order'', kw ''by'', ident (ob_Field ob),
         kw (case ob_Direction ob of DirAsc \<Rightarrow> ''asc'' | DirDesc \<Rightarrow> ''desc'')])"

definition limit_lexemes :: "int option \<Rightarrow> lexeme list" where
  "limit_lexemes l = (case l of None \<Rightarrow> [] | Some n \<Rightarrow> [kw ''limit'', (TokInt, itoa n)])"

lemma order_clause_reads:
  assumes "toks (order_lexemes o') ts" "clause_start ks rest" "''order'' \<notin> set ks"
  shows "\<exists>o''. parse_order_clause (ts @ rest) = Inr (o'', rest)
    \<and> map_option (\<lambda>x. x\<lparr>ob_Pos := 0\<rparr>) o'' = map_option (\<lambda>x. x\<lparr>ob_Pos := 0\<rparr>) o'"
proof (cases o')
  case None
  then show ?thesis using assms clause_startD(1) [OF assms(2,3)]
    by (simp add: parse_order_clause_def order_lexemes_def)
next
  case (Some ob)
  then obtain t u i d where ts: "ts = [t, u, i, d]" "lexeme_of t = kw ''order''" "lexeme_of u = kw ''by''"
    "lexeme_of i = ident (ob_Field ob)"
    "lexeme_of d = kw (case ob_Direction ob of DirAsc \<Rightarrow> ''asc'' | DirDesc \<Rightarrow> ''desc'')"
    using assms(1) by (auto simp: order_lexemes_def toks_Cons)
  then have "accept_tok TokKeyword [''asc'', ''desc''] (d # rest) = Some (d, rest)"
    using clause_startD(2) [OF assms(2)]
    by (cases "ob_Direction ob") (auto intro!: accept_lexeme simp: kw_def)
  then show ?thesis
    using ts Some clause_startD(2) [OF assms(2)]
    by (cases "ob_Direction ob")
      (simp_all add: parse_order_clause_def parseOrderBy_def at_keyword_def expect_lexeme lexeme_defs)
qed

lemma limit_clause_reads:
  assumes "toks (limit_lexemes l) ts" "clause_start ks rest" "''limit'' \<notin> set ks"
    "case l of None \<Rightarrow> True | Some n \<Rightarrow> 0 \<le> n \<and> in_int64 n"
  shows "parse_limit_clause (ts @ rest) = Inr (l, rest)"
proof (cases l)
  case None
  then show ?thesis using assms clause_startD(1) [OF assms(2,3)]
    by (simp add: parse_limit_clause_def limit_lexemes_def)
next
  case (Some n)
  then obtain t u where ts: "ts = [t, u]" "lexeme_of t = kw ''limit''" "lexeme_of u = (TokInt, itoa n)"
    using assms(1) by (auto simp: limit_lexemes_def toks_Cons)
  then show ?thesis
    using Some clause_startD(2) [OF assms(2)] assms(4)
    by (simp add: parse_limit_clause_def at_keyword_def expect_lexeme lexeme_defs atoi_itoa)
qed

lemma clause_start_prepend:
  assumes "toks ls ts" "clause_start ks rest" "ls \<noteq> [] \<longrightarrow> hd ls = kw k"
  shows "clause_start (k # ks) (ts @ rest)"
  using assms by (cases ls) (auto simp: clause_start_def toks_Cons lexeme_defs)

lemma query_lexemes_split:
  "query_lexemes q = ident (q_Metric q)
    # (if q_GroupBy q = [] then [] else kw ''by'' # comma_list (map ident (q_GroupBy q)))
    @ (case q_Filter q of None \<Rightarrow> [] | Some e \<Rightarrow> kw ''where'' # expr_lexemes 0 e)
    @ duration_lexemes ''over'' (q_Over q) @ duration_lexemes ''step'' (q_Step q)
    @ order_lexemes (q_OrderBy q) @ limit_lexemes (q_Limit q)"
  by (simp add: query_lexemes_def order_lexemes_def limit_lexemes_def)

lemma parseQuery_reads:
  assumes q: "query_ok q" and ts: "toks (query_lexemes q) ts" and e: "tok_Kind e = TokEOF"
    and n: "4 * length (ts @ [e]) + 4 \<le> n"
  shows "\<exists>q'. parseQuery n (ts @ [e]) = Inr (q', [e]) \<and> strip_query q' = strip_query q"
proof -
  obtain m g w o1 s1 b l where parts: "ts = m # g @ w @ o1 @ s1 @ b @ l"
    "lexeme_of m = ident (q_Metric q)"
    "toks (if q_GroupBy q = [] then [] else kw ''by'' # comma_list (map ident (q_GroupBy q))) g"
    "toks (case q_Filter q of None \<Rightarrow> [] | Some e \<Rightarrow> kw ''where'' # expr_lexemes 0 e) w"
    "toks (duration_lexemes ''over'' (q_Over q)) o1" "toks (duration_lexemes ''step'' (q_Step q)) s1"
    "toks (order_lexemes (q_OrderBy q)) b" "toks (limit_lexemes (q_Limit q)) l"
    using ts by (auto simp: query_lexemes_split toks_Cons toks_append)
  have c0: "clause_start [] [e]" using e by (simp add: clause_start_def)
  have c1: "clause_start [''limit''] (l @ [e])"
    by (rule clause_start_prepend [OF parts(8) c0]) (simp add: limit_lexemes_def split: option.splits)
  have c2: "clause_start [''order'', ''limit''] (b @ l @ [e])"
    by (rule clause_start_prepend [OF parts(7) c1]) (simp add: order_lexemes_def split: option.splits)
  have c3: "clause_start [''step'', ''order'', ''limit''] (s1 @ b @ l @ [e])"
    by (rule clause_start_prepend [OF parts(6) c2]) (simp add: duration_lexemes_def split: option.splits)
  have c4: "clause_start [''over'', ''step'', ''order'', ''limit''] (o1 @ s1 @ b @ l @ [e])"
    by (rule clause_start_prepend [OF parts(5) c3]) (simp add: duration_lexemes_def split: option.splits)
  have c5: "clause_start [''where'', ''over'', ''step'', ''order'', ''limit''] (w @ o1 @ s1 @ b @ l @ [e])"
    by (rule clause_start_prepend [OF parts(4) c4]) (simp split: option.splits)
  have r1: "parse_group_clause (g @ w @ o1 @ s1 @ b @ l @ [e]) = Inr (q_GroupBy q, w @ o1 @ s1 @ b @ l @ [e])"
    by (rule group_clause_reads [OF parts(3) c5]) simp
  obtain flt where r2: "parse_where_clause n (w @ o1 @ s1 @ b @ l @ [e]) = Inr (flt, o1 @ s1 @ b @ l @ [e])"
      "map_option strip_expr flt = map_option strip_expr (q_Filter q)"
    using where_clause_reads [OF parts(4) c4, of n] q n parts(1) by (auto simp: query_ok_def)
  obtain ov where r3: "parse_duration_clause ''over'' (o1 @ s1 @ b @ l @ [e]) = Inr (ov, s1 @ b @ l @ [e])"
      "map_option (\<lambda>d. d\<lparr>dur_Pos := 0\<rparr>) ov = map_option (\<lambda>d. d\<lparr>dur_Pos := 0\<rparr>) (q_Over q)"
    using duration_clause_reads [OF parts(5) c3] q by (auto simp: query_ok_def)
  obtain st where r4: "parse_duration_clause ''step'' (s1 @ b @ l @ [e]) = Inr (st, b @ l @ [e])"
      "map_option (\<lambda>d. d\<lparr>dur_Pos := 0\<rparr>) st = map_option (\<lambda>d. d\<lparr>dur_Pos := 0\<rparr>) (q_Step q)"
    using duration_clause_reads [OF parts(6) c2] q by (auto simp: query_ok_def)
  obtain ob where r5: "parse_order_clause (b @ l @ [e]) = Inr (ob, l @ [e])"
      "map_option (\<lambda>x. x\<lparr>ob_Pos := 0\<rparr>) ob = map_option (\<lambda>x. x\<lparr>ob_Pos := 0\<rparr>) (q_OrderBy q)"
    using order_clause_reads [OF parts(7) c1] by auto
  have r6: "parse_limit_clause (l @ [e]) = Inr (q_Limit q, [e])"
    using limit_clause_reads [OF parts(8) c0] q by (simp add: query_ok_def)
  have "expect TokIdent ''metric identifier'' [] (ts @ [e]) = Inr (m, g @ w @ o1 @ s1 @ b @ l @ [e])"
    using parts(1,2) by (simp add: expect_lexeme ident_def)
  then show ?thesis using r1 r2 r3 r4 r5 r6 parts(2)
    by (simp add: parseQuery_def strip_query_def lexeme_defs)
qed

section \<open>Reading back the text of a token\<close>

fun lexeme_ok :: "lexeme \<Rightarrow> bool" where
  "lexeme_ok (TokIdent, v) = ident_ok v"
| "lexeme_ok (TokKeyword, v) = (v \<in> set keyword_set)"
| "lexeme_ok (TokString, v) = string_ok v"
| "lexeme_ok (TokInt, v) = (v \<noteq> [] \<and> list_all isDigit v)"
| "lexeme_ok (TokNumber, v) = (\<exists>a b. v = a @ CHR ''.'' # b \<and> a \<noteq> [] \<and> list_all isDigit a \<and> list_all isDigit b)"
| "lexeme_ok (TokDuration, v) = (\<exists>a u. v = a @ [u] \<and> a \<noteq> [] \<and> list_all isDigit a \<and> u \<in> set ''smhdw'')"
| "lexeme_ok (TokLParen, v) = (v = ''('')"
| "lexeme_ok (TokRParen, v) = (v = '')'')"
| "lexeme_ok (TokComma, v) = (v = '','')"
| "lexeme_ok (TokEq, v) = (v = ''='')"
| "lexeme_ok (TokNe, v) = (v = ''!='')"
| "lexeme_ok (TokLt, v) = (v = ''<'')"
| "lexeme_ok (TokLe, v) = (v = ''<='')"
| "lexeme_ok (TokGt, v) = (v = ''>'')"
| "lexeme_ok (TokGe, v) = (v = ''>='')"
| "lexeme_ok (TokEOF, v) = False"

lemma takeWhile_stop: "list_all P s \<Longrightarrow> \<not> P c \<Longrightarrow> takeWhile P (s @ c # t) = s"
  by (induction s) auto

lemma dropWhile_stop: "list_all P s \<Longrightarrow> \<not> P c \<Longrightarrow> dropWhile P (s @ c # t) = c # t"
  by (induction s) auto

lemma skipWhitespace_id: "s \<noteq> [] \<Longrightarrow> \<not> is_blank (hd s) \<Longrightarrow> skipWhitespace (p, s) = (p, s)"
  by (cases s) (auto simp: skipWhitespace_def advance_by_def)

lemma isDigit_iff: "isDigit c \<longleftrightarrow> is_digit_byte c"
  by (simp add: isDigit_def is_digit_byte_def)

text \<open>The bytes that separate the printed tokens belong to no class.\<close>

lemma space_classes [simp]:
  "\<not> isDigit CHR '' ''" "\<not> isIdentCont CHR '' ''" "is_blank CHR '' ''" "\<not> isDigit CHR ''.''"
  by (simp_all add: isDigit_def isIdentCont_def isIdentStart_def is_letter_latin1_def is_blank_def)

lemma digit_first:
  assumes "isDigit c"
  shows "\<not> is_blank c \<and> c \<notin> set ''(),=!<>'' \<and> c \<noteq> CHR 0x27"
  using assms by (auto simp: isDigit_def is_blank_def)

lemma ident_first:
  assumes "ident_byte c"
  shows "\<not> is_blank c \<and> c \<notin> set ''(),=!<>'' \<and> c \<noteq> CHR 0x27 \<and> \<not> isDigit c \<and> isIdentStart c"
  using assms
  by (auto simp: ident_byte_def is_blank_def isDigit_def isIdentStart_def is_letter_latin1_def Let_def)

lemma next_token_number:
  assumes "s \<noteq> []" "isDigit (hd s)" shows "next_token (p, s) = lexNumberOrDuration (p, s)"
  using assms digit_first [of "hd s"]
  by (cases s) (simp_all add: next_token_def skipWhitespace_id)

lemma next_token_ident:
  assumes "s \<noteq> []" "ident_byte (hd s)" shows "next_token (p, s) = lexIdentOrKeyword (p, s)"
  using assms ident_first [of "hd s"]
  by (cases s) (simp_all add: next_token_def skipWhitespace_id)

definition lexes_as :: "lexeme \<Rightarrow> bool" where
  "lexes_as l = (\<forall>p s. next_token (p, lexeme_text l @ CHR '' '' # s)
     = Inr (mk_token (fst l) (snd l) p, (p + length (lexeme_text l), CHR '' '' # s)))"

lemma lexes_int:
  assumes "v \<noteq> []" "list_all isDigit v" shows "lexes_as (TokInt, v)"
  unfolding lexes_as_def
proof (intro allI)
  fix p s
  have "isDigit (hd v)" using assms by (cases v) auto
  then have "next_token (p, v @ CHR '' '' # s) = lexNumberOrDuration (p, v @ CHR '' '' # s)"
    using assms by (intro next_token_number) auto
  then show "next_token (p, lexeme_text (TokInt, v) @ CHR '' '' # s) =
      Inr (mk_token (fst (TokInt, v)) (snd (TokInt, v)) p, p + length (lexeme_text (TokInt, v)), CHR '' '' # s)"
    using assms
    by (simp add: lexNumberOrDuration_def takeWhile_stop dropWhile_stop lexeme_text_def advance_by_def)
qed

lemma lexes_number:
  assumes "a \<noteq> []" "list_all isDigit a" "list_all isDigit b"
  shows "lexes_as (TokNumber, a @ CHR ''.'' # b)"
  unfolding lexes_as_def
proof (intro allI)
  fix p s
  let ?v = "a @ CHR ''.'' # b"
  have "isDigit (hd a)" using assms by (cases a) auto
  then have "next_token (p, ?v @ CHR '' '' # s) = lexNumberOrDuration (p, ?v @ CHR '' '' # s)"
    using assms by (intro next_token_number) auto
  then show "next_token (p, lexeme_text (TokNumber, ?v) @ CHR '' '' # s) =
      Inr (mk_token (fst (TokNumber, ?v)) (snd (TokNumber, ?v)) p,
        p + length (lexeme_text (TokNumber, ?v)), CHR '' '' # s)"
    using assms
    by (simp add: lexNumberOrDuration_def takeWhile_stop dropWhile_stop lexeme_text_def advance_by_def)
qed

lemma lexes_duration:
  assumes "a \<noteq> []" "list_all isDigit a" "u \<in> set ''smhdw''"
  shows "lexes_as (TokDuration, a @ [u])"
  unfolding lexes_as_def
proof (intro allI)
  fix p s
  have "isDigit (hd a)" using assms by (cases a) auto
  moreover have "\<not> isDigit u \<and> u \<noteq> CHR ''.''" using assms(3) by (auto simp: isDigit_def)
  moreover have "next_token (p, (a @ [u]) @ CHR '' '' # s) = lexNumberOrDuration (p, (a @ [u]) @ CHR '' '' # s)"
    using assms \<open>isDigit (hd a)\<close> by (intro next_token_number) auto
  ultimately show "next_token (p, lexeme_text (TokDuration, a @ [u]) @ CHR '' '' # s) =
      Inr (mk_token (fst (TokDuration, a @ [u])) (snd (TokDuration, a @ [u])) p,
        p + length (lexeme_text (TokDuration, a @ [u])), CHR '' '' # s)"
    using assms
    by (simp add: lexNumberOrDuration_def takeWhile_stop dropWhile_stop lexeme_text_def advance_by_def)
qed

lemma ident_byte_cont: "ident_byte c \<or> isDigit c \<Longrightarrow> isIdentCont c"
  using ident_first by (auto simp: isIdentCont_def)

lemma ident_byte_lower:
  "ident_byte c \<or> isDigit c \<Longrightarrow> byte c < 128 \<and> \<not> (65 \<le> byte c \<and> byte c \<le> 90)"
  by (auto simp: ident_byte_def isDigit_def)

lemma lexes_word:
  assumes "v \<noteq> []" "ident_byte (hd v)" "list_all (\<lambda>c. ident_byte c \<or> isDigit c) v"
  shows "lexes_as (if v \<in> set keyword_set then TokKeyword else TokIdent, v)"
  unfolding lexes_as_def
proof (intro allI)
  fix p s
  let ?k = "if v \<in> set keyword_set then TokKeyword else TokIdent"
  have cont: "list_all isIdentCont v" using assms(3) by (auto simp: list_all_iff intro: ident_byte_cont)
  have low: "to_lower v = v"
    using assms(3) ident_byte_lower by (intro to_lower_id) (metis (mono_tags, lifting) list_all_iff)
  have "next_token (p, v @ CHR '' '' # s) = lexIdentOrKeyword (p, v @ CHR '' '' # s)"
    using assms by (intro next_token_ident) auto
  then show "next_token (p, lexeme_text (?k, v) @ CHR '' '' # s) =
      Inr (mk_token (fst (?k, v)) (snd (?k, v)) p, p + length (lexeme_text (?k, v)), CHR '' '' # s)"
    using cont low
    by (simp add: lexIdentOrKeyword_def takeWhile_stop lexeme_text_def advance_by_def)
qed

lemma keyword_word:
  "v \<in> set keyword_set \<Longrightarrow> v \<noteq> [] \<and> ident_byte (hd v) \<and> list_all (\<lambda>c. ident_byte c \<or> isDigit c) v"
  by (auto simp: keyword_set_def ident_byte_def)

lemma lexes_string:
  assumes "string_ok v" shows "lexes_as (TokString, v)"
proof -
  have "list_all (\<lambda>x. x \<noteq> CHR 0x27) v" using assms by (auto simp: string_ok_def list_all_iff)
  moreover have "\<not> is_blank CHR 0x27" by (simp add: is_blank_def)
  ultimately show ?thesis
    by (simp add: lexes_as_def lexeme_text_def quoted_def next_token_def skipWhitespace_id
        lexString_def takeWhile_stop advance_by_def)
qed

lemma lexes_symbol:
  assumes "(k, v) \<in> set [(TokLParen, ''(''), (TokRParen, '')''), (TokComma, '',''), (TokEq, ''=''),
    (TokNe, ''!=''), (TokLt, ''<''), (TokLe, ''<=''), (TokGt, ''>''), (TokGe, ''>='')]"
  shows "lexes_as (k, v)"
  using assms
  by (auto simp: lexes_as_def lexeme_text_def next_token_def skipWhitespace_id is_blank_def
      next_is_eq_def advance_by_def)

lemma lexeme_lexes: "lexeme_ok l \<Longrightarrow> lexes_as l"
proof (induction l rule: lexeme_ok.induct)
  case (1 v)
  then show ?case using lexes_word [of v] by (auto simp: ident_ok_def)
next
  case (2 v)
  then show ?case using lexes_word [of v] keyword_word [of v] by auto
qed (auto intro: lexes_string lexes_int lexes_number lexes_duration lexes_symbol)

section \<open>Reading back the text of a query\<close>

lemma next_token_blank: "next_token (p, CHR '' '' # s) = next_token (Suc p, s)"
  by (simp add: next_token_def skipWhitespace_def advance_by_def)

lemma Lex_loop_blank: "Lex_loop (p, CHR '' '' # s) = Lex_loop (Suc p, s)"
  by (subst (1 2) Lex_loop.simps) (simp add: next_token_blank)

lemma Lex_loop_render:
  "list_all lexeme_ok ls \<Longrightarrow>
   \<exists>ts e. Lex_loop (p, render ls) = Inr (ts @ [e]) \<and> toks ls ts \<and> tok_Kind e = TokEOF"
proof (induction ls arbitrary: p)
  case Nil
  have "Lex_loop (p, render []) = Inr [mk_token TokEOF [] p]"
    by (subst Lex_loop.simps) (simp add: render_def next_token_def skipWhitespace_def advance_by_def)
  then show ?case by (intro exI [of _ "[]"] exI [of _ "mk_token TokEOF [] p"]) simp
next
  case (Cons l ls)
  let ?t = "mk_token (fst l) (snd l) p" and ?p = "p + length (lexeme_text l)"
  have l: "lexeme_ok l" using Cons.prems by simp
  have r: "render (l # ls) = lexeme_text l @ CHR '' '' # render ls" by (simp add: render_def)
  have "next_token (p, render (l # ls)) = Inr (?t, (?p, CHR '' '' # render ls))"
    using lexeme_lexes [OF l] unfolding r lexes_as_def by blast
  moreover obtain ts e where ts: "Lex_loop (Suc ?p, render ls) = Inr (ts @ [e])" "toks ls ts"
    and e: "tok_Kind e = TokEOF"
    using Cons.IH [of "Suc ?p"] Cons.prems by auto
  moreover have "fst l \<noteq> TokEOF" using l by (cases l) auto
  ultimately have "Lex_loop (p, render (l # ls)) = Inr ((?t # ts) @ [e])"
    by (subst Lex_loop.simps) (simp add: Lex_loop_blank)
  moreover have "toks (l # ls) (?t # ts)" using ts(2) by (simp add: toks_def lexeme_of_def)
  ultimately show ?case using e by blast
qed

lemma comma_list_set: "set (comma_list ls) \<subseteq> insert (TokComma, '','') (set ls)"
  by (induction ls rule: comma_list.induct) auto

lemma sep_list_set: "set (sep_list s us) \<subseteq> insert s (\<Union> (set ` set us))"
  by (induction s us rule: sep_list.induct) auto

lemma num_lexeme_ok:
  assumes "number_ok f" shows "lexeme_ok (num_lexeme f)"
proof -
  obtain r where f: "f = FFin r" and r: "0 \<le> r" using assms by (rule number_ok_cases)
  define w n where "w = num_width 1074 r" and "n = floor (r * 10 ^ w)"
  have n0: "0 \<le> n" using r by (simp add: n_def)
  then have d: "list_all isDigit (dec_digits n)" "list_all isDigit (dec_digits (n div 10 ^ w))"
    using dec_digits_digits [of n] dec_digits_digits [of "n div 10 ^ w"]
    by (simp_all add: isDigit_iff [abs_def] pos_imp_zdiv_nonneg_iff)
  have "num_lexeme f = (if w = 0 then (TokInt, dec_digits n)
      else (TokNumber, dec_digits (n div 10 ^ w) @ CHR ''.'' # fixed_digits w (n mod 10 ^ w)))"
    by (simp add: num_lexeme_def f w_def n_def Let_def)
  moreover have "lexeme_ok (TokNumber, dec_digits (n div 10 ^ w) @ CHR ''.'' # fixed_digits w (n mod 10 ^ w))"
    using d(2) fixed_digits_digits [of w "n mod 10 ^ w"] dec_digits_not_Nil
    unfolding lexeme_ok.simps isDigit_iff [abs_def] by blast
  ultimately show ?thesis using d(1) by simp
qed

lemma val_lexemes_ok: "value_ok op v \<Longrightarrow> list_all lexeme_ok (val_lexemes v)"
  using comma_list_set [of "map str_lexeme (case v of ValStringList ss \<Rightarrow> ss)"]
    comma_list_set [of "map num_lexeme (case v of ValNumberList ns \<Rightarrow> ns)"]
  by (cases v) (auto simp: list_all_iff str_lexeme_def num_lexeme_ok)

lemma pred_lexemes_ok: "pred_ok p \<Longrightarrow> list_all lexeme_ok (pred_lexemes p)"
  using val_lexemes_ok [of "pr_Op p" "pr_Value p"]
  by (cases "pr_Op p") (auto simp: pred_lexemes_def pred_ok_def ident_def kw_def keyword_set_def)

lemma list_all_brackets: "list_all lexeme_ok ls \<Longrightarrow> list_all lexeme_ok (brackets b ls)"
  by (simp add: brackets_def)

lemma list_all_sep_list:
  "lexeme_ok s \<Longrightarrow> \<forall>u \<in> set us. list_all lexeme_ok u \<Longrightarrow> list_all lexeme_ok (sep_list s us)"
  using sep_list_set [of s us] by (fastforce simp: list_all_iff)

lemma expr_lexemes_ok: "expr_ok e \<Longrightarrow> list_all lexeme_ok (expr_lexemes l e)"
proof (induction e arbitrary: l)
  case (EAnd es k)
  then show ?case
    by (auto simp: list_all_iff [of expr_ok] kw_def keyword_set_def
        intro!: list_all_brackets list_all_sep_list)
next
  case (EOr es k)
  then show ?case
    by (auto simp: list_all_iff [of expr_ok] kw_def keyword_set_def
        intro!: list_all_brackets list_all_sep_list)
next
  case (ENot e k)
  then show ?case
    by (auto simp: kw_def keyword_set_def intro!: list_all_brackets)
qed (simp add: pred_lexemes_ok)

lemma duration_lexemes_ok:
  assumes "case d of None \<Rightarrow> True | Some x \<Rightarrow> duration_ok x" "k \<in> set keyword_set"
  shows "list_all lexeme_ok (duration_lexemes k d)"
proof (cases d)
  case (Some x)
  then obtain u where "dur_Unit x = [u]" "u \<in> set ''smhdw''"
    using assms(1) by (auto simp: duration_ok_def)
  moreover have "list_all isDigit (itoa (dur_Count x))"
    using itoa_digits assms(1) Some by (simp add: isDigit_iff [abs_def] duration_ok_def)
  ultimately show ?thesis using Some assms(2) by (auto simp: duration_lexemes_def kw_def)
qed (simp add: duration_lexemes_def)

lemma query_lexemes_ok:
  assumes "query_ok q" shows "list_all lexeme_ok (query_lexemes q)"
proof -
  have "list_all lexeme_ok (comma_list (map ident (q_GroupBy q)))"
    using assms comma_list_set [of "map ident (q_GroupBy q)"]
    by (auto simp: list_all_iff query_ok_def ident_def)
  moreover have "list_all lexeme_ok (duration_lexemes ''over'' (q_Over q))"
    "list_all lexeme_ok (duration_lexemes ''step'' (q_Step q))"
    using assms by (auto simp: query_ok_def keyword_set_def intro!: duration_lexemes_ok)
  moreover have "list_all lexeme_ok (order_lexemes (q_OrderBy q))"
    using assms by (auto simp: query_ok_def order_lexemes_def kw_def ident_def keyword_set_def
        split: option.splits Direction.splits)
  moreover have "list_all lexeme_ok (limit_lexemes (q_Limit q))"
    using assms itoa_digits
    by (auto simp: query_ok_def limit_lexemes_def kw_def keyword_set_def isDigit_iff [abs_def]
        split: option.splits)
  ultimately show ?thesis using assms expr_lexemes_ok
    by (auto simp: query_lexemes_split query_ok_def ident_def kw_def keyword_set_def split: option.splits)
qed

section \<open>Properties\<close>

text \<open>C7 (round trip).  The text that the printer writes for a query is parsed as that query, up to
  the positions: for every query with lower-case identifiers, string literals without a quote,
  representable numbers, comparison lists that are not empty and durations in range, whatever its
  filter, the lexer and the parser recover metric, clauses, operators, precedence and literals.\<close>

theorem netql_roundtrip:
  assumes "query_ok q" shows "\<exists>q'. Parse (query_text q) = Inr q' \<and> strip_query q' = strip_query q"
proof -
  obtain ts e where ts: "Lex (query_text q) = Inr (ts @ [e])" "toks (query_lexemes q) ts" "tok_Kind e = TokEOF"
    using Lex_loop_render [OF query_lexemes_ok [OF assms], of 0] by (auto simp: Lex_def query_text_def)
  obtain q' where "parseQuery (expr_fuel (ts @ [e])) (ts @ [e]) = Inr (q', [e])" "strip_query q' = strip_query q"
    using parseQuery_reads [OF assms ts(2,3), of "expr_fuel (ts @ [e])"] by (auto simp: expr_fuel_def)
  then show ?thesis using ts by (simp add: Parse_def)
qed


definition sample_query :: Query where
  "sample_query = \<lparr>q_Metric = ''latency_p95'', q_GroupBy = [''pop'', ''target''],
     q_Filter = Some (EOr [ENot (EAnd
         [EPred \<lparr>pr_Field = ''pop'', pr_Op = OpIn, pr_Value = ValStringList [''a b'', ''C''], pr_Pos = 0\<rparr> 0,
          EPred \<lparr>pr_Field = ''observed_at'', pr_Op = OpGe, pr_Value = ValNumber (FFin (3 / 2)), pr_Pos = 0\<rparr> 0] 0) 0,
        EPred \<lparr>pr_Field = ''kind'', pr_Op = OpContains, pr_Value = ValString ''or'', pr_Pos = 0\<rparr> 0] 0),
     q_Over = Some \<lparr>dur_Count = 24, dur_Unit = ''h'', dur_Pos = 0\<rparr>, q_Step = None,
     q_OrderBy = Some \<lparr>ob_Field = ''pop'', ob_Direction = DirDesc, ob_Pos = 0\<rparr>,
     q_Limit = Some 10, q_Pos = 0\<rparr>"

theorem netql_roundtrip_witness:
  "query_ok sample_query \<and>
   (\<exists>q'. Parse (query_text sample_query) = Inr q' \<and> strip_query q' = strip_query sample_query)"
proof -
  have "query_ok sample_query" by code_simp
  then show ?thesis using netql_roundtrip [of sample_query] by blast
qed

end
