(* ===== verification/NetqlRegistry.thy ===== *)
theory NetqlRegistry
  imports NetqlTypes "HOL-Library.AList"
begin

text \<open>
  The metric registry and the type checker of package netql (pkg/netql/registry.go and
  pkg/netql/check.go).  A map of the source is an association list with distinct keys, so that it
  can be iterated; a lookup is \<open>map_of\<close> and an insertion replaces the entry of the
  key.  The abstract specification of the checker is the predicate \<open>well_typed\<close>.
\<close>

section \<open>The registry\<close>

record FieldSpec =
  fs_Kind :: FieldKind
  fs_Column :: string

record PromSpec =
  ps_MetricName :: string
  ps_Aggregator :: string
  ps_Function :: string
  ps_Quantile :: f64

record MetricSpec =
  ms_Name :: string
  ms_Backend :: Backend
  ms_Description :: string
  ms_Selector :: string
  ms_Source :: string
  ms_GroupBy :: "(string \<times> string) list"
  ms_Filter :: "(string \<times> FieldSpec) list"
  ms_Prom :: "PromSpec option"

type_synonym Registry = "(string \<times> MetricSpec) list"

definition NewRegistry :: Registry where "NewRegistry = []"

definition Register :: "MetricSpec \<Rightarrow> Registry \<Rightarrow> Registry" where
  "Register m reg = AList.update (ms_Name m) m reg"

definition reg_Get :: "Registry \<Rightarrow> string \<Rightarrow> MetricSpec option" where
  "reg_Get reg name = map_of reg name"

definition reg_Names :: "Registry \<Rightarrow> string list" where
  "reg_Names reg = map fst reg"

definition registry_ok :: "Registry \<Rightarrow> bool" where
  "registry_ok reg = (distinct (map fst reg) \<and> (\<forall>(n, m) \<in> set reg. ms_Name m = n))"

definition ch_metric :: "string \<Rightarrow> string \<Rightarrow> string \<Rightarrow> (string \<times> string) list \<Rightarrow>
    (string \<times> FieldSpec) list \<Rightarrow> MetricSpec" where
  "ch_metric name descr sel gb flt = \<lparr>ms_Name = name, ms_Backend = BackendClickHouse,
     ms_Description = descr, ms_Selector = sel, ms_Source = ''canary_results'', ms_GroupBy = gb,
     ms_Filter = flt, ms_Prom = None\<rparr>"

definition prom_metric :: "string \<Rightarrow> string \<Rightarrow> (string \<times> string) list \<Rightarrow>
    (string \<times> FieldSpec) list \<Rightarrow> PromSpec \<Rightarrow> MetricSpec" where
  "prom_metric name descr gb flt ps = \<lparr>ms_Name = name, ms_Backend = BackendPrometheus,
     ms_Description = descr, ms_Selector = [], ms_Source = [], ms_GroupBy = gb,
     ms_Filter = flt, ms_Prom = Some ps\<rparr>"

definition str_field :: "string \<Rightarrow> FieldSpec" where
  "str_field c = \<lparr>fs_Kind = FieldString, fs_Column = c\<rparr>"

definition canaryGroupBy :: "(string \<times> string) list" where
  "canaryGroupBy = [(''pop'', ''pop_id''), (''target'', ''target''), (''kind'', ''kind''),
     (''error_kind'', ''error_kind'')]"

definition canaryFilter :: "(string \<times> FieldSpec) list" where
  "canaryFilter = [(''pop'', str_field ''pop_id''), (''target'', str_field ''target''),
     (''kind'', str_field ''kind''), (''error_kind'', str_field ''error_kind''),
     (''observed_at'', \<lparr>fs_Kind = FieldDuration, fs_Column = ''observed_at''\<rparr>)]"

definition apiLabels :: "(string \<times> string) list" where
  "apiLabels = [(''route'', ''route''), (''method'', ''method''), (''status'', ''status'')]"

definition apiFilter :: "(string \<times> FieldSpec) list" where
  "apiFilter = [(''route'', str_field ''route''), (''method'', str_field ''method''),
     (''status'', str_field ''status'')]"

text \<open>The literal 0.95 is the float64 nearest to it.\<close>

definition DefaultRegistry :: Registry where
  "DefaultRegistry =
    Register (prom_metric ''request_latency_p95''
      ''p95 control-plane HTTP request latency in seconds.''
      [(''route'', ''route''), (''method'', ''method'')] apiFilter
      \<lparr>ps_MetricName = ''netsite_http_request_duration_seconds_bucket'', ps_Aggregator = ''sum'',
       ps_Function = ''rate'', ps_Quantile = fl (95 / 100)\<rparr>)
    (Register (prom_metric ''request_rate''
      ''Per-second rate of NetSite control-plane HTTP requests.'' apiLabels apiFilter
      \<lparr>ps_MetricName = ''netsite_http_requests_total'', ps_Aggregator = ''sum'',
       ps_Function = ''rate'', ps_Quantile = FFin 0\<rparr>)
    (Register (ch_metric ''count'' ''Number of canary observations matching the filter.''
      ''count(*)'' canaryGroupBy canaryFilter)
    (Register (ch_metric ''latency_p95'' ''95th-percentile request latency in milliseconds.''
      ''quantile(0.95)(latency_ms)''
      [(''pop'', ''pop_id''), (''target'', ''target''), (''kind'', ''kind'')] canaryFilter)
    (Register (ch_metric ''success_rate'' ''Fraction of canary results without an error_kind.''
      (''countIf(error_kind = '' @ [CHR 0x27, CHR 0x27] @ '') / count(*)'') canaryGroupBy canaryFilter)
     NewRegistry))))"

lemma reg_Get_Register: "reg_Get (Register m reg) n = (if n = ms_Name m then Some m else reg_Get reg n)"
  by (simp add: reg_Get_def Register_def update_conv)

lemma registry_ok_Register: "registry_ok reg \<Longrightarrow> registry_ok (Register m reg)"
  unfolding registry_ok_def Register_def
proof (intro conjI)
  assume ok: "distinct (map fst reg) \<and> (\<forall>(n, m) \<in> set reg. ms_Name m = n)"
  then show d: "distinct (map fst (AList.update (ms_Name m) m reg))" by (simp add: distinct_update)
  show "\<forall>(n, m') \<in> set (AList.update (ms_Name m) m reg). ms_Name m' = n"
  proof clarify
    fix n m' assume "(n, m') \<in> set (AList.update (ms_Name m) m reg)"
    then have "map_of (AList.update (ms_Name m) m reg) n = Some m'" using d by simp
    then have "n = ms_Name m \<and> m' = m \<or> map_of reg n = Some m'"
      by (simp add: update_conv split: if_splits)
    then show "ms_Name m' = n" using ok by (auto dest: map_of_SomeD)
  qed
qed

lemma registry_ok_New: "registry_ok NewRegistry"
  by (simp add: registry_ok_def NewRegistry_def)

lemma registry_ok_Default: "registry_ok DefaultRegistry"
  unfolding DefaultRegistry_def by (intro registry_ok_Register registry_ok_New)

lemma reg_Get_name: "registry_ok reg \<Longrightarrow> reg_Get reg n = Some m \<Longrightarrow> ms_Name m = n"
  by (auto simp: reg_Get_def registry_ok_def dest: map_of_SomeD)

section \<open>The type checker\<close>

fun opCompatible :: "Op \<Rightarrow> FieldKind \<Rightarrow> ValueKind \<Rightarrow> bool" where
  "opCompatible op FieldString v =
    (if op \<in> {OpEq, OpNe} then v = KString
     else if op = OpIn then v = KStringList
     else if op \<in> {OpContains, OpMatches} then v = KString
     else False)"
| "opCompatible op _ v =
    (if op \<in> {OpEq, OpNe, OpLt, OpLe, OpGt, OpGe} then v = KNumber
     else if op = OpIn then v = KNumberList
     else False)"

fun fieldKindName :: "FieldKind \<Rightarrow> string" where
  "fieldKindName FieldString = ''string''"
| "fieldKindName FieldNumber = ''number''"
| "fieldKindName FieldDuration = ''duration''"

fun valueKindName :: "ValueKind \<Rightarrow> string" where
  "valueKindName KString = ''string''"
| "valueKindName KNumber = ''number''"
| "valueKindName KStringList = ''string list''"
| "valueKindName KNumberList = ''number list''"

text \<open>An error is \<open>Some\<close>, the nil error \<open>None\<close>.\<close>

definition checkPredicate :: "Predicate \<Rightarrow> MetricSpec \<Rightarrow> netql_error option" where
  "checkPredicate p spec =
    (case map_of (ms_Filter spec) (pr_Field p) of
       None \<Rightarrow> Some (TypeError (CannotFilterBy (ms_Name spec) (pr_Field p)))
     | Some field \<Rightarrow>
         if \<not> opCompatible (pr_Op p) (fs_Kind field) (val_Kind (pr_Value p))
         then Some (TypeError (InvalidOperator (pr_Op p) (pr_Field p) (fs_Kind field)
           (val_Kind (pr_Value p))))
         else None)"

fun first_error :: "'e option list \<Rightarrow> 'e option" where
  "first_error [] = None"
| "first_error (None # rs) = first_error rs"
| "first_error (Some e # rs) = Some e"

fun checkExpr :: "Expr \<Rightarrow> MetricSpec \<Rightarrow> netql_error option" where
  "checkExpr (EPred p _) spec = checkPredicate p spec"
| "checkExpr (EAnd es _) spec = first_error (map (\<lambda>e. checkExpr e spec) es)"
| "checkExpr (EOr es _) spec = first_error (map (\<lambda>e. checkExpr e spec) es)"
| "checkExpr (ENot e _) spec = checkExpr e spec"

definition checkGroupBy :: "Query \<Rightarrow> MetricSpec \<Rightarrow> netql_error option" where
  "checkGroupBy q spec =
    (case find (\<lambda>gb. map_of (ms_GroupBy spec) gb = None) (q_GroupBy q) of
       None \<Rightarrow> None
     | Some gb \<Rightarrow> Some (TypeError (CannotGroupBy (q_Metric q) gb)))"

definition checkOrderBy :: "Query \<Rightarrow> netql_error option" where
  "checkOrderBy q =
    (case q_OrderBy q of
       None \<Rightarrow> None
     | Some ob \<Rightarrow>
         if ob_Field ob = q_Metric q \<or> ob_Field ob \<in> set (q_GroupBy q) then None
         else Some (TypeError (OrderByNotSelected (ob_Field ob))))"

definition checkLimit :: "Query \<Rightarrow> netql_error option" where
  "checkLimit q =
    (case q_Limit q of
       None \<Rightarrow> None
     | Some n \<Rightarrow> if n \<le> 0 then Some (TypeError LimitNotPositive) else None)"

definition Check :: "Query option \<Rightarrow> Registry option \<Rightarrow> netql_error option" where
  "Check q reg =
    (case q of None \<Rightarrow> Some (TypeError NilQuery) | Some q \<Rightarrow>
    (case reg of None \<Rightarrow> Some (TypeError NilRegistry) | Some reg \<Rightarrow>
    (case reg_Get reg (q_Metric q) of
       None \<Rightarrow> Some (TypeError (UnknownMetric (q_Metric q)))
     | Some spec \<Rightarrow>
         first_error
           [checkGroupBy q spec,
            (case q_Filter q of None \<Rightarrow> None | Some e \<Rightarrow> checkExpr e spec),
            checkOrderBy q,
            checkLimit q])))"

section \<open>What the checker accepts\<close>

definition typed_pred :: "MetricSpec \<Rightarrow> Predicate \<Rightarrow> bool" where
  "typed_pred spec p = (\<exists>f. map_of (ms_Filter spec) (pr_Field p) = Some f
     \<and> opCompatible (pr_Op p) (fs_Kind f) (val_Kind (pr_Value p)))"

definition well_typed :: "Query \<Rightarrow> MetricSpec \<Rightarrow> bool" where
  "well_typed q spec =
    (set (q_GroupBy q) \<subseteq> dom (map_of (ms_GroupBy spec))
     \<and> (\<forall>e. q_Filter q = Some e \<longrightarrow> (\<forall>p \<in> set (predicates e). typed_pred spec p))
     \<and> (\<forall>ob. q_OrderBy q = Some ob \<longrightarrow> ob_Field ob \<in> insert (q_Metric q) (set (q_GroupBy q)))
     \<and> (\<forall>n. q_Limit q = Some n \<longrightarrow> 0 < n))"

lemma first_error_None: "first_error rs = None \<longleftrightarrow> (\<forall>r \<in> set rs. r = None)"
  by (induction rs rule: first_error.induct) auto

lemma checkPredicate_None: "checkPredicate p spec = None \<longleftrightarrow> typed_pred spec p"
  by (auto simp: checkPredicate_def typed_pred_def split: option.splits)

lemma checkExpr_None: "checkExpr e spec = None \<longleftrightarrow> (\<forall>p \<in> set (predicates e). typed_pred spec p)"
  by (induction e) (auto simp: checkPredicate_None first_error_None)

lemma checkGroupBy_None:
  "checkGroupBy q spec = None \<longleftrightarrow> set (q_GroupBy q) \<subseteq> dom (map_of (ms_GroupBy spec))"
  by (auto simp: checkGroupBy_def find_None_iff dom_def split: option.splits dest!: find_Some_set)

lemma checkOrderBy_None:
  "checkOrderBy q = None \<longleftrightarrow>
   (\<forall>ob. q_OrderBy q = Some ob \<longrightarrow> ob_Field ob \<in> insert (q_Metric q) (set (q_GroupBy q)))"
  by (auto simp: checkOrderBy_def split: option.splits)

lemma checkLimit_None: "checkLimit q = None \<longleftrightarrow> (\<forall>n. q_Limit q = Some n \<longrightarrow> 0 < n)"
  by (auto simp: checkLimit_def split: option.splits)

lemma Check_None:
  "Check (Some q) (Some reg) = None \<longleftrightarrow>
   (\<exists>spec. reg_Get reg (q_Metric q) = Some spec \<and> well_typed q spec)"
  unfolding Check_def well_typed_def
  by (simp add: first_error_None checkGroupBy_None checkOrderBy_None checkLimit_None
      split: option.split) (auto simp: checkExpr_None)

lemma Check_Some_parts: "Check q reg = None \<Longrightarrow> \<exists>q' reg'. q = Some q' \<and> reg = Some reg'"
  by (auto simp: Check_def split: option.splits)

section \<open>Properties\<close>


end
