(* ===== verification/NetqlClickHouse.thy ===== *)
theory NetqlClickHouse
  imports NetqlRegistry
begin

text \<open>
  The ClickHouse translator of package netql (pkg/netql/translate_ch.go).  The translator state of
  the source, a string builder and the list of bound arguments, is a record that the write
  operations update.  The specification describes the output as a list of fragments, fixed text,
  identifiers of the registry, numbers and placeholders, that depends on the literals of the query
  only through their number; the lemmas show that the writers produce exactly the rendering of
  these fragments and bind exactly the literals, in order.
\<close>

section \<open>The translator\<close>

datatype Arg = ArgString string | ArgNumber f64

definition defaultLimit :: int where "defaultLimit = 10000"
definition defaultOverHours :: int where "defaultOverHours = 1"

record Translation =
  tr_SQL :: string
  tr_Args :: "Arg list"
  tr_Metric :: MetricSpec

record chTranslator =
  ch_sb :: string
  ch_args :: "Arg list"
  ch_spec :: MetricSpec

definition nl :: string where "nl = [CHR 0x0A]"

definition emit :: "string \<Rightarrow> chTranslator \<Rightarrow> chTranslator" where
  "emit s t = t\<lparr>ch_sb := ch_sb t @ s\<rparr>"

definition bind :: "Arg \<Rightarrow> chTranslator \<Rightarrow> chTranslator" where
  "bind a t = t\<lparr>ch_args := ch_args t @ [a]\<rparr>"

definition group_column :: "MetricSpec \<Rightarrow> string \<Rightarrow> string" where
  "group_column spec gb = (case map_of (ms_GroupBy spec) gb of None \<Rightarrow> [] | Some c \<Rightarrow> c)"

definition filter_column :: "MetricSpec \<Rightarrow> string \<Rightarrow> string" where
  "filter_column spec f = (case map_of (ms_Filter spec) f of None \<Rightarrow> [] | Some s \<Rightarrow> fs_Column s)"

definition placeholder :: "nat \<Rightarrow> string" where
  "placeholder n = CHR ''$'' # itoa (int n)"

definition writeSelect :: "Query \<Rightarrow> chTranslator \<Rightarrow> chTranslator" where
  "writeSelect q t0 =
    (let t1 = emit (''SELECT'' @ nl) t0;
         t2 = fold (\<lambda>gb t. emit (''  '' @ group_column (ch_spec t) gb @ '' AS '' @ gb @ '','' @ nl) t)
                (q_GroupBy q) t1
     in emit (''  '' @ ms_Selector (ch_spec t2) @ '' AS '' @ ms_Name (ch_spec t2) @ nl) t2)"

definition writeFrom :: "chTranslator \<Rightarrow> chTranslator" where
  "writeFrom t = emit (''FROM '' @ ms_Source (ch_spec t) @ nl) t"

fun bind_all :: "Arg list \<Rightarrow> chTranslator \<Rightarrow> string list \<times> chTranslator" where
  "bind_all [] t = ([], t)"
| "bind_all (a # as) t =
    (let t1 = bind a t; ph = placeholder (length (ch_args t1)); (phs, t2) = bind_all as t1
     in (ph # phs, t2))"

definition bindScalar :: "string \<Rightarrow> string \<Rightarrow> Value \<Rightarrow> chTranslator \<Rightarrow> chTranslator" where
  "bindScalar col op v t =
    (let t1 = (case v of ValString s \<Rightarrow> bind (ArgString s) t
                       | ValNumber n \<Rightarrow> bind (ArgNumber n) t
                       | _ \<Rightarrow> t)
     in emit (col @ '' '' @ op @ '' '' @ placeholder (length (ch_args t1))) t1)"

definition bindList :: "string \<Rightarrow> Value \<Rightarrow> chTranslator \<Rightarrow> chTranslator" where
  "bindList col v t =
    (let write = (\<lambda>args. let (phs, t1) = bind_all args t
                         in emit (col @ '' IN ('' @ joined '', '' (sort phs) @ '')'') t1)
     in case v of
          ValStringList ss \<Rightarrow> write (map ArgString ss)
        | ValNumberList ns \<Rightarrow> write (map ArgNumber ns)
        | _ \<Rightarrow> t)"

definition writePredicate :: "Predicate \<Rightarrow> chTranslator \<Rightarrow> chTranslator" where
  "writePredicate p t =
    (let col = filter_column (ch_spec t) (pr_Field p)
     in case pr_Op p of
          OpIn \<Rightarrow> bindList col (pr_Value p) t
        | OpContains \<Rightarrow>
            (let t1 = bind (ArgString (val_String (pr_Value p))) t
             in emit (''position('' @ col @ '', '' @ placeholder (length (ch_args t1)) @ '') > 0'') t1)
        | OpMatches \<Rightarrow>
            (let t1 = bind (ArgString (val_String (pr_Value p))) t
             in emit (''match('' @ col @ '', '' @ placeholder (length (ch_args t1)) @ '')'') t1)
        | _ \<Rightarrow> bindScalar col (op_text (pr_Op p)) (pr_Value p) t)"

fun writeExpr :: "Expr \<Rightarrow> chTranslator \<Rightarrow> chTranslator"
and writeJoin :: "string \<Rightarrow> Expr list \<Rightarrow> chTranslator \<Rightarrow> chTranslator" where
  "writeExpr (EPred p _) t = writePredicate p t"
| "writeExpr (EAnd es _) t =
    (if es = [] then t else emit '')'' (writeJoin '' AND '' es (emit ''('' t)))"
| "writeExpr (EOr es _) t =
    (if es = [] then t else emit '')'' (writeJoin '' OR '' es (emit ''('' t)))"
| "writeExpr (ENot e _) t = emit '')'' (writeExpr e (emit ''NOT ('' t))"
| "writeJoin sep [] t = t"
| "writeJoin sep (e # es) t =
    (if es = [] then writeExpr e t else writeJoin sep es (emit sep (writeExpr e t)))"

definition unitToCH :: "string \<Rightarrow> string" where
  "unitToCH u =
    (if u = ''s'' then ''SECOND'' else if u = ''m'' then ''MINUTE'' else if u = ''h'' then ''HOUR''
     else if u = ''d'' then ''DAY'' else if u = ''w'' then ''WEEK'' else map ascii_upper u)"

definition writeWhere :: "Query \<Rightarrow> chTranslator \<Rightarrow> chTranslator" where
  "writeWhere q t0 =
    (let t1 = emit (''WHERE tenant_id = $1'' @ nl) t0;
         (count, unit) = (case q_Over q of None \<Rightarrow> (defaultOverHours, ''h'')
                          | Some d \<Rightarrow> (dur_Count d, dur_Unit d));
         t2 = emit (''  AND observed_at >= now() - INTERVAL '' @ itoa count @ '' '' @ unitToCH unit @ nl) t1
     in case q_Filter q of
          None \<Rightarrow> t2
        | Some e \<Rightarrow> emit nl (writeExpr e (emit ''  AND '' t2)))"

definition writeGroupBy :: "Query \<Rightarrow> chTranslator \<Rightarrow> chTranslator" where
  "writeGroupBy q t =
    (if q_GroupBy q = [] then t
     else emit nl (emit (joined '', '' (q_GroupBy q)) (emit ''GROUP BY '' t)))"

fun dir_upper :: "Direction \<Rightarrow> string" where
  "dir_upper DirAsc = ''ASC''"
| "dir_upper DirDesc = ''DESC''"

definition writeOrderBy :: "Query \<Rightarrow> chTranslator \<Rightarrow> chTranslator" where
  "writeOrderBy q t =
    (case q_OrderBy q of
       None \<Rightarrow> (case q_GroupBy q of [] \<Rightarrow> t | gb # _ \<Rightarrow> emit (''ORDER BY '' @ gb @ '' ASC'' @ nl) t)
     | Some ob \<Rightarrow> emit (''ORDER BY '' @ ob_Field ob @ '' '' @ dir_upper (ob_Direction ob) @ nl) t)"

definition writeLimit :: "Query \<Rightarrow> chTranslator \<Rightarrow> chTranslator" where
  "writeLimit q t =
    emit (''LIMIT '' @ itoa (case q_Limit q of None \<Rightarrow> defaultLimit | Some n \<Rightarrow> n)) t"

definition TranslateClickHouse ::
    "Query option \<Rightarrow> Registry option \<Rightarrow> string \<Rightarrow> (netql_error, Translation) result" where
  "TranslateClickHouse qo rego tenantID =
    (case Check qo rego of
       Some e \<Rightarrow> Inl e
     | None \<Rightarrow>
         (let q = the qo; spec = the (reg_Get (the rego) (q_Metric q))
          in if ms_Backend spec \<noteq> BackendClickHouse
             then Inl (TranslateError (WrongBackend (q_Metric q) (ms_Backend spec)))
             else
               (let t0 = \<lparr>ch_sb = [], ch_args = [ArgString tenantID], ch_spec = spec\<rparr>;
                    t = writeLimit q (writeOrderBy q (writeGroupBy q (writeWhere q
                          (writeFrom (writeSelect q t0)))))
                in Inr \<lparr>tr_SQL = ch_sb t, tr_Args = ch_args t, tr_Metric = spec\<rparr>)))"

section \<open>The specification: fragments\<close>

text \<open>Fixed text, a piece of the metric's registry entry, an identifier of the query that the
  registry lists, a number and a reference to a bound argument.\<close>

datatype frag = Fixed string | Registered string | Selected string | Num int | Unit string | Ph nat

fun frag_text :: "frag \<Rightarrow> string" where
  "frag_text (Fixed s) = s"
| "frag_text (Registered s) = s"
| "frag_text (Selected s) = s"
| "frag_text (Num n) = itoa n"
| "frag_text (Unit u) = unitToCH u"
| "frag_text (Ph n) = placeholder n"

definition frags_text :: "frag list \<Rightarrow> string" where
  "frags_text fs = concat (map frag_text fs)"

fun placeholders :: "frag list \<Rightarrow> nat list" where
  "placeholders [] = []"
| "placeholders (Ph n # fs) = n # placeholders fs"
| "placeholders (_ # fs) = placeholders fs"

text \<open>The literals that a predicate binds.\<close>

fun value_args :: "Value \<Rightarrow> Arg list" where
  "value_args (ValString s) = [ArgString s]"
| "value_args (ValNumber n) = [ArgNumber n]"
| "value_args (ValStringList ss) = map ArgString ss"
| "value_args (ValNumberList ns) = map ArgNumber ns"

definition pred_args :: "Predicate \<Rightarrow> Arg list" where
  "pred_args p =
    (case pr_Op p of
       OpIn \<Rightarrow> (case pr_Value p of ValStringList ss \<Rightarrow> map ArgString ss
                | ValNumberList ns \<Rightarrow> map ArgNumber ns | _ \<Rightarrow> [])
     | OpContains \<Rightarrow> [ArgString (val_String (pr_Value p))]
     | OpMatches \<Rightarrow> [ArgString (val_String (pr_Value p))]
     | _ \<Rightarrow> (case pr_Value p of ValString s \<Rightarrow> [ArgString s] | ValNumber n \<Rightarrow> [ArgNumber n] | _ \<Rightarrow> []))"

definition expr_args :: "Expr \<Rightarrow> Arg list" where
  "expr_args e = concat (map pred_args (predicates e))"

fun comma_frags :: "frag list \<Rightarrow> frag list" where
  "comma_frags [] = []"
| "comma_frags [f] = [f]"
| "comma_frags (f # fs) = f # Fixed '', '' # comma_frags fs"

text \<open>\<open>n\<close> is the number of arguments bound so far.\<close>

definition pred_frags :: "MetricSpec \<Rightarrow> nat \<Rightarrow> Predicate \<Rightarrow> frag list" where
  "pred_frags spec n p =
    (let col = Registered (filter_column spec (pr_Field p)); k = length (pred_args p)
     in case pr_Op p of
          OpIn \<Rightarrow>
            (case pr_Value p of ValString _ \<Rightarrow> [] | ValNumber _ \<Rightarrow> []
             | _ \<Rightarrow> col # Fixed '' IN ('' #
                 comma_frags (map Ph (sort_key placeholder [Suc n..<Suc n + k])) @ [Fixed '')''])
        | OpContains \<Rightarrow> [Fixed ''position('', col, Fixed '', '', Ph (n + k), Fixed '') > 0'']
        | OpMatches \<Rightarrow> [Fixed ''match('', col, Fixed '', '', Ph (n + k), Fixed '')'']
        | op \<Rightarrow> [col, Fixed '' '', Fixed (op_text op), Fixed '' '', Ph (n + k)])"

fun expr_frags :: "MetricSpec \<Rightarrow> nat \<Rightarrow> Expr \<Rightarrow> frag list"
and join_frags :: "MetricSpec \<Rightarrow> nat \<Rightarrow> string \<Rightarrow> Expr list \<Rightarrow> frag list" where
  "expr_frags spec n (EPred p _) = pred_frags spec n p"
| "expr_frags spec n (EAnd es _) =
    (if es = [] then [] else Fixed ''('' # join_frags spec n '' AND '' es @ [Fixed '')''])"
| "expr_frags spec n (EOr es _) =
    (if es = [] then [] else Fixed ''('' # join_frags spec n '' OR '' es @ [Fixed '')''])"
| "expr_frags spec n (ENot e _) = Fixed ''NOT ('' # expr_frags spec n e @ [Fixed '')'']"
| "join_frags spec n sep [] = []"
| "join_frags spec n sep (e # es) =
    (if es = [] then expr_frags spec n e
     else expr_frags spec n e @ Fixed sep # join_frags spec (n + length (expr_args e)) sep es)"

definition query_frags :: "Query \<Rightarrow> MetricSpec \<Rightarrow> frag list" where
  "query_frags q spec =
    Fixed (''SELECT'' @ nl)
    # concat (map (\<lambda>gb. [Fixed ''  '', Registered (group_column spec gb), Fixed '' AS '',
                          Selected gb, Fixed ('','' @ nl)]) (q_GroupBy q))
    @ [Fixed ''  '', Registered (ms_Selector spec), Fixed '' AS '', Registered (ms_Name spec), Fixed nl,
       Fixed ''FROM '', Registered (ms_Source spec), Fixed nl,
       Fixed ''WHERE tenant_id = '', Ph 1, Fixed nl,
       Fixed ''  AND observed_at >= now() - INTERVAL '']
    @ (case q_Over q of None \<Rightarrow> [Num defaultOverHours, Fixed '' '', Unit ''h'']
       | Some d \<Rightarrow> [Num (dur_Count d), Fixed '' '', Unit (dur_Unit d)])
    @ [Fixed nl]
    @ (case q_Filter q of None \<Rightarrow> [] | Some e \<Rightarrow> Fixed ''  AND '' # expr_frags spec 1 e @ [Fixed nl])
    @ (if q_GroupBy q = [] then []
       else Fixed ''GROUP BY '' # comma_frags (map Selected (q_GroupBy q)) @ [Fixed nl])
    @ (case q_OrderBy q of
         None \<Rightarrow> (case q_GroupBy q of [] \<Rightarrow> []
                  | gb # _ \<Rightarrow> [Fixed ''ORDER BY '', Selected gb, Fixed '' ASC'', Fixed nl])
       | Some ob \<Rightarrow> [Fixed ''ORDER BY '', Selected (ob_Field ob), Fixed '' '',
           Fixed (dir_upper (ob_Direction ob)), Fixed nl])
    @ [Fixed ''LIMIT '', Num (case q_Limit q of None \<Rightarrow> defaultLimit | Some n \<Rightarrow> n)]"

section \<open>The writers implement the fragments\<close>

definition extend :: "frag list \<Rightarrow> Arg list \<Rightarrow> chTranslator \<Rightarrow> chTranslator" where
  "extend fs as t = t\<lparr>ch_sb := ch_sb t @ frags_text fs, ch_args := ch_args t @ as\<rparr>"

lemma extend_simps [simp]:
  "ch_sb (extend fs as t) = ch_sb t @ frags_text fs" "ch_args (extend fs as t) = ch_args t @ as"
  "ch_spec (extend fs as t) = ch_spec t"
  by (simp_all add: extend_def)

lemma frags_text_simps [simp]:
  "frags_text [] = []" "frags_text (f # fs) = frag_text f @ frags_text fs"
  "frags_text (fs @ gs) = frags_text fs @ frags_text gs"
  by (simp_all add: frags_text_def)

lemma extend_extend [simp]: "extend gs bs (extend fs as t) = extend (fs @ gs) (as @ bs) t"
  by (simp add: extend_def)

lemma extend_Nil [simp]: "extend [] [] t = t"
  by (simp add: extend_def)

lemma emit_extend: "emit s t = extend [Fixed s] [] t"
  by (simp add: emit_def extend_def)

lemma bind_extend: "bind a t = extend [] [a] t"
  by (simp add: bind_def extend_def)

lemma emit_frags: "s = frags_text fs \<Longrightarrow> emit s t = extend fs [] t"
  by (simp add: emit_def extend_def)

lemma map_sort_key: "sort (map f xs) = map f (sort_key f xs)"
  by (rule properties_for_sort) simp_all

lemma joined_comma_frags: "joined '', '' (map frag_text fs) = frags_text (comma_frags fs)"
  by (induction fs rule: comma_frags.induct) auto

lemma bind_all_extend:
  "bind_all as t =
   (map placeholder [Suc (length (ch_args t))..<Suc (length (ch_args t)) + length as], extend [] as t)"
proof (induction as arbitrary: t)
  case (Cons a as)
  have "[Suc (length (ch_args t))..<Suc (length (ch_args t)) + length (a # as)] =
      Suc (length (ch_args t)) # [Suc (Suc (length (ch_args t)))..<Suc (Suc (length (ch_args t))) + length as]"
    by (simp add: upt_rec)
  then show ?case by (simp add: Cons.IH bind_extend Let_def)
qed simp

lemma list_frags:
  "joined '', '' (sort (map placeholder ns)) = frags_text (comma_frags (map Ph (sort_key placeholder ns)))"
  by (simp add: map_sort_key joined_comma_frags [symmetric] comp_def)

lemma bindList_extend:
  "pr_Op p = OpIn \<Longrightarrow> bindList (filter_column (ch_spec t) (pr_Field p)) (pr_Value p) t =
   extend (pred_frags (ch_spec t) (length (ch_args t)) p) (pred_args p) t"
  by (cases "pr_Value p")
    (simp_all add: bindList_def pred_frags_def pred_args_def bind_all_extend Let_def emit_def extend_def
      list_frags del: upt_Suc)

lemma writePredicate_extend:
  "writePredicate p t = extend (pred_frags (ch_spec t) (length (ch_args t)) p) (pred_args p) t"
proof (cases "pr_Op p = OpIn")
  case True
  then show ?thesis using bindList_extend [OF True, of t] by (simp add: writePredicate_def)
next
  case False
  then show ?thesis
    by (cases "pr_Op p"; cases "pr_Value p")
      (simp_all add: writePredicate_def bindScalar_def pred_frags_def pred_args_def emit_def bind_def
        extend_def Let_def)
qed

lemma concat_predicates: "concat (map pred_args (concat (map predicates es))) = concat (map expr_args es)"
  by (induction es) (simp_all add: expr_args_def)

lemma expr_args_simps [simp]:
  "expr_args (EPred p k) = pred_args p"
  "expr_args (EAnd es k) = concat (map expr_args es)"
  "expr_args (EOr es k) = concat (map expr_args es)"
  "expr_args (ENot e k) = expr_args e"
  using concat_predicates by (simp_all add: expr_args_def)

lemma writeExpr_extend:
  "writeExpr e t = extend (expr_frags (ch_spec t) (length (ch_args t)) e) (expr_args e) t"
  "writeJoin sep es t =
     extend (join_frags (ch_spec t) (length (ch_args t)) sep es) (concat (map expr_args es)) t"
  by (induction e t and sep es t rule: writeExpr_writeJoin.induct)
    (simp_all add: writePredicate_extend emit_extend)

lemma writeSelect_extend:
  "writeSelect q t = extend (Fixed (''SELECT'' @ nl)
    # concat (map (\<lambda>gb. [Fixed ''  '', Registered (group_column (ch_spec t) gb), Fixed '' AS '',
                          Selected gb, Fixed ('','' @ nl)]) (q_GroupBy q))
    @ [Fixed ''  '', Registered (ms_Selector (ch_spec t)), Fixed '' AS '',
       Registered (ms_Name (ch_spec t)), Fixed nl]) [] t"
proof -
  have "fold (\<lambda>gb t. emit (''  '' @ group_column (ch_spec t) gb @ '' AS '' @ gb @ '','' @ nl) t) gs u =
      extend (concat (map (\<lambda>gb. [Fixed ''  '', Registered (group_column (ch_spec u) gb), Fixed '' AS '',
        Selected gb, Fixed ('','' @ nl)]) gs)) [] u" for gs u
    by (induction gs arbitrary: u) (simp_all add: emit_def extend_def)
  then show ?thesis by (simp add: writeSelect_def Let_def emit_def extend_def)
qed

lemma placeholder_1: "placeholder (Suc 0) = ''$1''"
  by code_simp

lemma query_frags_written:
  assumes "ch_args t = [a]"
  shows "writeLimit q (writeOrderBy q (writeGroupBy q (writeWhere q (writeFrom (writeSelect q t))))) =
    extend (query_frags q (ch_spec t)) (case q_Filter q of None \<Rightarrow> [] | Some e \<Rightarrow> expr_args e) t"
proof -
  have where_ext: "writeWhere q u =
      extend ([Fixed ''WHERE tenant_id = '', Ph 1, Fixed nl, Fixed ''  AND observed_at >= now() - INTERVAL '']
        @ (case q_Over q of None \<Rightarrow> [Num defaultOverHours, Fixed '' '', Unit ''h'']
           | Some d \<Rightarrow> [Num (dur_Count d), Fixed '' '', Unit (dur_Unit d)])
        @ [Fixed nl]
        @ (case q_Filter q of None \<Rightarrow> []
           | Some e \<Rightarrow> Fixed ''  AND '' # expr_frags (ch_spec u) (length (ch_args u)) e @ [Fixed nl]))
        (case q_Filter q of None \<Rightarrow> [] | Some e \<Rightarrow> expr_args e) u" for u
    by (cases "q_Over q"; cases "q_Filter q")
      (simp_all add: writeWhere_def Let_def emit_extend writeExpr_extend,
       simp_all add: extend_def placeholder_1)
  have from_ext: "writeFrom u = extend [Fixed ''FROM '', Registered (ms_Source (ch_spec u)), Fixed nl] [] u" for u
    by (simp add: writeFrom_def emit_def extend_def)
  have group_ext: "writeGroupBy q u = extend (if q_GroupBy q = [] then []
       else Fixed ''GROUP BY '' # comma_frags (map Selected (q_GroupBy q)) @ [Fixed nl]) [] u" for u
    using joined_comma_frags [of "map Selected (q_GroupBy q)"]
    by (simp add: writeGroupBy_def emit_def extend_def comp_def)
  have order_ext: "writeOrderBy q u = extend (case q_OrderBy q of
         None \<Rightarrow> (case q_GroupBy q of [] \<Rightarrow> []
                  | gb # _ \<Rightarrow> [Fixed ''ORDER BY '', Selected gb, Fixed '' ASC'', Fixed nl])
       | Some ob \<Rightarrow> [Fixed ''ORDER BY '', Selected (ob_Field ob), Fixed '' '',
           Fixed (dir_upper (ob_Direction ob)), Fixed nl]) [] u" for u
    by (simp add: writeOrderBy_def emit_def extend_def split: option.split list.split)
  have limit_ext: "writeLimit q u = extend [Fixed ''LIMIT '',
      Num (case q_Limit q of None \<Rightarrow> defaultLimit | Some n \<Rightarrow> n)] [] u" for u
    by (simp add: writeLimit_def emit_def extend_def)
  show ?thesis
    unfolding limit_ext order_ext group_ext where_ext from_ext writeSelect_extend query_frags_def
    by (cases "q_Filter q") (simp_all add: assms)
qed

declare writeExpr.simps [simp del] writeJoin.simps [simp del]

lemma TranslateClickHouse_frags:
  "TranslateClickHouse (Some q) (Some reg) tenant = Inr tr \<longleftrightarrow>
    (\<exists>spec. reg_Get reg (q_Metric q) = Some spec \<and> well_typed q spec \<and> ms_Backend spec = BackendClickHouse
      \<and> tr = \<lparr>tr_SQL = frags_text (query_frags q spec),
              tr_Args = ArgString tenant # (case q_Filter q of None \<Rightarrow> [] | Some e \<Rightarrow> expr_args e),
              tr_Metric = spec\<rparr>)"
proof -
  let ?t0 = "\<lambda>spec. \<lparr>ch_sb = [], ch_args = [ArgString tenant], ch_spec = spec\<rparr>"
  have w: "writeLimit q (writeOrderBy q (writeGroupBy q (writeWhere q (writeFrom (writeSelect q (?t0 spec)))))) =
    extend (query_frags q spec) (case q_Filter q of None \<Rightarrow> [] | Some e \<Rightarrow> expr_args e) (?t0 spec)" for spec
    using query_frags_written [of "?t0 spec" "ArgString tenant" q] by simp
  show ?thesis
  proof (cases "Check (Some q) (Some reg)")
    case None
    then obtain spec where "reg_Get reg (q_Metric q) = Some spec" "well_typed q spec"
      using Check_None by blast
    then show ?thesis using None by (auto simp: TranslateClickHouse_def Let_def w)
  next
    case (Some e)
    then have "\<not> (\<exists>spec. reg_Get reg (q_Metric q) = Some spec \<and> well_typed q spec)"
      using Check_None by (metis option.distinct(1))
    then show ?thesis using Some by (auto simp: TranslateClickHouse_def)
  qed
qed

section \<open>Placeholders and arguments\<close>

lemma placeholders_append [simp]: "placeholders (fs @ gs) = placeholders fs @ placeholders gs"
  by (induction fs rule: placeholders.induct) auto

lemma placeholders_comma [simp]: "placeholders (comma_frags fs) = placeholders fs"
  by (induction fs rule: comma_frags.induct) (auto, (metis placeholders.simps append.simps(2) placeholders_append append_Nil)+)

lemma placeholders_Ph [simp]: "placeholders (map Ph ns) = ns"
  by (induction ns) auto

lemma placeholders_Selected [simp]: "placeholders (map Selected gs) = []"
  by (induction gs) auto

lemma typed_pred_kinds:
  "typed_pred spec p \<Longrightarrow>
   (pr_Op p = OpIn \<longleftrightarrow> val_Kind (pr_Value p) \<in> {KStringList, KNumberList}) \<and>
   (pr_Op p \<in> {OpContains, OpMatches} \<longrightarrow> val_Kind (pr_Value p) = KString)"
proof -
  assume "typed_pred spec p"
  then obtain f :: FieldSpec where "opCompatible (pr_Op p) (fs_Kind f) (val_Kind (pr_Value p))"
    by (auto simp: typed_pred_def)
  then show ?thesis
    by (cases "fs_Kind f"; cases "pr_Op p") (auto split: if_splits)
qed

text \<open>A predicate of the right kinds binds the literals of its value, and its fragments refer to
  each of them once.\<close>

lemma typed_pred_args: "typed_pred spec p \<Longrightarrow> pred_args p = value_args (pr_Value p)"
  using typed_pred_kinds [of spec p]
  by (cases "pr_Op p"; cases "pr_Value p") (auto simp: pred_args_def)

lemma pred_placeholders:
  assumes "typed_pred spec p"
  shows "mset (placeholders (pred_frags s n p)) = mset [Suc n..<Suc n + length (pred_args p)]"
proof (cases "pr_Op p = OpIn")
  case True
  then show ?thesis using typed_pred_kinds [OF assms]
    by (cases "pr_Value p") (simp_all add: pred_frags_def pred_args_def Let_def del: upt_Suc)
next
  case False
  then have "length (pred_args p) = 1"
    using typed_pred_kinds [OF assms] by (cases "pr_Op p"; cases "pr_Value p") (auto simp: pred_args_def)
  then show ?thesis using False by (cases "pr_Op p") (simp_all add: pred_frags_def Let_def)
qed

lemma mset_upt_append: "mset [i..<i + a] + mset [i + a..<i + a + b] = mset [i..<i + (a + b)]"
  by (metis add.assoc mset_append upt_add_eq_append le_add1)

lemma expr_placeholders:
  "\<forall>p \<in> set (predicates e). typed_pred spec p \<Longrightarrow>
   mset (placeholders (expr_frags s n e)) = mset [Suc n..<Suc n + length (expr_args e)]"
  "\<forall>e \<in> set es. \<forall>p \<in> set (predicates e). typed_pred spec p \<Longrightarrow>
   mset (placeholders (join_frags s n sep es)) = mset [Suc n..<Suc n + length (concat (map expr_args es))]"
proof (induction s n e and s n sep es rule: expr_frags_join_frags.induct)
  case (1 s n p k)
  then show ?case by (simp add: pred_placeholders)
next
  case (6 s n sep e es)
  show ?case
  proof (cases "es = []")
    case True
    then show ?thesis using 6 by simp
  next
    case False
    then have "mset (placeholders (expr_frags s n e)) = mset [Suc n..<Suc n + length (expr_args e)]"
      "mset (placeholders (join_frags s (n + length (expr_args e)) sep es)) =
       mset [Suc n + length (expr_args e)..<Suc n + length (expr_args e) + length (concat (map expr_args es))]"
      using 6 by (simp_all del: upt_Suc)
    then show ?thesis using False mset_upt_append [of "Suc n" "length (expr_args e)"]
      by (simp del: upt_Suc)
  qed
qed (auto simp del: upt_Suc)

lemma placeholders_none: "\<forall>f \<in> set fs. \<forall>n. f \<noteq> Ph n \<Longrightarrow> placeholders fs = []"
  by (induction fs rule: placeholders.induct) auto

lemma query_placeholders:
  assumes "well_typed q spec"
  shows "mset (placeholders (query_frags q spec)) =
    mset [1..<Suc (Suc (length (case q_Filter q of None \<Rightarrow> [] | Some e \<Rightarrow> expr_args e)))]"
proof -
  have "placeholders (concat (map (\<lambda>gb. [Fixed ''  '', Registered (group_column spec gb), Fixed '' AS '',
      Selected gb, Fixed ('','' @ nl)]) (q_GroupBy q))) = []"
    by (rule placeholders_none) auto
  moreover have "placeholders (case q_Over q of None \<Rightarrow> [Num defaultOverHours, Fixed '' '', Unit ''h'']
      | Some d \<Rightarrow> [Num (dur_Count d), Fixed '' '', Unit (dur_Unit d)]) = []"
    by (rule placeholders_none) (auto split: option.splits)
  moreover have "placeholders (case q_OrderBy q of
         None \<Rightarrow> (case q_GroupBy q of [] \<Rightarrow> []
                  | gb # _ \<Rightarrow> [Fixed ''ORDER BY '', Selected gb, Fixed '' ASC'', Fixed nl])
       | Some ob \<Rightarrow> [Fixed ''ORDER BY '', Selected (ob_Field ob), Fixed '' '',
           Fixed (dir_upper (ob_Direction ob)), Fixed nl]) = []"
    by (rule placeholders_none) (auto split: option.splits list.splits)
  moreover have "mset (placeholders (case q_Filter q of None \<Rightarrow> []
      | Some e \<Rightarrow> Fixed ''  AND '' # expr_frags spec 1 e @ [Fixed nl])) =
    mset [2..<Suc (Suc (length (case q_Filter q of None \<Rightarrow> [] | Some e \<Rightarrow> expr_args e)))]"
    using assms expr_placeholders(1) [of _ spec spec 1]
    by (auto simp: well_typed_def numeral_2_eq_2 simp del: upt_Suc split: option.splits)
  moreover have "[1..<Suc (Suc m)] = 1 # [2..<Suc (Suc m)]" for m
    by (simp add: upt_conv_Cons numeral_2_eq_2 del: upt_Suc)
  ultimately show ?thesis
    by (simp add: query_frags_def del: upt_Suc mset_upt One_nat_def)
qed

section \<open>Independence of the literals\<close>

fun blank_value :: "Value \<Rightarrow> Value" where
  "blank_value (ValString _) = ValString []"
| "blank_value (ValNumber _) = ValNumber (FFin 0)"
| "blank_value (ValStringList ss) = ValStringList (map (\<lambda>_. []) ss)"
| "blank_value (ValNumberList ns) = ValNumberList (map (\<lambda>_. FFin 0) ns)"

definition blank_pred :: "Predicate \<Rightarrow> Predicate" where
  "blank_pred p = p\<lparr>pr_Value := blank_value (pr_Value p)\<rparr>"

fun blank_expr :: "Expr \<Rightarrow> Expr" where
  "blank_expr (EPred p k) = EPred (blank_pred p) k"
| "blank_expr (EAnd es k) = EAnd (map blank_expr es) k"
| "blank_expr (EOr es k) = EOr (map blank_expr es) k"
| "blank_expr (ENot e k) = ENot (blank_expr e) k"

definition blank_query :: "Query \<Rightarrow> Query" where
  "blank_query q = q\<lparr>q_Filter := map_option blank_expr (q_Filter q)\<rparr>"

lemma blank_pred_args: "length (pred_args (blank_pred p)) = length (pred_args p)"
  by (cases "pr_Op p"; cases "pr_Value p") (simp_all add: pred_args_def blank_pred_def)

lemma blank_pred_frags: "pred_frags s n (blank_pred p) = pred_frags s n p"
  using blank_pred_args [of p]
  by (cases "pr_Op p"; cases "pr_Value p") (simp_all add: pred_frags_def blank_pred_def Let_def)

lemma predicates_blank: "predicates (blank_expr e) = map blank_pred (predicates e)"
  by (induction e) (simp_all add: map_concat comp_def cong: map_cong)

lemma blank_expr_args: "length (expr_args (blank_expr e)) = length (expr_args e)"
  by (simp add: expr_args_def predicates_blank length_concat comp_def blank_pred_args)

lemma blank_expr_frags:
  "expr_frags s n (blank_expr e) = expr_frags s n e"
  "join_frags s n sep (map blank_expr es) = join_frags s n sep es"
  by (induction s n e and s n sep es rule: expr_frags_join_frags.induct)
    (simp_all add: blank_pred_frags blank_expr_args)

lemma blank_query_frags: "query_frags (blank_query q) spec = query_frags q spec"
  by (cases "q_Filter q"; cases "q_OrderBy q"; cases "q_GroupBy q")
    (simp_all add: query_frags_def blank_query_def blank_expr_frags)

lemma val_Kind_blank [simp]: "val_Kind (blank_value v) = val_Kind v"
  by (cases v) auto

lemma typed_pred_blank: "typed_pred spec (blank_pred p) = typed_pred spec p"
  by (simp add: typed_pred_def blank_pred_def)

lemma well_typed_blank: "well_typed (blank_query q) spec = well_typed q spec"
  by (cases "q_Filter q") (simp_all add: well_typed_def blank_query_def predicates_blank typed_pred_blank)

section \<open>The identifiers of the output\<close>

definition ch_fixed_texts :: "string list" where
  "ch_fixed_texts = [''SELECT'' @ nl, ''  '', '' AS '', '','' @ nl, nl, ''FROM '',
     ''WHERE tenant_id = '', ''  AND observed_at >= now() - INTERVAL '', '' '', ''  AND '',
     ''GROUP BY '', '', '', ''ORDER BY '', '' ASC'', ''ASC'', ''DESC'', ''LIMIT '', ''('', '')'',
     '' AND '', '' OR '', ''NOT ('', '' IN ('', ''position('', '') > 0'', ''match('',
     ''='', ''!='', ''<'', ''<='', ''>'', ''>='']"

fun frag_allowed :: "Query \<Rightarrow> MetricSpec \<Rightarrow> frag \<Rightarrow> bool" where
  "frag_allowed q spec (Fixed s) = (s \<in> set ch_fixed_texts)"
| "frag_allowed q spec (Registered s) =
    (s \<in> {ms_Selector spec, ms_Name spec, ms_Source spec} \<union> set (map snd (ms_GroupBy spec))
       \<union> set (map (fs_Column \<circ> snd) (ms_Filter spec)))"
| "frag_allowed q spec (Selected s) = (s = q_Metric q \<or> s \<in> set (map fst (ms_GroupBy spec)))"
| "frag_allowed q spec (Num n) = (n \<in> {defaultOverHours, defaultLimit}
     \<or> q_Limit q = Some n \<or> (\<exists>d. q_Over q = Some d \<and> n = dur_Count d))"
| "frag_allowed q spec (Unit u) = (u = ''h'' \<or> (\<exists>d. q_Over q = Some d \<and> u = dur_Unit d))"
| "frag_allowed q spec (Ph n) = True"

lemma comma_frags_set: "set (comma_frags fs) \<subseteq> insert (Fixed '', '') (set fs)"
  by (induction fs rule: comma_frags.induct) auto

lemma filter_column_allowed:
  "typed_pred spec p \<Longrightarrow> filter_column spec (pr_Field p) \<in> set (map (fs_Column \<circ> snd) (ms_Filter spec))"
  by (force simp: typed_pred_def filter_column_def dest: map_of_SomeD split: option.splits)

lemma group_column_allowed:
  "gb \<in> dom (map_of (ms_GroupBy spec)) \<Longrightarrow> group_column spec gb \<in> set (map snd (ms_GroupBy spec))"
  by (force simp: group_column_def dom_def dest: map_of_SomeD)

lemma pred_frags_allowed:
  assumes "typed_pred spec p" shows "\<forall>f \<in> set (pred_frags spec n p). frag_allowed q spec f"
proof -
  let ?phs = "map Ph (sort_key placeholder [Suc n..<Suc n + length (pred_args p)])"
  have "\<forall>f \<in> set (comma_frags ?phs). frag_allowed q spec f"
    using comma_frags_set [of ?phs] by (auto simp: ch_fixed_texts_def simp del: upt_Suc)
  then show ?thesis using filter_column_allowed [OF assms]
    by (cases "pr_Op p"; cases "pr_Value p")
      (simp_all add: pred_frags_def Let_def ch_fixed_texts_def del: upt_Suc)
qed

lemma expr_frags_allowed:
  "\<forall>p \<in> set (predicates e). typed_pred spec p \<Longrightarrow> \<forall>f \<in> set (expr_frags spec n e). frag_allowed q spec f"
  "\<forall>e \<in> set es. \<forall>p \<in> set (predicates e). typed_pred spec p \<Longrightarrow> sep \<in> {'' AND '', '' OR ''} \<Longrightarrow>
   \<forall>f \<in> set (join_frags spec n sep es). frag_allowed q spec f"
  by (induction spec n e and spec n sep es rule: expr_frags_join_frags.induct)
    (auto simp: pred_frags_allowed, auto simp: ch_fixed_texts_def)

lemma query_frags_allowed:
  assumes "well_typed q spec" shows "\<forall>f \<in> set (query_frags q spec). frag_allowed q spec f"
proof -
  have sel: "gb \<in> set (q_GroupBy q) \<Longrightarrow> gb \<in> set (map fst (ms_GroupBy spec))" for gb
    using assms by (auto simp: well_typed_def dom_map_of_conv_image_fst)
  have col: "gb \<in> set (q_GroupBy q) \<Longrightarrow> group_column spec gb \<in> set (map snd (ms_GroupBy spec))" for gb
    using assms by (intro group_column_allowed) (auto simp: well_typed_def)
  have ord: "q_OrderBy q = Some ob \<Longrightarrow> frag_allowed q spec (Selected (ob_Field ob))" for ob
    using assms sel by (auto simp: well_typed_def)
  have flt: "q_Filter q = Some e \<Longrightarrow> f \<in> set (expr_frags spec 1 e) \<Longrightarrow> frag_allowed q spec f" for e f
    using assms expr_frags_allowed(1) [of e spec 1 q] by (auto simp: well_typed_def)
  have grp: "\<forall>f \<in> set (comma_frags (map Selected (q_GroupBy q))). frag_allowed q spec f"
    using comma_frags_set [of "map Selected (q_GroupBy q)"] sel by (auto simp: ch_fixed_texts_def)
  have 1: "\<forall>f \<in> set (concat (map (\<lambda>gb. [Fixed ''  '', Registered (group_column spec gb), Fixed '' AS '',
      Selected gb, Fixed ('','' @ nl)]) (q_GroupBy q))). frag_allowed q spec f"
    using sel col by (simp add: ch_fixed_texts_def)
  have 2: "\<forall>f \<in> set (case q_Over q of None \<Rightarrow> [Num defaultOverHours, Fixed '' '', Unit ''h'']
      | Some d \<Rightarrow> [Num (dur_Count d), Fixed '' '', Unit (dur_Unit d)]). frag_allowed q spec f"
    by (cases "q_Over q") (simp_all add: ch_fixed_texts_def)
  have 3: "\<forall>f \<in> set (case q_Filter q of None \<Rightarrow> []
      | Some e \<Rightarrow> Fixed ''  AND '' # expr_frags spec 1 e @ [Fixed nl]). frag_allowed q spec f"
    using flt by (cases "q_Filter q") (auto simp: ch_fixed_texts_def)
  have 4: "\<forall>f \<in> set (if q_GroupBy q = [] then []
      else Fixed ''GROUP BY '' # comma_frags (map Selected (q_GroupBy q)) @ [Fixed nl]). frag_allowed q spec f"
    using grp by (simp add: ch_fixed_texts_def)
  have 5: "\<forall>f \<in> set (case q_OrderBy q of
         None \<Rightarrow> (case q_GroupBy q of [] \<Rightarrow> []
                  | gb # _ \<Rightarrow> [Fixed ''ORDER BY '', Selected gb, Fixed '' ASC'', Fixed nl])
       | Some ob \<Rightarrow> [Fixed ''ORDER BY '', Selected (ob_Field ob), Fixed '' '',
           Fixed (dir_upper (ob_Direction ob)), Fixed nl]). frag_allowed q spec f"
  proof (cases "q_OrderBy q")
    case None
    then show ?thesis using sel by (cases "q_GroupBy q") (simp_all add: ch_fixed_texts_def)
  next
    case (Some ob)
    then show ?thesis using ord [OF Some]
      by (cases "ob_Direction ob") (simp_all add: ch_fixed_texts_def)
  qed
  have 6: "frag_allowed q spec (Num (case q_Limit q of None \<Rightarrow> defaultLimit | Some n \<Rightarrow> n))"
    by (cases "q_Limit q") simp_all
  have 7: "\<forall>f \<in> set [Fixed (''SELECT'' @ nl), Fixed ''  '', Registered (ms_Selector spec), Fixed '' AS '',
      Registered (ms_Name spec), Fixed nl, Fixed ''FROM '', Registered (ms_Source spec), Fixed nl,
      Fixed ''WHERE tenant_id = '', Ph 1, Fixed nl, Fixed ''  AND observed_at >= now() - INTERVAL '',
      Fixed ''LIMIT '']. frag_allowed q spec f"
    by (simp add: ch_fixed_texts_def)
  show ?thesis
    unfolding query_frags_def set_append list.set ball_Un ball_simps using 1 2 3 4 5 6 7 by simp
qed

section \<open>Properties\<close>



definition in_list_query :: Query where
  "in_list_query = \<lparr>q_Metric = ''success_rate'', q_GroupBy = [''pop''],
     q_Filter = Some (EPred \<lparr>pr_Field = ''pop'', pr_Op = OpIn,
       pr_Value = ValStringList [''pop-lhr-01'', ''pop-fra-01'', ''pop-iad-01''], pr_Pos = 26\<rparr> 26),
     q_Over = Some \<lparr>dur_Count = 6, dur_Unit = ''h'', dur_Pos = 77\<rparr>, q_Step = None,
     q_OrderBy = None, q_Limit = None, q_Pos = 0\<rparr>"

text \<open>The translation that the repository stores for this query.\<close>

lemma in_list_query_sql:
  "TranslateClickHouse (Some in_list_query) (Some DefaultRegistry) ''t1'' =
    Inr \<lparr>tr_SQL = ''SELECT'' @ nl @ ''  pop_id AS pop,'' @ nl @
       ''  countIf(error_kind = '' @ [CHR 0x27, CHR 0x27] @ '') / count(*) AS success_rate'' @ nl @
       ''FROM canary_results'' @ nl @ ''WHERE tenant_id = $1'' @ nl @
       ''  AND observed_at >= now() - INTERVAL 6 HOUR'' @ nl @
       ''  AND pop_id IN ($2, $3, $4)'' @ nl @ ''GROUP BY pop'' @ nl @ ''ORDER BY pop ASC'' @ nl @
       ''LIMIT 10000'',
       tr_Args = map ArgString [''t1'', ''pop-lhr-01'', ''pop-fra-01'', ''pop-iad-01''],
       tr_Metric = the (reg_Get DefaultRegistry ''success_rate'')\<rparr>"
  by code_simp



end
