(* ===== verification/NetqlProm.thy ===== *)
theory NetqlProm
  imports NetqlRegistry
begin

text \<open>
  The PromQL translator of package netql (pkg/netql/translate_prom.go).  PromQL has no bound
  arguments: the literals of the query become quoted strings of the output, so the lemmas are about
  quoting and escaping, about which filters can be expressed, and about the template that the
  matchers are put into.
\<close>

section \<open>Quoting and escaping\<close>

definition quote :: "string \<Rightarrow> string" where
  "quote s = CHR 0x22 #
     concat (map (\<lambda>c. if c = CHR 0x5C \<or> c = CHR 0x22 then [CHR 0x5C, c] else [c]) s) @ [CHR 0x22]"

definition regex_meta :: "string" where
  "regex_meta = CHR 0x5C # ''.+*?()|[]{}^$''"

definition regexEscape :: "string \<Rightarrow> string" where
  "regexEscape s = concat (map (\<lambda>c. if c \<in> set regex_meta then [CHR 0x5C, c] else [c]) s)"

section \<open>The translator\<close>

record promTranslator =
  pt_spec :: MetricSpec
  pt_matchers :: "string list"
  pt_byClause :: string
  pt_rangeStr :: string

definition defaultPromRange :: string where "defaultPromRange = ''5m''"

definition prom_label :: "MetricSpec \<Rightarrow> string \<Rightarrow> string option" where
  "prom_label spec f =
    (case map_of (ms_GroupBy spec) f of
       Some l \<Rightarrow> Some l
     | None \<Rightarrow> map_option fs_Column (map_of (ms_Filter spec) f))"

definition add_matcher :: "string \<Rightarrow> promTranslator \<Rightarrow> promTranslator" where
  "add_matcher m t = t\<lparr>pt_matchers := pt_matchers t @ [m]\<rparr>"

definition collectPredicate :: "Predicate \<Rightarrow> promTranslator \<Rightarrow> (netql_error, promTranslator) result" where
  "collectPredicate p t =
    (case prom_label (pt_spec t) (pr_Field p) of
       None \<Rightarrow> Inl (TranslateError (UnknownLabel (pr_Field p)))
     | Some label \<Rightarrow>
         (case pr_Op p of
            OpEq \<Rightarrow> Inr (add_matcher (label @ ''='' @ quote (val_String (pr_Value p))) t)
          | OpNe \<Rightarrow> Inr (add_matcher (label @ ''!='' @ quote (val_String (pr_Value p))) t)
          | OpMatches \<Rightarrow> Inr (add_matcher (label @ ''=~'' @ quote (val_String (pr_Value p))) t)
          | OpContains \<Rightarrow> Inr (add_matcher (label @ ''=~'' @
              quote (''.*'' @ regexEscape (val_String (pr_Value p)) @ ''.*'')) t)
          | op \<Rightarrow> Inl (TranslateError (NotExpressible op))))"

fun collectLabels :: "Expr \<Rightarrow> promTranslator \<Rightarrow> (netql_error, promTranslator) result"
and collectAll :: "Expr list \<Rightarrow> promTranslator \<Rightarrow> (netql_error, promTranslator) result" where
  "collectLabels (EPred p _) t = collectPredicate p t"
| "collectLabels (EAnd es _) t = collectAll es t"
| "collectLabels (EOr es _) t = (if es = [] then Inr t else Inl (TranslateError PromNoOr))"
| "collectLabels (ENot e _) t = Inl (TranslateError PromNoNot)"
| "collectAll [] t = Inr t"
| "collectAll (e # es) t =
    (case collectLabels e t of Inl err \<Rightarrow> Inl err | Inr t1 \<Rightarrow> collectAll es t1)"

definition buildByClause :: "Query \<Rightarrow> MetricSpec \<Rightarrow> string" where
  "buildByClause q spec =
    (if q_GroupBy q = [] then []
     else ''by ('' @ joined '', '' (map (\<lambda>gb. case map_of (ms_GroupBy spec) gb of
            Some v \<Rightarrow> v | None \<Rightarrow> gb) (q_GroupBy q)) @ '')'')"

definition buildRange :: "Duration option \<Rightarrow> string" where
  "buildRange d = (case d of None \<Rightarrow> defaultPromRange | Some x \<Rightarrow> itoa (dur_Count x) @ dur_Unit x)"

definition prom_emit :: "PromSpec \<Rightarrow> promTranslator \<Rightarrow> string" where
  "prom_emit p t =
    (let matcherStr = (if pt_matchers t = [] then []
           else ''{'' @ joined '','' (sort (pt_matchers t)) @ ''}'');
         ranged = ps_Function p @ ''('' @ ps_MetricName p @ matcherStr @ ''['' @ pt_rangeStr t @ ''])''
     in if f64_lt (FFin 0) (ps_Quantile p) then
          (let byLE = (if pt_byClause t = [] then ''le''
                 else ''le, '' @ trim_suffix (trim_prefix (pt_byClause t) ''by ('') '')'');
               aggInner = ps_Aggregator p @ '' by ('' @ byLE @ '') ('' @ ranged @ '')''
           in ''histogram_quantile('' @ format_float (ps_Quantile p) @ '', '' @ aggInner @ '')'')
        else
          (let inner = (if ps_Function p = [] then ps_MetricName p @ matcherStr else ranged)
           in if pt_byClause t = [] then ps_Aggregator p @ ''('' @ inner @ '')''
              else ps_Aggregator p @ '' '' @ pt_byClause t @ '' ('' @ inner @ '')''))"

definition TranslatePrometheus :: "Query option \<Rightarrow> Registry option \<Rightarrow> (netql_error, string) result" where
  "TranslatePrometheus qo rego =
    (case Check qo rego of
       Some e \<Rightarrow> Inl e
     | None \<Rightarrow>
         (let q = the qo; spec = the (reg_Get (the rego) (q_Metric q))
          in if ms_Backend spec \<noteq> BackendPrometheus
             then Inl (TranslateError (WrongBackend (q_Metric q) (ms_Backend spec)))
             else
               (case ms_Prom spec of
                  None \<Rightarrow> Inl (TranslateError (NoPromSpec (q_Metric q)))
                | Some ps \<Rightarrow>
                    (let t0 = \<lparr>pt_spec = spec, pt_matchers = [], pt_byClause = [], pt_rangeStr = []\<rparr>
                     in case (case q_Filter q of None \<Rightarrow> Inr t0 | Some e \<Rightarrow> collectLabels e t0) of
                          Inl e \<Rightarrow> Inl e
                        | Inr t1 \<Rightarrow> Inr (prom_emit ps (t1\<lparr>pt_byClause := buildByClause q spec,
                            pt_rangeStr := buildRange (q_Over q)\<rparr>))))))"

section \<open>Reading quoted and escaped text\<close>

text \<open>The body of a double-quoted literal up to its closing quote, a backslash taking the next byte
  literally: the literal and the text behind it.\<close>

fun read_body :: "string \<Rightarrow> (string \<times> string) option" where
  "read_body [] = None"
| "read_body (c # s) =
    (if c = CHR 0x22 then Some ([], s)
     else if c = CHR 0x5C then
       (case s of [] \<Rightarrow> None
        | d # s' \<Rightarrow> map_option (\<lambda>(b, r). (d # b, r)) (read_body s'))
     else map_option (\<lambda>(b, r). (c # b, r)) (read_body s))"

fun read_quoted :: "string \<Rightarrow> (string \<times> string) option" where
  "read_quoted [] = None"
| "read_quoted (c # s) = (if c = CHR 0x22 then read_body s else None)"

text \<open>The text that a pattern without operators matches: an unescaped operator has no reading.\<close>

fun regex_literal :: "string \<Rightarrow> string option" where
  "regex_literal [] = Some []"
| "regex_literal (c # s) =
    (if c = CHR 0x5C then
       (case s of [] \<Rightarrow> None
        | d # s' \<Rightarrow> map_option ((#) d) (regex_literal s'))
     else if c \<in> set regex_meta then None
     else map_option ((#) c) (regex_literal s))"

lemma read_body_escaped:
  "read_body (concat (map (\<lambda>c. if c = CHR 0x5C \<or> c = CHR 0x22 then [CHR 0x5C, c] else [c]) s)
     @ CHR 0x22 # rest) = Some (s, rest)"
  by (induction s) auto

lemma read_quoted_quote: "read_quoted (quote s @ rest) = Some (s, rest)"
  by (simp add: quote_def read_body_escaped)

lemma quote_prefix_inject: "quote s @ r = quote s' @ r' \<longleftrightarrow> s = s' \<and> r = r'"
  by (metis Pair_inject option.inject read_quoted_quote)

lemma regex_literal_escape: "regex_literal (regexEscape s) = Some s"
  by (induction s) (auto simp: regexEscape_def regex_meta_def)

lemma regexEscape_inject [simp]: "regexEscape s = regexEscape t \<longleftrightarrow> s = t"
  by (metis option.inject regex_literal_escape)

section \<open>What can be expressed\<close>

text \<open>The conjunctive filters: nested conjunctions of predicates with a label and an operator that
  label matchers have.\<close>

definition expressible_op :: "Op \<Rightarrow> bool" where
  "expressible_op op = (op \<in> {OpEq, OpNe, OpMatches, OpContains})"

fun conjunctive :: "Expr \<Rightarrow> bool" where
  "conjunctive (EPred p _) = expressible_op (pr_Op p)"
| "conjunctive (EAnd es _) = list_all conjunctive es"
| "conjunctive (EOr es _) = (es = [])"
| "conjunctive (ENot e _) = False"

definition matcher_of :: "MetricSpec \<Rightarrow> Predicate \<Rightarrow> string" where
  "matcher_of spec p =
    (let label = the (prom_label spec (pr_Field p)); v = val_String (pr_Value p)
     in case pr_Op p of
          OpEq \<Rightarrow> label @ ''='' @ quote v
        | OpNe \<Rightarrow> label @ ''!='' @ quote v
        | OpMatches \<Rightarrow> label @ ''=~'' @ quote v
        | _ \<Rightarrow> label @ ''=~'' @ quote (''.*'' @ regexEscape v @ ''.*''))"

definition add_matchers :: "string list \<Rightarrow> promTranslator \<Rightarrow> promTranslator" where
  "add_matchers ms t = t\<lparr>pt_matchers := pt_matchers t @ ms\<rparr>"

lemma add_matchers_simps [simp]:
  "add_matchers [] t = t" "add_matchers ms' (add_matchers ms t) = add_matchers (ms @ ms') t"
  "pt_spec (add_matchers ms t) = pt_spec t" "pt_matchers (add_matchers ms t) = pt_matchers t @ ms"
  by (simp_all add: add_matchers_def)

definition labelled :: "MetricSpec \<Rightarrow> Predicate \<Rightarrow> bool" where
  "labelled spec p = (prom_label spec (pr_Field p) \<noteq> None)"

lemma typed_labelled: "typed_pred spec p \<Longrightarrow> labelled spec p"
  by (auto simp: typed_pred_def labelled_def prom_label_def split: option.splits)

lemma collectPredicate_cases:
  assumes "labelled (pt_spec t) p"
  shows "collectPredicate p t =
    (if expressible_op (pr_Op p) then Inr (add_matchers [matcher_of (pt_spec t) p] t)
     else Inl (TranslateError (NotExpressible (pr_Op p))))"
  using assms
  by (cases "pr_Op p")
    (auto simp: collectPredicate_def labelled_def expressible_op_def matcher_of_def add_matcher_def
      add_matchers_def)

lemma collectLabels_conjunctive:
  "conjunctive e \<Longrightarrow> \<forall>p \<in> set (predicates e). labelled (pt_spec t) p \<Longrightarrow>
   collectLabels e t = Inr (add_matchers (map (matcher_of (pt_spec t)) (predicates e)) t)"
  "list_all conjunctive es \<Longrightarrow> \<forall>e \<in> set es. \<forall>p \<in> set (predicates e). labelled (pt_spec t) p \<Longrightarrow>
   collectAll es t = Inr (add_matchers (map (matcher_of (pt_spec t)) (concat (map predicates es))) t)"
  by (induction e t and es t rule: collectLabels_collectAll.induct) (auto simp: collectPredicate_cases)

lemma collectLabels_rejects:
  "\<not> conjunctive e \<Longrightarrow> \<forall>p \<in> set (predicates e). labelled (pt_spec t) p \<Longrightarrow>
   \<exists>r. collectLabels e t = Inl (TranslateError r)"
  "\<not> list_all conjunctive es \<Longrightarrow> \<forall>e \<in> set es. \<forall>p \<in> set (predicates e). labelled (pt_spec t) p \<Longrightarrow>
   \<exists>r. collectAll es t = Inl (TranslateError r)"
proof (induction e t and es t rule: collectLabels_collectAll.induct)
  case (6 e es t)
  show ?case
  proof (cases "conjunctive e")
    case True
    then have "collectLabels e t = Inr (add_matchers (map (matcher_of (pt_spec t)) (predicates e)) t)"
      using 6 by (intro collectLabels_conjunctive) auto
    then show ?thesis using 6 True by auto
  next
    case False
    then show ?thesis using 6 by fastforce
  qed
qed (auto simp: collectPredicate_cases)

text \<open>The expression of a conjunctive query.\<close>

definition filter_matchers :: "Query \<Rightarrow> MetricSpec \<Rightarrow> string list" where
  "filter_matchers q spec =
    (case q_Filter q of None \<Rightarrow> [] | Some e \<Rightarrow> map (matcher_of spec) (predicates e))"

lemma TranslatePrometheus_Inr:
  assumes "reg_Get reg (q_Metric q) = Some spec" "ms_Backend spec = BackendPrometheus"
    "ms_Prom spec = Some ps" "well_typed q spec"
  shows "TranslatePrometheus (Some q) (Some reg) = Inr s \<longleftrightarrow>
    (\<forall>e. q_Filter q = Some e \<longrightarrow> conjunctive e) \<and>
    s = prom_emit ps \<lparr>pt_spec = spec, pt_matchers = filter_matchers q spec,
      pt_byClause = buildByClause q spec, pt_rangeStr = buildRange (q_Over q)\<rparr>"
proof -
  have c: "Check (Some q) (Some reg) = None" using assms Check_None by blast
  let ?t0 = "\<lparr>pt_spec = spec, pt_matchers = [], pt_byClause = [], pt_rangeStr = []\<rparr>"
  have lab: "q_Filter q = Some e \<Longrightarrow> \<forall>p \<in> set (predicates e). labelled spec p" for e
    using assms(4) by (auto simp: well_typed_def typed_labelled)
  show ?thesis
  proof (cases "q_Filter q")
    case None
    then show ?thesis using assms c
      by (auto simp: TranslatePrometheus_def filter_matchers_def)
  next
    case (Some e)
    show ?thesis
    proof (cases "conjunctive e")
      case True
      have "collectLabels e ?t0 = Inr (add_matchers (map (matcher_of spec) (predicates e)) ?t0)"
        using collectLabels_conjunctive(1) [OF True, of ?t0] lab [OF Some] by simp
      then show ?thesis using assms c Some True
        by (auto simp: TranslatePrometheus_def filter_matchers_def add_matchers_def)
    next
      case False
      obtain r where "collectLabels e ?t0 = Inl (TranslateError r)"
        using collectLabels_rejects(1) [OF False, of ?t0] lab [OF Some] by auto
      then show ?thesis using assms c Some False by (simp add: TranslatePrometheus_def)
    qed
  qed
qed

lemma conjunctive_pred:
  "conjunctive e \<Longrightarrow> p \<in> set (predicates e) \<Longrightarrow> expressible_op (pr_Op p)"
  by (induction e) (auto simp: list_all_iff)

section \<open>Properties\<close>



text \<open>A metric of the registry whose filterable field is numeric accepts an equality
  with a number, and the translation drops the number: the matcher compares the label with the
  empty string for every number.\<close>

theorem prom_number_dropped:
  assumes "map_of (ms_Filter (pt_spec t)) (pr_Field p) = Some f" "fs_Kind f = FieldNumber"
    "pr_Op p = OpEq" "pr_Value p = ValNumber x"
  shows "checkPredicate p (pt_spec t) = None \<and>
    (\<exists>label. collectPredicate p t = Inr (add_matcher (label @ ''='' @ [CHR 0x22, CHR 0x22]) t))"
  using assms typed_labelled [of "pt_spec t" p]
  by (auto simp: checkPredicate_None typed_pred_def labelled_def collectPredicate_def quote_def)

definition route_query :: Query where
  "route_query = \<lparr>q_Metric = ''request_latency_p95'', q_GroupBy = [''route''], q_Filter = None,
     q_Over = Some \<lparr>dur_Count = 5, dur_Unit = ''m'', dur_Pos = 34\<rparr>, q_Step = None,
     q_OrderBy = None, q_Limit = None, q_Pos = 0\<rparr>"


theorem prom_number_dropped_witness:
  "\<exists>p t. pr_Value p = ValNumber (FFin 5) \<and>
    (\<exists>label. collectPredicate p t = Inr (add_matcher (label @ ''='' @ [CHR 0x22, CHR 0x22]) t))"
proof -
  define t where "t = \<lparr>pt_spec = prom_metric ''m'' [] [] [(''code'', \<lparr>fs_Kind = FieldNumber, fs_Column = ''code''\<rparr>)]
    \<lparr>ps_MetricName = [], ps_Aggregator = [], ps_Function = [], ps_Quantile = FFin 0\<rparr>,
    pt_matchers = [], pt_byClause = [], pt_rangeStr = []\<rparr>"
  define p where "p = \<lparr>pr_Field = ''code'', pr_Op = OpEq, pr_Value = ValNumber (FFin 5), pr_Pos = 0\<rparr>"
  have "\<exists>label. collectPredicate p t = Inr (add_matcher (label @ ''='' @ [CHR 0x22, CHR 0x22]) t)"
    by (rule conjunct2 [OF prom_number_dropped [of t p "\<lparr>fs_Kind = FieldNumber, fs_Column = ''code''\<rparr>" "FFin 5"]])
      (simp_all add: t_def p_def prom_metric_def)
  then show ?thesis by (intro exI [of _ p] exI [of _ t]) (simp add: p_def)
qed

end
