(* ===== verification/NetqlAutocomplete.thy ===== *)
theory NetqlAutocomplete
  imports NetqlRegistry NetqlLex "HOL-Library.Product_Lexorder"
begin

text \<open>
  The completion engine of package netql (pkg/netql/autocomplete.go): the suggestions for a cursor
  position from the tokens before it.  The maps of the registry are iterated in an order that the
  language leaves open; the lemmas show that the sorted suggestions do not depend on it.
\<close>

section \<open>Suggestions\<close>

datatype SuggestionKind = SuggestMetric | SuggestKeyword | SuggestField | SuggestOperator

record Suggestion =
  sg_Text :: string
  sg_Detail :: string
  sg_Kind :: SuggestionKind

definition suggest :: "SuggestionKind \<Rightarrow> string \<Rightarrow> string \<Rightarrow> Suggestion" where
  "suggest k t d = \<lparr>sg_Text = t, sg_Detail = d, sg_Kind = k\<rparr>"

definition text_key :: "Suggestion \<Rightarrow> string \<times> string" where
  "text_key s = (to_lower (sg_Text s), sg_Text s)"

definition sortByText :: "Suggestion list \<Rightarrow> Suggestion list" where
  "sortByText ss = sort_key text_key ss"

definition endsWithSpace :: "string \<Rightarrow> bool" where
  "endsWithSpace s = (s \<noteq> [] \<and> last s \<in> {CHR '' '', CHR 0x09, CHR 0x0A})"

definition metricSuggestions :: "Registry \<Rightarrow> Suggestion list" where
  "metricSuggestions reg =
    sortByText (map (\<lambda>(_, m). suggest SuggestMetric (ms_Name m) (ms_Description m)) reg)"

definition clauseKeywordsAfterMetric :: "MetricSpec option \<Rightarrow> Suggestion list" where
  "clauseKeywordsAfterMetric spec = sortByText
    [suggest SuggestKeyword ''by'' ''group by columns'',
     suggest SuggestKeyword ''where'' ''filter predicate'',
     suggest SuggestKeyword ''over'' ''time range, e.g., 24h'',
     suggest SuggestKeyword ''step'' ''step duration, e.g., 5m'',
     suggest SuggestKeyword ''order'' ''order results'',
     suggest SuggestKeyword ''limit'' ''cap row count'']"

definition groupableFields :: "MetricSpec \<Rightarrow> Suggestion list" where
  "groupableFields spec =
    sortByText (map (\<lambda>(k, _). suggest SuggestField k ''groupable column'') (ms_GroupBy spec))"

definition groupableFieldsPlusMetric :: "MetricSpec \<Rightarrow> Suggestion list" where
  "groupableFieldsPlusMetric spec =
    sortByText (groupableFields spec @ [suggest SuggestMetric (ms_Name spec) ''the metric value''])"

definition filterableFields :: "MetricSpec \<Rightarrow> Suggestion list" where
  "filterableFields spec =
    sortByText (map (\<lambda>(k, fs). suggest SuggestField k (''filterable '' @ fieldKindName (fs_Kind fs)))
      (ms_Filter spec))"

definition operatorSuggestions :: "Suggestion list" where
  "operatorSuggestions = sortByText
    [suggest SuggestOperator ''='' ''equals'', suggest SuggestOperator ''!='' ''not equals'',
     suggest SuggestOperator ''<'' ''less than'', suggest SuggestOperator ''<='' ''less than or equal'',
     suggest SuggestOperator ''>'' ''greater than'',
     suggest SuggestOperator ''>='' ''greater than or equal'',
     suggest SuggestOperator ''in'' (''in list, e.g., in ('' @ [CHR 0x27] @ ''a'' @ [CHR 0x27] @ '',''
       @ [CHR 0x27] @ ''b'' @ [CHR 0x27] @ '')''),
     suggest SuggestOperator ''contains'' ''substring match'',
     suggest SuggestOperator ''matches'' ''RE2 regex match'']"

section \<open>The context\<close>

definition is_kw :: "Token \<Rightarrow> string list \<Rightarrow> bool" where
  "is_kw t vs = (tok_Kind t = TokKeyword \<and> tok_Value t \<in> set vs)"

definition isOrderByContext :: "Token list \<Rightarrow> bool" where
  "isOrderByContext toks =
    (2 \<le> length toks \<and> is_kw (toks ! (length toks - 1)) [''by'']
       \<and> is_kw (toks ! (length toks - 2)) [''order''])"

text \<open>The loop walks from the last token to the first: here over the reversed list.\<close>

fun group_by_back :: "Token list \<Rightarrow> bool" where
  "group_by_back [] = False"
| "group_by_back (t # ts) =
    (if is_kw t [''where'', ''over'', ''step'', ''order'', ''limit''] then False
     else if is_kw t [''by''] then (case ts of [] \<Rightarrow> True | p # _ \<Rightarrow> \<not> is_kw p [''order''])
     else group_by_back ts)"

definition inGroupByList :: "Token list \<Rightarrow> bool" where
  "inGroupByList toks = group_by_back (rev toks)"

definition drop_eof :: "Token list \<Rightarrow> Token list" where
  "drop_eof toks = (if toks \<noteq> [] \<and> tok_Kind (last toks) = TokEOF then butlast toks else toks)"

definition no_token :: Token where "no_token = mk_token TokEOF [] 0"

definition suggest_in_context :: "Token list \<Rightarrow> MetricSpec \<Rightarrow> Suggestion list" where
  "suggest_in_context toks spec =
    (let l = last toks; prev = (if 2 \<le> length toks then toks ! (length toks - 2) else no_token)
     in if is_kw l [''by''] then
          (if isOrderByContext toks then groupableFieldsPlusMetric spec else groupableFields spec)
        else if is_kw l [''where''] then filterableFields spec
        else if tok_Kind l = TokComma then (if inGroupByList toks then groupableFields spec else [])
        else if tok_Kind l = TokIdent \<and> is_kw prev [''where''] then operatorSuggestions
        else if tok_Kind l = TokIdent \<and> is_kw prev [''and'', ''or'', ''not''] then operatorSuggestions
        else if is_kw l [''and'', ''or''] then filterableFields spec
        else if is_kw l [''order''] then [suggest SuggestKeyword ''by'' ''order by'']
        else if is_kw l [''asc'', ''desc''] then [suggest SuggestKeyword ''limit'' ''cap result row count'']
        else [])"

definition Autocomplete :: "string \<Rightarrow> int \<Rightarrow> Registry option \<Rightarrow> Suggestion list" where
  "Autocomplete input off rego =
    (case rego of None \<Rightarrow> [] | Some reg \<Rightarrow>
      (let n = (if off < 0 then 0 else if int (length input) < off then length input else nat off);
           prefix = take n input
       in case Lex prefix of
            Inl _ \<Rightarrow> metricSuggestions reg
          | Inr toks0 \<Rightarrow>
              (let toks = drop_eof toks0
               in if toks = [] then metricSuggestions reg
                  else if length toks = 1 \<and> tok_Kind (last toks) = TokIdent then
                    (if \<not> endsWithSpace prefix then metricSuggestions reg
                     else clauseKeywordsAfterMetric (reg_Get reg (tok_Value (last toks))))
                  else if tok_Kind (hd toks) \<noteq> TokIdent then []
                  else (case reg_Get reg (tok_Value (hd toks)) of
                          None \<Rightarrow> []
                        | Some spec \<Rightarrow> suggest_in_context toks spec))))"

section \<open>The order of the suggestions\<close>

lemma sortByText_mset [simp]: "mset (sortByText ss) = mset ss"
  by (simp add: sortByText_def)

lemma sortByText_set [simp]: "set (sortByText ss) = set ss"
  by (simp add: sortByText_def)

lemma sortByText_sorted: "sorted (map text_key (sortByText ss))"
  by (simp add: sortByText_def)

lemma text_key_inject: "text_key s = text_key t \<longleftrightarrow> sg_Text s = sg_Text t"
  by (auto simp: text_key_def)

text \<open>With distinct texts the sorted list depends on the candidates only.\<close>

lemma sortByText_unique:
  assumes "mset ss = mset ts" "distinct (map sg_Text ss)"
  shows "sortByText ss = sortByText ts"
proof -
  have "inj_on text_key (set ss)"
    using assms(2) by (auto simp: inj_on_def text_key_inject distinct_map)
  then show ?thesis unfolding sortByText_def
    using assms(1) by (intro sort_key_inj_key_eq) simp_all
qed

lemma suggestion_lists_sorted:
  "sorted (map text_key (groupableFields spec))" "sorted (map text_key (filterableFields spec))"
  "sorted (map text_key (groupableFieldsPlusMetric spec))" "sorted (map text_key operatorSuggestions)"
  "sorted (map text_key (metricSuggestions reg))" "sorted (map text_key (clauseKeywordsAfterMetric m))"
  unfolding groupableFields_def filterableFields_def groupableFieldsPlusMetric_def
    operatorSuggestions_def metricSuggestions_def clauseKeywordsAfterMetric_def
  by (rule sortByText_sorted)+

lemma sorted_if:
  "sorted (map f xs) \<Longrightarrow> sorted (map f ys) \<Longrightarrow> sorted (map f (if c then xs else ys))"
  by simp

lemma sorted_single: "sorted (map f [])" "sorted (map f [x])"
  by simp_all

lemma suggest_in_context_sorted: "sorted (map text_key (suggest_in_context toks spec))"
  unfolding suggest_in_context_def Let_def by (intro sorted_if suggestion_lists_sorted sorted_single)

lemma Autocomplete_sorted_aux: "sorted (map text_key (Autocomplete input off rego))"
proof (cases rego)
  case (Some reg)
  then show ?thesis unfolding Autocomplete_def Let_def
    by (auto intro!: sorted_if suggestion_lists_sorted suggest_in_context_sorted sorted_single
        simp only: option.case split: sum.split option.split)
qed (simp add: Autocomplete_def)

text \<open>Two registries with the same entries, in any order, and metrics with the same entries in
  their maps.\<close>

definition same_spec :: "MetricSpec \<Rightarrow> MetricSpec \<Rightarrow> bool" where
  "same_spec m m' = (ms_Name m = ms_Name m' \<and> ms_Description m = ms_Description m'
     \<and> mset (ms_GroupBy m) = mset (ms_GroupBy m') \<and> mset (ms_Filter m) = mset (ms_Filter m'))"

definition spec_ok :: "MetricSpec \<Rightarrow> bool" where
  "spec_ok m = (distinct (map fst (ms_GroupBy m)) \<and> distinct (map fst (ms_Filter m))
     \<and> ms_Name m \<notin> set (map fst (ms_GroupBy m)))"

lemma mset_map_cong: "mset xs = mset ys \<Longrightarrow> mset (map f xs) = mset (map f ys)"
  by simp

lemma groupableFields_same:
  assumes "same_spec m m'" "spec_ok m" shows "groupableFields m = groupableFields m'"
  unfolding groupableFields_def
proof (rule sortByText_unique)
  show "mset (map (\<lambda>(k, _). suggest SuggestField k ''groupable column'') (ms_GroupBy m)) =
      mset (map (\<lambda>(k, _). suggest SuggestField k ''groupable column'') (ms_GroupBy m'))"
    using assms(1) by (simp add: same_spec_def)
  show "distinct (map sg_Text (map (\<lambda>(k, _). suggest SuggestField k ''groupable column'') (ms_GroupBy m)))"
    using assms(2) by (simp add: spec_ok_def suggest_def comp_def case_prod_beta)
qed

lemma filterableFields_same:
  assumes "same_spec m m'" "spec_ok m" shows "filterableFields m = filterableFields m'"
  unfolding filterableFields_def
  using assms
  by (intro sortByText_unique)
    (simp_all add: same_spec_def spec_ok_def suggest_def comp_def case_prod_beta)

lemma groupableFieldsPlusMetric_same:
  assumes "same_spec m m'" "spec_ok m"
  shows "groupableFieldsPlusMetric m = groupableFieldsPlusMetric m'"
  using groupableFields_same [OF assms] assms(1)
  by (simp add: groupableFieldsPlusMetric_def same_spec_def)

lemma suggest_in_context_same:
  "same_spec m m' \<Longrightarrow> spec_ok m \<Longrightarrow> suggest_in_context toks m = suggest_in_context toks m'"
  using groupableFields_same [of m m'] filterableFields_same [of m m']
    groupableFieldsPlusMetric_same [of m m']
  by (simp add: suggest_in_context_def Let_def)

lemma metricSuggestions_same:
  assumes "mset reg = mset reg'" "registry_ok reg"
  shows "metricSuggestions reg = metricSuggestions reg'"
  unfolding metricSuggestions_def
proof (rule sortByText_unique)
  show "mset (map (\<lambda>(_, m). suggest SuggestMetric (ms_Name m) (ms_Description m)) reg) =
      mset (map (\<lambda>(_, m). suggest SuggestMetric (ms_Name m) (ms_Description m)) reg')"
    using assms(1) by simp
  have "map sg_Text (map (\<lambda>(_, m). suggest SuggestMetric (ms_Name m) (ms_Description m)) reg) = map fst reg"
    using assms(2) by (auto simp: registry_ok_def suggest_def)
  then show "distinct (map sg_Text (map (\<lambda>(_, m). suggest SuggestMetric (ms_Name m) (ms_Description m)) reg))"
    using assms(2) unfolding registry_ok_def by (simp only:)
qed

lemma reg_Get_mset:
  "mset reg = mset reg' \<Longrightarrow> registry_ok reg \<Longrightarrow> reg_Get reg n = reg_Get reg' n"
  unfolding reg_Get_def registry_ok_def
  by (metis map_of_inject_set mset_map set_mset_mset mset_eq_imp_distinct_iff)

lemma Autocomplete_same:
  assumes "mset reg = mset reg'" "registry_ok reg"
  shows "Autocomplete input off (Some reg) = Autocomplete input off (Some reg')"
proof -
  have get: "reg_Get reg = reg_Get reg'" using reg_Get_mset [OF assms] by blast
  show ?thesis unfolding Autocomplete_def option.case metricSuggestions_same [OF assms] get ..
qed

section \<open>The suggestions are accepted by the checker\<close>

lemma groupableFields_texts: "sg_Text ` set (groupableFields m) = dom (map_of (ms_GroupBy m))"
  by (force simp: groupableFields_def suggest_def dom_map_of_conv_image_fst image_iff)

lemma filterableFields_texts: "sg_Text ` set (filterableFields m) = dom (map_of (ms_Filter m))"
  by (force simp: filterableFields_def suggest_def dom_map_of_conv_image_fst image_iff)

section \<open>Properties\<close>

text \<open>The suggestions are sorted by their text, ignoring case first, and do not
  depend on the order in which the registry's map is iterated.\<close>

theorem autocomplete_deterministic:
  assumes "registry_ok reg" "mset reg' = mset reg"
  shows "Autocomplete input off (Some reg') = Autocomplete input off (Some reg)
    \<and> sorted (map text_key (Autocomplete input off (Some reg)))"
  using Autocomplete_same [OF assms(2) [symmetric] assms(1)] Autocomplete_sorted_aux by simp

theorem autocomplete_deterministic_witness:
  "Autocomplete ''count by '' 9 (Some (rev DefaultRegistry)) = Autocomplete ''count by '' 9 (Some DefaultRegistry)
   \<and> map sg_Text (Autocomplete ''count by '' 9 (Some DefaultRegistry)) = [''error_kind'', ''kind'', ''pop'', ''target'']"
proof -
  have "map sg_Text (Autocomplete ''count by '' 9 (Some DefaultRegistry)) = [''error_kind'', ''kind'', ''pop'', ''target'']"
    by code_simp
  then show ?thesis
    using autocomplete_deterministic [OF registry_ok_Default, of "rev DefaultRegistry"] by simp
qed

end
