(* ===== verification/SloTypes.thy ===== *)
theory SloTypes
  imports GoFloat
begin

text \<open>
  The data of package slo (pkg/slo/types.go): the definition of an objective, the state that the
  evaluator keeps for it, the alert that a notifier receives, and the structural check.  A JSON
  value of the filter is a string or some other value, which the package only carries along.
\<close>

datatype SLIKind = SLIKindCanarySuccess | SLIKindOther string

text \<open>The empty string, the zero value of the type, is \<open>StatusEmpty\<close>.\<close>

datatype Status = StatusUnknown | StatusNoData | StatusOK | StatusSlowBurn | StatusFastBurn | StatusEmpty

datatype json_any = AnyString string | AnyOther nat

record SLO =
  slo_ID :: string
  slo_TenantID :: string
  slo_Name :: string
  slo_Description :: string
  slo_SLIKind :: SLIKind
  slo_SLIFilter :: "(string \<times> json_any) list"
  slo_ObjectivePct :: f64
  slo_WindowSeconds :: int
  slo_FastBurnThreshold :: f64
  slo_SlowBurnThreshold :: f64
  slo_NotifierURL :: string
  slo_Enabled :: bool
  slo_CreatedAt :: time

record State =
  st_SLOID :: string
  st_LastEvaluatedAt :: time
  st_LastStatus :: Status
  st_LastBurnRate :: f64
  st_LastAlertedAt :: time

record WithState =
  ws_SLO :: SLO
  ws_State :: State
  ws_HasState :: bool

record BurnEvent =
  be_SLOID :: string
  be_SLOName :: string
  be_TenantID :: string
  be_Severity :: Status
  be_BurnRate :: f64
  be_Threshold :: f64
  be_SLIValue :: f64
  be_LongWindow :: duration
  be_OccurredAt :: time

datatype slo_reason = NameRequired | ObjectiveRange | WindowPositive | ThresholdsPositive | UnsupportedKind

datatype slo_error = ErrSLONotFound | ErrInvalidSLO slo_reason | ErrUnsupportedSLI SLIKind
  | SloDb string | SloNumericOverflow | SloForeignKey | SloDuplicateKey | SloCheckViolation | ErrInsecureWebhook string
  | WebhookTransport | WebhookStatus int | SloSource string

definition WindowFastLong :: duration where "WindowFastLong = hour_ns"
definition WindowFastShort :: duration where "WindowFastShort = 5 * minute_ns"
definition WindowSlowLong :: duration where "WindowSlowLong = 6 * hour_ns"
definition WindowSlowShort :: duration where "WindowSlowShort = 30 * minute_ns"

text \<open>\<open>Validate\<close>: the reason of the first check that fails.\<close>

definition slo_Validate :: "SLO \<Rightarrow> slo_reason option" where
  "slo_Validate s =
    (if slo_Name s = [] then Some NameRequired
     else if slo_SLIKind s \<noteq> SLIKindCanarySuccess then Some UnsupportedKind
     else if f64_le (slo_ObjectivePct s) 0 \<or> f64_le 1 (slo_ObjectivePct s) then Some ObjectiveRange
     else if slo_WindowSeconds s \<le> 0 then Some WindowPositive
     else if f64_le (slo_FastBurnThreshold s) 0 \<or> f64_le (slo_SlowBurnThreshold s) 0
       then Some ThresholdsPositive
     else None)"

definition zero_state :: State where
  "zero_state = \<lparr>st_SLOID = [], st_LastEvaluatedAt = 0, st_LastStatus = StatusEmpty,
     st_LastBurnRate = FFin 0, st_LastAlertedAt = 0\<rparr>"

section \<open>What the check establishes\<close>

lemma slo_Validate_None:
  assumes "slo_Validate s = None" "slo_ObjectivePct s \<noteq> FNaN"
  shows "\<exists>r. slo_ObjectivePct s = FFin r \<and> 0 < r \<and> r < 1"
proof (cases "slo_ObjectivePct s")
  case (FFin r)
  then show ?thesis using assms(1)
    by (auto simp: slo_Validate_def f64_ops not_le split: if_splits)
next
  case (FInf b)
  then show ?thesis using assms(1) by (auto simp: slo_Validate_def f64_ops split: if_splits)
qed (use assms in simp)

end
