(* ===== verification/TenantTable.thy ===== *)
theory TenantTable
  imports GoBase
begin

text \<open>
  The contract that the catalogs of the control plane share.  A catalog keeps its rows in a table with
  one key for all tenants, and every operation acts for one tenant.  The interface \<open>tenant_table\<close>
  states what that promises: what a tenant looks up changes by its own operations only.  The theory
  also has the rows-as-list lemmas that the stores use.
\<close>

locale tenant_table =
  fixes lookup :: "string \<Rightarrow> string \<Rightarrow> 's \<Rightarrow> 'a option"
    and modify :: "string \<Rightarrow> 'op \<Rightarrow> 's \<Rightarrow> 's"
    and ok :: "'s \<Rightarrow> bool"
  assumes frame: "ok s \<Longrightarrow> tn \<noteq> tn' \<Longrightarrow> lookup tn i (modify tn' oper s) = lookup tn i s"
    and modify_ok: "ok s \<Longrightarrow> ok (modify tn oper s)"
begin

definition history :: "(string \<times> 'op) list \<Rightarrow> 's \<Rightarrow> 's" where
  "history ops s = fold (\<lambda>(tn, oper). modify tn oper) ops s"

lemma history_ok: "ok s \<Longrightarrow> ok (history ops s)"
  by (induction ops arbitrary: s) (auto simp: history_def modify_ok)

lemma history_isolated:
  assumes "ok s" "\<forall>(tn', oper) \<in> set ops. tn' \<noteq> tn"
  shows "lookup tn i (history ops s) = lookup tn i s"
  using assms
proof (induction ops arbitrary: s)
  case (Cons x ops)
  then show ?case by (cases x) (auto simp: history_def frame modify_ok)
qed (simp add: history_def)

text \<open>Only the tenant's own part of a history matters to it.\<close>

lemma history_own:
  assumes "ok s" "ok s'" "\<forall>i. lookup tn i s = lookup tn i s'"
    "\<And>oper u v. ok u \<Longrightarrow> ok v \<Longrightarrow> \<forall>i. lookup tn i u = lookup tn i v \<Longrightarrow>
       \<forall>i. lookup tn i (modify tn oper u) = lookup tn i (modify tn oper v)"
  shows "lookup tn i (history ops s) = lookup tn i (history (filter (\<lambda>(tn', _). tn' = tn) ops) s')"
  using assms(1-3)
proof (induction ops arbitrary: s s')
  case (Cons x ops)
  obtain tn' oper where x: "x = (tn', oper)" by (cases x)
  have own: "\<forall>i. lookup tn i (modify tn oper s) = lookup tn i (modify tn oper s')"
    using assms(4) Cons.prems by blast
  show ?case
  proof (cases "tn' = tn")
    case True
    then show ?thesis
      using Cons.IH [OF modify_ok modify_ok own] Cons.prems by (simp add: x history_def)
  next
    case False
    then have "\<forall>i. lookup tn i (modify tn' oper s) = lookup tn i s'" using Cons.prems frame by simp
    then show ?thesis
      using Cons.IH [of "modify tn' oper s" s'] Cons.prems False by (simp add: x history_def modify_ok)
  qed
qed (simp add: history_def)

end

section \<open>Rows\<close>

text \<open>The rows that a query hands over: with \<open>Some n\<close> the connection breaks after the first \<open>n\<close>.\<close>

definition received :: "nat option \<Rightarrow> 'a list \<Rightarrow> 'a list" where
  "received broken xs = (case broken of None \<Rightarrow> xs | Some n \<Rightarrow> take n xs)"

lemma set_received: "set (received broken xs) \<subseteq> set xs"
  by (auto simp: received_def split: option.splits dest: in_set_takeD)

lemma find_unique:
  assumes "x \<in> set xs" "P x" "\<And>y. y \<in> set xs \<Longrightarrow> P y \<Longrightarrow> y = x"
  shows "find P xs = Some x"
  using assms by (metis find_None_iff find_Some_set option.exhaust)

lemma find_map_key:
  "(\<And>x. P (g x) = P x) \<Longrightarrow> find P (map g xs) = map_option g (find P xs)"
  by (induction xs) auto

lemma find_map_untouched:
  assumes "\<And>x. x \<in> set xs \<Longrightarrow> P (g x) = P x" "\<And>x. x \<in> set xs \<Longrightarrow> P x \<Longrightarrow> g x = x"
  shows "find P (map g xs) = find P xs"
  using assms by (induction xs) auto

lemma find_filter_untouched:
  assumes "\<And>x. x \<in> set xs \<Longrightarrow> P x \<Longrightarrow> Q x"
  shows "find P (filter Q xs) = find P xs"
  using assms by (induction xs) auto

lemma find_append_untouched: "\<not> P x \<Longrightarrow> find P (xs @ [x]) = find P xs"
  by (induction xs) auto

end
