(* ===== verification/SloStore.thy ===== *)
theory SloStore
  imports SloTypes TenantTable
begin

text \<open>
  The store of package slo (pkg/slo/store.go) on the two tables of
  pkg/store/postgres/migrations/0005_slo.sql.  A table is its list of rows, a nullable column an
  option, and each operation the SQL statement it runs; a column of type NUMERIC(p, s) rounds to s
  decimal places and rejects what does not fit.  The argument \<open>flt\<close> of an operation says whether the
  database fails the statement.  The interface \<open>slo_reader\<close> is the narrow dependency that the
  evaluator declares, with the laws that this store promises.
\<close>

section \<open>Columns\<close>

text \<open>Rounding to \<open>s\<close> places, halves away from zero; an error when more than \<open>p - s\<close> digits are left
  of the point.\<close>

definition round_away :: "rat \<Rightarrow> int" where
  "round_away x = (if 0 \<le> x then floor (x + 1/2) else - floor (1/2 - x))"

definition numeric_col :: "nat \<Rightarrow> nat \<Rightarrow> f64 \<Rightarrow> f64 option" where
  "numeric_col p s x =
    (case x of
       FFin r \<Rightarrow> (let n = round_away (r * 10 ^ s)
                  in if 10 ^ p \<le> \<bar>n\<bar> then None else Some (fl (of_int n / 10 ^ s)))
     | FInf _ \<Rightarrow> None
     | FNaN \<Rightarrow> Some FNaN)"

record state_row =
  sr_slo_id :: string
  sr_last_evaluated_at :: "time option"
  sr_last_status :: Status
  sr_last_burn_rate :: "f64 option"
  sr_last_alerted_at :: "time option"

record slo_db =
  db_slos :: "SLO list"
  db_slo_state :: "state_row list"

definition find_state :: "slo_db \<Rightarrow> string \<Rightarrow> state_row option" where
  "find_state db i = find (\<lambda>r. sr_slo_id r = i) (db_slo_state db)"

section \<open>The catalog\<close>

text \<open>The columns of an inserted row: objective and thresholds are NUMERIC with a check on the
  stored value, \<open>created_at\<close> is set by the server.  In PostgreSQL NaN is greater than every number.\<close>

definition pg_positive :: "f64 \<Rightarrow> bool" where
  "pg_positive x = (x = FNaN \<or> f64_lt 0 x)"

definition insert_row :: "time \<Rightarrow> SLO \<Rightarrow> slo_db \<Rightarrow> (slo_error, SLO) result" where
  "insert_row created s db =
    (case (numeric_col 7 6 (slo_ObjectivePct s), numeric_col 8 4 (slo_FastBurnThreshold s),
           numeric_col 8 4 (slo_SlowBurnThreshold s)) of
       (Some ob, Some f, Some sl) \<Rightarrow>
         if \<not> (pg_positive ob \<and> f64_lt ob 1 \<and> pg_positive f \<and> pg_positive sl \<and> 0 < slo_WindowSeconds s)
         then Inl SloCheckViolation
         else if slo_ID s \<in> set (map slo_ID (db_slos db)) then Inl SloDuplicateKey
         else Inr (s\<lparr>slo_ObjectivePct := ob, slo_FastBurnThreshold := f,
                     slo_SlowBurnThreshold := sl, slo_CreatedAt := created\<rparr>)
     | _ \<Rightarrow> Inl SloNumericOverflow)"

definition CreateSLO :: "bool \<Rightarrow> time \<Rightarrow> SLO \<Rightarrow> slo_db \<Rightarrow> (slo_error, SLO) result \<times> slo_db" where
  "CreateSLO flt created s db =
    (case slo_Validate s of
       Some r \<Rightarrow> (Inl (ErrInvalidSLO r), db)
     | None \<Rightarrow>
         if flt then (Inl (SloDb ''insert''), db)
         else (case insert_row created s db of
                 Inl e \<Rightarrow> (Inl e, db)
               | Inr row \<Rightarrow> (Inr row, db\<lparr>db_slos := db_slos db @ [row]\<rparr>)))"

definition GetSLO :: "bool \<Rightarrow> string \<Rightarrow> string \<Rightarrow> slo_db \<Rightarrow> (slo_error, SLO) result" where
  "GetSLO flt tenant i db =
    (if flt then Inl (SloDb ''select'')
     else (case find (\<lambda>s. slo_TenantID s = tenant \<and> slo_ID s = i) (db_slos db) of
             None \<Rightarrow> Inl ErrSLONotFound
           | Some s \<Rightarrow> Inr s))"

text \<open>\<open>ORDER BY created_at DESC\<close>: rows of the same instant in table order.\<close>

definition ListSLOs :: "bool \<Rightarrow> string \<Rightarrow> slo_db \<Rightarrow> (slo_error, SLO list) result" where
  "ListSLOs flt tenant db =
    (if flt then Inl (SloDb ''list'')
     else Inr (sort_key (\<lambda>s. - slo_CreatedAt s) (filter (\<lambda>s. slo_TenantID s = tenant) (db_slos db))))"

definition opt_time :: "time option \<Rightarrow> time" where
  "opt_time t = (case t of None \<Rightarrow> 0 | Some x \<Rightarrow> x)"

definition derefFloat :: "f64 option \<Rightarrow> f64" where
  "derefFloat a = (case a of None \<Rightarrow> FFin 0 | Some x \<Rightarrow> x)"

definition deref_status :: "Status option \<Rightarrow> Status" where
  "deref_status a = (case a of None \<Rightarrow> StatusEmpty | Some x \<Rightarrow> x)"

definition joined_row :: "slo_db \<Rightarrow> SLO \<Rightarrow> WithState" where
  "joined_row db s =
    (let r = find_state db (slo_ID s); evaluated = Option.bind r sr_last_evaluated_at
     in case evaluated of
          None \<Rightarrow> \<lparr>ws_SLO = s, ws_State = zero_state, ws_HasState = False\<rparr>
        | Some t \<Rightarrow> \<lparr>ws_SLO = s,
            ws_State = \<lparr>st_SLOID = slo_ID s, st_LastEvaluatedAt = t,
              st_LastStatus = deref_status (map_option sr_last_status r),
              st_LastBurnRate = derefFloat (Option.bind r sr_last_burn_rate),
              st_LastAlertedAt = opt_time (Option.bind r sr_last_alerted_at)\<rparr>,
            ws_HasState = True\<rparr>)"

definition ListSLOsWithState :: "bool \<Rightarrow> string \<Rightarrow> slo_db \<Rightarrow> (slo_error, WithState list) result" where
  "ListSLOsWithState flt tenant db =
    (if flt then Inl (SloDb ''list with state'')
     else Inr (map (joined_row db)
       (sort_key (\<lambda>s. - slo_CreatedAt s) (filter (\<lambda>s. slo_TenantID s = tenant) (db_slos db)))))"

definition ListEnabled :: "bool \<Rightarrow> slo_db \<Rightarrow> (slo_error, SLO list) result" where
  "ListEnabled flt db =
    (if flt then Inl (SloDb ''list enabled'')
     else Inr (sort_key slo_ID (filter slo_Enabled (db_slos db))))"

text \<open>The row of the state table goes with the deleted one (\<open>ON DELETE CASCADE\<close>).\<close>

definition DeleteSLO :: "bool \<Rightarrow> string \<Rightarrow> string \<Rightarrow> slo_db \<Rightarrow> slo_error option \<times> slo_db" where
  "DeleteSLO flt tenant i db =
    (if flt then (Some (SloDb ''delete''), db)
     else
       (let hit = (\<lambda>s. slo_TenantID s = tenant \<and> slo_ID s = i);
            gone = map slo_ID (filter hit (db_slos db))
        in if gone = [] then (Some ErrSLONotFound, db)
           else (None, db\<lparr>db_slos := filter (\<lambda>s. \<not> hit s) (db_slos db),
                   db_slo_state := filter (\<lambda>r. sr_slo_id r \<notin> set gone) (db_slo_state db)\<rparr>)))"

section \<open>The state\<close>

definition coalesce :: "'a option \<Rightarrow> 'a option \<Rightarrow> 'a option" where
  "coalesce a b = (case a of None \<Rightarrow> b | Some _ \<Rightarrow> a)"

definition excluded_row :: "f64 \<Rightarrow> State \<Rightarrow> state_row" where
  "excluded_row burn st =
    \<lparr>sr_slo_id = st_SLOID st, sr_last_evaluated_at = Some (st_LastEvaluatedAt st),
     sr_last_status = st_LastStatus st, sr_last_burn_rate = Some burn,
     sr_last_alerted_at =
       (if is_zero_time (st_LastAlertedAt st) then None else Some (st_LastAlertedAt st))\<rparr>"

definition upsert_row :: "state_row \<Rightarrow> state_row list \<Rightarrow> state_row list" where
  "upsert_row e rs =
    (if \<exists>r \<in> set rs. sr_slo_id r = sr_slo_id e
     then map (\<lambda>r. if sr_slo_id r = sr_slo_id e
                   then e\<lparr>sr_last_alerted_at := coalesce (sr_last_alerted_at e) (sr_last_alerted_at r)\<rparr>
                   else r) rs
     else rs @ [e])"

text \<open>The numeric value is coerced first; then the row has to refer to an objective that exists.\<close>

definition UpsertState :: "bool \<Rightarrow> State \<Rightarrow> slo_db \<Rightarrow> slo_error option \<times> slo_db" where
  "UpsertState flt st db =
    (if flt then (Some (SloDb ''upsert state''), db)
     else (case numeric_col 10 4 (st_LastBurnRate st) of
             None \<Rightarrow> (Some SloNumericOverflow, db)
           | Some burn \<Rightarrow>
               if st_SLOID st \<notin> set (map slo_ID (db_slos db)) then (Some SloForeignKey, db)
               else (None, db\<lparr>db_slo_state := upsert_row (excluded_row burn st) (db_slo_state db)\<rparr>)))"

definition GetState :: "bool \<Rightarrow> string \<Rightarrow> slo_db \<Rightarrow> (slo_error, State) result" where
  "GetState flt i db =
    (if flt then Inl (SloDb ''get state'')
     else (case find_state db i of
             None \<Rightarrow> Inr (zero_state\<lparr>st_SLOID := i, st_LastStatus := StatusUnknown\<rparr>)
           | Some r \<Rightarrow> Inr \<lparr>st_SLOID = sr_slo_id r,
               st_LastEvaluatedAt = opt_time (sr_last_evaluated_at r),
               st_LastStatus = sr_last_status r,
               st_LastBurnRate = derefFloat (sr_last_burn_rate r),
               st_LastAlertedAt = opt_time (sr_last_alerted_at r)\<rparr>))"

section \<open>The interface of the evaluator\<close>

text \<open>What the state that a successful write leaves behind is: the written state, except that a zero
  alert time does not replace the stored one, and that the burn rate is rounded.\<close>

definition merged :: "State \<Rightarrow> State \<Rightarrow> State" where
  "merged prev st = st\<lparr>st_LastAlertedAt :=
     (if is_zero_time (st_LastAlertedAt st) then st_LastAlertedAt prev else st_LastAlertedAt st)\<rparr>"

definition same_state :: "State \<Rightarrow> State \<Rightarrow> bool" where
  "same_state a b = (st_SLOID a = st_SLOID b \<and> st_LastEvaluatedAt a = st_LastEvaluatedAt b
     \<and> st_LastStatus a = st_LastStatus b \<and> st_LastAlertedAt a = st_LastAlertedAt b)"

locale slo_reader =
  fixes get :: "string \<Rightarrow> 's \<Rightarrow> (slo_error, State) result"
    and upsert :: "State \<Rightarrow> 's \<Rightarrow> slo_error option \<times> 's"
    and ok :: "'s \<Rightarrow> bool"
  assumes get_upsert_same: "ok s \<Longrightarrow> upsert st s = (None, s') \<Longrightarrow> get (st_SLOID st) s = Inr prev \<Longrightarrow>
      \<exists>cur. get (st_SLOID st) s' = Inr cur \<and> same_state cur (merged prev st)"
    and get_upsert_other: "ok s \<Longrightarrow> i \<noteq> st_SLOID st \<Longrightarrow> get i (snd (upsert st s)) = get i s"
    and get_id: "ok s \<Longrightarrow> get i s = Inr st \<Longrightarrow> st_SLOID st = i"
    and upsert_fail: "ok s \<Longrightarrow> upsert st s = (Some e, s') \<Longrightarrow> s' = s"
    and upsert_ok: "ok s \<Longrightarrow> ok (snd (upsert st s))"
begin

lemma upsert_cases:
  assumes "ok s"
  obtains e where "upsert st s = (Some e, s)" | s' where "upsert st s = (None, s')" "ok s'"
  using assms upsert_fail [of s st] upsert_ok [of s st]
  by (cases "upsert st s") (metis option.exhaust snd_conv)

lemma alert_time_after:
  assumes "ok s" "upsert st s = (None, s')" "get (st_SLOID st) s = Inr prev"
    "st_LastAlertedAt st = 0"
  shows "\<exists>cur. get (st_SLOID st) s' = Inr cur \<and> st_LastAlertedAt cur = st_LastAlertedAt prev"
  using get_upsert_same [OF assms(1-3)] assms(4)
  by (auto simp: same_state_def merged_def is_zero_time_def)

end

section \<open>The store keeps the contract\<close>

text \<open>\<open>slos\<close> is the catalog while the evaluator works: it does not change it.\<close>

definition db_ok :: "slo_db \<Rightarrow> bool" where
  "db_ok db = distinct (map sr_slo_id (db_slo_state db))"

definition reader_ok :: "SLO list \<Rightarrow> slo_db \<Rightarrow> bool" where
  "reader_ok slos db = (db_ok db \<and> db_slos db = slos)"

lemma find_state_Some: "find_state db i = Some r \<Longrightarrow> r \<in> set (db_slo_state db) \<and> sr_slo_id r = i"
  by (auto simp: find_state_def dest: find_Some_set)

lemma map_sr_slo_id_upsert:
  "map sr_slo_id (upsert_row e rs) =
   (if sr_slo_id e \<in> set (map sr_slo_id rs) then map sr_slo_id rs else map sr_slo_id rs @ [sr_slo_id e])"
  by (auto simp: upsert_row_def image_iff) metis+

lemma db_ok_UpsertState: "db_ok db \<Longrightarrow> db_ok (snd (UpsertState flt st db))"
  by (auto simp: UpsertState_def db_ok_def map_sr_slo_id_upsert excluded_row_def split: option.splits)

lemma db_slos_UpsertState [simp]: "db_slos (snd (UpsertState flt st db)) = db_slos db"
  by (simp add: UpsertState_def split: option.split)

lemma find_upsert_other:
  "i \<noteq> sr_slo_id e \<Longrightarrow> find (\<lambda>r. sr_slo_id r = i) (upsert_row e rs) = find (\<lambda>r. sr_slo_id r = i) rs"
proof -
  assume i: "i \<noteq> sr_slo_id e"
  have "find (\<lambda>r. sr_slo_id r = i) (map (\<lambda>r. if sr_slo_id r = sr_slo_id e
      then e\<lparr>sr_last_alerted_at := coalesce (sr_last_alerted_at e) (sr_last_alerted_at r)\<rparr> else r) rs) =
      find (\<lambda>r. sr_slo_id r = i) rs"
    using i by (induction rs) auto
  then show ?thesis using i by (auto simp: upsert_row_def find_append split: option.splits)
qed

lemma find_upsert_same:
  "find (\<lambda>r. sr_slo_id r = sr_slo_id e) (upsert_row e rs) =
   (case find (\<lambda>r. sr_slo_id r = sr_slo_id e) rs of
      None \<Rightarrow> Some e
    | Some r \<Rightarrow> Some (e\<lparr>sr_last_alerted_at := coalesce (sr_last_alerted_at e) (sr_last_alerted_at r)\<rparr>))"
proof (cases "\<exists>r \<in> set rs. sr_slo_id r = sr_slo_id e")
  case True
  then show ?thesis by (induction rs) (auto simp: upsert_row_def)
next
  case False
  then have "find (\<lambda>r. sr_slo_id r = sr_slo_id e) rs = None" by (intro find_NoneI) auto
  then show ?thesis using False by (simp add: upsert_row_def find_append)
qed

lemma GetState_UpsertState_same:
  assumes "UpsertState flt st db = (None, db')" "GetState False (st_SLOID st) db = Inr prev"
  shows "\<exists>cur. GetState False (st_SLOID st) db' = Inr cur \<and> same_state cur (merged prev st)"
proof -
  obtain burn where db': "db' = db\<lparr>db_slo_state := upsert_row (excluded_row burn st) (db_slo_state db)\<rparr>"
    using assms(1) by (auto simp: UpsertState_def split: if_splits option.splits)
  have id: "sr_slo_id (excluded_row burn st) = st_SLOID st" by (simp add: excluded_row_def)
  show ?thesis
    using assms(2) find_upsert_same [of "excluded_row burn st" "db_slo_state db"]
    unfolding id GetState_def find_state_def db'
    by (auto simp: same_state_def merged_def excluded_row_def coalesce_def opt_time_def
        is_zero_time_def zero_state_def split: option.splits if_splits)
qed

lemma GetState_UpsertState_other:
  "i \<noteq> st_SLOID st \<Longrightarrow> GetState False i (snd (UpsertState flt st db)) = GetState False i db"
  using find_upsert_other [of i "excluded_row (the (numeric_col 10 4 (st_LastBurnRate st))) st" "db_slo_state db"]
  by (auto simp: UpsertState_def GetState_def find_state_def excluded_row_def split: option.splits)

interpretation store_reader: slo_reader "GetState False" "UpsertState flt" "reader_ok slos" for flt slos
proof
  fix s st s' prev
  show "UpsertState flt st s = (None, s') \<Longrightarrow> GetState False (st_SLOID st) s = Inr prev \<Longrightarrow>
      \<exists>cur. GetState False (st_SLOID st) s' = Inr cur \<and> same_state cur (merged prev st)"
    by (rule GetState_UpsertState_same)
next
  fix s i and st :: State
  show "i \<noteq> st_SLOID st \<Longrightarrow> GetState False i (snd (UpsertState flt st s)) = GetState False i s"
    by (rule GetState_UpsertState_other)
next
  fix s i st
  show "GetState False i s = Inr st \<Longrightarrow> st_SLOID st = i"
    by (auto simp: GetState_def dest: find_state_Some split: option.splits)
next
  fix s st e s'
  show "UpsertState flt st s = (Some e, s') \<Longrightarrow> s' = s"
    by (auto simp: UpsertState_def split: if_splits option.splits)
next
  fix s st
  show "reader_ok slos s \<Longrightarrow> reader_ok slos (snd (UpsertState flt st s))" by (simp add: reader_ok_def db_ok_UpsertState)
qed

section \<open>Tenants\<close>

lemma ListSLOs_tenant: "ListSLOs flt tenant db = Inr xs \<Longrightarrow> \<forall>s \<in> set xs. slo_TenantID s = tenant"
  by (auto simp: ListSLOs_def split: if_splits)

lemma ListSLOs_mset:
  "ListSLOs False tenant db = Inr xs \<Longrightarrow> mset xs = filter_mset (\<lambda>s. slo_TenantID s = tenant) (mset (db_slos db))"
  by (auto simp: ListSLOs_def)

lemma CreateSLO_GetSLO:
  "CreateSLO flt created s db = (Inr row, db') \<Longrightarrow>
   slo_Validate s = None \<and> slo_CreatedAt row = created \<and> slo_ID row = slo_ID s \<and>
   GetSLO False (slo_TenantID s) (slo_ID s) db' = Inr row"
proof -
  assume c: "CreateSLO flt created s db = (Inr row, db')"
  then have r: "insert_row created s db = Inr row" "slo_Validate s = None"
    and db': "db' = db\<lparr>db_slos := db_slos db @ [row]\<rparr>"
    by (auto simp: CreateSLO_def split: option.splits if_splits sum.splits)
  have fresh: "slo_ID s \<notin> slo_ID ` set (db_slos db)"
    and row: "slo_ID row = slo_ID s" "slo_TenantID row = slo_TenantID s" "slo_CreatedAt row = created"
    using r(1) by (auto simp: insert_row_def split: option.splits if_splits)
  have "find (\<lambda>x. slo_TenantID x = slo_TenantID s \<and> slo_ID x = slo_ID s) (db_slos db) = None"
    using fresh by (intro find_NoneI) (metis imageI)
  then show ?thesis using r row by (simp add: GetSLO_def db' find_append)
qed

lemma DeleteSLO_cascade:
  assumes "DeleteSLO flt tenant i db = (None, db')"
  shows "GetSLO False tenant i db' = Inl ErrSLONotFound \<and> find_state db' i = None"
proof -
  let ?hit = "\<lambda>s. slo_TenantID s = tenant \<and> slo_ID s = i"
  let ?gone = "map slo_ID (filter ?hit (db_slos db))"
  have g: "?gone \<noteq> []" and db': "db' = db\<lparr>db_slos := filter (\<lambda>s. \<not> ?hit s) (db_slos db),
      db_slo_state := filter (\<lambda>r. sr_slo_id r \<notin> set ?gone) (db_slo_state db)\<rparr>"
    using assms by (auto simp: DeleteSLO_def Let_def split: if_splits)
  have "set ?gone = {i}" using g by (auto simp: filter_empty_conv)
  then have "find_state db' i = None" by (auto simp: find_state_def db' intro: find_NoneI)
  moreover have "find ?hit (db_slos db') = None" by (rule find_NoneI) (auto simp: db')
  then have "GetSLO False tenant i db' = Inl ErrSLONotFound" by (simp add: GetSLO_def)
  ultimately show ?thesis by simp
qed

text \<open>The catalog as a table of tenants: an objective together with its state.\<close>

datatype slo_op = SoCreate bool time SLO | SoDelete bool string

fun slo_apply :: "string \<Rightarrow> slo_op \<Rightarrow> slo_db \<Rightarrow> slo_db" where
  "slo_apply tn (SoCreate flt created s) db = snd (CreateSLO flt created (s\<lparr>slo_TenantID := tn\<rparr>) db)"
| "slo_apply tn (SoDelete flt i) db = snd (DeleteSLO flt tn i db)"

definition slo_hit :: "string \<Rightarrow> string \<Rightarrow> SLO \<Rightarrow> bool" where
  "slo_hit tn i s = (slo_TenantID s = tn \<and> slo_ID s = i)"

definition slo_lookup :: "string \<Rightarrow> string \<Rightarrow> slo_db \<Rightarrow> (SLO \<times> state_row option) option" where
  "slo_lookup tn i db = map_option (\<lambda>s. (s, find_state db i)) (find (slo_hit tn i) (db_slos db))"

definition slo_ids_ok :: "slo_db \<Rightarrow> bool" where
  "slo_ids_ok db = distinct (map slo_ID (db_slos db))"

lemma slo_apply_cases:
  obtains (same) "slo_apply tn oper db = db"
  | (add) row where "slo_apply tn oper db = db\<lparr>db_slos := db_slos db @ [row]\<rparr>" "slo_TenantID row = tn"
      "slo_ID row \<notin> set (map slo_ID (db_slos db))"
  | (drop) i where "slo_apply tn oper db = db\<lparr>db_slos := filter (\<lambda>s. \<not> slo_hit tn i s) (db_slos db),
      db_slo_state := filter (\<lambda>r. sr_slo_id r \<noteq> i) (db_slo_state db)\<rparr>" "\<exists>s \<in> set (db_slos db). slo_hit tn i s"
proof (cases oper)
  case (SoCreate flt created s)
  have "slo_apply tn oper db = db \<or> (\<exists>row. slo_apply tn oper db = db\<lparr>db_slos := db_slos db @ [row]\<rparr>
      \<and> slo_TenantID row = tn \<and> slo_ID row \<notin> set (map slo_ID (db_slos db)))"
    unfolding SoCreate by (auto simp: CreateSLO_def insert_row_def split: option.split)
  then show thesis using same add by blast
next
  case (SoDelete flt i)
  show thesis
  proof (cases "flt \<or> filter (slo_hit tn i) (db_slos db) = []")
    case True
    then show thesis using same SoDelete by (auto simp: DeleteSLO_def Let_def slo_hit_def [abs_def])
  next
    case False
    then have ex: "\<exists>s \<in> set (db_slos db). slo_hit tn i s" by (auto simp: filter_empty_conv)
    then have "set (map slo_ID (filter (slo_hit tn i) (db_slos db))) = {i}" by (auto simp: slo_hit_def)
    moreover have "slo_apply tn oper db = db\<lparr>db_slos := filter (\<lambda>s. \<not> slo_hit tn i s) (db_slos db),
        db_slo_state := filter (\<lambda>r. sr_slo_id r \<notin> set (map slo_ID (filter (slo_hit tn i) (db_slos db)))) (db_slo_state db)\<rparr>"
      using False unfolding SoDelete slo_apply.simps DeleteSLO_def Let_def slo_hit_def [abs_def]
      by (simp del: set_map set_filter)
    ultimately have "slo_apply tn oper db = db\<lparr>db_slos := filter (\<lambda>s. \<not> slo_hit tn i s) (db_slos db),
        db_slo_state := filter (\<lambda>r. sr_slo_id r \<noteq> i) (db_slo_state db)\<rparr>"
      by (simp only: singleton_iff)
    then show thesis using drop ex by blast
  qed
qed

lemma slo_lookup_other:
  assumes "slo_ids_ok db" "tn \<noteq> tn'"
  shows "slo_lookup tn i (slo_apply tn' oper db) = slo_lookup tn i db"
proof (cases rule: slo_apply_cases [of tn' oper db])
  case (add row)
  have "find (slo_hit tn i) (db_slos db @ [row]) = find (slo_hit tn i) (db_slos db)"
    using assms(2) add(2) by (intro find_append_untouched) (auto simp: slo_hit_def)
  then show ?thesis unfolding add(1) by (simp add: slo_lookup_def find_state_def)
next
  case (drop j)
  have f: "find (slo_hit tn i) (filter (\<lambda>s. \<not> slo_hit tn' j s) (db_slos db)) = find (slo_hit tn i) (db_slos db)"
    using assms(2) by (intro find_filter_untouched) (auto simp: slo_hit_def)
  have "find_state db i = find (\<lambda>r. sr_slo_id r = i) (filter (\<lambda>r. sr_slo_id r \<noteq> j) (db_slo_state db))"
    if "find (slo_hit tn i) (db_slos db) = Some s" for s
  proof -
    have "s \<in> set (db_slos db)" "slo_hit tn i s" using find_Some_set [OF that] by simp_all
    then have "i \<noteq> j" using drop(2) assms by (auto simp: slo_hit_def slo_ids_ok_def distinct_map inj_on_def)
    then show ?thesis unfolding find_state_def by (intro find_filter_untouched [symmetric]) auto
  qed
  then show ?thesis
    unfolding drop(1) by (cases "find (slo_hit tn i) (db_slos db)") (simp_all add: slo_lookup_def f find_state_def)
qed simp

lemma slo_ids_ok_apply: "slo_ids_ok db \<Longrightarrow> slo_ids_ok (slo_apply tn oper db)"
  by (cases rule: slo_apply_cases [of tn oper db]) (auto simp: slo_ids_ok_def distinct_map inj_on_def)

interpretation slo_table: tenant_table slo_lookup slo_apply slo_ids_ok
  by unfold_locales (simp_all add: slo_lookup_other slo_ids_ok_apply)

end
