(* ===== verification/SloEvaluator.thy ===== *)
theory SloEvaluator
  imports SloStore
begin

text \<open>
  The burn-rate evaluator of package slo (pkg/slo/evaluator.go and pkg/slo/notifier.go).  The
  ClickHouse connection, the HTTP transport and the notifier for objectives without an address are
  arguments; the state store is used through the interface \<open>slo_reader\<close>.  An evaluation gives the
  error it returns, the store and the alerts it tried to deliver.
\<close>

section \<open>The ClickHouse source\<close>

definition filter_string :: "SLO \<Rightarrow> string \<Rightarrow> string" where
  "filter_string s k = (case map_of (slo_SLIFilter s) k of Some (AnyString v) \<Rightarrow> v | _ \<Rightarrow> [])"

definition filter_clause :: "SLO \<Rightarrow> string \<Rightarrow> string \<times> string list \<Rightarrow> string \<times> string list" where
  "filter_clause s k wa =
    (let v = filter_string s k
     in if v = [] then wa else (fst wa @ '' AND '' @ k @ '' = ?'', snd wa @ [v]))"

definition buildCanarySLIQuery :: "SLO \<Rightarrow> duration \<Rightarrow> string \<times> string list" where
  "buildCanarySLIQuery s window =
    (let (where', args) = filter_clause s ''pop_id'' (filter_clause s ''test_id''
           (''tenant_id = ?'', [slo_TenantID s]))
     in (''SELECT count(), countIf(error_kind = '' @ [CHR 0x27, CHR 0x27] @ '')'' @ [CHR 0x0A] @
         ''        FROM canary_results'' @ [CHR 0x0A] @ ''        WHERE '' @ where' @ [CHR 0x0A] @
         ''          AND observed_at >= now() - INTERVAL '' @ itoa (window div second_ns) @ '' SECOND'',
         args))"

type_synonym ch_conn = "string \<Rightarrow> string list \<Rightarrow> (slo_error, int \<times> int) result"

definition ClickHouseSLI :: "ch_conn \<Rightarrow> SLO \<Rightarrow> duration \<Rightarrow> (slo_error, f64 \<times> int) result" where
  "ClickHouseSLI conn s window =
    (if slo_SLIKind s \<noteq> SLIKindCanarySuccess then Inl (ErrUnsupportedSLI (slo_SLIKind s))
     else (case conn (fst (buildCanarySLIQuery s window)) (snd (buildCanarySLIQuery s window)) of
             Inl e \<Rightarrow> Inl e
           | Inr (tot, good) \<Rightarrow>
               if tot = 0 then Inr (FFin 0, 0)
               else Inr (f64_of_int good / f64_of_int tot, tot)))"

section \<open>Notifiers\<close>

datatype delivery = ToDefault BurnEvent | ToWebhook string BurnEvent

datatype http_outcome = HttpFail | HttpCode int

definition f64_finite :: "f64 \<Rightarrow> bool" where
  "f64_finite x = (case x of FFin _ \<Rightarrow> True | _ \<Rightarrow> False)"

text \<open>Encoding the event fails exactly on a number that JSON does not have.\<close>

definition json_encodable :: "BurnEvent \<Rightarrow> bool" where
  "json_encodable ev = (f64_finite (be_BurnRate ev) \<and> f64_finite (be_Threshold ev) \<and> f64_finite (be_SLIValue ev))"

definition LogNotify :: "BurnEvent \<Rightarrow> slo_error option" where
  "LogNotify ev = None"

definition MultiplexedNotify :: "(BurnEvent \<Rightarrow> slo_error option) \<Rightarrow> BurnEvent \<Rightarrow> slo_error option" where
  "MultiplexedNotify dflt ev = dflt ev"

definition NewWebhookNotifier :: "string \<Rightarrow> (slo_error, string) result" where
  "NewWebhookNotifier url =
    (if has_prefix url ''https://'' then Inr url else Inl (ErrInsecureWebhook url))"

definition WebhookNotify :: "(string \<Rightarrow> BurnEvent \<Rightarrow> http_outcome) \<Rightarrow> string \<Rightarrow> BurnEvent \<Rightarrow> slo_error option" where
  "WebhookNotify http url ev =
    (if url = [] then None
     else if \<not> json_encodable ev then Some WebhookTransport
     else (case http url ev of
             HttpFail \<Rightarrow> Some WebhookTransport
           | HttpCode c \<Rightarrow> if c div 100 \<noteq> 2 then Some (WebhookStatus c) else None))"

section \<open>Classification\<close>

definition burnRate :: "f64 \<Rightarrow> f64 \<Rightarrow> f64" where
  "burnRate sli objective =
    (if f64_le 1 objective then FFin 0 else if f64_le objective 0 then FFin 0
     else (1 - sli) / (1 - objective))"

definition classify :: "f64 \<Rightarrow> f64 \<Rightarrow> f64 \<Rightarrow> f64 \<Rightarrow> f64 \<Rightarrow> f64 \<Rightarrow> bool \<Rightarrow> Status" where
  "classify fastLong fastShort fastT slowLong slowShort slowT fastNoData =
    (if fastNoData then StatusNoData
     else if f64_lt fastT fastLong \<and> f64_lt fastT fastShort then StatusFastBurn
     else if f64_lt slowT slowLong \<and> f64_lt slowT slowShort then StatusSlowBurn
     else StatusOK)"

definition burning :: "Status \<Rightarrow> bool" where
  "burning st = (st = StatusFastBurn \<or> st = StatusSlowBurn)"

section \<open>One evaluation\<close>

type_synonym sli_source = "SLO \<Rightarrow> duration \<Rightarrow> (slo_error, f64 \<times> int) result"

record measured =
  ms_status :: Status
  ms_fastBurn :: f64
  ms_slowBurn :: f64
  ms_fastSLI :: f64
  ms_slowSLI :: f64

definition measure_slo :: "sli_source \<Rightarrow> SLO \<Rightarrow> (slo_error, measured) result" where
  "measure_slo src s =
    (case src s WindowFastLong of Inl e \<Rightarrow> Inl e | Inr (fl', flTotal) \<Rightarrow>
    (case src s WindowFastShort of Inl e \<Rightarrow> Inl e | Inr (fs, fsTotal) \<Rightarrow>
    (case src s WindowSlowLong of Inl e \<Rightarrow> Inl e | Inr (sl, _) \<Rightarrow>
    (case src s WindowSlowShort of Inl e \<Rightarrow> Inl e | Inr (ss, _) \<Rightarrow>
      (let ob = slo_ObjectivePct s
       in Inr \<lparr>ms_status = classify (burnRate fl' ob) (burnRate fs ob) (slo_FastBurnThreshold s)
                 (burnRate sl ob) (burnRate ss ob) (slo_SlowBurnThreshold s)
                 ((flTotal + fsTotal) mod 18446744073709551616 = 0),
               ms_fastBurn = burnRate fl' ob, ms_slowBurn = burnRate sl ob,
               ms_fastSLI = fl', ms_slowSLI = sl\<rparr>)))))"

definition should_notify :: "duration \<Rightarrow> Status \<Rightarrow> State \<Rightarrow> time \<Rightarrow> bool" where
  "should_notify cooldown status prev now =
    (let transitioned = burning status \<and> st_LastStatus prev \<noteq> status;
         cooldownExpired = burning status \<and> \<not> is_zero_time (st_LastAlertedAt prev)
           \<and> cooldown \<le> time_sub now (st_LastAlertedAt prev);
         freshBurn = burning status \<and> is_zero_time (st_LastAlertedAt prev)
     in transitioned \<or> cooldownExpired \<or> freshBurn)"

definition burn_event :: "SLO \<Rightarrow> measured \<Rightarrow> time \<Rightarrow> BurnEvent" where
  "burn_event s m now =
    (let ev = \<lparr>be_SLOID = slo_ID s, be_SLOName = slo_Name s, be_TenantID = slo_TenantID s,
               be_Severity = ms_status m, be_BurnRate = ms_fastBurn m,
               be_Threshold = slo_FastBurnThreshold s, be_SLIValue = ms_fastSLI m,
               be_LongWindow = WindowFastLong, be_OccurredAt = now\<rparr>
     in if ms_status m = StatusSlowBurn
        then ev\<lparr>be_BurnRate := ms_slowBurn m, be_Threshold := slo_SlowBurnThreshold s,
                be_SLIValue := ms_slowSLI m, be_LongWindow := WindowSlowLong\<rparr>
        else ev)"

record notify_env =
  ne_default :: "BurnEvent \<Rightarrow> slo_error option"
  ne_http :: "string \<Rightarrow> BurnEvent \<Rightarrow> http_outcome"

definition new_state :: "SLO \<Rightarrow> measured \<Rightarrow> time \<Rightarrow> State \<Rightarrow> State" where
  "new_state s m now prev = \<lparr>st_SLOID = slo_ID s, st_LastEvaluatedAt = now,
     st_LastStatus = ms_status m, st_LastBurnRate = ms_fastBurn m,
     st_LastAlertedAt = st_LastAlertedAt prev\<rparr>"

text \<open>The state to write, and the alert with its outcome.  An address that is not https is logged
  and the alert skipped.\<close>

definition notify_step :: "notify_env \<Rightarrow> duration \<Rightarrow> SLO \<Rightarrow> measured \<Rightarrow> time \<Rightarrow> State \<Rightarrow>
    State \<times> (delivery \<times> bool) list" where
  "notify_step env cooldown s m now prev =
    (let st = new_state s m now prev; ev = burn_event s m now
     in if should_notify cooldown (ms_status m) prev now then
          (if slo_NotifierURL s \<noteq> [] then
             (case NewWebhookNotifier (slo_NotifierURL s) of
                Inl _ \<Rightarrow> (st, [])
              | Inr url \<Rightarrow>
                  (case WebhookNotify (ne_http env) url ev of
                     Some _ \<Rightarrow> (st, [(ToWebhook url ev, False)])
                   | None \<Rightarrow> (st\<lparr>st_LastAlertedAt := now\<rparr>, [(ToWebhook url ev, True)])))
           else
             (case ne_default env ev of
                Some _ \<Rightarrow> (st, [(ToDefault ev, False)])
              | None \<Rightarrow> (st\<lparr>st_LastAlertedAt := now\<rparr>, [(ToDefault ev, True)])))
        else if \<not> burning (ms_status m) then (st\<lparr>st_LastAlertedAt := 0\<rparr>, [])
        else (st, []))"

record 's evaluated =
  ev_error :: "slo_error option"
  ev_store :: 's
  ev_alerts :: "(delivery \<times> bool) list"

definition EvaluateOne ::
    "(string \<Rightarrow> 's \<Rightarrow> (slo_error, State) result) \<Rightarrow> (State \<Rightarrow> 's \<Rightarrow> slo_error option \<times> 's) \<Rightarrow>
     sli_source \<Rightarrow> notify_env \<Rightarrow> duration \<Rightarrow> SLO \<Rightarrow> time \<Rightarrow> 's \<Rightarrow> 's evaluated" where
  "EvaluateOne getS upsS src env cooldown s now db =
    (case measure_slo src s of
       Inl e \<Rightarrow> \<lparr>ev_error = Some e, ev_store = db, ev_alerts = []\<rparr>
     | Inr m \<Rightarrow>
         (case getS (slo_ID s) db of
            Inl e \<Rightarrow> \<lparr>ev_error = Some e, ev_store = db, ev_alerts = []\<rparr>
          | Inr prev \<Rightarrow>
              (let (st, alerts) = notify_step env cooldown s m now prev; (err, db') = upsS st db
               in \<lparr>ev_error = err, ev_store = db', ev_alerts = alerts\<rparr>)))"

text \<open>An evaluation has two parts, between which others may get in: what it reads and sends, with the state that
  it is going to write, and the write.\<close>

definition evaluate_begin ::
    "(string \<Rightarrow> 's \<Rightarrow> (slo_error, State) result) \<Rightarrow> sli_source \<Rightarrow> notify_env \<Rightarrow> duration \<Rightarrow> SLO \<Rightarrow> time \<Rightarrow> 's \<Rightarrow>
     (slo_error, State \<times> (delivery \<times> bool) list) result" where
  "evaluate_begin getS src env cooldown s now db =
    (case measure_slo src s of
       Inl e \<Rightarrow> Inl e
     | Inr m \<Rightarrow> (case getS (slo_ID s) db of Inl e \<Rightarrow> Inl e | Inr prev \<Rightarrow> Inr (notify_step env cooldown s m now prev)))"

lemma EvaluateOne_parts:
  "EvaluateOne getS upsS src env cooldown s now db =
    (case evaluate_begin getS src env cooldown s now db of
       Inl e \<Rightarrow> \<lparr>ev_error = Some e, ev_store = db, ev_alerts = []\<rparr>
     | Inr (st, alerts) \<Rightarrow> \<lparr>ev_error = fst (upsS st db), ev_store = snd (upsS st db), ev_alerts = alerts\<rparr>)"
  by (simp add: EvaluateOne_def evaluate_begin_def case_prod_beta split: sum.split)

text \<open>A tick evaluates the listed objectives one after the other; an error of one is logged.\<close>

definition slo_tick ::
    "(string \<Rightarrow> 's \<Rightarrow> (slo_error, State) result) \<Rightarrow> (State \<Rightarrow> 's \<Rightarrow> slo_error option \<times> 's) \<Rightarrow>
     sli_source \<Rightarrow> notify_env \<Rightarrow> duration \<Rightarrow> time \<Rightarrow> (slo_error, SLO list) result \<Rightarrow> 's \<Rightarrow> 's" where
  "slo_tick getS upsS src env cooldown now listed db =
    (case listed of
       Inl _ \<Rightarrow> db
     | Inr slos \<Rightarrow> fold (\<lambda>s d. ev_store (EvaluateOne getS upsS src env cooldown s now d)) slos db)"

record Evaluator =
  e_Interval :: duration
  e_alertCooldown :: duration

definition NewEvaluator :: Evaluator where
  "NewEvaluator = \<lparr>e_Interval = 30 * second_ns, e_alertCooldown = hour_ns\<rparr>"

definition effective_interval :: "Evaluator \<Rightarrow> duration" where
  "effective_interval e = (if e_Interval e \<le> 0 then 30 * second_ns else e_Interval e)"

text \<open>\<open>Run\<close> ticks once and then at every tick of the clock, until its context ends; a round is what the world
  does during one tick.\<close>

record slo_round =
  rd_listFault :: bool
  rd_getFault :: bool
  rd_putFault :: bool
  rd_now :: time
  rd_source :: sli_source
  rd_env :: notify_env

definition slo_round_tick :: "duration \<Rightarrow> slo_round \<Rightarrow> slo_db \<Rightarrow> slo_db" where
  "slo_round_tick cooldown rd db =
    slo_tick (GetState (rd_getFault rd)) (UpsertState (rd_putFault rd)) (rd_source rd) (rd_env rd) cooldown (rd_now rd)
      (ListEnabled (rd_listFault rd) db) db"

definition slo_Run :: "duration \<Rightarrow> slo_round \<Rightarrow> slo_round list \<Rightarrow> slo_db \<Rightarrow> slo_db" where
  "slo_Run cooldown first ticks db = fold (slo_round_tick cooldown) (first # ticks) db"

section \<open>Burn rates\<close>

definition f64_repr :: "f64 \<Rightarrow> bool" where
  "f64_repr x = (case x of FFin r \<Rightarrow> rnd r = r \<and> \<bar>r\<bar> < f64_overflow | _ \<Rightarrow> False)"

definition objective_ok :: "f64 \<Rightarrow> bool" where
  "objective_ok ob = (f64_repr ob \<and> f64_lt 0 ob \<and> f64_lt ob 1)"

lemma objective_ok_cases:
  assumes "objective_ok ob"
  obtains r d where "ob = FFin r" "rnd r = r" "0 < r" "r < 1" "1 - ob = FFin d" "0 < d"
proof -
  obtain r where r: "ob = FFin r" "rnd r = r" "0 < r" "r < 1"
    using assms by (cases ob) (auto simp: objective_ok_def f64_repr_def f64_ops)
  have p: "0 < rnd (1 - r)" using r(2-4) by (rule rnd_one_minus_pos)
  have "rnd (1 - r) \<le> 1" using rnd_mono [of "1 - r" 1] r(3) by simp
  then have "fl (1 - r) = FFin (rnd (1 - r))" using p by (intro fl_exact_bounded) simp
  then have "1 - ob = FFin (rnd (1 - r))" using r(1) by (simp add: f64_ops)
  then show ?thesis using r p by (intro that)
qed

lemma burnRate_ok:
  assumes "objective_ok ob" shows "burnRate sli ob = (1 - sli) / (1 - ob)"
  using assms by (cases ob) (auto simp: burnRate_def objective_ok_def f64_repr_def f64_ops)

text \<open>The larger the success ratio, the smaller the burn rate.\<close>

lemma burnRate_antimono:
  assumes "objective_ok ob" "0 \<le> a" "a \<le> b" "b \<le> 1"
  shows "f64_le (burnRate (FFin b) ob) (burnRate (FFin a) ob)"
proof -
  obtain r d where d: "1 - ob = FFin d" "0 < d" using assms(1) by (rule objective_ok_cases)
  have fin: "\<exists>x. fl (1 - c) = FFin x \<and> x = rnd (1 - c)" if "0 \<le> c" "c \<le> 1" for c
    using rnd_mono [of 0 "1 - c"] rnd_mono [of "1 - c" 1] that by (simp add: fl_exact_bounded)
  have "burnRate (FFin c) ob = fl (rnd (1 - c) / d)" if "0 \<le> c" "c \<le> 1" for c
    using fin [OF that] d burnRate_ok [OF assms(1)] by (auto simp: f64_ops)
  moreover have "rnd (1 - b) / d \<le> rnd (1 - a) / d"
    using assms(3) d(2) by (intro divide_right_mono rnd_mono) auto
  ultimately show ?thesis using assms by (simp add: fl_mono)
qed

lemma classify_fast:
  "classify fl' fs ft sl ss st nd = StatusFastBurn \<longleftrightarrow> \<not> nd \<and> f64_lt ft fl' \<and> f64_lt ft fs"
  by (auto simp: classify_def)

lemma classify_slow:
  "classify fl' fs ft sl ss st nd = StatusSlowBurn \<longleftrightarrow>
   \<not> nd \<and> \<not> (f64_lt ft fl' \<and> f64_lt ft fs) \<and> f64_lt st sl \<and> f64_lt st ss"
  by (auto simp: classify_def)

section \<open>When an alert is tried\<close>

lemma notify_step_state:
  assumes "notify_step env cooldown s m now prev = (st, alerts)"
  shows "st_SLOID st = slo_ID s \<and> st_LastStatus st = ms_status m \<and> st_LastEvaluatedAt st = now
    \<and> st_LastBurnRate st = ms_fastBurn m"
  using assms
  by (auto simp: notify_step_def new_state_def Let_def split: if_splits sum.splits option.splits)

lemma notify_step_alerts:
  assumes "notify_step env cooldown s m now prev = (st, alerts)"
  shows "alerts = [] \<or> (\<exists>d ok. alerts = [(d, ok)] \<and> should_notify cooldown (ms_status m) prev now)"
  using assms
  by (auto simp: notify_step_def Let_def split: if_splits sum.splits option.splits)

definition delivered :: "(delivery \<times> bool) list \<Rightarrow> bool" where
  "delivered alerts = (\<exists>d. (d, True) \<in> set alerts)"

lemma notify_step_alert_time:
  assumes "notify_step env cooldown s m now prev = (st, alerts)"
  shows "st_LastAlertedAt st =
    (if delivered alerts then now else if burning (ms_status m) then st_LastAlertedAt prev else 0)"
  using assms
  by (auto simp: notify_step_def Let_def delivered_def new_state_def should_notify_def burning_def
      split: if_splits sum.splits option.splits)

lemma should_notify_burning: "should_notify cooldown status prev now \<Longrightarrow> burning status"
  by (auto simp: should_notify_def Let_def)

lemma delivered_burning:
  "notify_step env cooldown s m now prev = (st, alerts) \<Longrightarrow> delivered alerts \<Longrightarrow>
   should_notify cooldown (ms_status m) prev now"
  using notify_step_alerts by (fastforce simp: delivered_def)

text \<open>With the log notifier or a receiver that accepts, every due alert is delivered.\<close>

lemma notify_step_due:
  assumes "should_notify cooldown (ms_status m) prev now" "slo_NotifierURL s = []"
    "ne_default env = LogNotify"
  shows "notify_step env cooldown s m now prev =
    ((new_state s m now prev)\<lparr>st_LastAlertedAt := now\<rparr>, [(ToDefault (burn_event s m now), True)])"
  using assms by (simp add: notify_step_def Let_def LogNotify_def)

section \<open>Evaluations through the interface\<close>

lemma EvaluateOne_cases:
  obtains (failed) e where "EvaluateOne g u src env cooldown s now db =
      \<lparr>ev_error = Some e, ev_store = db, ev_alerts = []\<rparr>"
  | (written) st where "st_SLOID st = slo_ID s"
      "ev_error (EvaluateOne g u src env cooldown s now db) = fst (u st db)"
      "ev_store (EvaluateOne g u src env cooldown s now db) = snd (u st db)"
proof (cases "measure_slo src s")
  case (Inl e)
  then show ?thesis by (intro failed [of e]) (simp add: EvaluateOne_def)
next
  case m: (Inr m)
  show ?thesis
  proof (cases "g (slo_ID s) db")
    case (Inl e)
    then show ?thesis using m by (intro failed [of e]) (simp add: EvaluateOne_def)
  next
    case (Inr prev)
    obtain st alerts where n: "notify_step env cooldown s m now prev = (st, alerts)"
      by (cases "notify_step env cooldown s m now prev") auto
    then have "st_SLOID st = slo_ID s" using notify_step_state by blast
    then show ?thesis using m Inr n
      by (intro written [of st]) (simp_all add: EvaluateOne_def case_prod_beta)
  qed
qed

context slo_reader
begin

lemma EvaluateOne_frame:
  assumes "ok db" "i \<noteq> slo_ID s"
  shows "get i (ev_store (EvaluateOne get upsert src env cooldown s now db)) = get i db"
proof (cases rule: EvaluateOne_cases [of get upsert src env cooldown s now db])
  case (written st)
  then show ?thesis using get_upsert_other [OF assms(1), of i st] assms(2) by simp
qed simp

lemma EvaluateOne_ok:
  assumes "ok db"
  shows "ok (ev_store (EvaluateOne get upsert src env cooldown s now db))"
proof (cases rule: EvaluateOne_cases [of get upsert src env cooldown s now db])
  case (written st)
  then show ?thesis using upsert_ok [OF assms] by simp
qed (use assms in simp)

lemma EvaluateOne_failed:
  assumes "ok db" "ev_error (EvaluateOne get upsert src env cooldown s now db) = Some e"
  shows "ev_store (EvaluateOne get upsert src env cooldown s now db) = db"
proof (cases rule: EvaluateOne_cases [of get upsert src env cooldown s now db])
  case (written st)
  then show ?thesis using upsert_fail [OF assms(1), of st e] assms(2) by (cases "upsert st db") auto
qed simp

lemma EvaluateOne_success:
  assumes "ok db" "ev_error (EvaluateOne get upsert src env cooldown s now db) = None"
    "get (slo_ID s) db = Inr prev" "measure_slo src s = Inr m"
  shows "\<exists>cur. get (slo_ID s) (ev_store (EvaluateOne get upsert src env cooldown s now db)) = Inr cur
    \<and> st_LastStatus cur = ms_status m \<and> st_LastEvaluatedAt cur = now
    \<and> st_LastAlertedAt cur =
        (if delivered (ev_alerts (EvaluateOne get upsert src env cooldown s now db)) \<and> now \<noteq> 0
         then now else st_LastAlertedAt prev)"
proof -
  obtain st alerts where n: "notify_step env cooldown s m now prev = (st, alerts)"
    by (cases "notify_step env cooldown s m now prev") auto
  obtain err db' where u: "upsert st db = (err, db')" by (cases "upsert st db") auto
  have e: "EvaluateOne get upsert src env cooldown s now db =
      \<lparr>ev_error = err, ev_store = db', ev_alerts = alerts\<rparr>"
    using assms(3,4) n u by (simp add: EvaluateOne_def)
  have st: "st_SLOID st = slo_ID s" "st_LastStatus st = ms_status m" "st_LastEvaluatedAt st = now"
    using notify_step_state [OF n] by auto
  have "upsert st db = (None, db')" using u e assms(2) by simp
  then obtain cur where "get (slo_ID s) db' = Inr cur" "same_state cur (merged prev st)"
    using get_upsert_same [OF assms(1), of st db' prev] assms(3) st(1) by auto
  then show ?thesis using e st notify_step_alert_time [OF n]
    by (auto simp: same_state_def merged_def is_zero_time_def)
qed

text \<open>A tick evaluates every objective as if it were alone: the state of an objective after the tick
  is that of its own evaluation.\<close>

lemma tick_frame:
  assumes "ok db" "i \<notin> set (map slo_ID slos)"
  shows "get i (fold (\<lambda>s d. ev_store (EvaluateOne get upsert src env cooldown s now d)) slos db) = get i db"
  using assms
proof (induction slos arbitrary: db)
  case (Cons s slos)
  then show ?case using EvaluateOne_ok [OF Cons.prems(1)] EvaluateOne_frame [OF Cons.prems(1), of i s] by simp
qed simp

end

section \<open>Runs\<close>

text \<open>The times of the delivered alerts of one objective over a list of evaluations.\<close>

fun eval_run ::
    "(string \<Rightarrow> 's \<Rightarrow> (slo_error, State) result) \<Rightarrow> (State \<Rightarrow> 's \<Rightarrow> slo_error option \<times> 's) \<Rightarrow>
     duration \<Rightarrow> SLO \<Rightarrow> (time \<times> sli_source \<times> notify_env) list \<Rightarrow> 's \<Rightarrow> time list" where
  "eval_run g u cooldown s [] db = []"
| "eval_run g u cooldown s ((now, src, env) # ts) db =
    (let e = EvaluateOne g u src env cooldown s now db
     in (if delivered (ev_alerts e) then [now] else []) @ eval_run g u cooldown s ts (ev_store e))"

fun run_errors ::
    "(string \<Rightarrow> 's \<Rightarrow> (slo_error, State) result) \<Rightarrow> (State \<Rightarrow> 's \<Rightarrow> slo_error option \<times> 's) \<Rightarrow>
     duration \<Rightarrow> SLO \<Rightarrow> (time \<times> sli_source \<times> notify_env) list \<Rightarrow> 's \<Rightarrow> slo_error option list" where
  "run_errors g u cooldown s [] db = []"
| "run_errors g u cooldown s ((now, src, env) # ts) db =
    (let e = EvaluateOne g u src env cooldown s now db
     in ev_error e # run_errors g u cooldown s ts (ev_store e))"

definition tick_status :: "SLO \<Rightarrow> Status \<Rightarrow> time \<times> sli_source \<times> notify_env \<Rightarrow> bool" where
  "tick_status s st tick = (fst tick \<noteq> 0 \<and>
     (case measure_slo (fst (snd tick)) s of Inl _ \<Rightarrow> False | Inr m \<Rightarrow> ms_status m = st))"

context slo_reader
begin

lemma delivered_due:
  assumes "get (slo_ID s) db = Inr prev" "measure_slo src s = Inr m"
    "delivered (ev_alerts (EvaluateOne get upsert src env cooldown s now db))"
  shows "should_notify cooldown (ms_status m) prev now"
proof -
  obtain st alerts where n: "notify_step env cooldown s m now prev = (st, alerts)"
    by (cases "notify_step env cooldown s m now prev") auto
  have "ev_alerts (EvaluateOne get upsert src env cooldown s now db) = alerts"
    using assms(1,2) n by (simp add: EvaluateOne_def case_prod_beta)
  then show ?thesis using delivered_burning [OF n] assms(3) by simp
qed

lemma run_spacing:
  assumes "ok db" "get (slo_ID s) db = Inr prev" "list_all (tick_status s st) ticks"
    "list_all (\<lambda>e. e = None) (run_errors get upsert cooldown s ticks db)"
  shows "successively (\<lambda>a b. cooldown \<le> time_sub b a) (eval_run get upsert cooldown s ticks db) \<and>
    (st_LastStatus prev = st \<and> st_LastAlertedAt prev \<noteq> 0 \<longrightarrow>
     successively (\<lambda>a b. cooldown \<le> time_sub b a)
       (st_LastAlertedAt prev # eval_run get upsert cooldown s ticks db))"
  using assms
proof (induction ticks arbitrary: db prev)
  case (Cons tick ticks)
  obtain now src env where tick: "tick = (now, src, env)" by (cases tick) auto
  obtain m where m: "measure_slo src s = Inr m" "ms_status m = st" "now \<noteq> 0"
    using Cons.prems(3) by (auto simp: tick_status_def tick split: sum.splits)
  let ?e = "EvaluateOne get upsert src env cooldown s now db"
  have ok': "ok (ev_store ?e)" using Cons.prems(1) by (rule EvaluateOne_ok)
  have err: "ev_error ?e = None"
    and errs: "list_all (\<lambda>e. e = None) (run_errors get upsert cooldown s ticks (ev_store ?e))"
    using Cons.prems(4) by (simp_all add: tick Let_def)
  obtain cur where cur: "get (slo_ID s) (ev_store ?e) = Inr cur" "st_LastStatus cur = st"
      "st_LastAlertedAt cur = (if delivered (ev_alerts ?e) then now else st_LastAlertedAt prev)"
    using EvaluateOne_success [OF Cons.prems(1) err Cons.prems(2) m(1)] m(2,3) by auto
  have IH: "successively (\<lambda>a b. cooldown \<le> time_sub b a) (eval_run get upsert cooldown s ticks (ev_store ?e))"
    "st_LastAlertedAt cur \<noteq> 0 \<Longrightarrow> successively (\<lambda>a b. cooldown \<le> time_sub b a)
       (st_LastAlertedAt cur # eval_run get upsert cooldown s ticks (ev_store ?e))"
    using Cons.IH [OF ok' cur(1) _ errs] Cons.prems(3) cur(2) by auto
  show ?case
  proof (cases "delivered (ev_alerts ?e)")
    case True
    have "should_notify cooldown st prev now" using delivered_due [OF Cons.prems(2) m(1) True] m(2) by simp
    then have "st_LastStatus prev = st \<and> st_LastAlertedAt prev \<noteq> 0 \<longrightarrow>
        cooldown \<le> time_sub now (st_LastAlertedAt prev)"
      by (auto simp: should_notify_def Let_def is_zero_time_def)
    then show ?thesis using True IH(2) cur(3) m(3) by (auto simp: tick Let_def)
  next
    case False
    then show ?thesis using IH cur(3) by (auto simp: tick Let_def)
  qed
qed simp

lemma tick_state:
  assumes "ok db" "distinct (map slo_ID slos)" "s \<in> set slos" "measure_slo src s = Inr m"
    "get (slo_ID s) db = Inr prev"
    "\<And>d. ok d \<Longrightarrow> get (slo_ID s) d = Inr prev \<Longrightarrow>
       ev_error (EvaluateOne get upsert src env cooldown s now d) = None"
  shows "\<exists>cur. get (slo_ID s) (slo_tick get upsert src env cooldown now (Inr slos) db) = Inr cur
    \<and> st_LastStatus cur = ms_status m \<and> st_LastEvaluatedAt cur = now"
proof -
  let ?f = "\<lambda>s d. ev_store (EvaluateOne get upsert src env cooldown s now d)"
  obtain xs ys where slos: "slos = xs @ s # ys" using assms(3) by (meson split_list)
  have dist: "slo_ID s \<notin> set (map slo_ID xs)" "slo_ID s \<notin> set (map slo_ID ys)"
    using assms(2) by (auto simp: slos)
  have ok_fold: "ok d \<Longrightarrow> ok (fold ?f zs d)" for zs d
    by (induction zs arbitrary: d) (auto intro: EvaluateOne_ok)
  let ?d = "fold ?f xs db"
  have d: "ok ?d" "get (slo_ID s) ?d = Inr prev"
    using ok_fold [OF assms(1)] tick_frame [OF assms(1) dist(1)] assms(5) by simp_all
  obtain cur where "get (slo_ID s) (?f s ?d) = Inr cur" "st_LastStatus cur = ms_status m"
      "st_LastEvaluatedAt cur = now"
    using EvaluateOne_success [OF d(1) assms(6) [OF d] d(2) assms(4)] by blast
  moreover have "get (slo_ID s) (fold ?f ys (?f s ?d)) = get (slo_ID s) (?f s ?d)"
    using tick_frame [OF EvaluateOne_ok [OF d(1)] dist(2)] .
  ultimately show ?thesis by (simp add: slo_tick_def slos)
qed

end

section \<open>The store never fails on a burn rate that fits its column\<close>

lemma EvaluateOne_no_error:
  assumes "measure_slo src s = Inr m" "numeric_col 10 4 (ms_fastBurn m) \<noteq> None" "slo_ID s \<in> set (map slo_ID (db_slos db))"
  shows "ev_error (EvaluateOne (GetState False) (UpsertState False) src env cooldown s now db) = None"
proof -
  obtain prev where prev: "GetState False (slo_ID s) db = Inr prev"
    by (cases "find_state db (slo_ID s)") (auto simp: GetState_def)
  obtain st alerts where n: "notify_step env cooldown s m now prev = (st, alerts)"
    by (cases "notify_step env cooldown s m now prev") auto
  have "st_LastBurnRate st = ms_fastBurn m" "st_SLOID st = slo_ID s" using notify_step_state [OF n] by simp_all
  then show ?thesis using assms prev n
    by (auto simp: EvaluateOne_def UpsertState_def case_prod_beta split: option.splits)
qed

lemma db_slos_EvaluateOne [simp]:
  "db_slos (ev_store (EvaluateOne g (UpsertState flt) src env cooldown s now db)) = db_slos db"
  by (cases rule: EvaluateOne_cases [of g "UpsertState flt" src env cooldown s now db]) simp_all

lemma GetState_total: "\<exists>prev. GetState False i db = Inr prev"
  by (cases "find_state db i") (auto simp: GetState_def)

section \<open>Properties\<close>

text \<open>Over any sequence of evaluations of one objective that all find the same burning
  status and whose writes succeed, two consecutive delivered alerts are at least the cooldown
  apart, whatever the receiver does in between and whatever the stored state was.\<close>

theorem alerts_spaced:
  assumes "db_ok db" "list_all (tick_status s st) ticks"
    "list_all (\<lambda>e. e = None) (run_errors (GetState False) (UpsertState False) cooldown s ticks db)"
  shows "successively (\<lambda>a b. cooldown \<le> time_sub b a)
    (eval_run (GetState False) (UpsertState False) cooldown s ticks db)"
proof -
  obtain prev where "GetState False (slo_ID s) db = Inr prev" using GetState_total by blast
  from store_reader.run_spacing [of "db_slos db" db, OF _ this assms(2,3)] assms(1) show ?thesis by (simp add: reader_ok_def)
qed


text \<open>The state of a recovered objective keeps the time of the last alert, although the
  evaluator resets it: the write merges a null into the stored value.  So after a recovery, a new
  burn whose alert could not be delivered is not retried until the cooldown of the alert before
  the recovery is over.\<close>

theorem recovery_not_persisted:
  assumes "db_ok db" "GetState False (slo_ID s) db = Inr prev" "st_LastAlertedAt prev \<noteq> 0"
    and m1: "measure_slo src1 s = Inr m1" "\<not> burning (ms_status m1)"
    and m2: "measure_slo src2 s = Inr m2"
    and m3: "measure_slo src3 s = Inr m3" "ms_status m3 = ms_status m2"
    and d1: "d1 = EvaluateOne (GetState False) (UpsertState False) src1 env1 cooldown s t1 db"
    and d2: "d2 = EvaluateOne (GetState False) (UpsertState False) src2 env2 cooldown s t2 (ev_store d1)"
    and ok: "ev_error d1 = None" "ev_error d2 = None" "\<not> delivered (ev_alerts d2)"
    and t3: "time_sub t3 (st_LastAlertedAt prev) < cooldown"
  shows "ev_alerts (EvaluateOne (GetState False) (UpsertState False) src3 env3 cooldown s t3 (ev_store d2)) = []"
proof -
  have ok0: "reader_ok (db_slos db) db" using assms(1) by (simp add: reader_ok_def)
  have nd1: "\<not> delivered (ev_alerts d1)"
    using store_reader.delivered_due [OF assms(2) m1(1)] m1(2) should_notify_burning
    unfolding d1 by blast
  obtain c1 where c1: "GetState False (slo_ID s) (ev_store d1) = Inr c1"
      "st_LastAlertedAt c1 = st_LastAlertedAt prev"
    using store_reader.EvaluateOne_success [OF ok0 ok(1) [unfolded d1] assms(2) m1(1)] nd1
    unfolding d1 by auto
  have ok1: "reader_ok (db_slos db) (ev_store d1)" unfolding d1 using ok0 by (rule store_reader.EvaluateOne_ok)
  obtain c2 where c2: "GetState False (slo_ID s) (ev_store d2) = Inr c2"
      "st_LastAlertedAt c2 = st_LastAlertedAt prev" "st_LastStatus c2 = ms_status m2"
    using store_reader.EvaluateOne_success [OF ok1 ok(2) [unfolded d2] c1(1) m2] ok(3) c1(2)
    unfolding d2 by auto
  have "\<not> should_notify cooldown (ms_status m3) c2 t3"
    using c2(2,3) m3(2) assms(3) t3 by (simp add: should_notify_def Let_def is_zero_time_def)
  then have "snd (notify_step env3 cooldown s m3 t3 c2) = []"
    using notify_step_alerts [of env3 cooldown s m3 t3 c2]
    by (cases "notify_step env3 cooldown s m3 t3 c2") auto
  then show ?thesis using c2(1) m3(1) by (simp add: EvaluateOne_def case_prod_beta)
qed

text \<open>A window without rows counts as a window of failures: when the last five minutes
  have no rows, a burn over the last hour alone makes the objective burn fast, for every threshold
  below the largest burn rate that the objective allows.\<close>

theorem empty_window_burns:
  assumes "objective_ok (slo_ObjectivePct s)"
    and "src s WindowFastLong = Inr (sli, n)" "src s WindowFastShort = Inr (FFin 0, 0)"
    and "src s WindowSlowLong = Inr (a, na)" "src s WindowSlowShort = Inr (b, nb)"
    and "0 < n" "n < 18446744073709551616"
    and "f64_lt (slo_FastBurnThreshold s) (burnRate sli (slo_ObjectivePct s))"
    and "f64_lt (slo_FastBurnThreshold s) (1 / (1 - slo_ObjectivePct s))"
  shows "\<exists>m. measure_slo src s = Inr m \<and> ms_status m = StatusFastBurn"
proof -
  have "(1::f64) - FFin 0 = 1" by (simp add: f64_ops)
  then have "burnRate (FFin 0) (slo_ObjectivePct s) = 1 / (1 - slo_ObjectivePct s)"
    using burnRate_ok [OF assms(1), of "FFin 0"] by simp
  then show ?thesis using assms by (simp add: measure_slo_def Let_def classify_def)
qed

definition storm_slo :: "string \<Rightarrow> SLO" where
  "storm_slo i = \<lparr>slo_ID = i, slo_TenantID = ''t'', slo_Name = ''n'', slo_Description = [],
     slo_SLIKind = SLIKindCanarySuccess, slo_SLIFilter = [], slo_ObjectivePct = fl (999999 / 1000000),
     slo_WindowSeconds = 3600, slo_FastBurnThreshold = fl (144 / 10), slo_SlowBurnThreshold = fl 6,
     slo_NotifierURL = [], slo_Enabled = True, slo_CreatedAt = 0\<rparr>"

definition all_bad :: sli_source where "all_bad s w = Inr (FFin 0, 10)"

lemma storm_measure:
  "slo_Validate (storm_slo i) = None \<and>
   (\<exists>m. measure_slo all_bad (storm_slo i) = Inr m \<and> ms_status m = StatusFastBurn
     \<and> numeric_col 10 4 (ms_fastBurn m) = None)"
proof -
  have "slo_Validate (storm_slo i) = None \<and>
    (case measure_slo all_bad (storm_slo i) of Inl _ \<Rightarrow> False
     | Inr m \<Rightarrow> ms_status m = StatusFastBurn \<and> numeric_col 10 4 (ms_fastBurn m) = None)"
    by code_simp
  then show ?thesis by (auto split: sum.splits)
qed

text \<open>The burn rate of a failing objective of 0.999999 does not fit the column of the state
  table: every evaluation of it delivers an alert and then fails to store the state, so that the
  alert is repeated at every tick, whatever the cooldown.\<close>

theorem overflow_alert_storm:
  assumes "find_state db i = None" "set ticks \<subseteq> {(t, all_bad, env) | t. True}"
    "ne_default env = LogNotify"
  shows "eval_run (GetState False) (UpsertState False) cooldown (storm_slo i) ticks db = map fst ticks
    \<and> run_errors (GetState False) (UpsertState False) cooldown (storm_slo i) ticks db =
        map (\<lambda>_. Some SloNumericOverflow) ticks"
  using assms(2)
proof (induction ticks)
  case (Cons tick ticks)
  then obtain t where tick: "tick = (t, all_bad, env)" by auto
  obtain m where m: "measure_slo all_bad (storm_slo i) = Inr m" "ms_status m = StatusFastBurn"
      "numeric_col 10 4 (ms_fastBurn m) = None"
    using storm_measure by blast
  obtain prev where prev: "GetState False i db = Inr prev" "st_LastStatus prev = StatusUnknown"
    using assms(1) by (auto simp: GetState_def)
  have due: "should_notify cooldown (ms_status m) prev t"
    using m(2) prev(2) by (simp add: should_notify_def Let_def burning_def)
  have n: "notify_step env cooldown (storm_slo i) m t prev =
      ((new_state (storm_slo i) m t prev)\<lparr>st_LastAlertedAt := t\<rparr>,
       [(ToDefault (burn_event (storm_slo i) m t), True)])"
    using notify_step_due [OF due] assms(3) by (simp add: storm_slo_def)
  have "EvaluateOne (GetState False) (UpsertState False) all_bad env cooldown (storm_slo i) t db =
      \<lparr>ev_error = Some SloNumericOverflow, ev_store = db,
       ev_alerts = [(ToDefault (burn_event (storm_slo i) m t), True)]\<rparr>"
    using m(1,3) prev(1) n by (simp add: EvaluateOne_def UpsertState_def new_state_def storm_slo_def [of i])
  then show ?case using Cons by (auto simp: tick Let_def delivered_def)
qed simp

text \<open>C36 (bounds).  For an objective in the open unit interval the burn rate lies between zero and the
  reciprocal of the complement of the objective and does not grow with the success ratio.\<close>

theorem burn_rate_bounds:
  assumes "objective_ok ob" "0 \<le> a" "a \<le> b" "b \<le> 1"
  shows "f64_le 0 (burnRate (FFin b) ob) \<and> f64_le (burnRate (FFin b) ob) (burnRate (FFin a) ob)
    \<and> f64_le (burnRate (FFin a) ob) (1 / (1 - ob))"
proof -
  obtain r d where d: "1 - ob = FFin d" "0 < d" using assms(1) by (rule objective_ok_cases)
  have "burnRate (FFin 0) ob = 1 / (1 - ob)" "burnRate (FFin 1) ob = FFin 0"
    using d by (simp_all add: burnRate_ok [OF assms(1)] f64_ops)
  then show ?thesis
    using burnRate_antimono [OF assms] burnRate_antimono [OF assms(1) assms(2), of 0]
      burnRate_antimono [OF assms(1), of 0 a] burnRate_antimono [OF assms(1), of b 1] assms
    by (auto simp: f64_ops)
qed

section \<open>Instances\<close>

definition slo99 :: SLO where
  "slo99 = (storm_slo ''s99'')\<lparr>slo_ObjectivePct := fl (99 / 100)\<rparr>"

definition no_slo_db :: slo_db where "no_slo_db = \<lparr>db_slos = [], db_slo_state = []\<rparr>"

definition watched_db :: slo_db where
  "watched_db = \<lparr>db_slos = [storm_slo ''bad'', slo99], db_slo_state = []\<rparr>"

definition log_env :: notify_env where
  "log_env = \<lparr>ne_default = LogNotify, ne_http = (\<lambda>_ _. HttpFail)\<rparr>"

definition dead_env :: notify_env where
  "dead_env = \<lparr>ne_default = (\<lambda>_. Some WebhookTransport), ne_http = (\<lambda>_ _. HttpFail)\<rparr>"

definition all_good :: sli_source where "all_good s w = Inr (FFin 1, 10)"

definition silent_source :: sli_source where
  "silent_source s w = (if w = WindowFastShort then Inr (FFin 0, 0) else Inr (FFin 0, 10))"

definition alerted_db :: slo_db where
  "alerted_db = \<lparr>db_slos = [slo99], db_slo_state =
     [\<lparr>sr_slo_id = ''s99'', sr_last_evaluated_at = Some (10 * hour_ns), sr_last_status = StatusFastBurn,
       sr_last_burn_rate = Some (FFin 100), sr_last_alerted_at = Some (10 * hour_ns)\<rparr>]\<rparr>"

lemma slo99_bad:
  "\<exists>m. measure_slo all_bad slo99 = Inr m \<and> ms_status m = StatusFastBurn
    \<and> numeric_col 10 4 (ms_fastBurn m) \<noteq> None"
proof -
  have "case measure_slo all_bad slo99 of Inl _ \<Rightarrow> False
     | Inr m \<Rightarrow> ms_status m = StatusFastBurn \<and> numeric_col 10 4 (ms_fastBurn m) \<noteq> None"
    by code_simp
  then show ?thesis by (auto split: sum.splits)
qed

lemma slo99_good:
  "\<exists>m. measure_slo all_good slo99 = Inr m \<and> ms_status m = StatusOK
    \<and> numeric_col 10 4 (ms_fastBurn m) \<noteq> None"
proof -
  have "case measure_slo all_good slo99 of Inl _ \<Rightarrow> False
     | Inr m \<Rightarrow> ms_status m = StatusOK \<and> numeric_col 10 4 (ms_fastBurn m) \<noteq> None"
    by code_simp
  then show ?thesis by (auto split: sum.splits)
qed

lemma slo99_objective: "objective_ok (slo_ObjectivePct slo99)"
  by code_simp

theorem alerts_spaced_witness:
  "successively (\<lambda>a b. hour_ns \<le> time_sub b a)
    (eval_run (GetState False) (UpsertState False) hour_ns slo99
      [(hour_ns, all_bad, log_env), (hour_ns + minute_ns, all_bad, dead_env), (2 * hour_ns, all_bad, log_env)]
      watched_db)"
proof (rule alerts_spaced [where st = StatusFastBurn])
  show "db_ok watched_db" by (simp add: db_ok_def watched_db_def)
  show "list_all (tick_status slo99 StatusFastBurn)
      [(hour_ns, all_bad, log_env), (hour_ns + minute_ns, all_bad, dead_env), (2 * hour_ns, all_bad, log_env)]"
    using slo99_bad by (auto simp: tick_status_def hour_ns_def minute_ns_def)
  show "list_all (\<lambda>e. e = None) (run_errors (GetState False) (UpsertState False) hour_ns slo99
      [(hour_ns, all_bad, log_env), (hour_ns + minute_ns, all_bad, dead_env), (2 * hour_ns, all_bad, log_env)]
      watched_db)"
    using slo99_bad EvaluateOne_no_error by (auto simp: Let_def watched_db_def)
qed


theorem recovery_not_persisted_witness:
  "ev_alerts (EvaluateOne (GetState False) (UpsertState False) all_bad log_env hour_ns slo99
      (10 * hour_ns + 3 * minute_ns)
      (ev_store (EvaluateOne (GetState False) (UpsertState False) all_bad dead_env hour_ns slo99
        (10 * hour_ns + 2 * minute_ns)
        (ev_store (EvaluateOne (GetState False) (UpsertState False) all_good log_env hour_ns slo99
          (10 * hour_ns + minute_ns) alerted_db))))) = []"
proof -
  obtain m where m: "measure_slo all_bad slo99 = Inr m" "ms_status m = StatusFastBurn"
    "numeric_col 10 4 (ms_fastBurn m) \<noteq> None" using slo99_bad by blast
  obtain g where g: "measure_slo all_good slo99 = Inr g" "ms_status g = StatusOK"
    "numeric_col 10 4 (ms_fastBurn g) \<noteq> None" using slo99_good by blast
  have id: "slo_ID slo99 = ''s99''" "slo_NotifierURL slo99 = []" by (simp_all add: slo99_def storm_slo_def)
  have url: "ev_alerts (EvaluateOne (GetState False) (UpsertState False) all_bad dead_env c slo99 t d)
      \<noteq> [] \<Longrightarrow> \<not> delivered (ev_alerts (EvaluateOne (GetState False) (UpsertState False) all_bad dead_env c slo99 t d))"
    for c t d
    using m(1) id(2)
    by (auto simp: EvaluateOne_def notify_step_def Let_def dead_env_def delivered_def split: sum.splits prod.splits if_splits)
  then have nd: "\<not> delivered (ev_alerts (EvaluateOne (GetState False) (UpsertState False) all_bad dead_env c slo99 t d))"
    for c t d by (cases "ev_alerts (EvaluateOne (GetState False) (UpsertState False) all_bad dead_env c slo99 t d) = []")
      (auto simp: delivered_def)
  obtain prev where prev: "GetState False (slo_ID slo99) alerted_db = Inr prev"
      "st_LastAlertedAt prev = 10 * hour_ns"
    by (auto simp: GetState_def find_state_def alerted_db_def id opt_time_def)
  show ?thesis
    by (rule recovery_not_persisted [OF _ prev(1) _ g(1) _ m(1) m(1) refl refl refl _ _ nd])
      (simp_all add: prev(2) g m EvaluateOne_no_error burning_def db_ok_def alerted_db_def hour_ns_def
        minute_ns_def time_sub_def int64_max_def int64_min_def)
qed

theorem empty_window_burns_witness:
  "\<exists>m. measure_slo silent_source slo99 = Inr m \<and> ms_status m = StatusFastBurn"
proof (rule empty_window_burns [OF slo99_objective])
  show "silent_source slo99 WindowFastLong = Inr (FFin 0, 10)"
    "silent_source slo99 WindowFastShort = Inr (FFin 0, 0)"
    "silent_source slo99 WindowSlowLong = Inr (FFin 0, 10)"
    "silent_source slo99 WindowSlowShort = Inr (FFin 0, 10)"
    by code_simp+
  show "f64_lt (slo_FastBurnThreshold slo99) (burnRate (FFin 0) (slo_ObjectivePct slo99))"
    "f64_lt (slo_FastBurnThreshold slo99) (1 / (1 - slo_ObjectivePct slo99))"
    by code_simp+
qed simp_all

theorem overflow_alert_storm_witness:
  "eval_run (GetState False) (UpsertState False) hour_ns (storm_slo ''s'')
     [(1, all_bad, log_env), (2, all_bad, log_env), (3, all_bad, log_env)] no_slo_db = [1, 2, 3]"
  using overflow_alert_storm [of no_slo_db "''s''"
      "[(1, all_bad, log_env), (2, all_bad, log_env), (3, all_bad, log_env)]" log_env hour_ns]
  by (simp add: find_state_def no_slo_db_def log_env_def)

theorem burn_rate_bounds_witness:
  "f64_le (burnRate (FFin (1 / 2)) (slo_ObjectivePct slo99)) (1 / (1 - slo_ObjectivePct slo99))"
  using burn_rate_bounds [OF slo99_objective, of "1 / 2" 1] by simp

end
