(* ===== verification/AuthRbac.thy ===== *)
theory AuthRbac
  imports GoBase
begin

text \<open>
  Roles and the access decision (pkg/auth/types.go, pkg/auth/rbac.go).  A role and a verb have a
  level, and an action of the form \<open>resource:verb\<close> is allowed when both levels are positive and that
  of the role is at least that of the verb.  The specification is the documented policy table.
\<close>

type_synonym Role = string

definition RoleAdmin :: Role where "RoleAdmin = ''admin''"
definition RoleOperator :: Role where "RoleOperator = ''operator''"
definition RoleViewer :: Role where "RoleViewer = ''viewer''"

definition Role_Valid :: "Role \<Rightarrow> bool" where
  "Role_Valid r = (r = RoleAdmin \<or> r = RoleOperator \<or> r = RoleViewer)"

datatype auth_error = ErrInvalidCredentials | ErrSessionNotFound | ErrUserExists | ErrInvalidRole
  | ErrWeakPassword | ErrForbidden | AuthDb string | AuthRandom | AuthHash

definition verbLevel :: "string \<Rightarrow> int" where
  "verbLevel verb =
    (let v = to_lower verb
     in if v = ''read'' then 1 else if v = ''write'' then 2 else if v = ''admin'' then 3 else 0)"

definition roleLevel :: "Role \<Rightarrow> int" where
  "roleLevel r =
    (if r = RoleViewer then 1 else if r = RoleOperator then 2 else if r = RoleAdmin then 3 else 0)"

definition Authorize :: "Role \<Rightarrow> string \<Rightarrow> auth_error option" where
  "Authorize r action =
    (case split_first (CHR '':'') action of
       [_, verb] \<Rightarrow>
         if verbLevel verb \<le> roleLevel r \<and> 0 < roleLevel r \<and> 0 < verbLevel verb
         then None else Some ErrForbidden
     | _ \<Rightarrow> Some ErrForbidden)"

definition CanRead :: "Role \<Rightarrow> string \<Rightarrow> bool" where
  "CanRead r resource = (Authorize r (resource @ '':read'') = None)"

definition CanWrite :: "Role \<Rightarrow> string \<Rightarrow> bool" where
  "CanWrite r resource = (Authorize r (resource @ '':write'') = None)"

definition CanAdmin :: "Role \<Rightarrow> string \<Rightarrow> bool" where
  "CanAdmin r resource = (Authorize r (resource @ '':admin'') = None)"

section \<open>The policy\<close>

text \<open>The verbs of each role, as the comment of the source tabulates them.\<close>

definition policy :: "Role \<Rightarrow> string list" where
  "policy r =
    (if r = ''viewer'' then [''read'']
     else if r = ''operator'' then [''read'', ''write'']
     else if r = ''admin'' then [''read'', ''write'', ''admin'']
     else [])"

lemma level_policy:
  "verbLevel v \<le> roleLevel r \<and> 0 < roleLevel r \<and> 0 < verbLevel v \<longleftrightarrow> to_lower v \<in> set (policy r)"
  by (auto simp: verbLevel_def roleLevel_def policy_def Let_def RoleViewer_def RoleOperator_def RoleAdmin_def)

lemma Authorize_iff:
  "Authorize r action = None \<longleftrightarrow>
   (\<exists>res verb. action = res @ CHR '':'' # verb \<and> CHR '':'' \<notin> set res \<and> to_lower verb \<in> set (policy r))"
proof (cases rule: split_first_cases [of "CHR '':''" action])
  case 1
  then show ?thesis by (auto simp: Authorize_def)
next
  case (2 p q)
  then have a: "Authorize r action = None \<longleftrightarrow> to_lower q \<in> set (policy r)"
    using level_policy [of q r] by (simp add: Authorize_def)
  have "action = res @ CHR '':'' # verb \<and> CHR '':'' \<notin> set res \<longleftrightarrow> res = p \<and> verb = q" for res verb
    using 2 unfolding split_first_pair [symmetric] by auto
  then have "(\<exists>res verb. (action = res @ CHR '':'' # verb \<and> CHR '':'' \<notin> set res) \<and> to_lower verb \<in> set (policy r))
      \<longleftrightarrow> to_lower q \<in> set (policy r)" by (simp only:) simp
  then show ?thesis unfolding a by (simp only: conj_assoc)
qed

lemma Authorize_cases: "Authorize r a = None \<or> Authorize r a = Some ErrForbidden"
  by (auto simp: Authorize_def split: list.splits)

text \<open>C38 (equivalence).  The access decision is the policy table: an action is allowed exactly if it
  has a colon and what follows the first one is, up to case, a verb of the role.  A larger role is
  allowed whatever a smaller one is, and the three predicates of the route handlers are the three
  verbs of the table for a resource without a colon.\<close>

theorem authorize_policy:
  "(Authorize r action = None \<longleftrightarrow>
     (\<exists>res verb. action = res @ CHR '':'' # verb \<and> CHR '':'' \<notin> set res \<and> to_lower verb \<in> set (policy r)))
   \<and> (roleLevel r \<le> roleLevel r' \<longrightarrow> Authorize r action = None \<longrightarrow> Authorize r' action = None)
   \<and> (CHR '':'' \<notin> set resource \<longrightarrow>
       CanRead r resource = Role_Valid r \<and>
       CanWrite r resource = (r \<in> {RoleOperator, RoleAdmin}) \<and>
       CanAdmin r resource = (r = RoleAdmin))"
proof (intro conjI impI)
  show "Authorize r action = None \<longleftrightarrow>
     (\<exists>res verb. action = res @ CHR '':'' # verb \<and> CHR '':'' \<notin> set res \<and> to_lower verb \<in> set (policy r))"
    by (rule Authorize_iff)
  show "Authorize r' action = None" if "roleLevel r \<le> roleLevel r'" "Authorize r action = None"
    using that by (auto simp: Authorize_def split: list.splits if_splits)
  assume r: "CHR '':'' \<notin> set resource"
  have low: "to_lower ''read'' = ''read''" "to_lower ''write'' = ''write''" "to_lower ''admin'' = ''admin''"
    by code_simp+
  have a: "Authorize r (resource @ CHR '':'' # v) = None \<longleftrightarrow> to_lower v \<in> set (policy r)" for v
    using level_policy [of v r] split_first_pair [of "CHR '':''" "resource @ CHR '':'' # v" resource v] r
    by (simp add: Authorize_def)
  show "CanRead r resource = Role_Valid r"
    using a [of "''read''"] low
    by (auto simp: CanRead_def policy_def Role_Valid_def RoleViewer_def RoleOperator_def RoleAdmin_def)
  show "CanWrite r resource = (r \<in> {RoleOperator, RoleAdmin})"
    using a [of "''write''"] low
    by (auto simp: CanWrite_def policy_def RoleViewer_def RoleOperator_def RoleAdmin_def)
  show "CanAdmin r resource = (r = RoleAdmin)"
    using a [of "''admin''"] low
    by (auto simp: CanAdmin_def policy_def RoleViewer_def RoleOperator_def RoleAdmin_def)
qed

theorem authorize_policy_witness:
  "Authorize RoleOperator ''tests:write'' = None \<and> Authorize RoleAdmin ''tests:write'' = None
   \<and> CanRead RoleViewer ''slos''"
proof -
  have o: "Authorize RoleOperator ''tests:write'' = None" and l: "roleLevel RoleOperator \<le> roleLevel RoleAdmin"
    and c: "CHR '':'' \<notin> set ''slos''"
    by (code_simp, code_simp, simp)
  from authorize_policy [of RoleOperator "''tests:write''" RoleAdmin "''slos''"] o l
  have "Authorize RoleAdmin ''tests:write'' = None" by blast
  moreover from authorize_policy [of RoleViewer "''tests:write''" RoleAdmin "''slos''"] c
  have "CanRead RoleViewer ''slos''" by (simp add: Role_Valid_def)
  ultimately show ?thesis using o by simp
qed

end
