(* ===== verification/AuthStore.thy ===== *)
theory AuthStore
  imports AuthRbac
begin

text \<open>
  The data of package auth (pkg/auth/types.go) and its store (pkg/auth/repo.go) on the three tables
  of pkg/store/postgres/migrations/0003_auth_core.sql.  A table is its list of rows; the argument
  \<open>flt\<close> of an operation says whether the database fails the statement, and \<open>created\<close> is the value of
  \<open>now()\<close> there.  The email column compares without case.  The interface \<open>auth_store\<close> is the Go
  interface \<open>Store\<close> of the service with the laws that this store promises.
\<close>

record Tenant =
  t_ID :: string
  t_Name :: string
  t_CreatedAt :: time

record User =
  u_ID :: string
  u_TenantID :: string
  u_Email :: string
  u_Role :: Role
  u_CreatedAt :: time

record Session =
  ses_ID :: string
  ses_UserID :: string
  ses_ExpiresAt :: time
  ses_CreatedAt :: time

record user_row =
  ur_user :: User
  ur_password_hash :: string

record auth_db =
  ad_tenants :: "Tenant list"
  ad_users :: "user_row list"
  ad_sessions :: "Session list"

definition citext_eq :: "string \<Rightarrow> string \<Rightarrow> bool" where
  "citext_eq a b = (to_lower a = to_lower b)"

definition EnsureTenant :: "bool \<Rightarrow> time \<Rightarrow> Tenant \<Rightarrow> auth_db \<Rightarrow> auth_error option \<times> auth_db" where
  "EnsureTenant flt created t db =
    (if flt then (Some (AuthDb ''ensure tenant''), db)
     else if t_ID t \<in> set (map t_ID (ad_tenants db)) then (None, db)
     else (None, db\<lparr>ad_tenants := ad_tenants db @ [t\<lparr>t_CreatedAt := created\<rparr>]\<rparr>))"

text \<open>A duplicate key and a duplicate (tenant, email) pair are the same class of error; the tenant
  must exist and the role pass the check of the column.\<close>

definition Repo_CreateUser :: "bool \<Rightarrow> time \<Rightarrow> User \<Rightarrow> string \<Rightarrow> auth_db \<Rightarrow> auth_error option \<times> auth_db" where
  "Repo_CreateUser flt created u hash db =
    (let row = \<lparr>ur_user = u\<lparr>u_Email := to_lower (u_Email u), u_CreatedAt := created\<rparr>,
                ur_password_hash = hash\<rparr>;
         clash = (\<lambda>r. u_ID (ur_user r) = u_ID u \<or>
           u_TenantID (ur_user r) = u_TenantID u \<and> citext_eq (u_Email (ur_user r)) (to_lower (u_Email u)))
     in if flt \<or> \<not> Role_Valid (u_Role u) then (Some (AuthDb ''create user''), db)
        else if list_ex clash (ad_users db) then (Some ErrUserExists, db)
        else if u_TenantID u \<notin> set (map t_ID (ad_tenants db)) then (Some (AuthDb ''create user''), db)
        else (None, db\<lparr>ad_users := ad_users db @ [row]\<rparr>))"

definition GetUserForLogin :: "bool \<Rightarrow> string \<Rightarrow> string \<Rightarrow> auth_db \<Rightarrow> (auth_error, User \<times> string) result" where
  "GetUserForLogin flt tenant email db =
    (if flt then Inl (AuthDb ''load user for login'')
     else (case find (\<lambda>r. u_TenantID (ur_user r) = tenant
               \<and> citext_eq (u_Email (ur_user r)) (to_lower email)) (ad_users db) of
             None \<Rightarrow> Inl ErrInvalidCredentials
           | Some r \<Rightarrow> Inr (ur_user r, ur_password_hash r)))"

definition find_user :: "auth_db \<Rightarrow> string \<Rightarrow> user_row option" where
  "find_user db i = find (\<lambda>r. u_ID (ur_user r) = i) (ad_users db)"

definition GetUserByID :: "bool \<Rightarrow> string \<Rightarrow> auth_db \<Rightarrow> (auth_error, User) result" where
  "GetUserByID flt i db =
    (if flt then Inl (AuthDb ''load user by id'')
     else (case find_user db i of None \<Rightarrow> Inl ErrSessionNotFound | Some r \<Rightarrow> Inr (ur_user r)))"

definition UpdateUserPassword :: "bool \<Rightarrow> string \<Rightarrow> string \<Rightarrow> auth_db \<Rightarrow> auth_error option \<times> auth_db" where
  "UpdateUserPassword flt i hash db =
    (if flt then (Some (AuthDb ''update password''), db)
     else if find_user db i = None then (Some ErrSessionNotFound, db)
     else (None, db\<lparr>ad_users :=
       map (\<lambda>r. if u_ID (ur_user r) = i then r\<lparr>ur_password_hash := hash\<rparr> else r) (ad_users db)\<rparr>))"

definition find_session :: "auth_db \<Rightarrow> string \<Rightarrow> Session option" where
  "find_session db i = find (\<lambda>s. ses_ID s = i) (ad_sessions db)"

definition Repo_CreateSession :: "bool \<Rightarrow> time \<Rightarrow> Session \<Rightarrow> auth_db \<Rightarrow> auth_error option \<times> auth_db" where
  "Repo_CreateSession flt created s db =
    (if flt \<or> find_session db (ses_ID s) \<noteq> None \<or> find_user db (ses_UserID s) = None
     then (Some (AuthDb ''create session''), db)
     else (None, db\<lparr>ad_sessions := ad_sessions db @ [s\<lparr>ses_CreatedAt := created\<rparr>]\<rparr>))"

definition GetSession :: "bool \<Rightarrow> string \<Rightarrow> time \<Rightarrow> auth_db \<Rightarrow> (auth_error, Session \<times> User) result" where
  "GetSession flt i now db =
    (if flt then Inl (AuthDb ''load session'')
     else (case find_session db i of
             None \<Rightarrow> Inl ErrSessionNotFound
           | Some s \<Rightarrow>
               if \<not> now < ses_ExpiresAt s then Inl ErrSessionNotFound
               else (case find_user db (ses_UserID s) of
                       None \<Rightarrow> Inl ErrSessionNotFound
                     | Some r \<Rightarrow> Inr (s, ur_user r))))"

definition DeleteSession :: "bool \<Rightarrow> string \<Rightarrow> auth_db \<Rightarrow> auth_error option \<times> auth_db" where
  "DeleteSession flt i db =
    (if flt then (Some (AuthDb ''delete session''), db)
     else (None, db\<lparr>ad_sessions := filter (\<lambda>s. ses_ID s \<noteq> i) (ad_sessions db)\<rparr>))"

section \<open>The interface of the service\<close>

record 's Store =
  sto_CreateUser :: "User \<Rightarrow> string \<Rightarrow> 's \<Rightarrow> auth_error option \<times> 's"
  sto_GetUserForLogin :: "string \<Rightarrow> string \<Rightarrow> 's \<Rightarrow> (auth_error, User \<times> string) result"
  sto_GetUserByID :: "string \<Rightarrow> 's \<Rightarrow> (auth_error, User) result"
  sto_UpdateUserPassword :: "string \<Rightarrow> string \<Rightarrow> 's \<Rightarrow> auth_error option \<times> 's"
  sto_CreateSession :: "Session \<Rightarrow> 's \<Rightarrow> auth_error option \<times> 's"
  sto_GetSession :: "string \<Rightarrow> time \<Rightarrow> 's \<Rightarrow> (auth_error, Session \<times> User) result"
  sto_DeleteSession :: "string \<Rightarrow> 's \<Rightarrow> auth_error option \<times> 's"

text \<open>A store as a map from session identifiers to the expiry and the user, and from users to their
  record and hash: \<open>sess\<close> and \<open>user\<close> read these maps off a state.\<close>

locale auth_store =
  fixes st :: "'s Store"
    and ok :: "'s \<Rightarrow> bool"
    and sess :: "'s \<Rightarrow> string \<Rightarrow> (string \<times> time) option"
    and user :: "'s \<Rightarrow> string \<Rightarrow> (User \<times> string) option"
  assumes get_session: "ok s \<Longrightarrow>
      map_sum id snd (sto_GetSession st i now s) =
      (case sess s i of
         Some (uid, expires) \<Rightarrow>
           (case user s uid of
              Some (u, _) \<Rightarrow> if now < expires then Inr u else Inl ErrSessionNotFound
            | None \<Rightarrow> Inl ErrSessionNotFound)
       | None \<Rightarrow> Inl ErrSessionNotFound)"
    and create_session: "ok s \<Longrightarrow> sto_CreateSession st x s = (None, s') \<Longrightarrow>
      sess s (ses_ID x) = None \<and> sess s' = (sess s)(ses_ID x \<mapsto> (ses_UserID x, ses_ExpiresAt x))
      \<and> user s' = user s \<and> ok s'"
    and delete_session: "ok s \<Longrightarrow> sto_DeleteSession st i s = (None, s') \<Longrightarrow>
      sess s' = (sess s)(i := None) \<and> user s' = user s \<and> ok s'"
    and login_user: "ok s \<Longrightarrow> sto_GetUserForLogin st tenant email s = Inr (u, h) \<Longrightarrow>
      user s (u_ID u) = Some (u, h) \<and> u_TenantID u = tenant \<and> citext_eq (u_Email u) (to_lower email)"
    and login_found: "ok s \<Longrightarrow> user s i = Some (u, h) \<Longrightarrow> citext_eq (u_Email u) (to_lower email) \<Longrightarrow>
      sto_GetUserForLogin st (u_TenantID u) email s = Inr (u, h)"
    and by_id: "ok s \<Longrightarrow> sto_GetUserByID st i s =
      (case user s i of Some (u, _) \<Rightarrow> Inr u | None \<Rightarrow> Inl ErrSessionNotFound)"
    and create_user: "ok s \<Longrightarrow> sto_CreateUser st u h s = (None, s') \<Longrightarrow>
      user s (u_ID u) = None \<and> sess s' = sess s \<and> ok s' \<and>
      (\<exists>u'. user s' = (user s)(u_ID u \<mapsto> (u', h)) \<and> u_ID u' = u_ID u \<and> u_TenantID u' = u_TenantID u
        \<and> u_Email u' = to_lower (u_Email u) \<and> u_Role u' = u_Role u)"
    and update_password: "ok s \<Longrightarrow> sto_UpdateUserPassword st i h s = (None, s') \<Longrightarrow>
      sess s' = sess s \<and> ok s' \<and>
      (\<exists>u h0. user s i = Some (u, h0) \<and> user s' = (user s)(i \<mapsto> (u, h)))"
    and unchanged: "ok s \<Longrightarrow> fst (sto_CreateUser st u h s) \<noteq> None \<Longrightarrow> snd (sto_CreateUser st u h s) = s"
      "ok s \<Longrightarrow> fst (sto_UpdateUserPassword st i h s) \<noteq> None \<Longrightarrow> snd (sto_UpdateUserPassword st i h s) = s"
      "ok s \<Longrightarrow> fst (sto_CreateSession st x s) \<noteq> None \<Longrightarrow> snd (sto_CreateSession st x s) = s"
      "ok s \<Longrightarrow> fst (sto_DeleteSession st i s) \<noteq> None \<Longrightarrow> snd (sto_DeleteSession st i s) = s"

section \<open>The store keeps the contract\<close>

definition Repo_Store :: "bool \<Rightarrow> time \<Rightarrow> auth_db Store" where
  "Repo_Store flt created =
    \<lparr>sto_CreateUser = Repo_CreateUser flt created, sto_GetUserForLogin = GetUserForLogin flt,
     sto_GetUserByID = GetUserByID flt, sto_UpdateUserPassword = UpdateUserPassword flt,
     sto_CreateSession = Repo_CreateSession flt created, sto_GetSession = GetSession flt,
     sto_DeleteSession = DeleteSession flt\<rparr>"

definition login_key :: "user_row \<Rightarrow> string \<times> string" where
  "login_key r = (u_TenantID (ur_user r), to_lower (u_Email (ur_user r)))"

definition auth_ok :: "auth_db \<Rightarrow> bool" where
  "auth_ok db = (distinct (map (u_ID \<circ> ur_user) (ad_users db)) \<and> distinct (map login_key (ad_users db))
     \<and> distinct (map ses_ID (ad_sessions db)))"

definition session_of :: "auth_db \<Rightarrow> string \<Rightarrow> (string \<times> time) option" where
  "session_of db i = map_option (\<lambda>s. (ses_UserID s, ses_ExpiresAt s)) (find_session db i)"

definition user_of :: "auth_db \<Rightarrow> string \<Rightarrow> (User \<times> string) option" where
  "user_of db i = map_option (\<lambda>r. (ur_user r, ur_password_hash r)) (find_user db i)"

lemma find_key_distinct:
  assumes "distinct (map f xs)" "x \<in> set xs" "f x = k"
  shows "find (\<lambda>y. f y = k) xs = Some x"
  using assms by (induction xs) force+

lemma find_filter_neq: "find (\<lambda>x. f x = j) (filter (\<lambda>x. f x \<noteq> i) xs) =
    (if j = i then None else find (\<lambda>x. f x = j) xs)"
  by (induction xs) auto

lemma find_map_same: "(\<And>x. f (g x) = f x) \<Longrightarrow>
    find (\<lambda>x. f x = k) (map g xs) = map_option g (find (\<lambda>x. f x = k) xs)"
  by (induction xs) auto

lemma find_user_in: "find_user db i = Some r \<Longrightarrow> r \<in> set (ad_users db) \<and> u_ID (ur_user r) = i"
  by (auto simp: find_user_def dest: find_Some_set)

lemma find_user_iff:
  "auth_ok db \<Longrightarrow> find_user db i = Some r \<longleftrightarrow> r \<in> set (ad_users db) \<and> u_ID (ur_user r) = i"
  using find_key_distinct [of "\<lambda>x. u_ID (ur_user x)" "ad_users db" r i] find_user_in [of db i r]
  unfolding find_user_def auth_ok_def comp_def by blast

lemma find_user_None: "find_user db i = None \<longleftrightarrow> i \<notin> (u_ID \<circ> ur_user) ` set (ad_users db)"
  by (auto simp: find_user_def find_None_iff)

lemma find_session_None: "find_session db i = None \<longleftrightarrow> i \<notin> ses_ID ` set (ad_sessions db)"
  by (auto simp: find_session_def find_None_iff)

lemma GetSession_law:
  "map_sum id snd (GetSession False i now db) =
    (case session_of db i of
       Some (uid, expires) \<Rightarrow>
         (case user_of db uid of
            Some (u, _) \<Rightarrow> if now < expires then Inr u else Inl ErrSessionNotFound
          | None \<Rightarrow> Inl ErrSessionNotFound)
     | None \<Rightarrow> Inl ErrSessionNotFound)"
  by (auto simp: GetSession_def session_of_def user_of_def split: option.splits)

lemma CreateSession_law:
  assumes "auth_ok db" "Repo_CreateSession False created x db = (None, db')"
  shows "session_of db (ses_ID x) = None
    \<and> session_of db' = (session_of db)(ses_ID x \<mapsto> (ses_UserID x, ses_ExpiresAt x))
    \<and> user_of db' = user_of db \<and> auth_ok db'"
proof -
  have n: "find_session db (ses_ID x) = None"
    and db': "db' = db\<lparr>ad_sessions := ad_sessions db @ [x\<lparr>ses_CreatedAt := created\<rparr>]\<rparr>"
    using assms(2) by (auto simp: Repo_CreateSession_def split: if_splits)
  have "session_of db' i = ((session_of db)(ses_ID x \<mapsto> (ses_UserID x, ses_ExpiresAt x))) i" for i
    using n by (auto simp: db' session_of_def find_session_def find_append split: option.splits)
  then show ?thesis using n assms(1)
    by (auto simp: db' session_of_def user_of_def find_user_def auth_ok_def find_session_None)
qed

lemma DeleteSession_law:
  assumes "auth_ok db" "DeleteSession False i db = (None, db')"
  shows "session_of db' = (session_of db)(i := None) \<and> user_of db' = user_of db \<and> auth_ok db'"
  using assms
  by (auto simp: DeleteSession_def session_of_def find_session_def find_filter_neq user_of_def
      find_user_def auth_ok_def fun_eq_iff distinct_map inj_on_def)

lemma login_user_law:
  assumes "auth_ok db" "GetUserForLogin False tenant email db = Inr (u, h)"
  shows "user_of db (u_ID u) = Some (u, h) \<and> u_TenantID u = tenant \<and> citext_eq (u_Email u) (to_lower email)"
proof -
  obtain r where r: "r \<in> set (ad_users db)" "u_TenantID (ur_user r) = tenant"
      "citext_eq (u_Email (ur_user r)) (to_lower email)" "u = ur_user r" "h = ur_password_hash r"
    using assms(2) by (auto simp: GetUserForLogin_def split: option.splits dest: find_Some_set)
  then have "find_user db (u_ID u) = Some r" using find_user_iff [OF assms(1)] by simp
  then show ?thesis using r by (simp add: user_of_def)
qed

lemma login_found_law:
  assumes "auth_ok db" "user_of db i = Some (u, h)" "citext_eq (u_Email u) (to_lower email)"
  shows "GetUserForLogin False (u_TenantID u) email db = Inr (u, h)"
proof -
  obtain r where r: "r \<in> set (ad_users db)" "u = ur_user r" "h = ur_password_hash r"
    using assms(2) find_user_in by (fastforce simp: user_of_def)
  have "find (\<lambda>x. login_key x = (u_TenantID u, to_lower (to_lower email))) (ad_users db) = Some r"
  proof (rule find_key_distinct)
    show "distinct (map login_key (ad_users db))" using assms(1) by (simp only: auth_ok_def)
    show "login_key r = (u_TenantID u, to_lower (to_lower email))"
      using assms(3) r by (simp add: login_key_def citext_eq_def)
  qed (rule r)
  then show ?thesis using r by (simp add: GetUserForLogin_def login_key_def citext_eq_def)
qed

lemma CreateUser_law:
  assumes "auth_ok db" "Repo_CreateUser False created u h db = (None, db')"
  shows "user_of db (u_ID u) = None \<and> session_of db' = session_of db \<and> auth_ok db' \<and>
    (\<exists>u'. user_of db' = (user_of db)(u_ID u \<mapsto> (u', h)) \<and> u_ID u' = u_ID u \<and> u_TenantID u' = u_TenantID u
      \<and> u_Email u' = to_lower (u_Email u) \<and> u_Role u' = u_Role u)"
proof -
  define u' where "u' = u\<lparr>u_Email := to_lower (u_Email u), u_CreatedAt := created\<rparr>"
  define row where "row = \<lparr>ur_user = u', ur_password_hash = h\<rparr>"
  have db': "db' = db\<lparr>ad_users := ad_users db @ [row]\<rparr>"
    and c: "\<forall>r \<in> set (ad_users db). u_ID (ur_user r) \<noteq> u_ID u \<and> login_key r \<noteq> login_key row"
    using assms(2)
    by (auto simp: Repo_CreateUser_def Let_def row_def u'_def list_ex_iff login_key_def citext_eq_def
        split: if_splits)
  have "user_of db' i = ((user_of db)(u_ID u \<mapsto> (u', h))) i" for i
    using c by (auto simp: db' user_of_def find_user_def find_append row_def u'_def find_None_iff
        split: option.splits dest: find_Some_set)
  moreover have "auth_ok db'" using assms(1) c by (auto simp: auth_ok_def db' row_def u'_def)
  ultimately show ?thesis using c
    by (auto simp: u'_def db' session_of_def find_session_def user_of_def find_user_None intro!: exI [of _ u'])
qed

lemma UpdatePassword_law:
  assumes "auth_ok db" "UpdateUserPassword False i h db = (None, db')"
  shows "session_of db' = session_of db \<and> auth_ok db' \<and>
    (\<exists>u h0. user_of db i = Some (u, h0) \<and> user_of db' = (user_of db)(i \<mapsto> (u, h)))"
proof -
  define g where "g = (\<lambda>r :: user_row. if u_ID (ur_user r) = i then r\<lparr>ur_password_hash := h\<rparr> else r)"
  have g: "ur_user (g r) = ur_user r" for r by (simp add: g_def)
  have keys: "u_ID \<circ> ur_user \<circ> g = u_ID \<circ> ur_user" "login_key \<circ> g = login_key"
    by (auto simp: g login_key_def)
  obtain r where r: "find_user db i = Some r" and db': "db' = db\<lparr>ad_users := map g (ad_users db)\<rparr>"
    using assms(2) by (auto simp: UpdateUserPassword_def g_def split: if_splits)
  have f: "find_user db' j = map_option g (find_user db j)" for j
    by (simp add: find_user_def db' find_map_same g)
  have "user_of db' j = ((user_of db)(i \<mapsto> (ur_user r, h))) j" for j
    using r by (cases "find_user db j") (auto simp: user_of_def f g g_def dest: find_user_in)
  moreover have "auth_ok db'" using assms(1) by (simp add: auth_ok_def db' keys)
  ultimately show ?thesis using r
    by (auto simp: user_of_def session_of_def find_session_def db')
qed

lemma unchanged_laws:
  "fst (Repo_CreateUser flt created u h db) \<noteq> None \<Longrightarrow> snd (Repo_CreateUser flt created u h db) = db"
  "fst (UpdateUserPassword flt i h db) \<noteq> None \<Longrightarrow> snd (UpdateUserPassword flt i h db) = db"
  "fst (Repo_CreateSession flt created x db) \<noteq> None \<Longrightarrow> snd (Repo_CreateSession flt created x db) = db"
  "fst (DeleteSession flt i db) \<noteq> None \<Longrightarrow> snd (DeleteSession flt i db) = db"
  by (auto simp: Repo_CreateUser_def UpdateUserPassword_def Repo_CreateSession_def DeleteSession_def Let_def
      split: if_splits)

lemma repo_operations:
  "sto_CreateUser (Repo_Store flt c) = Repo_CreateUser flt c"
  "sto_GetUserForLogin (Repo_Store flt c) = GetUserForLogin flt"
  "sto_GetUserByID (Repo_Store flt c) = GetUserByID flt"
  "sto_UpdateUserPassword (Repo_Store flt c) = UpdateUserPassword flt"
  "sto_CreateSession (Repo_Store flt c) = Repo_CreateSession flt c"
  "sto_GetSession (Repo_Store flt c) = GetSession flt"
  "sto_DeleteSession (Repo_Store flt c) = DeleteSession flt"
  by (simp_all add: Repo_Store_def)

lemma GetUserByID_law:
  "GetUserByID False i db = (case user_of db i of Some (u, _) \<Rightarrow> Inr u | None \<Rightarrow> Inl ErrSessionNotFound)"
  by (auto simp: GetUserByID_def user_of_def split: option.splits)

interpretation repo: auth_store "Repo_Store False created" auth_ok session_of user_of
  by unfold_locales
    (simp only: repo_operations, (rule GetSession_law GetUserByID_law CreateSession_law DeleteSession_law
       login_user_law login_found_law CreateUser_law UpdatePassword_law unchanged_laws; assumption))+

end
