(* ===== verification/AuthService.thy ===== *)
theory AuthService
  imports AuthStore GoFloat
begin

text \<open>
  The service of package auth (pkg/auth/passwords.go, pkg/auth/sessions.go, pkg/auth/service.go) and
  the two middleware layers that use it (pkg/api/middleware/rbac.go).  The bcrypt package, the random
  source, the environment variable and the clock are arguments: \<open>entropy\<close> is what \<open>rand.Read\<close> fills the
  buffer with.  The service runs on any store of the interface \<open>auth_store\<close>.
\<close>

section \<open>Identifiers and cookies\<close>

definition newPrefixedID :: "string \<Rightarrow> int list option \<Rightarrow> (auth_error, string) result" where
  "newPrefixedID pre entropy =
    (case entropy of None \<Rightarrow> Inl AuthRandom | Some buf \<Rightarrow> Inr (pre @ ''-'' @ hex_encode buf))"

definition NewSessionID :: "int list option \<Rightarrow> (auth_error, string) result" where
  "NewSessionID entropy = newPrefixedID ''ses'' entropy"

definition NewUserID :: "int list option \<Rightarrow> (auth_error, string) result" where
  "NewUserID entropy = newPrefixedID ''usr'' entropy"

record Cookie =
  ck_Name :: string
  ck_Value :: string
  ck_Path :: string
  ck_Expires :: time
  ck_MaxAge :: int
  ck_HttpOnly :: bool
  ck_Secure :: bool
  ck_SameSiteLax :: bool

definition SessionCookieName :: string where "SessionCookieName = ''ns_session''"

text \<open>\<open>int(d.Seconds())\<close>: the float of the seconds, truncated.\<close>

definition f64_to_int :: "f64 \<Rightarrow> int" where
  "f64_to_int x = (case x of FFin r \<Rightarrow> if 0 \<le> r then floor r else - floor (- r) | _ \<Rightarrow> int64_min)"

definition whole_seconds :: "duration \<Rightarrow> int" where
  "whole_seconds d = f64_to_int (dur_Seconds d)"

definition SetSessionCookie :: "time \<Rightarrow> Session \<Rightarrow> Cookie" where
  "SetSessionCookie now s =
    \<lparr>ck_Name = SessionCookieName, ck_Value = ses_ID s, ck_Path = ''/'', ck_Expires = ses_ExpiresAt s,
     ck_MaxAge = whole_seconds (time_sub (ses_ExpiresAt s) now), ck_HttpOnly = True, ck_Secure = True,
     ck_SameSiteLax = True\<rparr>"

definition ClearSessionCookie :: Cookie where
  "ClearSessionCookie =
    \<lparr>ck_Name = SessionCookieName, ck_Value = [], ck_Path = ''/'', ck_Expires = 0, ck_MaxAge = - 1,
     ck_HttpOnly = True, ck_Secure = True, ck_SameSiteLax = True\<rparr>"

definition SessionIDFromRequest :: "(string \<times> string) list \<Rightarrow> string" where
  "SessionIDFromRequest cookies =
    (case map_of cookies SessionCookieName of None \<Rightarrow> [] | Some v \<Rightarrow> v)"

section \<open>Passwords\<close>

datatype bc_outcome = BcMatch | BcMismatch | BcError

record bcrypt =
  bc_GenerateFromPassword :: "string \<Rightarrow> int \<Rightarrow> string option"
  bc_CompareHashAndPassword :: "string \<Rightarrow> string \<Rightarrow> bc_outcome"
  bc_MaxCost :: int

definition MinPasswordLength :: nat where "MinPasswordLength = 12"
definition minBcryptCost :: int where "minBcryptCost = 10"
definition defaultBcryptCost :: int where "defaultBcryptCost = 12"

definition readBcryptCost :: "bcrypt \<Rightarrow> string option \<Rightarrow> int" where
  "readBcryptCost bc env =
    (case env of
       None \<Rightarrow> defaultBcryptCost
     | Some v \<Rightarrow>
         if v = [] then defaultBcryptCost
         else (case atoi v of
                 None \<Rightarrow> defaultBcryptCost
               | Some n \<Rightarrow> if n < minBcryptCost then minBcryptCost
                   else if bc_MaxCost bc < n then bc_MaxCost bc else n))"

definition HashPassword :: "bcrypt \<Rightarrow> string option \<Rightarrow> string \<Rightarrow> (auth_error, string) result" where
  "HashPassword bc env password =
    (if length password < MinPasswordLength then Inl ErrWeakPassword
     else (case bc_GenerateFromPassword bc password (readBcryptCost bc env) of
             None \<Rightarrow> Inl AuthHash
           | Some h \<Rightarrow> Inr h))"

definition VerifyPassword :: "bcrypt \<Rightarrow> string \<Rightarrow> string \<Rightarrow> auth_error option" where
  "VerifyPassword bc storedHash candidate =
    (case bc_CompareHashAndPassword bc storedHash candidate of
       BcMatch \<Rightarrow> None
     | BcMismatch \<Rightarrow> Some ErrInvalidCredentials
     | BcError \<Rightarrow> Some AuthHash)"

section \<open>The service\<close>

record Service =
  svc_sessTTL :: duration
  svc_bcrypt :: bcrypt
  svc_cost :: "string option"

definition defaultSessionTTL :: duration where "defaultSessionTTL = 12 * hour_ns"

definition NewService :: "duration \<Rightarrow> bcrypt \<Rightarrow> string option \<Rightarrow> Service" where
  "NewService ttl bc env =
    \<lparr>svc_sessTTL = (if ttl \<le> 0 then defaultSessionTTL else ttl), svc_bcrypt = bc, svc_cost = env\<rparr>"

definition Login :: "Service \<Rightarrow> 's Store \<Rightarrow> int list option \<Rightarrow> time \<Rightarrow> string \<Rightarrow> string \<Rightarrow> string \<Rightarrow> 's \<Rightarrow>
    (auth_error, Session) result \<times> 's" where
  "Login svc st entropy now tenant email password s =
    (case sto_GetUserForLogin st tenant email s of
       Inl e \<Rightarrow> (Inl e, s)
     | Inr (user, hash) \<Rightarrow>
         (case VerifyPassword (svc_bcrypt svc) hash password of
            Some _ \<Rightarrow> (Inl ErrInvalidCredentials, s)
          | None \<Rightarrow>
              (case NewSessionID entropy of
                 Inl e \<Rightarrow> (Inl e, s)
               | Inr i \<Rightarrow>
                   (let sess = \<lparr>ses_ID = i, ses_UserID = u_ID user,
                                ses_ExpiresAt = now + svc_sessTTL svc, ses_CreatedAt = now\<rparr>
                    in case sto_CreateSession st sess s of
                         (Some e, s') \<Rightarrow> (Inl e, s')
                       | (None, s') \<Rightarrow> (Inr sess, s')))))"

definition Logout :: "'s Store \<Rightarrow> string \<Rightarrow> 's \<Rightarrow> auth_error option \<times> 's" where
  "Logout st sessionID s = (if sessionID = [] then (None, s) else sto_DeleteSession st sessionID s)"

definition Whoami :: "'s Store \<Rightarrow> string \<Rightarrow> time \<Rightarrow> 's \<Rightarrow> (auth_error, User) result" where
  "Whoami st sessionID now s =
    (if sessionID = [] then Inl ErrSessionNotFound
     else (case sto_GetSession st sessionID now s of Inl e \<Rightarrow> Inl e | Inr (_, user) \<Rightarrow> Inr user))"

record CreateUserInput =
  ci_TenantID :: string
  ci_Email :: string
  ci_Password :: string
  ci_Role :: Role

definition CreateUser :: "Service \<Rightarrow> 's Store \<Rightarrow> int list option \<Rightarrow> time \<Rightarrow> CreateUserInput \<Rightarrow> 's \<Rightarrow>
    (auth_error, User) result \<times> 's" where
  "CreateUser svc st entropy now inp s =
    (if \<not> Role_Valid (ci_Role inp) then (Inl ErrInvalidRole, s)
     else (case HashPassword (svc_bcrypt svc) (svc_cost svc) (ci_Password inp) of
             Inl e \<Rightarrow> (Inl e, s)
           | Inr hash \<Rightarrow>
               (case NewUserID entropy of
                  Inl e \<Rightarrow> (Inl e, s)
                | Inr i \<Rightarrow>
                    (let u = \<lparr>u_ID = i, u_TenantID = ci_TenantID inp, u_Email = ci_Email inp,
                              u_Role = ci_Role inp, u_CreatedAt = now\<rparr>
                     in case sto_CreateUser st u hash s of
                          (Some e, s') \<Rightarrow> (Inl e, s')
                        | (None, s') \<Rightarrow> (Inr u, s')))))"

definition RotatePassword :: "Service \<Rightarrow> 's Store \<Rightarrow> string \<Rightarrow> string \<Rightarrow> string \<Rightarrow> 's \<Rightarrow>
    auth_error option \<times> 's" where
  "RotatePassword svc st userID current newPassword s =
    (case sto_GetUserByID st userID s of
       Inl e \<Rightarrow> (Some e, s)
     | Inr user \<Rightarrow>
         (case sto_GetUserForLogin st (u_TenantID user) (u_Email user) s of
            Inl e \<Rightarrow> (Some e, s)
          | Inr (_, hash) \<Rightarrow>
              (case VerifyPassword (svc_bcrypt svc) hash current of
                 Some _ \<Rightarrow> (Some ErrInvalidCredentials, s)
               | None \<Rightarrow>
                   (case HashPassword (svc_bcrypt svc) (svc_cost svc) newPassword of
                      Inl e \<Rightarrow> (Some e, s)
                    | Inr newHash \<Rightarrow> sto_UpdateUserPassword st userID newHash s))))"

section \<open>The middleware\<close>

text \<open>\<open>Authenticate\<close> gives the user it attaches to the request; \<open>Authorize_mw\<close> the status it answers
  with, or nothing when the request reaches the handler.\<close>

definition Authenticate :: "'s Store \<Rightarrow> (string \<times> string) list \<Rightarrow> time \<Rightarrow> 's \<Rightarrow> User option" where
  "Authenticate st cookies now s =
    (let sid = SessionIDFromRequest cookies
     in if sid = [] then None
        else (case Whoami st sid now s of Inl _ \<Rightarrow> None | Inr u \<Rightarrow> Some u))"

definition Authorize_mw :: "string \<Rightarrow> User option \<Rightarrow> int option" where
  "Authorize_mw action user =
    (case user of
       None \<Rightarrow> Some 401
     | Some u \<Rightarrow>
         (case Authorize (u_Role u) action of
            None \<Rightarrow> None
          | Some e \<Rightarrow> if e = ErrForbidden then Some 403 else Some 500))"

section \<open>Histories of the service\<close>

datatype auth_op = OpLogin "int list option" time string string string | OpLogout string
  | OpCreateUser "int list option" time CreateUserInput | OpRotatePassword string string string

definition auth_step :: "Service \<Rightarrow> 's Store \<Rightarrow> auth_op \<Rightarrow> 's \<Rightarrow> 's" where
  "auth_step svc st oper s =
    (case oper of
       OpLogin entropy now tenant email pw \<Rightarrow> snd (Login svc st entropy now tenant email pw s)
     | OpLogout i \<Rightarrow> snd (Logout st i s)
     | OpCreateUser entropy now inp \<Rightarrow> snd (CreateUser svc st entropy now inp s)
     | OpRotatePassword uid cur new \<Rightarrow> snd (RotatePassword svc st uid cur new s))"

definition mints :: "string \<Rightarrow> auth_op \<Rightarrow> bool" where
  "mints i oper = (case oper of OpLogin entropy _ _ _ _ \<Rightarrow> NewSessionID entropy = Inr i | _ \<Rightarrow> False)"

text \<open>Each step comes with whether the database fails and with its clock.\<close>

definition auth_run :: "Service \<Rightarrow> (bool \<times> time \<times> auth_op) list \<Rightarrow> auth_db \<Rightarrow> auth_db" where
  "auth_run svc evs db = fold (\<lambda>(flt, created, oper) d. auth_step svc (Repo_Store flt created) oper d) evs db"

lemma NewSessionID_not_Nil: "NewSessionID entropy = Inr i \<Longrightarrow> i \<noteq> []"
  by (auto simp: NewSessionID_def newPrefixedID_def split: option.splits)

lemma newPrefixedID_hyphen:
  "newPrefixedID pre entropy = Inr i \<Longrightarrow> \<exists>buf. entropy = Some buf \<and> i = pre @ CHR ''-'' # hex_encode buf"
  by (auto simp: newPrefixedID_def split: option.splits)

lemma Login_success:
  assumes "Login svc st entropy now tenant email pw s = (Inr se, s')"
  obtains u h where "sto_GetUserForLogin st tenant email s = Inr (u, h)"
    "bc_CompareHashAndPassword (svc_bcrypt svc) h pw = BcMatch" "NewSessionID entropy = Inr (ses_ID se)"
    "se = \<lparr>ses_ID = ses_ID se, ses_UserID = u_ID u, ses_ExpiresAt = now + svc_sessTTL svc, ses_CreatedAt = now\<rparr>"
    "sto_CreateSession st se s = (None, s')"
  using assms
  by (auto simp: Login_def Let_def VerifyPassword_def split: sum.splits prod.splits option.splits bc_outcome.splits)

lemma Login_intro:
  assumes "sto_GetUserForLogin st tenant email s = Inr (u, h)"
    "bc_CompareHashAndPassword (svc_bcrypt svc) h pw = BcMatch" "NewSessionID entropy = Inr i"
    "fst (sto_CreateSession st \<lparr>ses_ID = i, ses_UserID = u_ID u, ses_ExpiresAt = now + svc_sessTTL svc,
       ses_CreatedAt = now\<rparr> s) = None"
  shows "fst (Login svc st entropy now tenant email pw s) =
    Inr \<lparr>ses_ID = i, ses_UserID = u_ID u, ses_ExpiresAt = now + svc_sessTTL svc, ses_CreatedAt = now\<rparr>"
  using assms by (auto simp: Login_def VerifyPassword_def Let_def split: prod.splits option.splits)

text \<open>The only writes of the operations.\<close>

lemma Login_state:
  "snd (Login svc st entropy now tenant email pw s) = s \<or>
   (\<exists>x. NewSessionID entropy = Inr (ses_ID x)
     \<and> snd (Login svc st entropy now tenant email pw s) = snd (sto_CreateSession st x s))"
  by (simp add: Login_def Let_def split: sum.splits prod.splits option.splits)
    (metis snd_conv Session.select_convs(1))

lemma Logout_state:
  "snd (Logout st i s) = s \<or> snd (Logout st i s) = snd (sto_DeleteSession st i s)"
  by (simp add: Logout_def)

lemma CreateUser_state:
  "snd (CreateUser svc st entropy now inp s) = s \<or>
   (\<exists>u h. snd (CreateUser svc st entropy now inp s) = snd (sto_CreateUser st u h s))"
  by (simp add: CreateUser_def Let_def split: sum.splits prod.splits option.splits) (metis snd_conv)

lemma RotatePassword_state:
  "snd (RotatePassword svc st uid cur new s) = s \<or>
   (\<exists>h. snd (RotatePassword svc st uid cur new s) = snd (sto_UpdateUserPassword st uid h s))"
  by (auto simp: RotatePassword_def Let_def split: sum.splits prod.splits option.splits)

lemma auth_step_cases:
  obtains (same) "auth_step svc st oper s = s"
  | (session) x where "mints (ses_ID x) oper" "auth_step svc st oper s = snd (sto_CreateSession st x s)"
  | (logout) i where "oper = OpLogout i" "auth_step svc st oper s = snd (sto_DeleteSession st i s)"
  | (user) u h where "auth_step svc st oper s = snd (sto_CreateUser st u h s)"
  | (password) i h where "auth_step svc st oper s = snd (sto_UpdateUserPassword st i h s)"
proof (cases oper)
  case (OpLogin entropy now tenant email pw)
  then show ?thesis
    using Login_state [of svc st entropy now tenant email pw s] same session
    by (auto simp: auth_step_def mints_def)
next
  case (OpLogout i)
  then show ?thesis using Logout_state [of st i s] same logout by (auto simp: auth_step_def)
next
  case (OpCreateUser entropy now inp)
  then show ?thesis using CreateUser_state [of svc st entropy now inp s] same user by (auto simp: auth_step_def)
next
  case (OpRotatePassword uid cur new)
  then show ?thesis using RotatePassword_state [of svc st uid cur new s] same password
    by (auto simp: auth_step_def)
qed

context auth_store
begin

lemma write_cases:
  assumes "ok s"
  shows "snd (sto_CreateUser st u h s) = s \<or> sto_CreateUser st u h s = (None, snd (sto_CreateUser st u h s))"
    "snd (sto_UpdateUserPassword st i h s) = s \<or>
      sto_UpdateUserPassword st i h s = (None, snd (sto_UpdateUserPassword st i h s))"
    "snd (sto_CreateSession st x s) = s \<or> sto_CreateSession st x s = (None, snd (sto_CreateSession st x s))"
    "snd (sto_DeleteSession st i s) = s \<or> sto_DeleteSession st i s = (None, snd (sto_DeleteSession st i s))"
  using unchanged [OF assms] by (metis prod.collapse)+

lemma step_keeps:
  assumes "ok s"
  shows "ok (auth_step svc st oper s)
    \<and> (sess s i = Some (uid, expires) \<and> user s uid = Some (u, h) \<and> oper \<noteq> OpLogout i \<longrightarrow>
       sess (auth_step svc st oper s) i = Some (uid, expires)
       \<and> (\<exists>h'. user (auth_step svc st oper s) uid = Some (u, h')))
    \<and> (sess s i = None \<and> \<not> mints i oper \<longrightarrow> sess (auth_step svc st oper s) i = None)"
proof (cases rule: auth_step_cases [of svc st oper s])
  case (session x)
  then show ?thesis using write_cases(3) [OF assms, of x] create_session [OF assms, of x "snd (sto_CreateSession st x s)"] assms
    by (cases "ses_ID x = i") auto
next
  case (logout j)
  then show ?thesis using write_cases(4) [OF assms, of j] delete_session [OF assms, of j "snd (sto_DeleteSession st j s)"] assms
    by (cases "j = i") auto
next
  case (user v hv)
  then show ?thesis using write_cases(1) [OF assms, of v hv] create_user [OF assms, of v hv "snd (sto_CreateUser st v hv s)"] assms
    by (cases "u_ID v = uid") auto
next
  case (password j hj)
  then show ?thesis using write_cases(2) [OF assms, of j hj] update_password [OF assms, of j hj "snd (sto_UpdateUserPassword st j hj s)"] assms
    by (cases "j = uid") auto
qed (use assms in simp)

lemma whoami_session:
  assumes "ok s" "sess s i = Some (uid, expires)" "user s uid = Some (u, h)" "i \<noteq> []"
  shows "Whoami st i t s = (if t < expires then Inr u else Inl ErrSessionNotFound)"
  using get_session [OF assms(1), of i t] assms(2-4)
  by (cases "sto_GetSession st i t s") (auto simp: Whoami_def split: if_splits)

lemma whoami_none: "ok s \<Longrightarrow> sess s i = None \<Longrightarrow> Whoami st i t s = Inl ErrSessionNotFound"
  using get_session [of s i t] by (cases "sto_GetSession st i t s") (auto simp: Whoami_def)

lemma login_session:
  assumes "ok s" "Login svc st entropy now tenant email pw s = (Inr se, s')"
  shows "\<exists>u h. user s' (ses_UserID se) = Some (u, h) \<and> u_TenantID u = tenant
    \<and> sess s' (ses_ID se) = Some (ses_UserID se, now + svc_sessTTL svc) \<and> ok s' \<and> ses_ID se \<noteq> []"
proof -
  obtain u h where l: "sto_GetUserForLogin st tenant email s = Inr (u, h)"
    "NewSessionID entropy = Inr (ses_ID se)"
    "se = \<lparr>ses_ID = ses_ID se, ses_UserID = u_ID u, ses_ExpiresAt = now + svc_sessTTL svc, ses_CreatedAt = now\<rparr>"
    "sto_CreateSession st se s = (None, s')"
    using Login_success [OF assms(2)] by metis
  have "ses_UserID se = u_ID u" "ses_ExpiresAt se = now + svc_sessTTL svc"
    by (subst l(3), simp)+
  then show ?thesis
    using login_user [OF assms(1) l(1)] create_session [OF assms(1) l(4)] NewSessionID_not_Nil [OF l(2)]
    by auto
qed

lemma logout_none:
  assumes "ok s" "Logout st i s = (None, s')" "i \<noteq> []"
  shows "ok s' \<and> sess s' i = None"
  using delete_session [OF assms(1), of i s'] assms(2,3) by (simp add: Logout_def)

lemma rotate_user:
  assumes "ok s" "RotatePassword svc st uid cur new s = (None, s')"
  shows "\<exists>u h h'. user s uid = Some (u, h) \<and> user s' = (user s)(uid \<mapsto> (u, h')) \<and> sess s' = sess s \<and> ok s'
    \<and> HashPassword (svc_bcrypt svc) (svc_cost svc) new = Inr h'"
  using update_password [OF assms(1)] assms(2)
  by (auto simp: RotatePassword_def split: sum.splits prod.splits option.splits)

end

section \<open>The service on its store\<close>

lemma failed_step: "auth_step svc (Repo_Store True c) oper db = db"
  by (cases rule: auth_step_cases [of svc "Repo_Store True c" oper db])
    (simp_all add: repo_operations Repo_CreateSession_def DeleteSession_def Repo_CreateUser_def
      UpdateUserPassword_def Let_def)

lemma run_Cons: "auth_run svc ((flt, c, oper) # evs) db =
    auth_run svc evs (auth_step svc (Repo_Store flt c) oper db)"
  by (simp add: auth_run_def)

lemma repo_step:
  assumes "auth_ok db"
  shows "auth_ok (auth_step svc (Repo_Store flt c) oper db)
    \<and> (session_of db i = Some (uid, expires) \<and> user_of db uid = Some (u, h) \<and> oper \<noteq> OpLogout i \<longrightarrow>
       session_of (auth_step svc (Repo_Store flt c) oper db) i = Some (uid, expires)
       \<and> (\<exists>h'. user_of (auth_step svc (Repo_Store flt c) oper db) uid = Some (u, h')))
    \<and> (session_of db i = None \<and> \<not> mints i oper \<longrightarrow>
       session_of (auth_step svc (Repo_Store flt c) oper db) i = None)"
proof (cases flt)
  case True
  then show ?thesis using assms by (simp add: failed_step)
next
  case False
  then show ?thesis using repo.step_keeps [OF assms, of svc c oper i uid expires u h] by simp
qed

lemma run_ok: "auth_ok db \<Longrightarrow> auth_ok (auth_run svc evs db)"
  by (induction evs arbitrary: db) (use repo_step in \<open>auto simp: run_Cons auth_run_def [of _ "[]"]\<close>)

lemma run_keeps_session:
  assumes "auth_ok db" "session_of db i = Some (uid, expires)" "user_of db uid = Some (u, h)"
    "list_all (\<lambda>(_, _, oper). oper \<noteq> OpLogout i) evs"
  shows "session_of (auth_run svc evs db) i = Some (uid, expires)
    \<and> (\<exists>h'. user_of (auth_run svc evs db) uid = Some (u, h'))"
  using assms
proof (induction evs arbitrary: db h)
  case (Cons ev evs)
  obtain flt c oper where ev: "ev = (flt, c, oper)" by (cases ev)
  have s: "auth_ok (auth_step svc (Repo_Store flt c) oper db)"
    "session_of (auth_step svc (Repo_Store flt c) oper db) i = Some (uid, expires)"
    "\<exists>h'. user_of (auth_step svc (Repo_Store flt c) oper db) uid = Some (u, h')"
    using repo_step [OF Cons.prems(1), of svc flt c oper i uid expires u h] Cons.prems ev by auto
  then show ?case using Cons.IH [OF s(1,2)] Cons.prems(4) by (auto simp: ev run_Cons)
qed (simp add: auth_run_def)

lemma run_keeps_absent:
  assumes "auth_ok db" "session_of db i = None" "list_all (\<lambda>(_, _, oper). \<not> mints i oper) evs"
  shows "session_of (auth_run svc evs db) i = None"
  using assms
proof (induction evs arbitrary: db)
  case (Cons ev evs)
  obtain flt c oper where ev: "ev = (flt, c, oper)" by (cases ev)
  have "auth_ok (auth_step svc (Repo_Store flt c) oper db)"
    "session_of (auth_step svc (Repo_Store flt c) oper db) i = None"
    using repo_step [OF Cons.prems(1), of svc flt c oper i] Cons.prems ev by auto
  then show ?case using Cons by (simp add: ev run_Cons)
qed (simp add: auth_run_def)

text \<open>C11 (invariant).  The session of a successful login identifies one user of the tenant until the
  lifetime of the service is over and nobody afterwards, whatever the service does in between short
  of logging that session out: other logins and logouts, new users, password rotations and failing
  statements do not disturb it.\<close>

theorem session_lifetime:
  assumes "auth_ok db" "Login svc (Repo_Store False c) entropy now tenant email pw db = (Inr se, db1)"
    "list_all (\<lambda>(_, _, oper). oper \<noteq> OpLogout (ses_ID se)) evs"
  shows "\<exists>u. u_TenantID u = tenant \<and>
    (\<forall>t. Whoami (Repo_Store False c') (ses_ID se) t (auth_run svc evs db1) =
      (if t < now + svc_sessTTL svc then Inr u else Inl ErrSessionNotFound))"
proof -
  obtain u h where l: "user_of db1 (ses_UserID se) = Some (u, h)" "u_TenantID u = tenant"
    "session_of db1 (ses_ID se) = Some (ses_UserID se, now + svc_sessTTL svc)" "auth_ok db1" "ses_ID se \<noteq> []"
    using repo.login_session [OF assms(1,2)] by blast
  obtain h' where "session_of (auth_run svc evs db1) (ses_ID se) = Some (ses_UserID se, now + svc_sessTTL svc)"
    "user_of (auth_run svc evs db1) (ses_UserID se) = Some (u, h')"
    using run_keeps_session [OF l(4,3,1) assms(3)] by blast
  then show ?thesis using repo.whoami_session [OF run_ok [OF l(4)]] l(2,5) by blast
qed

text \<open>After a logout the identifier of the session is worthless: it resolves to nobody
  and requests that carry it are anonymous, at any later time and after any operations that do not
  draw the same random identifier again.\<close>

theorem logout_revokes:
  assumes "auth_ok db" "Logout (Repo_Store False c) i db = (None, db1)" "i \<noteq> []"
    "list_all (\<lambda>(_, _, oper). \<not> mints i oper) evs"
  shows "Whoami (Repo_Store False c') i t (auth_run svc evs db1) = Inl ErrSessionNotFound
    \<and> (SessionIDFromRequest cookies = i \<longrightarrow>
       Authorize_mw action (Authenticate (Repo_Store False c') cookies t (auth_run svc evs db1)) = Some 401)"
proof -
  have l: "auth_ok db1" "session_of db1 i = None" using repo.logout_none [OF assms(1-3)] by auto
  have "session_of (auth_run svc evs db1) i = None" by (rule run_keeps_absent [OF l assms(4)])
  then have w: "Whoami (Repo_Store False c') i t (auth_run svc evs db1) = Inl ErrSessionNotFound"
    by (rule repo.whoami_none [OF run_ok [OF l(1)]])
  then show ?thesis by (auto simp: Authenticate_def Authorize_mw_def Let_def)
qed

definition bcrypt_ok :: "bcrypt \<Rightarrow> bool" where
  "bcrypt_ok bc = (\<forall>p cost h. bc_GenerateFromPassword bc p cost = Some h \<longrightarrow>
     bc_CompareHashAndPassword bc h p = BcMatch)"

lemma HashPassword_matches:
  "bcrypt_ok bc \<Longrightarrow> HashPassword bc env p = Inr h \<Longrightarrow>
   bc_CompareHashAndPassword bc h p = BcMatch \<and> 12 \<le> length p"
  by (auto simp: HashPassword_def bcrypt_ok_def MinPasswordLength_def split: if_splits option.splits)

text \<open>A login with a password that the stored hash matches: it succeeds when the drawn identifier
  is free.\<close>

lemma login_with:
  assumes "auth_ok db" "user_of db uid = Some (u, h)" "u_ID u = uid" "citext_eq (u_Email u) (to_lower email)"
    "bc_CompareHashAndPassword (svc_bcrypt svc) h pw = BcMatch"
    "NewSessionID entropy = Inr i" "session_of db i = None"
  shows "fst (Login svc (Repo_Store False c) entropy now (u_TenantID u) email pw db) =
    Inr \<lparr>ses_ID = i, ses_UserID = uid, ses_ExpiresAt = now + svc_sessTTL svc, ses_CreatedAt = now\<rparr>"
proof -
  have g: "sto_GetUserForLogin (Repo_Store False c) (u_TenantID u) email db = Inr (u, h)"
    using login_found_law [OF assms(1,2,4)] by (simp add: repo_operations)
  have "fst (sto_CreateSession (Repo_Store False c) \<lparr>ses_ID = i, ses_UserID = uid,
      ses_ExpiresAt = now + svc_sessTTL svc, ses_CreatedAt = now\<rparr> db) = None"
    using assms(2,7) by (auto simp: repo_operations Repo_CreateSession_def session_of_def user_of_def)
  then show ?thesis using Login_intro [OF g assms(5,6)] assms(3) by simp
qed

lemma login_refused:
  assumes "auth_ok db" "user_of db uid = Some (u, h)" "citext_eq (u_Email u) (to_lower email)"
    "bc_CompareHashAndPassword (svc_bcrypt svc) h pw \<noteq> BcMatch"
  shows "Login svc (Repo_Store False c) entropy now (u_TenantID u) email pw db = (Inl ErrInvalidCredentials, db)"
proof -
  have "sto_GetUserForLogin (Repo_Store False c) (u_TenantID u) email db = Inr (u, h)"
    using login_found_law [OF assms(1-3)] by (simp add: repo_operations)
  then show ?thesis using assms(4) by (simp add: Login_def VerifyPassword_def split: bc_outcome.splits)
qed

lemma user_of_ID: "user_of db uid = Some (u, h) \<Longrightarrow> u_ID u = uid"
  by (auto simp: user_of_def dest: find_user_in)

text \<open>C39 (roundtrip).  Whoever was created can log in: with the chosen password and any spelling of the
  email that differs in case only, to a session of the new user.\<close>

theorem create_user_login:
  assumes "auth_ok db" "bcrypt_ok (svc_bcrypt svc)"
    and c: "CreateUser svc (Repo_Store False c) entropy now inp db = (Inr u, db1)"
    and "citext_eq (to_lower (ci_Email inp)) (to_lower email)"
    and "NewSessionID entropy2 = Inr i" "session_of db1 i = None"
  shows "fst (Login svc (Repo_Store False c2) entropy2 now2 (ci_TenantID inp) email (ci_Password inp) db1) =
      Inr \<lparr>ses_ID = i, ses_UserID = u_ID u, ses_ExpiresAt = now2 + svc_sessTTL svc, ses_CreatedAt = now2\<rparr>
    \<and> (\<exists>v h. user_of db1 (u_ID u) = Some (v, h) \<and> u_Role v = ci_Role inp \<and> Role_Valid (u_Role v))"
proof -
  obtain h where h: "HashPassword (svc_bcrypt svc) (svc_cost svc) (ci_Password inp) = Inr h"
    and r: "Role_Valid (ci_Role inp)"
    and u: "u_TenantID u = ci_TenantID inp" "u_Email u = ci_Email inp" "u_Role u = ci_Role inp"
    and s: "sto_CreateUser (Repo_Store False c) u h db = (None, db1)"
    using c by (auto simp: CreateUser_def Let_def split: if_splits sum.splits prod.splits option.splits)
  obtain v where v: "auth_ok db1" "user_of db1 (u_ID u) = Some (v, h)" "u_ID v = u_ID u"
    "u_TenantID v = u_TenantID u" "u_Email v = to_lower (u_Email u)" "u_Role v = u_Role u"
    using repo.create_user [OF assms(1) s] by auto
  have "fst (Login svc (Repo_Store False c2) entropy2 now2 (u_TenantID v) email (ci_Password inp) db1) =
      Inr \<lparr>ses_ID = i, ses_UserID = u_ID u, ses_ExpiresAt = now2 + svc_sessTTL svc, ses_CreatedAt = now2\<rparr>"
    using login_with [OF v(1,2,3) _ _ assms(5,6)] HashPassword_matches [OF assms(2) h] assms(4) v(5) u(2)
    by simp
  then show ?thesis using v u r by auto
qed

text \<open>A rotation replaces the password and nothing else: the new password, of at least
  twelve bytes, opens a session, a password that the new hash does not match is refused, and the
  sessions that were open stay open.\<close>

theorem rotate_password:
  assumes "auth_ok db" "bcrypt_ok (svc_bcrypt svc)"
    and r: "RotatePassword svc (Repo_Store False c) uid cur new db = (None, db1)"
    and "NewSessionID entropy = Inr i" "session_of db i = None"
  shows "\<exists>u h h'. user_of db uid = Some (u, h) \<and> user_of db1 = (user_of db)(uid \<mapsto> (u, h'))
    \<and> session_of db1 = session_of db \<and> 12 \<le> length new
    \<and> (citext_eq (u_Email u) (to_lower email) \<longrightarrow>
        fst (Login svc (Repo_Store False c2) entropy now (u_TenantID u) email new db1) =
          Inr \<lparr>ses_ID = i, ses_UserID = uid, ses_ExpiresAt = now + svc_sessTTL svc, ses_CreatedAt = now\<rparr>
        \<and> (bc_CompareHashAndPassword (svc_bcrypt svc) h' old \<noteq> BcMatch \<longrightarrow>
            Login svc (Repo_Store False c2) entropy now (u_TenantID u) email old db1 =
              (Inl ErrInvalidCredentials, db1)))"
proof -
  obtain u h h' where s: "user_of db uid = Some (u, h)" "user_of db1 = (user_of db)(uid \<mapsto> (u, h'))"
    "session_of db1 = session_of db" "auth_ok db1"
    "HashPassword (svc_bcrypt svc) (svc_cost svc) new = Inr h'"
    using repo.rotate_user [OF assms(1) r] by blast
  have u1: "user_of db1 uid = Some (u, h')" and n: "session_of db1 i = None" using s assms(5) by simp_all
  note m = HashPassword_matches [OF assms(2) s(5)]
  have "u_ID u = uid" using s(1) by (rule user_of_ID)
  then show ?thesis
    using s m login_with [OF s(4) u1 _ _ conjunct1 [OF m] assms(4) n]
      login_refused [OF s(4) u1, of email svc old]
    by blast
qed

text \<open>The cost of a hash lies between the floor and the largest cost of the package.\<close>

lemma readBcryptCost_range:
  "12 \<le> bc_MaxCost bc \<Longrightarrow> 10 \<le> readBcryptCost bc env \<and> readBcryptCost bc env \<le> bc_MaxCost bc"
  by (auto simp: readBcryptCost_def minBcryptCost_def defaultBcryptCost_def split: option.splits)

section \<open>Instances\<close>

definition plain_bcrypt :: bcrypt where
  "plain_bcrypt = \<lparr>bc_GenerateFromPassword = (\<lambda>p _. Some (CHR ''#'' # p)),
     bc_CompareHashAndPassword = (\<lambda>h p. if h = CHR ''#'' # p then BcMatch else BcMismatch), bc_MaxCost = 31\<rparr>"

definition demo_service :: Service where "demo_service = NewService 0 plain_bcrypt None"

definition demo_auth :: auth_db where
  "demo_auth = \<lparr>ad_tenants = [\<lparr>t_ID = ''tnt-a'', t_Name = ''A'', t_CreatedAt = 1\<rparr>],
     ad_users = [\<lparr>ur_user = \<lparr>u_ID = ''usr-1'', u_TenantID = ''tnt-a'', u_Email = ''ann@a.io'',
         u_Role = RoleOperator, u_CreatedAt = 1\<rparr>, ur_password_hash = ''#correct-horse''\<rparr>],
     ad_sessions = []\<rparr>"

lemma demo_auth_ok: "auth_ok demo_auth" by code_simp

lemma plain_bcrypt_ok: "bcrypt_ok (svc_bcrypt demo_service)"
  by (simp add: bcrypt_ok_def demo_service_def NewService_def plain_bcrypt_def)

definition demo_login :: "(auth_error, Session) result \<times> auth_db" where
  "demo_login = Login demo_service (Repo_Store False 5) (Some [1, 171]) 5 ''tnt-a'' ''Ann@A.io'' ''correct-horse'' demo_auth"

lemma demo_login_ses: "demo_login =
    (Inr \<lparr>ses_ID = ''ses-01ab'', ses_UserID = ''usr-1'', ses_ExpiresAt = 43200000000005, ses_CreatedAt = 5\<rparr>,
     snd demo_login)"
  by code_simp

theorem session_lifetime_witness:
  "\<exists>u. Whoami (Repo_Store False 9) ''ses-01ab'' 43200000000004
      (auth_run demo_service [(False, 6, OpLogin (Some [2, 2]) 6 ''tnt-a'' ''ann@a.io'' ''correct-horse''),
         (False, 7, OpLogout ''ses-0202''), (True, 8, OpLogout ''x'')] (snd demo_login)) = Inr u"
proof -
  have ttl: "svc_sessTTL demo_service = 43200000000000" by code_simp
  show ?thesis
    using session_lifetime [OF demo_auth_ok demo_login_ses [unfolded demo_login_def],
        of "[(False, 6, OpLogin (Some [2, 2]) 6 ''tnt-a'' ''ann@a.io'' ''correct-horse''),
         (False, 7, OpLogout ''ses-0202''), (True, 8, OpLogout ''x'')]" 9]
    by (auto simp: ttl demo_login_def)
qed

theorem logout_revokes_witness:
  "Authorize_mw ''tests:read'' (Authenticate (Repo_Store False 9) [(''ns_session'', ''ses-01ab'')] 10
      (auth_run demo_service [(False, 6, OpLogin (Some [2, 2]) 6 ''tnt-a'' ''ann@a.io'' ''correct-horse'')]
        (snd (Logout (Repo_Store False 5) ''ses-01ab'' (snd demo_login))))) = Some 401"
proof -
  have ok: "auth_ok (snd demo_login)" by code_simp
  have out: "Logout (Repo_Store False 5) ''ses-01ab'' (snd demo_login) =
      (None, snd (Logout (Repo_Store False 5) ''ses-01ab'' (snd demo_login)))"
    by code_simp
  have cookie: "SessionIDFromRequest [(''ns_session'', ''ses-01ab'')] = ''ses-01ab''" by code_simp
  have fresh: "list_all (\<lambda>(_, _, oper). \<not> mints ''ses-01ab'' oper)
      [(False, 6 :: time, OpLogin (Some [2, 2]) 6 ''tnt-a'' ''ann@a.io'' ''correct-horse'')]"
    by code_simp
  show ?thesis using logout_revokes [OF ok out _ fresh] cookie by blast
qed

definition demo_new_user :: "(auth_error, User) result \<times> auth_db" where
  "demo_new_user = CreateUser demo_service (Repo_Store False 5) (Some [7]) 5
     \<lparr>ci_TenantID = ''tnt-a'', ci_Email = ''Bob@A.io'', ci_Password = ''battery-staple'', ci_Role = RoleViewer\<rparr>
     demo_auth"

theorem create_user_login_witness:
  "fst (Login demo_service (Repo_Store False 8) (Some [9]) 8 ''tnt-a'' ''BOB@a.io'' ''battery-staple''
      (snd demo_new_user)) =
    Inr \<lparr>ses_ID = ''ses-09'', ses_UserID = ''usr-07'', ses_ExpiresAt = 43200000000008, ses_CreatedAt = 8\<rparr>"
proof -
  have n: "demo_new_user = (Inr \<lparr>u_ID = ''usr-07'', u_TenantID = ''tnt-a'', u_Email = ''Bob@A.io'',
      u_Role = RoleViewer, u_CreatedAt = 5\<rparr>, snd demo_new_user)"
    by code_simp
  have e: "citext_eq (to_lower ''Bob@A.io'') (to_lower ''BOB@a.io'')" "NewSessionID (Some [9]) = Inr ''ses-09''"
    "session_of (snd demo_new_user) ''ses-09'' = None" "svc_sessTTL demo_service = 43200000000000"
    by code_simp+
  show ?thesis
    using create_user_login [OF demo_auth_ok plain_bcrypt_ok n [unfolded demo_new_user_def] _ e(2)] e
    by (simp add: demo_new_user_def)
qed

definition demo_rotation :: "auth_error option \<times> auth_db" where
  "demo_rotation = RotatePassword demo_service (Repo_Store False 5) ''usr-1'' ''correct-horse'' ''battery-staple'' demo_auth"

theorem rotate_password_witness:
  "fst (Login demo_service (Repo_Store False 8) (Some [9]) 8 ''tnt-a'' ''ann@a.io'' ''battery-staple''
      (snd demo_rotation)) =
    Inr \<lparr>ses_ID = ''ses-09'', ses_UserID = ''usr-1'', ses_ExpiresAt = 43200000000008, ses_CreatedAt = 8\<rparr>"
proof -
  have r: "demo_rotation = (None, snd demo_rotation)" by code_simp
  have e: "NewSessionID (Some [9]) = Inr ''ses-09''" "session_of demo_auth ''ses-09'' = None"
    "svc_sessTTL demo_service = 43200000000000"
    "map_option (\<lambda>(u, _). u_TenantID u = ''tnt-a'' \<and> citext_eq (u_Email u) (to_lower ''ann@a.io''))
      (user_of demo_auth ''usr-1'') = Some True"
    by code_simp+
  show ?thesis
    using rotate_password [OF demo_auth_ok plain_bcrypt_ok r [unfolded demo_rotation_def] e(1,2), of "''ann@a.io''" 8 8 "[]"] e(3,4)
    by (auto simp: demo_rotation_def)
qed

end
