(* ===== verification/ApiServer.thy ===== *)
theory ApiServer
  imports AuthService
begin

text \<open>
  The HTTP server of the control plane (pkg/api/server.go): the check of its configuration, the
  route table and the way from a request to its handler through the middleware of
  pkg/api/middleware.  A request path is the list of its segments, as the multiplexer of the
  standard library matches them: a wildcard takes one segment, a pattern of GET also serves HEAD, and
  a path that only patterns of other methods match is answered with 405.
\<close>

section \<open>Configuration\<close>

text \<open>The dependencies of \<open>Config\<close> are represented by whether they are set.\<close>

record Config =
  cfg_Addr :: string
  cfg_Pool :: bool
  cfg_Logger :: bool
  cfg_PromReg :: bool
  cfg_Auth :: bool
  cfg_CH :: bool
  cfg_SLOStore :: bool
  cfg_Workspaces :: bool
  cfg_Annotations :: bool
  cfg_NetQLRegistry :: bool
  cfg_AnomalyStore :: bool
  cfg_TLSCertFile :: string
  cfg_TLSKeyFile :: string
  cfg_AllowPlaintext :: bool
  cfg_TLSMinVersion :: int

datatype config_error = EmptyAddr | NilDependency string | CertKeyTogether | NoTLS | TLSVersionTooOld int

definition VersionTLS12 :: int where "VersionTLS12 = 0x0303"
definition VersionTLS13 :: int where "VersionTLS13 = 0x0304"

definition validateTLSConfig :: "Config \<Rightarrow> (config_error, bool \<times> Config) result" where
  "validateTLSConfig cfg =
    (let hasCert = cfg_TLSCertFile cfg \<noteq> []; hasKey = cfg_TLSKeyFile cfg \<noteq> [];
         tlsEnabled = hasCert \<and> hasKey
     in if hasCert \<noteq> hasKey then Inl CertKeyTogether
        else if \<not> tlsEnabled \<and> \<not> cfg_AllowPlaintext cfg then Inl NoTLS
        else if tlsEnabled then
          (let cfg' = (if cfg_TLSMinVersion cfg = 0 then cfg\<lparr>cfg_TLSMinVersion := VersionTLS13\<rparr> else cfg)
           in if cfg_TLSMinVersion cfg' < VersionTLS12 then Inl (TLSVersionTooOld (cfg_TLSMinVersion cfg'))
              else Inr (True, cfg'))
        else Inr (False, cfg))"

text \<open>\<open>nil_dependency\<close> is the first dependency that is missing, in the order of the checks.\<close>

definition nil_dependency :: "Config \<Rightarrow> string option" where
  "nil_dependency cfg =
    map_option fst (find (\<lambda>(_, present). \<not> present)
      [(''Pool'', cfg_Pool cfg), (''Logger'', cfg_Logger cfg), (''PromReg'', cfg_PromReg cfg),
       (''Auth'', cfg_Auth cfg), (''CH'', cfg_CH cfg), (''SLOStore'', cfg_SLOStore cfg),
       (''Workspaces'', cfg_Workspaces cfg), (''Annotations'', cfg_Annotations cfg),
       (''NetQLRegistry'', cfg_NetQLRegistry cfg), (''AnomalyStore'', cfg_AnomalyStore cfg)])"

text \<open>The server: whether it listens with TLS (and so sets the HSTS header), and its lowest version.\<close>

record Server =
  srv_cfg :: Config
  srv_tlsEnabled :: bool
  srv_minVersion :: "int option"

definition api_New :: "Config \<Rightarrow> (config_error, Server) result" where
  "api_New cfg =
    (if cfg_Addr cfg = [] then Inl EmptyAddr
     else (case nil_dependency cfg of
             Some d \<Rightarrow> Inl (NilDependency d)
           | None \<Rightarrow>
               (case validateTLSConfig cfg of
                  Inl e \<Rightarrow> Inl e
                | Inr (tls, cfg') \<Rightarrow>
                    Inr \<lparr>srv_cfg = cfg', srv_tlsEnabled = tls,
                         srv_minVersion = (if tls then Some (cfg_TLSMinVersion cfg') else None)\<rparr>)))"

section \<open>Routes\<close>

datatype Handler = HHealth | HLogin | HLogout | HWhoami
  | HListTests | HCreateTest | HGetTest | HDeleteTest
  | HListPops | HCreatePop | HGetPop | HDeletePop
  | HListTestResults | HListSLOs | HCreateSLO | HGetSLO
  | HDeleteSLO | HListWorkspaces | HCreateWorkspace | HGetWorkspace
  | HUpdateWorkspace | HDeleteWorkspace | HShareWorkspace | HUnshareWorkspace
  | HResolveShare | HListAnnotations | HCreateAnnotation | HGetAnnotation
  | HDeleteAnnotation | HNetqlTranslate | HNetqlExecute | HListAnomalyState
  | HGetAnomalyForTest | HGetAnomalyForTestMetric | HMetrics

datatype seg = Lit string | Wild

record Route =
  rt_Method :: string
  rt_Pattern :: "seg list"
  rt_Action :: "string option"
  rt_Handler :: Handler

definition route :: "string \<Rightarrow> seg list \<Rightarrow> string option \<Rightarrow> Handler \<Rightarrow> Route" where
  "route m p a h = \<lparr>rt_Method = m, rt_Pattern = p, rt_Action = a, rt_Handler = h\<rparr>"

text \<open>A route without a method serves every method; one without an action is not wrapped in
  \<open>Authorize\<close>.\<close>

definition routes :: "Route list" where
  "routes =
    [
     route ''GET'' [Lit ''v1'', Lit ''health''] None HHealth,
     route ''POST'' [Lit ''v1'', Lit ''auth'', Lit ''login''] None HLogin,
     route ''POST'' [Lit ''v1'', Lit ''auth'', Lit ''logout''] None HLogout,
     route ''GET'' [Lit ''v1'', Lit ''auth'', Lit ''whoami''] None HWhoami,
     route ''GET'' [Lit ''v1'', Lit ''tests''] (Some ''tests:read'') HListTests,
     route ''POST'' [Lit ''v1'', Lit ''tests''] (Some ''tests:write'') HCreateTest,
     route ''GET'' [Lit ''v1'', Lit ''tests'', Wild] (Some ''tests:read'') HGetTest,
     route ''DELETE'' [Lit ''v1'', Lit ''tests'', Wild] (Some ''tests:write'') HDeleteTest,
     route ''GET'' [Lit ''v1'', Lit ''pops''] (Some ''pops:read'') HListPops,
     route ''POST'' [Lit ''v1'', Lit ''pops''] (Some ''pops:write'') HCreatePop,
     route ''GET'' [Lit ''v1'', Lit ''pops'', Wild] (Some ''pops:read'') HGetPop,
     route ''DELETE'' [Lit ''v1'', Lit ''pops'', Wild] (Some ''pops:write'') HDeletePop,
     route ''GET'' [Lit ''v1'', Lit ''tests'', Wild, Lit ''results''] (Some ''tests:read'') HListTestResults,
     route ''GET'' [Lit ''v1'', Lit ''slos''] (Some ''slos:read'') HListSLOs,
     route ''POST'' [Lit ''v1'', Lit ''slos''] (Some ''slos:write'') HCreateSLO,
     route ''GET'' [Lit ''v1'', Lit ''slos'', Wild] (Some ''slos:read'') HGetSLO,
     route ''DELETE'' [Lit ''v1'', Lit ''slos'', Wild] (Some ''slos:write'') HDeleteSLO,
     route ''GET'' [Lit ''v1'', Lit ''workspaces''] (Some ''workspaces:read'') HListWorkspaces,
     route ''POST'' [Lit ''v1'', Lit ''workspaces''] (Some ''workspaces:write'') HCreateWorkspace,
     route ''GET'' [Lit ''v1'', Lit ''workspaces'', Wild] (Some ''workspaces:read'') HGetWorkspace,
     route ''PATCH'' [Lit ''v1'', Lit ''workspaces'', Wild] (Some ''workspaces:write'') HUpdateWorkspace,
     route ''DELETE'' [Lit ''v1'', Lit ''workspaces'', Wild] (Some ''workspaces:write'') HDeleteWorkspace,
     route ''POST'' [Lit ''v1'', Lit ''workspaces'', Wild, Lit ''share''] (Some ''workspaces:write'') HShareWorkspace,
     route ''DELETE'' [Lit ''v1'', Lit ''workspaces'', Wild, Lit ''share''] (Some ''workspaces:write'') HUnshareWorkspace,
     route ''GET'' [Lit ''v1'', Lit ''share'', Wild] None HResolveShare,
     route ''GET'' [Lit ''v1'', Lit ''annotations''] (Some ''annotations:read'') HListAnnotations,
     route ''POST'' [Lit ''v1'', Lit ''annotations''] (Some ''annotations:write'') HCreateAnnotation,
     route ''GET'' [Lit ''v1'', Lit ''annotations'', Wild] (Some ''annotations:read'') HGetAnnotation,
     route ''DELETE'' [Lit ''v1'', Lit ''annotations'', Wild] (Some ''annotations:write'') HDeleteAnnotation,
     route ''POST'' [Lit ''v1'', Lit ''netql'', Lit ''translate''] (Some ''netql:read'') HNetqlTranslate,
     route ''POST'' [Lit ''v1'', Lit ''netql'', Lit ''execute''] (Some ''netql:execute'') HNetqlExecute,
     route ''GET'' [Lit ''v1'', Lit ''anomaly'', Lit ''state''] (Some ''anomaly:read'') HListAnomalyState,
     route ''GET'' [Lit ''v1'', Lit ''anomaly'', Lit ''tests'', Wild] (Some ''anomaly:read'') HGetAnomalyForTest,
     route ''GET'' [Lit ''v1'', Lit ''anomaly'', Lit ''tests'', Wild, Wild] (Some ''anomaly:read'') HGetAnomalyForTestMetric,
     route [] [Lit ''metrics''] None HMetrics
    ]"

section \<open>From a request to its handler\<close>

fun seg_match :: "seg \<Rightarrow> string \<Rightarrow> bool" where
  "seg_match (Lit l) s = (l = s)"
| "seg_match Wild s = (s \<noteq> [])"

definition path_match :: "seg list \<Rightarrow> string list \<Rightarrow> bool" where
  "path_match ps ss = (length ps = length ss \<and> list_all2 seg_match ps ss)"

definition method_match :: "string \<Rightarrow> string \<Rightarrow> bool" where
  "method_match pat m = (pat = [] \<or> pat = m \<or> pat = ''GET'' \<and> m = ''HEAD'')"

definition route_match :: "string \<Rightarrow> string list \<Rightarrow> Route \<Rightarrow> bool" where
  "route_match m path r = (method_match (rt_Method r) m \<and> path_match (rt_Pattern r) path)"

datatype outcome = Answered int | Reached Handler "User option"

text \<open>\<open>ServeMux\<close> behind \<open>Authenticate\<close>.\<close>

definition dispatch :: "User option \<Rightarrow> string \<Rightarrow> string list \<Rightarrow> outcome" where
  "dispatch user m path =
    (case find (route_match m path) routes of
       None \<Rightarrow> Answered (if list_ex (\<lambda>r. path_match (rt_Pattern r) path) routes then 405 else 404)
     | Some r \<Rightarrow>
         (case rt_Action r of
            None \<Rightarrow> Reached (rt_Handler r) user
          | Some a \<Rightarrow>
              (case Authorize_mw a user of
                 Some code \<Rightarrow> Answered code
               | None \<Rightarrow> Reached (rt_Handler r) user)))"

definition serve :: "'s Store \<Rightarrow> (string \<times> string) list \<Rightarrow> time \<Rightarrow> string \<Rightarrow> string list \<Rightarrow> 's \<Rightarrow> outcome" where
  "serve st cookies now m path s = dispatch (Authenticate st cookies now s) m path"

definition HSTS :: "Server \<Rightarrow> (string \<times> string) list" where
  "HSTS srv = (if srv_tlsEnabled srv
     then [(''Strict-Transport-Security'', ''max-age=31536000; includeSubDomains'')] else [])"

section \<open>The route table\<close>

text \<open>Two routes overlap when some request matches both.\<close>

fun seg_overlap :: "seg \<Rightarrow> seg \<Rightarrow> bool" where
  "seg_overlap (Lit a) (Lit b) = (a = b)"
| "seg_overlap (Lit a) Wild = (a \<noteq> [])"
| "seg_overlap Wild (Lit b) = (b \<noteq> [])"
| "seg_overlap Wild Wild = True"

definition method_overlap :: "string \<Rightarrow> string \<Rightarrow> bool" where
  "method_overlap a b = (a = b \<or> a = [] \<or> b = [] \<or> a = ''GET'' \<and> b = ''HEAD'' \<or> a = ''HEAD'' \<and> b = ''GET'')"

definition route_overlap :: "Route \<Rightarrow> Route \<Rightarrow> bool" where
  "route_overlap r q =
    (length (rt_Pattern r) = length (rt_Pattern q) \<and> list_all2 seg_overlap (rt_Pattern r) (rt_Pattern q)
     \<and> method_overlap (rt_Method r) (rt_Method q))"

fun pairwise_apart :: "Route list \<Rightarrow> bool" where
  "pairwise_apart [] = True"
| "pairwise_apart (r # rs) = (list_all (\<lambda>q. \<not> route_overlap r q \<and> rt_Handler r \<noteq> rt_Handler q) rs \<and> pairwise_apart rs)"

lemma routes_apart: "pairwise_apart routes" by code_simp

lemma seg_overlap: "seg_match a s \<Longrightarrow> seg_match b s \<Longrightarrow> seg_overlap a b"
  by (cases a; cases b) auto

lemma segs_overlap:
  "list_all2 seg_match ps ss \<Longrightarrow> list_all2 seg_match qs ss \<Longrightarrow> list_all2 seg_overlap ps qs"
  by (induction ps ss arbitrary: qs rule: list_all2_induct) (auto simp: list_all2_Cons2 intro: seg_overlap)

lemma route_overlap: "route_match m path r \<Longrightarrow> route_match m path q \<Longrightarrow> route_overlap r q"
  using segs_overlap [of "rt_Pattern r" path "rt_Pattern q"]
  by (auto simp: route_match_def path_match_def route_overlap_def method_match_def method_overlap_def)

lemma pairwise_apart_distinct:
  "pairwise_apart rs \<Longrightarrow> r \<in> set rs \<Longrightarrow> q \<in> set rs \<Longrightarrow> route_overlap r q \<Longrightarrow> route_overlap q r \<Longrightarrow> r = q"
  by (induction rs) (auto simp: list_all_iff)

text \<open>At most one route serves a request, so the order of the table does not matter.\<close>

lemma find_route:
  assumes "r \<in> set routes" "route_match m path r"
  shows "find (route_match m path) routes = Some r"
proof -
  obtain q where q: "find (route_match m path) routes = Some q"
    using assms by (metis find_None_iff option.exhaust)
  then have "q \<in> set routes" "route_match m path q" by (auto dest: find_Some_set)
  then have "q = r" using pairwise_apart_distinct [OF routes_apart] assms route_overlap by blast
  then show ?thesis using q by simp
qed

text \<open>The user that a request authenticates as, read off the tables.\<close>

definition session_user :: "auth_db \<Rightarrow> string \<Rightarrow> time \<Rightarrow> User option" where
  "session_user db i now =
    (case session_of db i of
       Some (uid, expires) \<Rightarrow> if i \<noteq> [] \<and> now < expires then map_option fst (user_of db uid) else None
     | None \<Rightarrow> None)"

lemma Authenticate_repo:
  assumes "auth_ok db"
  shows "Authenticate (Repo_Store False c) cookies now db = session_user db (SessionIDFromRequest cookies) now"
proof -
  define i where "i = SessionIDFromRequest cookies"
  have "map_sum id snd (sto_GetSession (Repo_Store False c) i now db) =
      (case session_user db i now of Some u \<Rightarrow> Inr u | None \<Rightarrow> Inl ErrSessionNotFound)" if "i \<noteq> []"
    using repo.get_session [OF assms, of c i now] that
    by (auto simp: session_user_def split: option.splits)
  then show ?thesis
    by (cases "sto_GetSession (Repo_Store False c) i now db"; cases "i = []")
      (auto simp: Authenticate_def Whoami_def Let_def i_def [symmetric] session_user_def split: option.splits)
qed

definition allowed :: "Role \<Rightarrow> string \<Rightarrow> bool" where
  "allowed r action = (\<exists>res verb. action = res @ CHR '':'' # verb \<and> CHR '':'' \<notin> set res
     \<and> to_lower verb \<in> set (policy r))"

lemma Authorize_mw_policy:
  "Authorize_mw a user =
    (case user of None \<Rightarrow> Some 401 | Some u \<Rightarrow> if allowed (u_Role u) a then None else Some 403)"
proof (cases user)
  case (Some u)
  show ?thesis
    using Authorize_iff [of "u_Role u" a] Authorize_cases [of "u_Role u" a]
    by (cases "allowed (u_Role u) a") (auto simp: Some Authorize_mw_def allowed_def)
qed (simp add: Authorize_mw_def)

text \<open>C12 (functional).  A request that a route serves reaches the handler of that route exactly if the
  route is public, or if the cookie names a session that has not expired and the policy grants the
  role of its user the verb of the route; otherwise it is answered with 401 without such a session
  and with 403 with one.\<close>

theorem route_gate:
  assumes "r \<in> set routes" "route_match m path r" "auth_ok db"
  shows "serve (Repo_Store False c) cookies now m path db =
    (let user = session_user db (SessionIDFromRequest cookies) now
     in case (rt_Action r, user) of
          (None, _) \<Rightarrow> Reached (rt_Handler r) user
        | (Some a, None) \<Rightarrow> Answered 401
        | (Some a, Some u) \<Rightarrow> if allowed (u_Role u) a then Reached (rt_Handler r) user else Answered 403)"
  using find_route [OF assms(1,2)] Authenticate_repo [OF assms(3), of c cookies now]
  by (auto simp: serve_def dispatch_def Authorize_mw_policy Let_def split: option.splits)

definition public_handlers :: "Handler list" where
  "public_handlers = [HHealth, HLogin, HLogout, HWhoami, HResolveShare, HMetrics]"

definition read_only_route :: "Route \<Rightarrow> bool" where
  "read_only_route r = (rt_Method r = ''GET'' \<or> rt_Handler r = HNetqlTranslate)"

definition action_verb :: "Route \<Rightarrow> string option" where
  "action_verb r = Option.bind (rt_Action r)
     (\<lambda>a. case split_first (CHR '':'') a of [_, v] \<Rightarrow> Some (to_lower v) | _ \<Rightarrow> None)"

lemma routes_verbs:
  "list_all (\<lambda>r. (if rt_Handler r \<in> set public_handlers then rt_Action r = None
     else if rt_Handler r = HNetqlExecute then action_verb r = Some ''execute''
     else if read_only_route r then action_verb r = Some ''read''
     else action_verb r = Some ''write'')) routes"
  by code_simp

lemma route_verb:
  assumes "r \<in> set routes"
  shows "rt_Handler r \<in> set public_handlers \<Longrightarrow> rt_Action r = None"
    "rt_Handler r = HNetqlExecute \<Longrightarrow> action_verb r = Some ''execute''"
    "rt_Handler r \<notin> set public_handlers \<Longrightarrow>
       action_verb r = Some ''execute'' \<or> action_verb r = Some ''write'' \<or> action_verb r = Some ''read'' \<and> read_only_route r"
  using routes_verbs [unfolded list_all_iff, rule_format, OF assms]
  by (simp_all add: public_handlers_def split: if_splits)

lemma dispatch_Reached:
  assumes "dispatch user m path = Reached h u"
  obtains r where "r \<in> set routes" "route_match m path r" "h = rt_Handler r" "u = user"
    "rt_Action r = None \<or> (\<exists>v. user = Some v \<and> (\<exists>x. action_verb r = Some x \<and> x \<in> set (policy (u_Role v))))"
proof -
  obtain r where r: "find (route_match m path) routes = Some r" "h = rt_Handler r" "u = user"
    "rt_Action r = None \<or> (\<exists>a v. rt_Action r = Some a \<and> user = Some v \<and> Authorize (u_Role v) a = None)"
    using assms by (auto simp: dispatch_def Authorize_mw_def split: option.splits if_splits)
  have "r \<in> set routes" "route_match m path r" using find_Some_set [OF r(1)] by simp_all
  moreover have "\<exists>x. action_verb r = Some x \<and> x \<in> set (policy (u_Role v))"
    if "rt_Action r = Some a" "Authorize (u_Role v) a = None" for a v
    using that(2) level_policy that(1)
    by (auto simp: Authorize_def action_verb_def split: list.splits if_splits)
  ultimately show ?thesis using that r by blast
qed

text \<open>Apart from the six public handlers every handler is reached by authenticated users
  of a known role only, and a viewer reaches only handlers that read.\<close>

theorem protected_handlers:
  assumes "serve st cookies now m path s = Reached h user" "h \<notin> set public_handlers"
  shows "\<exists>u. user = Some u \<and> Role_Valid (u_Role u) \<and>
    (u_Role u = RoleViewer \<longrightarrow> m = ''GET'' \<or> m = ''HEAD'' \<or> h = HNetqlTranslate)"
proof -
  obtain r where r: "r \<in> set routes" "route_match m path r" "h = rt_Handler r"
    "rt_Action r = None \<or> (\<exists>v. user = Some v \<and> (\<exists>x. action_verb r = Some x \<and> x \<in> set (policy (u_Role v))))"
    using assms(1) unfolding serve_def by (rule dispatch_Reached) auto
  note v = route_verb(3) [OF r(1) assms(2) [unfolded r(3)]]
  obtain u x where u: "user = Some u" "action_verb r = Some x" "x \<in> set (policy (u_Role u))"
    using r(4) v by (auto simp: action_verb_def)
  have "Role_Valid (u_Role u)"
    using u(3) by (auto simp: policy_def Role_Valid_def RoleAdmin_def RoleOperator_def RoleViewer_def split: if_splits)
  moreover have "m = ''GET'' \<or> m = ''HEAD'' \<or> h = HNetqlTranslate" if "u_Role u = RoleViewer"
    using that u(2,3) v r(2,3)
    by (auto simp: policy_def RoleViewer_def read_only_route_def route_match_def method_match_def)
  ultimately show ?thesis using u(1) by blast
qed

text \<open>C37 (error).  No user can execute a netql query: the verb of the route has no level, so that the
  request is forbidden for every role, administrators included.\<close>

theorem execute_unreachable:
  "serve st cookies now m path s \<noteq> Reached HNetqlExecute user
   \<and> serve st cookies now ''POST'' [''v1'', ''netql'', ''execute''] s =
      Answered (if Authenticate st cookies now s = None then 401 else 403)"
proof
  show "serve st cookies now m path s \<noteq> Reached HNetqlExecute user"
  proof
    assume "serve st cookies now m path s = Reached HNetqlExecute user"
    then obtain r where r: "r \<in> set routes" "HNetqlExecute = rt_Handler r"
      "rt_Action r = None \<or> (\<exists>v. user = Some v \<and> (\<exists>x. action_verb r = Some x \<and> x \<in> set (policy (u_Role v))))"
      unfolding serve_def by (rule dispatch_Reached) auto
    have "action_verb r = Some ''execute''" using route_verb(2) [OF r(1)] r(2) by simp
    then show False using r(3) by (auto simp: policy_def action_verb_def split: if_splits)
  qed
  have "find (route_match ''POST'' [''v1'', ''netql'', ''execute'']) routes =
      Some (route ''POST'' [Lit ''v1'', Lit ''netql'', Lit ''execute''] (Some ''netql:execute'') HNetqlExecute)"
    by code_simp
  moreover have "Authorize r ''netql:execute'' = Some ErrForbidden" for r
  proof -
    have "verbLevel ''execute'' = 0" "split_first (CHR '':'') ''netql:execute'' = [''netql'', ''execute'']"
      by code_simp+
    then show ?thesis by (simp add: Authorize_def)
  qed
  ultimately show "serve st cookies now ''POST'' [''v1'', ''netql'', ''execute''] s =
      Answered (if Authenticate st cookies now s = None then 401 else 403)"
    by (auto simp: serve_def dispatch_def route_def Authorize_mw_def split: option.splits)
qed

text \<open>The server is built exactly if it has an address, every dependency, a
  certificate together with its key, and either TLS of version 1.2 or later (1.3 when none is
  configured) or the explicit permission to listen in plain text; it announces HSTS exactly in the
  first case.\<close>

theorem server_tls:
  "((\<exists>srv. api_New cfg = Inr srv) \<longleftrightarrow>
     cfg_Addr cfg \<noteq> [] \<and> nil_dependency cfg = None \<and>
     (cfg_TLSCertFile cfg = [] \<longleftrightarrow> cfg_TLSKeyFile cfg = []) \<and>
     (if cfg_TLSCertFile cfg = [] then cfg_AllowPlaintext cfg
      else cfg_TLSMinVersion cfg = 0 \<or> VersionTLS12 \<le> cfg_TLSMinVersion cfg))
   \<and> (\<forall>srv. api_New cfg = Inr srv \<longrightarrow>
       srv_tlsEnabled srv = (cfg_TLSCertFile cfg \<noteq> []) \<and> (HSTS srv \<noteq> []) = srv_tlsEnabled srv \<and>
       srv_minVersion srv = (if cfg_TLSCertFile cfg = [] then None
         else Some (if cfg_TLSMinVersion cfg = 0 then VersionTLS13 else cfg_TLSMinVersion cfg)))"
  by (auto simp: api_New_def validateTLSConfig_def Let_def HSTS_def VersionTLS12_def VersionTLS13_def
      split: option.splits if_splits)

section \<open>Instances\<close>

definition results_route :: Route where
  "results_route = route ''GET'' [Lit ''v1'', Lit ''tests'', Wild, Lit ''results''] (Some ''tests:read'') HListTestResults"

theorem route_gate_witness:
  "serve (Repo_Store False 9) [(''ns_session'', ''ses-01ab'')] 9 ''GET'' [''v1'', ''tests'', ''tst-1'', ''results'']
      (snd demo_login) = Reached HListTestResults (Some (ur_user (hd (ad_users demo_auth))))
   \<and> serve (Repo_Store False 9) [] 9 ''GET'' [''v1'', ''tests'', ''tst-1'', ''results''] (snd demo_login) = Answered 401"
proof -
  have r: "results_route \<in> set routes" by (simp add: routes_def results_route_def)
  have m: "route_match ''GET'' [''v1'', ''tests'', ''tst-1'', ''results''] results_route"
    and ok: "auth_ok (snd demo_login)"
    and u: "session_user (snd demo_login) (SessionIDFromRequest [(''ns_session'', ''ses-01ab'')]) 9 =
      Some (ur_user (hd (ad_users demo_auth)))"
    and n: "session_user (snd demo_login) (SessionIDFromRequest []) 9 = None"
    and f: "rt_Action results_route = Some ''tests:read''" "rt_Handler results_route = HListTestResults"
    and a: "Authorize (u_Role (ur_user (hd (ad_users demo_auth)))) ''tests:read'' = None"
    by code_simp+
  have "allowed (u_Role (ur_user (hd (ad_users demo_auth)))) ''tests:read''"
    using a Authorize_iff [of "u_Role (ur_user (hd (ad_users demo_auth)))" "''tests:read''"]
    unfolding allowed_def by blast
  then show ?thesis
    using route_gate [OF r m ok, of 9 "[(''ns_session'', ''ses-01ab'')]" 9] route_gate [OF r m ok, of 9 "[]" 9] u n f
    by simp
qed

theorem protected_handlers_witness:
  "Role_Valid (u_Role (ur_user (hd (ad_users demo_auth))))"
proof -
  have "serve (Repo_Store False 9) [(''ns_session'', ''ses-01ab'')] 9 ''POST'' [''v1'', ''slos''] (snd demo_login) =
      Reached HCreateSLO (Some (ur_user (hd (ad_users demo_auth))))"
    by code_simp
  then show ?thesis using protected_handlers by (fastforce simp: public_handlers_def)
qed

definition demo_config :: Config where
  "demo_config = \<lparr>cfg_Addr = '':8443'', cfg_Pool = True, cfg_Logger = True, cfg_PromReg = True, cfg_Auth = True,
     cfg_CH = True, cfg_SLOStore = True, cfg_Workspaces = True, cfg_Annotations = True, cfg_NetQLRegistry = True,
     cfg_AnomalyStore = True, cfg_TLSCertFile = ''c.pem'', cfg_TLSKeyFile = ''k.pem'', cfg_AllowPlaintext = False,
     cfg_TLSMinVersion = 0\<rparr>"

theorem server_tls_witness:
  "\<exists>srv. api_New demo_config = Inr srv \<and> srv_tlsEnabled srv \<and> srv_minVersion srv = Some 772"
proof -
  have "nil_dependency demo_config = None" by code_simp
  then show ?thesis using server_tls [of demo_config]
    by (auto simp: demo_config_def VersionTLS13_def)
qed

end
