(* ===== verification/Canary.thy ===== *)
theory Canary
  imports GoFloat
begin

text \<open>
  The canary runners of a POP (pkg/canary/canary.go, pkg/canary/dns, pkg/canary/http,
  pkg/canary/tls/tls.go).  The resolver, the dialer, the HTTP transport and the clock are arguments: a
  run gets what each of them answered and how long it took, and gives the result record.  An error
  is its text with what the classification asks of it.
\<close>

datatype Kind = KindDNS | KindHTTP | KindTLS | KindOther string

record HttpConfig =
  hc_Method :: string
  hc_ExpectedStatus :: string

datatype test_config = NoConfig | HttpCfg HttpConfig

record Test =
  ct_ID :: string
  ct_TenantID :: string
  ct_Kind :: Kind
  ct_Target :: string
  ct_Interval :: duration
  ct_Timeout :: duration
  ct_Config :: test_config

record Result =
  res_TestID :: string
  res_TenantID :: string
  res_PopID :: string
  res_ObservedAt :: time
  res_LatencyMs :: f64
  res_DNSMs :: f64
  res_ConnectMs :: f64
  res_TLSMs :: f64
  res_TTFBMs :: f64
  res_StatusCode :: int
  res_ErrorKind :: string
  res_JA3 :: string
  res_JA4 :: string

definition ErrorKindNone :: string where "ErrorKindNone = []"
definition ErrorKindDNSResolve :: string where "ErrorKindDNSResolve = ''dns_resolve''"
definition ErrorKindConnect :: string where "ErrorKindConnect = ''connect''"
definition ErrorKindTLSHandshk :: string where "ErrorKindTLSHandshk = ''tls_handshake''"
definition ErrorKindHTTPStatus :: string where "ErrorKindHTTPStatus = ''http_status''"
definition ErrorKindHTTPRequest :: string where "ErrorKindHTTPRequest = ''http_request''"
definition ErrorKindTimeout :: string where "ErrorKindTimeout = ''timeout''"
definition ErrorKindUnknownKind :: string where "ErrorKindUnknownKind = ''unknown_kind''"
definition ErrorKindBadConfig :: string where "ErrorKindBadConfig = ''bad_config''"

lemmas error_kinds = ErrorKindNone_def ErrorKindDNSResolve_def ErrorKindConnect_def ErrorKindTLSHandshk_def
  ErrorKindHTTPStatus_def ErrorKindHTTPRequest_def ErrorKindTimeout_def ErrorKindUnknownKind_def
  ErrorKindBadConfig_def

definition start_result :: "string \<Rightarrow> Test \<Rightarrow> time \<Rightarrow> Result" where
  "start_result pop t now =
    \<lparr>res_TestID = ct_ID t, res_TenantID = ct_TenantID t, res_PopID = pop, res_ObservedAt = now,
     res_LatencyMs = FFin 0, res_DNSMs = FFin 0, res_ConnectMs = FFin 0, res_TLSMs = FFin 0,
     res_TTFBMs = FFin 0, res_StatusCode = 0, res_ErrorKind = ErrorKindNone, res_JA3 = [], res_JA4 = []\<rparr>"

definition milliseconds :: "duration \<Rightarrow> f64" where
  "milliseconds d = to_f32 (dur_Seconds d * FFin 1000)"

text \<open>The sum of two \<open>float32\<close> values.\<close>

definition f32_add :: "f64 \<Rightarrow> f64 \<Rightarrow> f64" where
  "f32_add a b = to_f32 (a + b)"

definition run_timeout :: "duration \<Rightarrow> Test \<Rightarrow> duration" where
  "run_timeout dflt t = (if ct_Timeout t \<le> 0 then dflt else ct_Timeout t)"

section \<open>DNS\<close>

text \<open>What the classification reads off an error: its text and, when its chain has a DNS error, whether
  that is a timeout.\<close>

record net_error =
  ne_text :: string
  ne_dns :: "bool option"

definition classifyDNSError :: "net_error \<Rightarrow> bool \<Rightarrow> string" where
  "classifyDNSError err deadline =
    (if deadline then ErrorKindTimeout
     else if ne_dns err = Some True then ErrorKindTimeout
     else ErrorKindDNSResolve)"

text \<open>A lookup under a timeout: the addresses or the error, whether the deadline has passed, and the
  time it took.\<close>

record lookup =
  lk_answer :: "(net_error, string list) result"
  lk_deadline :: bool
  lk_elapsed :: duration

definition dns_Run :: "string \<Rightarrow> (duration \<Rightarrow> string \<Rightarrow> lookup) \<Rightarrow> time \<Rightarrow> Test \<Rightarrow> Result" where
  "dns_Run pop resolve now t =
    (let res = start_result pop t now; target = trim_space (ct_Target t)
     in if target = [] then res\<lparr>res_ErrorKind := ErrorKindBadConfig\<rparr>
        else
          (let l = resolve (run_timeout (5 * second_ns) t) target;
               res = res\<lparr>res_LatencyMs := milliseconds (lk_elapsed l), res_DNSMs := milliseconds (lk_elapsed l)\<rparr>
           in case lk_answer l of
                Inl err \<Rightarrow> res\<lparr>res_ErrorKind := classifyDNSError err (lk_deadline l)\<rparr>
              | Inr _ \<Rightarrow> res))"

section \<open>HTTP\<close>

text \<open>The package's own \<open>atoi\<close>: 0 on anything that is not a digit, and no check for overflow.\<close>

fun http_atoi_loop :: "int \<Rightarrow> string \<Rightarrow> int" where
  "http_atoi_loop n [] = n"
| "http_atoi_loop n (c # s) =
    (if byte c < 48 \<or> 57 < byte c then 0 else http_atoi_loop (wrap64 (n * 10 + (byte c - 48))) s)"

definition http_atoi :: "string \<Rightarrow> int" where
  "http_atoi s = http_atoi_loop 0 s"

definition statusInRange :: "int \<Rightarrow> string \<Rightarrow> bool" where
  "statusInRange status expected =
    (let expected = trim_space expected
     in if expected = [] then 200 \<le> status \<and> status < 300
        else (case split_first (CHR ''-'') expected of
                [a, b] \<Rightarrow>
                  (let lo = http_atoi a; hi = http_atoi b
                   in if lo \<le> 0 \<or> hi \<le> 0 then False else lo \<le> status \<and> status \<le> hi)
              | _ \<Rightarrow> status = http_atoi expected))"

definition isTLSError :: "net_error option \<Rightarrow> bool" where
  "isTLSError err =
    (case err of
       None \<Rightarrow> False
     | Some e \<Rightarrow> (let s = to_lower (ne_text e) in contains_sub s ''tls'' \<and> contains_sub s ''handshake''))"

definition classifyHTTPError :: "net_error \<Rightarrow> bool \<Rightarrow> string" where
  "classifyHTTPError err deadline =
    (if deadline then ErrorKindTimeout
     else if isTLSError (Some err) then ErrorKindTLSHandshk
     else ErrorKindConnect)"

text \<open>An exchange: the times of its events, zero for an event that did not happen, and the status or the
  error of \<open>client.Do\<close>.\<close>

record exchange =
  ex_start :: time
  ex_end :: time
  ex_dnsStart :: time
  ex_dnsDone :: time
  ex_connStart :: time
  ex_connDone :: time
  ex_tlsStart :: time
  ex_tlsDone :: time
  ex_gotFirstByte :: time
  ex_deadline :: bool
  ex_answer :: "(net_error, int) result"

text \<open>What the HTTP client does: whether the address parses, whether a request with the method can be
  made, and the exchange under a timeout.\<close>

record http_client =
  hx_parses :: "string \<Rightarrow> bool"
  hx_request :: "string \<Rightarrow> string \<Rightarrow> bool"
  hx_do :: "duration \<Rightarrow> string \<Rightarrow> string \<Rightarrow> exchange"

definition phase_ms :: "time \<Rightarrow> time \<Rightarrow> f64" where
  "phase_ms a b = (if \<not> is_zero_time a \<and> \<not> is_zero_time b then milliseconds (time_sub b a) else FFin 0)"

definition http_method :: "Test \<Rightarrow> string" where
  "http_method t = (case ct_Config t of
     HttpCfg c \<Rightarrow> if hc_Method c \<noteq> [] then hc_Method c else ''GET'' | NoConfig \<Rightarrow> ''GET'')"

definition http_expected :: "Test \<Rightarrow> string" where
  "http_expected t = (case ct_Config t of HttpCfg c \<Rightarrow> hc_ExpectedStatus c | NoConfig \<Rightarrow> [])"

definition http_timings :: "exchange \<Rightarrow> Result \<Rightarrow> Result" where
  "http_timings x res = res\<lparr>res_LatencyMs := milliseconds (time_sub (ex_end x) (ex_start x)),
     res_DNSMs := phase_ms (ex_dnsStart x) (ex_dnsDone x),
     res_ConnectMs := phase_ms (ex_connStart x) (ex_connDone x),
     res_TLSMs := phase_ms (ex_tlsStart x) (ex_tlsDone x),
     res_TTFBMs := (if \<not> is_zero_time (ex_gotFirstByte x)
       then milliseconds (time_sub (ex_gotFirstByte x) (ex_start x)) else FFin 0)\<rparr>"

definition http_Run :: "string \<Rightarrow> http_client \<Rightarrow> time \<Rightarrow> Test \<Rightarrow> Result" where
  "http_Run pop client now t =
    (let res = start_result pop t now; rawURL = trim_space (ct_Target t)
     in if rawURL = [] then res\<lparr>res_ErrorKind := ErrorKindBadConfig\<rparr>
        else if \<not> hx_parses client rawURL then res\<lparr>res_ErrorKind := ErrorKindBadConfig\<rparr>
        else if \<not> hx_request client (http_method t) rawURL then res\<lparr>res_ErrorKind := ErrorKindHTTPRequest\<rparr>
        else
          (let x = hx_do client (run_timeout (10 * second_ns) t) (http_method t) rawURL;
               res = http_timings x res
           in case ex_answer x of
                Inl err \<Rightarrow> res\<lparr>res_ErrorKind := classifyHTTPError err (ex_deadline x)\<rparr>
              | Inr status \<Rightarrow>
                  (let res = res\<lparr>res_StatusCode := status mod 65536\<rparr>
                   in if \<not> statusInRange status (http_expected t)
                      then res\<lparr>res_ErrorKind := ErrorKindHTTPStatus\<rparr> else res)))"

section \<open>TLS\<close>

text \<open>\<open>net.SplitHostPort\<close> is an argument; without a port the default is 443.\<close>

definition splitHostPort :: "(string \<Rightarrow> (string \<times> string) option) \<Rightarrow> string \<Rightarrow> string \<times> string" where
  "splitHostPort split target = (case split target of Some hp \<Rightarrow> hp | None \<Rightarrow> (target, ''443''))"

definition classifyTLSError :: "net_error option \<Rightarrow> bool \<Rightarrow> bool \<Rightarrow> string" where
  "classifyTLSError err deadline isHandshake =
    (if deadline then ErrorKindTimeout
     else if isHandshake then ErrorKindTLSHandshk
     else if Option.bind err ne_dns \<noteq> None then ErrorKindDNSResolve
     else ErrorKindConnect)"

record dial =
  dl_error :: "net_error option"
  dl_deadline :: bool
  dl_elapsed :: duration

record tls_env =
  tx_split :: "string \<Rightarrow> (string \<times> string) option"
  tx_lookup :: "duration \<Rightarrow> string \<Rightarrow> lookup"
  tx_dial :: "duration \<Rightarrow> string \<Rightarrow> string \<Rightarrow> dial"
  tx_handshake :: "duration \<Rightarrow> string \<Rightarrow> dial"

definition tls_Run :: "string \<Rightarrow> tls_env \<Rightarrow> time \<Rightarrow> Test \<Rightarrow> Result" where
  "tls_Run pop env now t =
    (let res = start_result pop t now; target = trim_space (ct_Target t)
     in if target = [] then res\<lparr>res_ErrorKind := ErrorKindBadConfig\<rparr>
        else
          (let (host, port) = splitHostPort (tx_split env) target
           in if host = [] then res\<lparr>res_ErrorKind := ErrorKindBadConfig\<rparr>
              else
                (let timeout = run_timeout (10 * second_ns) t;
                     l = tx_lookup env timeout host; dns = milliseconds (lk_elapsed l);
                     res = res\<lparr>res_DNSMs := dns\<rparr>
                 in case lk_answer l of
                      Inl err \<Rightarrow> res\<lparr>res_LatencyMs := dns,
                        res_ErrorKind := classifyTLSError (Some err) (lk_deadline l) False\<rparr>
                    | Inr [] \<Rightarrow> res\<lparr>res_LatencyMs := dns,
                        res_ErrorKind := classifyTLSError None (lk_deadline l) False\<rparr>
                    | Inr (addr # _) \<Rightarrow>
                        (let d = tx_dial env timeout addr port; conn = milliseconds (dl_elapsed d);
                             res = res\<lparr>res_ConnectMs := conn\<rparr>
                         in case dl_error d of
                              Some err \<Rightarrow> res\<lparr>res_LatencyMs := f32_add dns conn,
                                res_ErrorKind := classifyTLSError (Some err) (dl_deadline d) False\<rparr>
                            | None \<Rightarrow>
                                (let h = tx_handshake env timeout host; tls = milliseconds (dl_elapsed h);
                                     res = res\<lparr>res_TLSMs := tls,
                                       res_LatencyMs := f32_add (f32_add dns conn) tls\<rparr>
                                 in case dl_error h of
                                      Some err \<Rightarrow> res\<lparr>res_ErrorKind := classifyTLSError (Some err) (dl_deadline h) True\<rparr>
                                    | None \<Rightarrow> res)))))"

section \<open>Expected statuses\<close>

lemma http_atoi_digits:
  "list_all is_digit_byte s \<Longrightarrow> http_atoi_loop n s = fold (\<lambda>c n. wrap64 (n * 10 + (byte c - 48))) s n"
  by (induction s arbitrary: n) (auto simp: is_digit_byte_def)

lemma digits_val_Cons_ge: "list_all is_digit_byte s \<Longrightarrow> 0 \<le> m \<Longrightarrow>
    m \<le> foldl (\<lambda>n c. 10 * n + (byte c - 48)) m s"
proof (induction s arbitrary: m)
  case (Cons c s)
  then have "0 \<le> byte c - 48" by (simp add: is_digit_byte_def)
  then show ?case using Cons.IH [of "10 * m + (byte c - 48)"] Cons.prems by simp
qed simp

text \<open>On digits whose value fits in 64 bits the loop reads the number.\<close>

lemma http_atoi_val:
  assumes "list_all is_digit_byte s" "0 \<le> n"
    "foldl (\<lambda>n c. 10 * n + (byte c - 48)) n s \<le> int64_max"
  shows "http_atoi_loop n s = foldl (\<lambda>n c. 10 * n + (byte c - 48)) n s"
  using assms
proof (induction s arbitrary: n)
  case (Cons c s)
  have d: "48 \<le> byte c" "byte c \<le> 57" using Cons.prems(1) by (auto simp: is_digit_byte_def)
  have "10 * n + (byte c - 48) \<le> int64_max"
    using digits_val_Cons_ge [of s "10 * n + (byte c - 48)"] Cons.prems d by simp
  then have "wrap64 (n * 10 + (byte c - 48)) = 10 * n + (byte c - 48)"
    using Cons.prems(2) d by (subst wrap64_id) (auto simp: in_int64_def int64_min_def)
  then show ?case using Cons d by simp
qed simp

lemma http_atoi_itoa: "0 \<le> n \<Longrightarrow> n \<le> int64_max \<Longrightarrow> http_atoi (itoa n) = n"
  using http_atoi_val [of "dec_digits n" 0] dec_digits_digits [of n] digits_val_dec_digits [of n]
  by (simp add: http_atoi_def itoa_def digits_val_def)

lemma digit_visible: "is_digit_byte c \<Longrightarrow> 32 < byte c \<and> byte c < 127"
  by (auto simp: is_digit_byte_def)

lemma itoa_ends: "0 \<le> n \<Longrightarrow> is_digit_byte (hd (itoa n)) \<and> is_digit_byte (last (itoa n))"
  using itoa_digits [of n] by (simp add: list_all_iff)

text \<open>The three formats of the expected status mean what they say: nothing is any 2xx
  status, one number that status, and two numbers joined by a hyphen the closed range between them.\<close>

theorem status_formats:
  "statusInRange status [] = (200 \<le> status \<and> status < 300)
   \<and> (0 \<le> n \<and> n \<le> int64_max \<longrightarrow> statusInRange status (itoa n) = (status = n))
   \<and> (0 < lo \<and> lo \<le> int64_max \<and> 0 < hi \<and> hi \<le> int64_max \<longrightarrow>
       statusInRange status (itoa lo @ ''-'' @ itoa hi) = (lo \<le> status \<and> status \<le> hi))"
proof (intro conjI impI)
  show "statusInRange status [] = (200 \<le> status \<and> status < 300)"
  proof -
    have "trim_space [] = []" by code_simp
    then show ?thesis by (simp add: statusInRange_def)
  qed
  assume n: "0 \<le> n \<and> n \<le> int64_max"
  have "trim_space (itoa n) = itoa n"
    using itoa_ends [of n] digit_visible n by (intro trim_space_id) auto
  moreover have "split_first (CHR ''-'') (itoa n) = [itoa n]"
  proof (cases rule: split_first_cases [of "CHR ''-''" "itoa n"])
    case (2 p q)
    then have "CHR ''-'' \<in> set (itoa n)" unfolding split_first_pair by auto
    then show ?thesis using itoa_digits [of n] n by (auto simp: list_all_iff is_digit_byte_def)
  qed
  ultimately show "statusInRange status (itoa n) = (status = n)"
    using n http_atoi_itoa [of n] by (simp add: statusInRange_def)
next
  assume b: "0 < lo \<and> lo \<le> int64_max \<and> 0 < hi \<and> hi \<le> int64_max"
  have "trim_space (itoa lo @ ''-'' @ itoa hi) = itoa lo @ ''-'' @ itoa hi"
    using itoa_ends [of lo] itoa_ends [of hi] digit_visible b by (intro trim_space_id) auto
  moreover have "split_first (CHR ''-'') (itoa lo @ ''-'' @ itoa hi) = [itoa lo, itoa hi]"
    using itoa_digits [of lo] b by (subst split_first_pair) (auto simp: list_all_iff is_digit_byte_def)
  ultimately show "statusInRange status (itoa lo @ ''-'' @ itoa hi) = (lo \<le> status \<and> status \<le> hi)"
    using b http_atoi_itoa by (simp add: statusInRange_def)
qed

section \<open>Verdicts\<close>

lemma classify_nonempty:
  "classifyDNSError e d \<in> {ErrorKindTimeout, ErrorKindDNSResolve}"
  "classifyHTTPError e d \<in> {ErrorKindTimeout, ErrorKindTLSHandshk, ErrorKindConnect}"
  "classifyTLSError me d h \<in> {ErrorKindTimeout, ErrorKindTLSHandshk, ErrorKindDNSResolve, ErrorKindConnect}"
  by (auto simp: classifyDNSError_def classifyHTTPError_def classifyTLSError_def)

definition target_of :: "Test \<Rightarrow> string" where "target_of t = trim_space (ct_Target t)"


definition canonical_kinds :: "string list" where
  "canonical_kinds = [ErrorKindNone, ErrorKindDNSResolve, ErrorKindConnect, ErrorKindTLSHandshk, ErrorKindHTTPStatus,
     ErrorKindHTTPRequest, ErrorKindTimeout, ErrorKindUnknownKind, ErrorKindBadConfig]"

definition belongs_to :: "string \<Rightarrow> time \<Rightarrow> Test \<Rightarrow> Result \<Rightarrow> bool" where
  "belongs_to pop now t r = (res_TestID r = ct_ID t \<and> res_TenantID r = ct_TenantID t \<and> res_PopID r = pop
     \<and> res_ObservedAt r = now \<and> res_ErrorKind r \<in> set canonical_kinds
     \<and> 0 \<le> res_StatusCode r \<and> res_StatusCode r < 65536)"

text \<open>Whatever the network does, a run gives a record of its test, tenant, POP and time, with a
  label of the fixed set and a status that fits its column.\<close>

theorem run_record:
  "belongs_to pop now t (dns_Run pop resolve now t) \<and> belongs_to pop now t (http_Run pop client now t)
   \<and> belongs_to pop now t (tls_Run pop env now t)"
proof (intro conjI)
  have k: "classifyDNSError e d \<in> set canonical_kinds" "classifyHTTPError e d \<in> set canonical_kinds"
    "classifyTLSError me d h \<in> set canonical_kinds" for e me d h
    using classify_nonempty(1) [of e d] classify_nonempty(2) [of e d] classify_nonempty(3) [of me d h]
    by (auto simp: canonical_kinds_def)
  have c: "ErrorKindNone \<in> set canonical_kinds" "ErrorKindBadConfig \<in> set canonical_kinds"
    "ErrorKindHTTPRequest \<in> set canonical_kinds" "ErrorKindHTTPStatus \<in> set canonical_kinds"
    by (simp_all add: canonical_kinds_def)
  show "belongs_to pop now t (dns_Run pop resolve now t)"
    by (simp add: dns_Run_def Let_def start_result_def belongs_to_def k c split: sum.splits)
  show "belongs_to pop now t (http_Run pop client now t)"
    by (simp add: http_Run_def Let_def start_result_def http_timings_def belongs_to_def k c split: sum.splits)
  show "belongs_to pop now t (tls_Run pop env now t)"
    by (simp add: tls_Run_def Let_def start_result_def belongs_to_def k c
        split: sum.splits list.splits option.splits prod.splits)
qed

text \<open>The same failed lookup is labelled differently by the three runners: a name that does
  not resolve is a connect failure for HTTP, and a lookup that the resolver timed out is a timeout for
  DNS only.\<close>

theorem failure_labels:
  assumes "ne_dns e = Some timeout" "\<not> isTLSError (Some e)"
  shows "classifyDNSError e False = (if timeout then ErrorKindTimeout else ErrorKindDNSResolve)
    \<and> classifyTLSError (Some e) False False = ErrorKindDNSResolve
    \<and> classifyHTTPError e False = ErrorKindConnect"
  using assms by (auto simp: classifyDNSError_def classifyTLSError_def classifyHTTPError_def)

theorem failure_labels_witness:
  "classifyHTTPError \<lparr>ne_text = ''dial tcp: lookup nx.example: no such host'', ne_dns = Some False\<rparr> False = ''connect''
   \<and> classifyDNSError \<lparr>ne_text = ''dial tcp: lookup nx.example: no such host'', ne_dns = Some False\<rparr> False = ''dns_resolve''"
proof -
  have "\<not> isTLSError (Some \<lparr>ne_text = ''dial tcp: lookup nx.example: no such host'', ne_dns = Some False\<rparr>)"
    by code_simp
  then show ?thesis
    using failure_labels [of "\<lparr>ne_text = ''dial tcp: lookup nx.example: no such host'', ne_dns = Some False\<rparr>" False]
    by (simp add: error_kinds)
qed

text \<open>A certificate that does not verify is a connect failure for HTTP as well: the text of the error does
  not speak of a handshake.\<close>

lemma certificate_label:
  "classifyHTTPError \<lparr>ne_text = ''tls: failed to verify certificate: x509: certificate has expired'', ne_dns = None\<rparr> False
    = ErrorKindConnect"
  by code_simp

text \<open>\<open>0 < hi\<close> in \<open>status_formats\<close> is met by the range of the source's example.\<close>

theorem status_formats_witness:
  "statusInRange 204 ''200-299'' \<and> \<not> statusInRange 301 ''200-299'' \<and> statusInRange 404 ''404''"
proof -
  have i: "itoa 200 @ ''-'' @ itoa 299 = ''200-299''" "itoa 404 = ''404''" by code_simp+
  show ?thesis
    using status_formats [of 204 404 200 299] status_formats [of 301 404 200 299] status_formats [of 404 404 200 299] i
    by (simp add: int64_max_def)
qed

end
