(* ===== verification/GoDuration.thy ===== *)
theory GoDuration
  imports GoFloat
begin

text \<open>
  \<open>time.ParseDuration\<close>: an optional sign and then numbers with a unit, each an integer part of 64 bits
  and a fraction that goes through float64; \<open>None\<close> is the error of anything else, overflow included.
\<close>

text \<open>\<open>leadingInt\<close>: the number, and the rest after its digits.\<close>

fun leading_int :: "int \<Rightarrow> string \<Rightarrow> (int \<times> string) option" where
  "leading_int x [] = Some (x, [])"
| "leading_int x (c # s) =
    (if \<not> is_digit_byte c then Some (x, c # s)
     else if 922337203685477580 < x then None
     else if 9223372036854775808 < x * 10 + (byte c - 48) then None
     else leading_int (x * 10 + (byte c - 48)) s)"

text \<open>\<open>leadingFraction\<close>: the digits as a number, the power of ten to divide by, and the rest.\<close>

fun leading_fraction :: "bool \<Rightarrow> int \<Rightarrow> int \<Rightarrow> string \<Rightarrow> int \<times> int \<times> string" where
  "leading_fraction over x scale [] = (x, scale, [])"
| "leading_fraction over x scale (c # s) =
    (if \<not> is_digit_byte c then (x, scale, c # s)
     else if over \<or> 922337203685477580 < x \<or> 9223372036854775808 < x * 10 + (byte c - 48)
       then leading_fraction True x scale s
     else leading_fraction False (x * 10 + (byte c - 48)) (scale * 10) s)"

lemma leading_int_length: "leading_int x s = Some (y, t) \<Longrightarrow> length t \<le> length s"
  by (induction x s rule: leading_int.induct) (fastforce split: if_splits)+

lemma leading_fraction_length: "leading_fraction b x k s = (y, l, t) \<Longrightarrow> length t \<le> length s"
  by (induction b x k s rule: leading_fraction.induct) (fastforce split: if_splits)+

definition duration_unit :: "string \<Rightarrow> int option" where
  "duration_unit u =
    (if u = ''ns'' then Some 1
     else if u = ''us'' \<or> u = encode_rune 0xB5 @ ''s'' \<or> u = encode_rune 0x3BC @ ''s'' then Some 1000
     else if u = ''ms'' then Some 1000000
     else if u = ''s'' then Some second_ns
     else if u = ''m'' then Some minute_ns
     else if u = ''h'' then Some hour_ns
     else None)"

definition unit_char :: "char \<Rightarrow> bool" where
  "unit_char c = (c \<noteq> CHR ''.'' \<and> \<not> is_digit_byte c)"

text \<open>\<open>uint64\<close> of a finite float that is not negative.\<close>

definition f64_floor :: "f64 \<Rightarrow> int" where
  "f64_floor x = (case x of FFin r \<Rightarrow> floor r | _ \<Rightarrow> 0)"

definition fraction_part :: "string \<Rightarrow> int \<times> int \<times> string \<times> bool" where
  "fraction_part s =
    (case s of
       [] \<Rightarrow> (0, 1, s, False)
     | c # rest \<Rightarrow>
         if c = CHR ''.'' then
           (case leading_fraction False 0 1 rest of (f, scale, t) \<Rightarrow> (f, scale, t, length t \<noteq> length rest))
         else (0, 1, s, False))"

lemma fraction_part_length: "fraction_part s = (f, k, t, b) \<Longrightarrow> length t \<le> length s"
  by (auto simp: fraction_part_def split: list.splits if_splits prod.splits
      dest!: leading_fraction_length)

text \<open>One number with its unit, in nanoseconds, and the rest; the rest is shorter.\<close>

definition duration_part :: "string \<Rightarrow> (int \<times> string) option" where
  "duration_part s =
    (if s = [] \<or> \<not> (hd s = CHR ''.'' \<or> is_digit_byte (hd s)) then None
     else (case leading_int 0 s of
       None \<Rightarrow> None
     | Some (v, s1) \<Rightarrow>
         (case fraction_part s1 of
            (f, scale, s2, post) \<Rightarrow>
              if length s1 = length s \<and> \<not> post then None
              else (case duration_unit (takeWhile unit_char s2) of
                      None \<Rightarrow> None
                    | Some un \<Rightarrow>
                        if 9223372036854775808 div un < v then None
                        else (let w = v * un + (if 0 < f
                                then f64_floor (f64_of_int f * (f64_of_int un / f64_of_int scale)) else 0)
                              in if 9223372036854775808 < w then None
                                 else Some (w, dropWhile unit_char s2))))))"

lemma duration_unit_Nil: "duration_unit [] = None"
  by code_simp

lemma duration_part_shorter:
  assumes "duration_part s = Some (w, t)" shows "length t < length s"
proof -
  obtain v s1 f scale s2 post un where p: "leading_int 0 s = Some (v, s1)" "fraction_part s1 = (f, scale, s2, post)"
    "duration_unit (takeWhile unit_char s2) = Some un" "t = dropWhile unit_char s2"
    using assms by (auto simp: duration_part_def Let_def split: if_splits option.splits prod.splits)
  have "takeWhile unit_char s2 \<noteq> []" using p(3) duration_unit_Nil by auto
  then have "length t < length s2"
    unfolding p(4) by (metis takeWhile_dropWhile_id length_append less_add_same_cancel2 length_greater_0_conv)
  then show ?thesis using leading_int_length [OF p(1)] fraction_part_length [OF p(2)] by simp
qed

function duration_loop :: "int \<Rightarrow> string \<Rightarrow> int option" where
  "duration_loop d s =
    (if s = [] then Some d
     else (case duration_part s of
             None \<Rightarrow> None
           | Some (w, t) \<Rightarrow> if 9223372036854775808 < d + w then None else duration_loop (d + w) t))"
  by pat_completeness auto
termination
  by (relation "measure (\<lambda>(d, s). length s)") (auto simp: duration_part_shorter)

declare duration_loop.simps [simp del]

definition ParseDuration :: "string \<Rightarrow> duration option" where
  "ParseDuration s =
    (case (case s of
        [] \<Rightarrow> (False, [])
      | c # t \<Rightarrow> if c = CHR ''-'' \<or> c = CHR ''+'' then (c = CHR ''-'', t) else (False, s)) of
       (neg, s) \<Rightarrow>
         if s = ''0'' then Some 0
         else if s = [] then None
         else (case duration_loop 0 s of
                 None \<Rightarrow> None
               | Some d \<Rightarrow> if neg then Some (- d) else if int64_max < d then None else Some d))"

lemma ParseDuration_examples:
  "map ParseDuration [''30s'', ''1h15m30.918s'', ''-1.5h'', ''0'', ''.5s'', ''1d'', ''5'', ''9223372036854775808ns'']
    = [Some 30000000000, Some 4530918000000, Some (- 5400000000000), Some 0, Some 500000000, None, None, None]"
  by code_simp

end
