(* ===== verification/PopAgent.thy ===== *)
theory PopAgent
  imports Canary GoDuration
begin

text \<open>
  The agent of a POP (pkg/popagent): its configuration file and the tests it makes of it, the mesh
  tests, the registry of runners, the scheduler and the publisher.  Reading and parsing the file, the
  random source and JetStream are arguments.  The times at which the scheduler fires are given; an
  interval that \<open>time.NewTicker\<close> does not take panics.
\<close>

record TestDefinition =
  td_ID :: string
  td_TenantID :: string
  td_Kind :: string
  td_Target :: string
  td_Interval :: string
  td_Timeout :: string
  td_Method :: string
  td_ExpectedStatus :: string

record MeshPeer =
  mp_ID :: string
  mp_HealthURL :: string

record MeshConfig =
  mc_TenantID :: string
  mc_Interval :: string
  mc_Timeout :: string
  mc_Peers :: "MeshPeer list"

record PopConfig =
  pc_PopID :: string
  pc_NATSURL :: string
  pc_Tests :: "TestDefinition list"
  pc_Mesh :: MeshConfig

datatype pop_error = PopRequired string | TestRequired int string | TestKind int string
  | TestDuration int string string | InvalidDuration string | EmptyConfigPath | ConfigRead string
  | ConfigParse string | NilScheduler | NilJetStream | MarshalResult | PublishFailed string

section \<open>Configuration\<close>

definition kind_of :: "string \<Rightarrow> Kind" where
  "kind_of s = (if s = ''dns'' then KindDNS else if s = ''http'' then KindHTTP
     else if s = ''tls'' then KindTLS else KindOther s)"

definition parseDuration :: "string \<Rightarrow> duration \<Rightarrow> (pop_error, duration) result" where
  "parseDuration s dflt =
    (let s = trim_space s
     in if s = [] then Inr dflt
        else (case ParseDuration s of None \<Rightarrow> Inl (InvalidDuration s) | Some d \<Rightarrow> Inr d))"

definition validate_test :: "int \<Rightarrow> TestDefinition \<Rightarrow> pop_error option" where
  "validate_test i t =
    (if td_ID t = [] then Some (TestRequired i ''id'')
     else if td_TenantID t = [] then Some (TestRequired i ''tenant_id'')
     else if kind_of (td_Kind t) \<notin> {KindDNS, KindHTTP, KindTLS} then Some (TestKind i (td_Kind t))
     else (case parseDuration (td_Interval t) (30 * second_ns) of
             Inl _ \<Rightarrow> Some (TestDuration i ''interval'' (td_Interval t))
           | Inr _ \<Rightarrow>
               (case parseDuration (td_Timeout t) (5 * second_ns) of
                  Inl _ \<Rightarrow> Some (TestDuration i ''timeout'' (td_Timeout t))
                | Inr _ \<Rightarrow> None)))"

fun validate_tests :: "int \<Rightarrow> TestDefinition list \<Rightarrow> pop_error option" where
  "validate_tests i [] = None"
| "validate_tests i (t # ts) = (case validate_test i t of Some e \<Rightarrow> Some e | None \<Rightarrow> validate_tests (i + 1) ts)"

definition pop_Validate :: "PopConfig \<Rightarrow> pop_error option" where
  "pop_Validate c =
    (if pc_PopID c = [] then Some (PopRequired ''pop_id'')
     else if pc_NATSURL c = [] then Some (PopRequired ''nats_url'')
     else validate_tests 0 (pc_Tests c))"

definition LoadConfig :: "(string \<Rightarrow> string option) \<Rightarrow> (string \<Rightarrow> PopConfig option) \<Rightarrow> string \<Rightarrow>
    (pop_error, PopConfig) result" where
  "LoadConfig read_file unmarshal path =
    (if trim_space path = [] then Inl EmptyConfigPath
     else (case read_file path of
             None \<Rightarrow> Inl (ConfigRead path)
           | Some content \<Rightarrow>
               (case unmarshal content of
                  None \<Rightarrow> Inl (ConfigParse path)
                | Some cfg \<Rightarrow> (case pop_Validate cfg of Some e \<Rightarrow> Inl e | None \<Rightarrow> Inr cfg))))"

definition ToCanaryTest :: "TestDefinition \<Rightarrow> (pop_error, Test) result" where
  "ToCanaryTest td =
    (case parseDuration (td_Interval td) (30 * second_ns) of
       Inl e \<Rightarrow> Inl e
     | Inr interval \<Rightarrow>
         (case parseDuration (td_Timeout td) (5 * second_ns) of
            Inl e \<Rightarrow> Inl e
          | Inr timeout \<Rightarrow>
              Inr \<lparr>ct_ID = td_ID td, ct_TenantID = td_TenantID td, ct_Kind = kind_of (td_Kind td),
                   ct_Target = td_Target td, ct_Interval = interval, ct_Timeout = timeout,
                   ct_Config = NoConfig\<rparr>))"

section \<open>Mesh tests\<close>

definition mesh_test :: "string \<Rightarrow> string \<Rightarrow> duration \<Rightarrow> duration \<Rightarrow> MeshPeer \<Rightarrow> Test" where
  "mesh_test tenant self interval timeout p =
    \<lparr>ct_ID = ''tst-mesh-'' @ self @ ''-'' @ mp_ID p, ct_TenantID = tenant, ct_Kind = KindHTTP,
     ct_Target = mp_HealthURL p, ct_Interval = interval, ct_Timeout = timeout, ct_Config = NoConfig\<rparr>"

definition mesh_peer_ok :: "string \<Rightarrow> MeshPeer \<Rightarrow> bool" where
  "mesh_peer_ok self p = (mp_ID p \<noteq> [] \<and> mp_HealthURL p \<noteq> [] \<and> mp_ID p \<noteq> self)"

definition GenerateMeshTests :: "MeshConfig \<Rightarrow> string \<Rightarrow> (pop_error, Test list) result" where
  "GenerateMeshTests cfg self =
    (if mc_Peers cfg = [] then Inr []
     else
       (let tenant = trim_space (mc_TenantID cfg); tenant = (if tenant = [] then ''tnt-default'' else tenant)
        in case parseDuration (mc_Interval cfg) (30 * second_ns) of
             Inl e \<Rightarrow> Inl e
           | Inr interval \<Rightarrow>
               (case parseDuration (mc_Timeout cfg) (5 * second_ns) of
                  Inl e \<Rightarrow> Inl e
                | Inr timeout \<Rightarrow>
                    Inr (map (mesh_test tenant self interval timeout) (filter (mesh_peer_ok self) (mc_Peers cfg))))))"

section \<open>Runners and the scheduler\<close>

type_synonym runner = "time \<Rightarrow> Test \<Rightarrow> Result"
type_synonym runner_registry = "Kind \<rightharpoonup> runner"

definition NewRunnerRegistry :: runner_registry where "NewRunnerRegistry = Map.empty"

definition RunnerRegister :: "Kind \<Rightarrow> runner \<Rightarrow> runner_registry \<Rightarrow> runner_registry" where
  "RunnerRegister k r reg = reg(k \<mapsto> r)"

definition RunnerFor :: "runner_registry \<Rightarrow> Kind \<Rightarrow> runner option" where
  "RunnerFor reg k = reg k"

record network =
  nw_resolve :: "duration \<Rightarrow> string \<Rightarrow> lookup"
  nw_http :: http_client
  nw_tls :: tls_env

definition DefaultRunners :: "network \<Rightarrow> string \<Rightarrow> runner_registry" where
  "DefaultRunners nw pop =
    RunnerRegister KindTLS (tls_Run pop (nw_tls nw))
     (RunnerRegister KindHTTP (http_Run pop (nw_http nw))
       (RunnerRegister KindDNS (dns_Run pop (nw_resolve nw)) NewRunnerRegistry))"

definition be_uint64 :: "int list \<Rightarrow> int" where
  "be_uint64 bs = foldl (\<lambda>n b. n * 256 + b) 0 bs"

definition randomJitter :: "duration \<Rightarrow> int list option \<Rightarrow> duration" where
  "randomJitter bound entropy =
    (if bound \<le> 0 then 0
     else (case entropy of None \<Rightarrow> 0 | Some bs \<Rightarrow> be_uint64 bs mod bound))"

section \<open>The publisher\<close>

definition SubjectPrefix :: string where "SubjectPrefix = ''netsite.canary.results''"

definition subject_byte :: "char \<Rightarrow> bool" where
  "subject_byte c = ((97 \<le> byte c \<and> byte c \<le> 122) \<or> (65 \<le> byte c \<and> byte c \<le> 90) \<or> (48 \<le> byte c \<and> byte c \<le> 57)
     \<or> c = CHR ''-'' \<or> c = CHR ''_'')"

definition safeSubjectToken :: "string \<Rightarrow> string" where
  "safeSubjectToken s =
    (let out = map (\<lambda>c. if subject_byte c then c else CHR ''_'') s in if out = [] then ''_'' else out)"

definition result_subject :: "Result \<Rightarrow> string" where
  "result_subject r = SubjectPrefix @ ''.'' @ safeSubjectToken (res_TestID r)"

text \<open>\<open>publish\<close> is the JetStream context: it takes a subject and a body and may refuse.\<close>

definition Publish :: "(string \<Rightarrow> string \<Rightarrow> 's \<Rightarrow> bool \<times> 's) option \<Rightarrow> (Result \<Rightarrow> string option) \<Rightarrow> Result \<Rightarrow> 's \<Rightarrow>
    pop_error option \<times> 's" where
  "Publish js marshal r s =
    (case js of
       None \<Rightarrow> (Some NilJetStream, s)
     | Some publish \<Rightarrow>
         (case marshal r of
            None \<Rightarrow> (Some MarshalResult, s)
          | Some body \<Rightarrow>
              (case publish (result_subject r) body s of
                 (ok, s') \<Rightarrow> (if ok then None else Some (PublishFailed (result_subject r)), s'))))"

text \<open>\<open>fire\<close>: a failed publication is logged.\<close>

definition fire :: "(string \<Rightarrow> string \<Rightarrow> 's \<Rightarrow> bool \<times> 's) option \<Rightarrow> (Result \<Rightarrow> string option) \<Rightarrow> runner \<Rightarrow> time \<Rightarrow> Test \<Rightarrow> 's \<Rightarrow> 's" where
  "fire js marshal runner now t s = snd (Publish js marshal (runner now t) s)"

text \<open>\<open>runOne\<close>: shut down before its jitter is over, a panic of the ticker, or fires right after the jitter
  and at every tick until the shutdown.\<close>

datatype test_life = ShutDown | TickerPanic | Drained

definition runOne :: "(string \<Rightarrow> string \<Rightarrow> 's \<Rightarrow> bool \<times> 's) option \<Rightarrow> (Result \<Rightarrow> string option) \<Rightarrow> runner \<Rightarrow>
    bool \<Rightarrow> time list \<Rightarrow> Test \<Rightarrow> 's \<Rightarrow> test_life \<times> 's" where
  "runOne js marshal runner cancelled fires t s =
    (if cancelled then (ShutDown, s)
     else if ct_Interval t \<le> 0 then (TickerPanic, s)
     else (Drained, fold (\<lambda>now. fire js marshal runner now t) fires s))"

text \<open>\<open>Run\<close> starts every test of a kind that has a runner.  The tests run side by side: \<open>evs\<close> is the order in
  which they fire, and a panic in one of them ends the agent.\<close>

definition started :: "runner_registry \<Rightarrow> Test list \<Rightarrow> Test list" where
  "started reg tests = filter (\<lambda>t. RunnerFor reg (ct_Kind t) \<noteq> None) tests"

definition scheduler_Run :: "(string \<Rightarrow> string \<Rightarrow> 's \<Rightarrow> bool \<times> 's) option \<Rightarrow> (Result \<Rightarrow> string option) \<Rightarrow>
    runner_registry \<Rightarrow> Test list \<Rightarrow> (Test \<times> time) list \<Rightarrow> 's \<Rightarrow> test_life \<times> 's" where
  "scheduler_Run js marshal reg tests evs s =
    (if list_ex (\<lambda>t. ct_Interval t \<le> 0) (started reg tests) then (TickerPanic, s)
     else (Drained, fold (\<lambda>(t, now) s. case RunnerFor reg (ct_Kind t) of
                                         None \<Rightarrow> s | Some r \<Rightarrow> fire js marshal r now t s) evs s))"

section \<open>What a valid configuration gives\<close>

lemma validate_tests_nth:
  "validate_tests i ts = None \<Longrightarrow> t \<in> set ts \<Longrightarrow> \<exists>k. validate_test k t = None"
  by (induction i ts rule: validate_tests.induct) (auto split: option.splits)

lemma validate_test_None:
  assumes "validate_test i td = None"
  shows "\<exists>interval timeout. ToCanaryTest td = Inr \<lparr>ct_ID = td_ID td, ct_TenantID = td_TenantID td,
      ct_Kind = kind_of (td_Kind td), ct_Target = td_Target td, ct_Interval = interval, ct_Timeout = timeout,
      ct_Config = NoConfig\<rparr>
    \<and> td_ID td \<noteq> [] \<and> td_TenantID td \<noteq> [] \<and> kind_of (td_Kind td) \<in> {KindDNS, KindHTTP, KindTLS}"
  using assms by (auto simp: validate_test_def ToCanaryTest_def split: if_splits sum.splits)

lemma DefaultRunners_kinds:
  "RunnerFor (DefaultRunners nw pop) k \<noteq> None \<longleftrightarrow> k \<in> {KindDNS, KindHTTP, KindTLS}"
  by (auto simp: RunnerFor_def DefaultRunners_def RunnerRegister_def NewRunnerRegistry_def)

text \<open>Every test of a configuration that passes the check converts, keeps its identity and has
  a runner; but an HTTP test always asks with GET and expects a 2xx status, whatever method and status
  the file gives, and a test with an interval that is not positive passes the check and makes the agent
  panic.\<close>

theorem valid_config:
  assumes "pop_Validate cfg = None" "td \<in> set (pc_Tests cfg)"
  shows "\<exists>t. ToCanaryTest td = Inr t \<and> ct_ID t = td_ID td \<and> ct_TenantID t = td_TenantID td \<and> td_ID td \<noteq> []
    \<and> RunnerFor (DefaultRunners nw pop) (ct_Kind t) \<noteq> None
    \<and> http_method t = ''GET'' \<and> http_expected t = []
    \<and> (ct_Interval t \<le> 0 \<and> t \<in> set tests \<longrightarrow>
        fst (scheduler_Run js marshal (DefaultRunners nw pop) tests evs s) = TickerPanic)"
proof -
  obtain k where "validate_test k td = None"
    using assms validate_tests_nth by (auto simp: pop_Validate_def split: if_splits)
  then obtain interval timeout where t: "ToCanaryTest td = Inr \<lparr>ct_ID = td_ID td, ct_TenantID = td_TenantID td,
      ct_Kind = kind_of (td_Kind td), ct_Target = td_Target td, ct_Interval = interval, ct_Timeout = timeout,
      ct_Config = NoConfig\<rparr>" (is "_ = Inr ?t") and k: "td_ID td \<noteq> []" "kind_of (td_Kind td) \<in> {KindDNS, KindHTTP, KindTLS}"
    using validate_test_None by blast
  have r: "RunnerFor (DefaultRunners nw pop) (ct_Kind ?t) \<noteq> None" using DefaultRunners_kinds k(2) by simp
  then have "fst (scheduler_Run js marshal (DefaultRunners nw pop) tests evs s) = TickerPanic"
    if "ct_Interval ?t \<le> 0" "?t \<in> set tests"
    using that by (auto simp: scheduler_Run_def started_def list_ex_iff)
  then show ?thesis using t k r by (intro exI [of _ ?t]) (auto simp: http_method_def http_expected_def)
qed

section \<open>Mesh\<close>

lemma mesh_ids_inject: "inj (\<lambda>p. ''tst-mesh-'' @ self @ ''-'' @ p)"
  by (auto simp: inj_def)

text \<open>The mesh tests of a POP are one HTTP test for every peer with an identifier and an
  address other than the POP itself, under distinct identifiers when the peers have distinct ones.  The
  jitter of a test is shorter than its interval.\<close>

theorem mesh_tests:
  assumes "GenerateMeshTests cfg self = Inr tests"
  shows "map (\<lambda>t. (ct_ID t, ct_Target t)) tests =
      map (\<lambda>p. (''tst-mesh-'' @ self @ ''-'' @ mp_ID p, mp_HealthURL p)) (filter (mesh_peer_ok self) (mc_Peers cfg))
    \<and> (\<forall>t \<in> set tests. ct_Kind t = KindHTTP \<and> ct_TenantID t \<noteq> [])
    \<and> (distinct (map mp_ID (mc_Peers cfg)) \<longrightarrow> distinct (map ct_ID tests))
    \<and> (0 < interval \<longrightarrow> 0 \<le> randomJitter interval entropy \<and> randomJitter interval entropy < interval)"
proof -
  let ?ps = "filter (mesh_peer_ok self) (mc_Peers cfg)"
  obtain tenant i d where ts: "tests = map (mesh_test tenant self i d) ?ps" "tenant \<noteq> [] \<or> mc_Peers cfg = []"
  proof (cases "mc_Peers cfg = []")
    case True
    then show ?thesis using assms that [of "[]" 0 0] by (simp add: GenerateMeshTests_def)
  next
    case False
    then show ?thesis
      using assms that by (auto simp: GenerateMeshTests_def Let_def split: sum.splits if_splits)
  qed
  have "distinct (map ct_ID tests)" if d: "distinct (map mp_ID (mc_Peers cfg))"
  proof -
    have "map ct_ID tests = map (\<lambda>p. ''tst-mesh-'' @ self @ ''-'' @ p) (map mp_ID ?ps)"
      by (simp add: ts(1) mesh_test_def)
    moreover have "distinct (map mp_ID ?ps)" using d by (rule distinct_map_filter)
    ultimately show ?thesis using mesh_ids_inject by (simp add: distinct_map inj_on_def)
  qed
  moreover have "0 \<le> randomJitter interval entropy \<and> randomJitter interval entropy < interval" if "0 < interval"
    using that by (auto simp: randomJitter_def split: option.splits)
  ultimately show ?thesis using ts by (auto simp: mesh_test_def)
qed

text \<open>Identifiers of mesh tests of two POPs can be the same.\<close>

lemma mesh_id_collision:
  "ct_ID (mesh_test tn ''pop-a'' i d \<lparr>mp_ID = ''pop-b-pop-c'', mp_HealthURL = u\<rparr>) =
   ct_ID (mesh_test tn ''pop-a-pop-b'' i d \<lparr>mp_ID = ''pop-c'', mp_HealthURL = v\<rparr>)"
  by (simp add: mesh_test_def)

section \<open>Subjects\<close>

lemma safeSubjectToken_bytes: "list_all subject_byte (safeSubjectToken s) \<and> safeSubjectToken s \<noteq> []"
  by (auto simp: safeSubjectToken_def Let_def list_all_iff subject_byte_def)

section \<open>Instances\<close>

definition demo_test_definition :: TestDefinition where
  "demo_test_definition = \<lparr>td_ID = ''tst-1'', td_TenantID = ''tnt-a'', td_Kind = ''http'',
     td_Target = ''https://a.example/'', td_Interval = ''-5s'', td_Timeout = [], td_Method = ''HEAD'',
     td_ExpectedStatus = ''301''\<rparr>"

definition demo_mesh :: MeshConfig where
  "demo_mesh = \<lparr>mc_TenantID = [], mc_Interval = ''1m'', mc_Timeout = [],
     mc_Peers = [\<lparr>mp_ID = ''pop-a'', mp_HealthURL = ''https://a''\<rparr>, \<lparr>mp_ID = ''pop-b'', mp_HealthURL = ''https://b''\<rparr>]\<rparr>"

definition demo_pop_config :: PopConfig where
  "demo_pop_config = \<lparr>pc_PopID = ''pop-a'', pc_NATSURL = ''nats://n'', pc_Tests = [demo_test_definition],
     pc_Mesh = demo_mesh\<rparr>"

theorem valid_config_witness:
  "\<exists>t. ToCanaryTest demo_test_definition = Inr t \<and> http_method t = ''GET'' \<and>
     (\<forall>nw. fst (scheduler_Run None (\<lambda>_. None) (DefaultRunners nw ''pop-a'') [t] [] ()) = TickerPanic)"
proof -
  have v: "pop_Validate demo_pop_config = None" by code_simp
  have i: "map_sum id ct_Interval (ToCanaryTest demo_test_definition) = Inr (- 5000000000)" by code_simp
  obtain t where t: "ToCanaryTest demo_test_definition = Inr t" using i by (cases "ToCanaryTest demo_test_definition") auto
  then have "ct_Interval t \<le> 0" using i by simp
  then show ?thesis
    using valid_config [OF v, of demo_test_definition _ "''pop-a''" "[t]" None "\<lambda>_. None" "[]" "()"] t
    by (simp add: demo_pop_config_def)
qed

theorem mesh_tests_witness:
  "\<exists>tests. GenerateMeshTests demo_mesh ''pop-a'' = Inr tests \<and> map ct_ID tests = [''tst-mesh-pop-a-pop-b'']"
proof -
  have "case GenerateMeshTests demo_mesh ''pop-a'' of Inl _ \<Rightarrow> False | Inr _ \<Rightarrow> True" by code_simp
  then obtain tests where t: "GenerateMeshTests demo_mesh ''pop-a'' = Inr tests" by (auto split: sum.splits)
  have "map ct_ID tests = map fst (map (\<lambda>t. (ct_ID t, ct_Target t)) tests)" by simp
  also have "\<dots> = [''tst-mesh-pop-a-pop-b'']"
    unfolding conjunct1 [OF mesh_tests [OF t, of 1 None]] by (simp add: demo_mesh_def mesh_peer_ok_def)
  finally show ?thesis using t by (intro exI [of _ tests] conjI)
qed

end
