(* ===== verification/NatsStreams.thy ===== *)
theory NatsStreams
  imports GoBase
begin

text \<open>
  The declaration of streams and durable consumers (pkg/store/nats/streams.go).  The JetStream context
  is a record of operations; the interface \<open>jetstream\<close> states what the helpers rely on: a successful
  creation or update makes the lookup return a configuration that agrees in the fields the helpers
  manage, and a failed one changes nothing.
\<close>

text \<open>The managed fields; \<open>FileStorage\<close> is the zero value of the client library.\<close>

record StreamConfig =
  sc_Name :: string
  sc_Subjects :: "string list"
  sc_Storage :: int
  sc_Retention :: int
  sc_MaxAge :: duration
  sc_MaxBytes :: int
  sc_Replicas :: int

definition FileStorage :: int where "FileStorage = 0"

record ConsumerConfig =
  cc_Durable :: string
  cc_AckPolicy :: int
  cc_AckWait :: duration
  cc_MaxDeliver :: int
  cc_FilterSubject :: string

datatype js_error = ErrStreamNotFound | ErrConsumerNotFound | JsOther string

datatype nats_error = NilJs | NilConfig | EmptyStreamName | EmptySubjects string | EmptyDurable
  | InfoFailed string | JsFailed js_error

record 's JetStream =
  js_StreamInfo :: "string \<Rightarrow> 's \<Rightarrow> (js_error, StreamConfig) result"
  js_AddStream :: "StreamConfig \<Rightarrow> 's \<Rightarrow> (js_error, StreamConfig) result \<times> 's"
  js_UpdateStream :: "StreamConfig \<Rightarrow> 's \<Rightarrow> (js_error, StreamConfig) result \<times> 's"
  js_ConsumerInfo :: "string \<Rightarrow> string \<Rightarrow> 's \<Rightarrow> (js_error, ConsumerConfig) result"
  js_AddConsumer :: "string \<Rightarrow> ConsumerConfig \<Rightarrow> 's \<Rightarrow> (js_error, ConsumerConfig) result \<times> 's"
  js_UpdateConsumer :: "string \<Rightarrow> ConsumerConfig \<Rightarrow> 's \<Rightarrow> (js_error, ConsumerConfig) result \<times> 's"

fun equalStringSlices :: "string list \<Rightarrow> string list \<Rightarrow> bool" where
  "equalStringSlices [] [] = True"
| "equalStringSlices (a # as) (b # bs) = (a = b \<and> equalStringSlices as bs)"
| "equalStringSlices _ _ = False"

definition streamConfigDiffers :: "StreamConfig \<Rightarrow> StreamConfig \<Rightarrow> bool" where
  "streamConfigDiffers want have =
    (if sc_Storage want \<noteq> sc_Storage have then True
     else if sc_Retention want \<noteq> sc_Retention have then True
     else if sc_MaxAge want \<noteq> sc_MaxAge have then True
     else if sc_MaxBytes want \<noteq> sc_MaxBytes have then True
     else if sc_Replicas want \<noteq> sc_Replicas have \<and> sc_Replicas want \<noteq> 0 then True
     else if \<not> equalStringSlices (sc_Subjects want) (sc_Subjects have) then True
     else False)"

definition consumerConfigDiffers :: "ConsumerConfig \<Rightarrow> ConsumerConfig \<Rightarrow> bool" where
  "consumerConfigDiffers want have =
    (if cc_AckPolicy want \<noteq> cc_AckPolicy have then True
     else if cc_AckWait want \<noteq> cc_AckWait have \<and> cc_AckWait want \<noteq> 0 then True
     else if cc_MaxDeliver want \<noteq> cc_MaxDeliver have \<and> cc_MaxDeliver want \<noteq> 0 then True
     else if cc_FilterSubject want \<noteq> cc_FilterSubject have then True
     else False)"

definition js_result :: "(js_error, 'a) result \<times> 's \<Rightarrow> (nats_error, 'a) result \<times> 's" where
  "js_result r = (case r of (Inl e, s) \<Rightarrow> (Inl (JsFailed e), s) | (Inr x, s) \<Rightarrow> (Inr x, s))"

definition EnsureStream :: "'s JetStream option \<Rightarrow> StreamConfig option \<Rightarrow> 's \<Rightarrow>
    (nats_error, StreamConfig) result \<times> 's" where
  "EnsureStream js cfg s =
    (case js of None \<Rightarrow> (Inl NilJs, s) | Some js \<Rightarrow>
    (case cfg of None \<Rightarrow> (Inl NilConfig, s) | Some cfg \<Rightarrow>
       if sc_Name cfg = [] then (Inl EmptyStreamName, s)
       else if sc_Subjects cfg = [] then (Inl (EmptySubjects (sc_Name cfg)), s)
       else
         (let cfg = (if sc_Storage cfg = 0 then cfg\<lparr>sc_Storage := FileStorage\<rparr> else cfg)
          in case js_StreamInfo js (sc_Name cfg) s of
               Inl e \<Rightarrow> if e = ErrStreamNotFound then js_result (js_AddStream js cfg s)
                        else (Inl (InfoFailed (sc_Name cfg)), s)
             | Inr info \<Rightarrow> if streamConfigDiffers cfg info then js_result (js_UpdateStream js cfg s)
                            else (Inr info, s))))"

definition EnsureConsumer :: "'s JetStream option \<Rightarrow> string \<Rightarrow> ConsumerConfig option \<Rightarrow> 's \<Rightarrow>
    (nats_error, ConsumerConfig) result \<times> 's" where
  "EnsureConsumer js stream cfg s =
    (case js of None \<Rightarrow> (Inl NilJs, s) | Some js \<Rightarrow>
    (case cfg of None \<Rightarrow> (Inl NilConfig, s) | Some cfg \<Rightarrow>
       if stream = [] then (Inl EmptyStreamName, s)
       else if cc_Durable cfg = [] then (Inl EmptyDurable, s)
       else (case js_ConsumerInfo js stream (cc_Durable cfg) s of
               Inl e \<Rightarrow> if e = ErrConsumerNotFound then js_result (js_AddConsumer js stream cfg s)
                        else (Inl (InfoFailed (cc_Durable cfg)), s)
             | Inr info \<Rightarrow> if consumerConfigDiffers cfg info then js_result (js_UpdateConsumer js stream cfg s)
                            else (Inr info, s))))"

section \<open>Convergence\<close>

lemma equalStringSlices_eq: "equalStringSlices as bs \<longleftrightarrow> as = bs"
  by (induction as bs rule: equalStringSlices.induct) auto

lemma streamConfigDiffers_refl: "\<not> streamConfigDiffers c c"
  by (simp add: streamConfigDiffers_def equalStringSlices_eq)

lemma consumerConfigDiffers_refl: "\<not> consumerConfigDiffers c c"
  by (simp add: consumerConfigDiffers_def)

locale jetstream =
  fixes js :: "'s JetStream"
  assumes add_stream: "js_AddStream js c s = (Inr info, s') \<Longrightarrow>
      js_StreamInfo js (sc_Name c) s' = Inr info \<and> \<not> streamConfigDiffers c info"
    and update_stream: "js_UpdateStream js c s = (Inr info, s') \<Longrightarrow>
      js_StreamInfo js (sc_Name c) s' = Inr info \<and> \<not> streamConfigDiffers c info"
    and add_consumer: "js_AddConsumer js n d s = (Inr x, s') \<Longrightarrow>
      js_ConsumerInfo js n (cc_Durable d) s' = Inr x \<and> \<not> consumerConfigDiffers d x"
    and update_consumer: "js_UpdateConsumer js n d s = (Inr x, s') \<Longrightarrow>
      js_ConsumerInfo js n (cc_Durable d) s' = Inr x \<and> \<not> consumerConfigDiffers d x"
begin

lemma ensure_stream_converges:
  assumes "EnsureStream (Some js) (Some cfg) s = (Inr info, s')"
  shows "js_StreamInfo js (sc_Name cfg) s' = Inr info \<and> \<not> streamConfigDiffers cfg info
    \<and> EnsureStream (Some js) (Some cfg) s' = (Inr info, s')"
proof -
  have z: "(if sc_Storage cfg = 0 then cfg\<lparr>sc_Storage := FileStorage\<rparr> else cfg) = cfg"
    by (cases cfg) (simp add: FileStorage_def)
  have n: "sc_Name cfg \<noteq> []" "sc_Subjects cfg \<noteq> []"
    using assms by (auto simp: EnsureStream_def split: if_splits)
  have c: "js_StreamInfo js (sc_Name cfg) s' = Inr info \<and> \<not> streamConfigDiffers cfg info"
    using assms n add_stream update_stream
    by (fastforce simp: EnsureStream_def Let_def z js_result_def split: sum.splits prod.splits if_splits)
  then show ?thesis using n by (simp add: EnsureStream_def Let_def z)
qed

lemma ensure_consumer_converges:
  assumes "EnsureConsumer (Some js) stream (Some cfg) s = (Inr info, s')"
  shows "js_ConsumerInfo js stream (cc_Durable cfg) s' = Inr info \<and> \<not> consumerConfigDiffers cfg info
    \<and> EnsureConsumer (Some js) stream (Some cfg) s' = (Inr info, s')"
proof -
  have n: "stream \<noteq> []" "cc_Durable cfg \<noteq> []"
    using assms by (auto simp: EnsureConsumer_def split: if_splits)
  have c: "js_ConsumerInfo js stream (cc_Durable cfg) s' = Inr info \<and> \<not> consumerConfigDiffers cfg info"
    using assms n add_consumer update_consumer
    by (fastforce simp: EnsureConsumer_def js_result_def split: sum.splits prod.splits if_splits)
  then show ?thesis using n by (simp add: EnsureConsumer_def)
qed

end

end
