(* ===== verification/Ingest.thy ===== *)
theory Ingest
  imports PopAgent NatsStreams
begin

text \<open>
  The way of a result from the publisher of a POP through JetStream to the table canary_results
  (pkg/canary/ingest/consumer.go).  JetStream is a broker that holds the streams, the durable
  consumers and the messages that nobody has acknowledged; a message is delivered any number of times
  until it is.  JSON and ClickHouse are arguments: an INSERT succeeds, fails, or is carried out with
  its answer lost.
\<close>

section \<open>The broker\<close>

type_synonym message = "string \<times> string"

record broker =
  br_streams :: "(string \<times> StreamConfig) list"
  br_consumers :: "((string \<times> string) \<times> ConsumerConfig) list"
  br_pending :: "message list"

definition upsert :: "'k \<Rightarrow> 'v \<Rightarrow> ('k \<times> 'v) list \<Rightarrow> ('k \<times> 'v) list" where
  "upsert k v kvs = (k, v) # filter (\<lambda>(k', _). k' \<noteq> k) kvs"

definition broker_js :: "broker JetStream" where
  "broker_js =
    \<lparr>js_StreamInfo = (\<lambda>n b. case map_of (br_streams b) n of None \<Rightarrow> Inl ErrStreamNotFound | Some c \<Rightarrow> Inr c),
     js_AddStream = (\<lambda>c b. if map_of (br_streams b) (sc_Name c) \<noteq> None then (Inl (JsOther ''name in use''), b)
       else (Inr c, b\<lparr>br_streams := upsert (sc_Name c) c (br_streams b)\<rparr>)),
     js_UpdateStream = (\<lambda>c b. if map_of (br_streams b) (sc_Name c) = None then (Inl ErrStreamNotFound, b)
       else (Inr c, b\<lparr>br_streams := upsert (sc_Name c) c (br_streams b)\<rparr>)),
     js_ConsumerInfo = (\<lambda>n d b. case map_of (br_consumers b) (n, d) of None \<Rightarrow> Inl ErrConsumerNotFound | Some c \<Rightarrow> Inr c),
     js_AddConsumer = (\<lambda>n c b. (Inr c, b\<lparr>br_consumers := upsert (n, cc_Durable c) c (br_consumers b)\<rparr>)),
     js_UpdateConsumer = (\<lambda>n c b. (Inr c, b\<lparr>br_consumers := upsert (n, cc_Durable c) c (br_consumers b)\<rparr>))\<rparr>"

lemma map_of_upsert [simp]: "map_of (upsert k v kvs) k = Some v"
  by (simp add: upsert_def)

interpretation nats: jetstream broker_js
  by unfold_locales
    (auto simp: broker_js_def streamConfigDiffers_refl consumerConfigDiffers_refl split: if_splits)

text \<open>Subjects are split at the dots; in a pattern, a star takes one token and a final \<open>>\<close> one or more.\<close>

fun tokens_match :: "string list \<Rightarrow> string list \<Rightarrow> bool" where
  "tokens_match [] [] = True"
| "tokens_match (p # ps) (t # ts) =
    (if p = ''>'' \<and> ps = [] then True else (p = ''*'' \<or> p = t) \<and> tokens_match ps ts)"
| "tokens_match _ _ = False"

definition subject_match :: "string \<Rightarrow> string \<Rightarrow> bool" where
  "subject_match pat subject = tokens_match (split_on (CHR ''.'') pat) (split_on (CHR ''.'') subject)"

text \<open>A published message is kept when its subject has no empty token or space and some stream collects
  it.\<close>

definition valid_subject :: "string \<Rightarrow> bool" where
  "valid_subject subject =
    list_all (\<lambda>t. t \<noteq> [] \<and> list_all (\<lambda>c. 32 < byte c \<and> c \<noteq> CHR ''*'' \<and> c \<noteq> CHR ''>'') t) (split_on (CHR ''.'') subject)"

definition broker_publish :: "string \<Rightarrow> string \<Rightarrow> broker \<Rightarrow> bool \<times> broker" where
  "broker_publish subject body b =
    (if valid_subject subject
        \<and> list_ex (\<lambda>(_, c). list_ex (\<lambda>p. subject_match p subject) (sc_Subjects c)) (br_streams b)
     then (True, b\<lparr>br_pending := br_pending b @ [(subject, body)]\<rparr>) else (False, b))"

section \<open>The consumer\<close>

definition StreamName :: string where "StreamName = ''NETSITE_CANARY_RESULTS''"
definition SubjectPattern :: string where "SubjectPattern = ''netsite.canary.results.>''"
definition DurableName :: string where "DurableName = ''controlplane-ingest''"

definition canary_stream :: StreamConfig where
  "canary_stream = \<lparr>sc_Name = StreamName, sc_Subjects = [SubjectPattern], sc_Storage = FileStorage,
     sc_Retention = 0, sc_MaxAge = 7 * 24 * hour_ns, sc_MaxBytes = 0, sc_Replicas = 0\<rparr>"

definition ingest_EnsureStream :: "'s JetStream option \<Rightarrow> 's \<Rightarrow> nats_error option \<times> 's" where
  "ingest_EnsureStream js s =
    (case EnsureStream js (Some canary_stream) s of (Inl e, s') \<Rightarrow> (Some e, s') | (Inr _, s') \<Rightarrow> (None, s'))"

datatype ch_value = ChString string | ChTime time | ChFloat32 f64 | ChUInt16 int

type_synonym canary_row = "(string \<times> ch_value) list"

definition insert_columns :: "string list" where
  "insert_columns = [''tenant_id'', ''test_id'', ''pop_id'', ''observed_at'', ''latency_ms'', ''dns_ms'',
     ''connect_ms'', ''tls_ms'', ''ttfb_ms'', ''status_code'', ''error_kind'', ''ja3'', ''ja4'']"

definition insert_args :: "Result \<Rightarrow> ch_value list" where
  "insert_args r = [ChString (res_TenantID r), ChString (res_TestID r), ChString (res_PopID r),
     ChTime (res_ObservedAt r), ChFloat32 (res_LatencyMs r), ChFloat32 (res_DNSMs r), ChFloat32 (res_ConnectMs r),
     ChFloat32 (res_TLSMs r), ChFloat32 (res_TTFBMs r), ChUInt16 (res_StatusCode r), ChString (res_ErrorKind r),
     ChString (res_JA3 r), ChString (res_JA4 r)]"

definition result_row :: "Result \<Rightarrow> canary_row" where
  "result_row r = zip insert_columns (insert_args r)"

datatype exec_outcome = ExecOk | ExecFailed | ExecAnswerLost

definition insert_result :: "exec_outcome \<Rightarrow> Result \<Rightarrow> canary_row list \<Rightarrow> bool \<times> canary_row list" where
  "insert_result ex r table =
    (case ex of
       ExecOk \<Rightarrow> (True, table @ [result_row r])
     | ExecFailed \<Rightarrow> (False, table)
     | ExecAnswerLost \<Rightarrow> (False, table @ [result_row r]))"

datatype disposition = Acked | AckFailed | Naked

definition handle :: "(string \<Rightarrow> Result option) \<Rightarrow> exec_outcome \<Rightarrow> bool \<Rightarrow> string \<Rightarrow> canary_row list \<Rightarrow>
    disposition \<times> canary_row list" where
  "handle unmarshal ex ack_ok body table =
    (case unmarshal body of
       None \<Rightarrow> (Naked, table)
     | Some r \<Rightarrow>
         (case insert_result ex r table of
            (False, table') \<Rightarrow> (Naked, table')
          | (True, table') \<Rightarrow> (if ack_ok then Acked else AckFailed, table')))"

text \<open>An acknowledged message leaves the broker.\<close>

definition deliver :: "(string \<Rightarrow> Result option) \<Rightarrow> exec_outcome \<Rightarrow> bool \<Rightarrow> message \<Rightarrow> broker \<times> canary_row list \<Rightarrow>
    broker \<times> canary_row list" where
  "deliver unmarshal ex ack_ok m bt =
    (case bt of (b, table) \<Rightarrow>
       (case handle unmarshal ex ack_ok (snd m) table of
          (d, table') \<Rightarrow> (if d = Acked then b\<lparr>br_pending := remove1 m (br_pending b)\<rparr> else b, table')))"

text \<open>One round of \<open>Run\<close>: the fetch fails, or its messages are handled one after the other.\<close>

definition consume_round :: "(string \<Rightarrow> Result option) \<Rightarrow> (message \<times> exec_outcome \<times> bool) list option \<Rightarrow>
    broker \<times> canary_row list \<Rightarrow> broker \<times> canary_row list" where
  "consume_round unmarshal fetched bt =
    (case fetched of
       None \<Rightarrow> bt
     | Some msgs \<Rightarrow> fold (\<lambda>(m, ex, ack_ok). deliver unmarshal ex ack_ok m) msgs bt)"

text \<open>\<open>Run\<close> binds its durable consumer and goes round until its context ends; a round that fails is skipped.\<close>

definition ingest_Run :: "(string \<Rightarrow> Result option) \<Rightarrow> bool \<Rightarrow> (message \<times> exec_outcome \<times> bool) list option list \<Rightarrow>
    broker \<times> canary_row list \<Rightarrow> bool \<times> broker \<times> canary_row list" where
  "ingest_Run unmarshal subscribed rounds bt =
    (if \<not> subscribed then (False, bt) else (True, fold (consume_round unmarshal) rounds bt))"

section \<open>The pipeline as a transition system\<close>

text \<open>Next to the broker and the table the state records the results whose publication succeeded.\<close>

record pipeline =
  pl_broker :: broker
  pl_table :: "canary_row list"
  pl_sent :: "Result list"

inductive pipe_step :: "(Result \<Rightarrow> string option) \<Rightarrow> (string \<Rightarrow> Result option) \<Rightarrow> pipeline \<Rightarrow> pipeline \<Rightarrow> bool"
  for marshal unmarshal where
  published: "Publish (Some broker_publish) marshal r (pl_broker s) = (None, b) \<Longrightarrow>
    pipe_step marshal unmarshal s (s\<lparr>pl_broker := b, pl_sent := pl_sent s @ [r]\<rparr>)"
| refused: "Publish (Some broker_publish) marshal r (pl_broker s) = (Some e, b) \<Longrightarrow>
    pipe_step marshal unmarshal s (s\<lparr>pl_broker := b\<rparr>)"
| delivered: "m \<in> set (br_pending (pl_broker s)) \<Longrightarrow>
    deliver unmarshal ex ack_ok m (pl_broker s, pl_table s) = (b, table) \<Longrightarrow>
    pipe_step marshal unmarshal s (s\<lparr>pl_broker := b, pl_table := table\<rparr>)"

inductive_cases pipe_stepE: "pipe_step marshal unmarshal s t"

definition json_ok :: "(Result \<Rightarrow> string option) \<Rightarrow> (string \<Rightarrow> Result option) \<Rightarrow> bool" where
  "json_ok marshal unmarshal = (\<forall>r body. marshal r = Some body \<longrightarrow> unmarshal body = Some r)"

definition empty_pipeline :: "broker \<Rightarrow> pipeline" where
  "empty_pipeline b = \<lparr>pl_broker = b\<lparr>br_pending := []\<rparr>, pl_table = [], pl_sent = []\<rparr>"

definition in_flight :: "(Result \<Rightarrow> string option) \<Rightarrow> pipeline \<Rightarrow> Result \<Rightarrow> bool" where
  "in_flight marshal s r =
    (\<exists>body. marshal r = Some body \<and> (result_subject r, body) \<in> set (br_pending (pl_broker s)))"

definition pipe_inv :: "(Result \<Rightarrow> string option) \<Rightarrow> pipeline \<Rightarrow> bool" where
  "pipe_inv marshal s =
    ((\<forall>r \<in> set (pl_sent s). result_row r \<in> set (pl_table s) \<or> in_flight marshal s r)
     \<and> (\<forall>row \<in> set (pl_table s). \<exists>r \<in> set (pl_sent s). row = result_row r)
     \<and> (\<forall>m \<in> set (br_pending (pl_broker s)). \<exists>r \<in> set (pl_sent s). marshal r = Some (snd m) \<and> fst m = result_subject r))"

lemma Publish_accepted:
  assumes "Publish (Some broker_publish) marshal r b = (None, b')"
  shows "\<exists>body. marshal r = Some body \<and> b' = b\<lparr>br_pending := br_pending b @ [(result_subject r, body)]\<rparr>"
  using assms by (auto simp: Publish_def broker_publish_def split: option.splits if_splits)

lemma Publish_refused:
  assumes "Publish (Some broker_publish) marshal r b = (Some e, b')" shows "b' = b"
  using assms by (auto simp: Publish_def broker_publish_def split: option.splits if_splits)

lemma deliver_cases:
  assumes "deliver unmarshal ex ack_ok m (b, table) = (b', table')"
  obtains (untouched) "b' = b" "table' = table"
  | (stored) r where "unmarshal (snd m) = Some r" "table' = table @ [result_row r]"
      "b' = b \<or> b' = b\<lparr>br_pending := remove1 m (br_pending b)\<rparr>"
  using assms
  by (auto simp: deliver_def handle_def insert_result_def split: option.splits exec_outcome.splits if_splits prod.splits)

lemma pipe_inv_step:
  assumes "pipe_step marshal unmarshal s t" "json_ok marshal unmarshal" "pipe_inv marshal s"
  shows "pipe_inv marshal t"
  using assms(1)
proof cases
  case (published r b)
  then show ?thesis using Publish_accepted [OF published(2)] assms(3)
    by (fastforce simp: pipe_inv_def in_flight_def)
next
  case (refused r e b)
  then show ?thesis using Publish_refused [OF refused(2)] assms(3) by (simp add: pipe_inv_def in_flight_def)
next
  case (delivered m ex ack_ok b table)
  from delivered(3) show ?thesis
  proof (cases rule: deliver_cases)
    case untouched
    then show ?thesis using delivered(1) assms(3) by (simp add: pipe_inv_def in_flight_def)
  next
    case (stored r)
    obtain q where q: "q \<in> set (pl_sent s)" "marshal q = Some (snd m)" "fst m = result_subject q"
      using assms(3) delivered(2) by (auto simp: pipe_inv_def)
    then have "q = r" using assms(2) stored(1) by (auto simp: json_ok_def)
    have sub: "set (br_pending b) \<subseteq> set (br_pending (pl_broker s))"
      using stored(3) by (auto dest: set_remove1_subset [THEN subsetD])
    have keep: "in_flight marshal t p" if p: "in_flight marshal s p" "p \<noteq> r" for p
    proof -
      obtain body where body: "marshal p = Some body" "(result_subject p, body) \<in> set (br_pending (pl_broker s))"
        using p(1) by (auto simp: in_flight_def)
      then have "(result_subject p, body) \<noteq> m" using p(2) assms(2) stored(1) by (auto simp: json_ok_def)
      then have "(result_subject p, body) \<in> set (br_pending b)" using stored(3) body(2) by auto
      then show ?thesis using body(1) delivered(1) by (auto simp: in_flight_def)
    qed
    have "result_row p \<in> set (pl_table t) \<or> in_flight marshal t p" if "p \<in> set (pl_sent t)" for p
      using that assms(3) keep [of p] delivered(1) stored(2) by (cases "p = r") (auto simp: pipe_inv_def)
    moreover have "\<exists>p \<in> set (pl_sent t). row = result_row p" if "row \<in> set (pl_table t)" for row
      using that assms(3) delivered(1) stored(2) q(1) \<open>q = r\<close> by (auto simp: pipe_inv_def)
    moreover have "\<exists>p \<in> set (pl_sent t). marshal p = Some (snd n) \<and> fst n = result_subject p"
      if "n \<in> set (br_pending (pl_broker t))" for n
      using that assms(3) delivered(1) sub by (auto simp: pipe_inv_def)
    ultimately show ?thesis by (simp add: pipe_inv_def)
  qed
qed

lemma reachable_inv:
  assumes "(pipe_step marshal unmarshal)\<^sup>*\<^sup>* (empty_pipeline b) s" "json_ok marshal unmarshal"
  shows "pipe_inv marshal s"
  using assms(1)
proof induction
  case base
  then show ?case by (simp add: pipe_inv_def empty_pipeline_def)
next
  case (step s t)
  then show ?case using pipe_inv_step assms(2) by blast
qed


section \<open>Draining\<close>

lemma deliver_ok:
  "unmarshal (snd m) = Some r \<Longrightarrow>
   deliver unmarshal ExecOk True m (b, table) = (b\<lparr>br_pending := remove1 m (br_pending b)\<rparr>, table @ [result_row r])"
  by (simp add: deliver_def handle_def insert_result_def)

lemma drain:
  assumes "list_all (\<lambda>m. unmarshal (snd m) \<noteq> None) ms" "br_pending b = ms @ rest"
  shows "fold (\<lambda>(m, ex, ack_ok). deliver unmarshal ex ack_ok m) (map (\<lambda>m. (m, ExecOk, True)) ms) (b, table) =
    (b\<lparr>br_pending := rest\<rparr>, table @ map (\<lambda>m. result_row (the (unmarshal (snd m)))) ms)"
  using assms
proof (induction ms arbitrary: b table)
  case Nil
  then show ?case by simp
next
  case (Cons m ms)
  then obtain r where r: "unmarshal (snd m) = Some r" by auto
  show ?case using Cons.IH [of "b\<lparr>br_pending := ms @ rest\<rparr>"] Cons.prems r by (simp add: deliver_ok)
qed


section \<open>Publisher and stream agree\<close>

lemma split_on_not_Nil: "split_on c s \<noteq> []"
  by (induction s) (auto split: list.splits)

lemma split_on_append: "c \<notin> set a \<Longrightarrow> split_on c (a @ c # b) = a # split_on c b"
  by (induction a) auto

lemma split_on_single: "c \<notin> set a \<Longrightarrow> split_on c a = [a]"
  by (induction a) auto

lemma subject_byte_plain: "subject_byte c \<Longrightarrow> 32 < byte c \<and> c \<noteq> CHR ''*'' \<and> c \<noteq> CHR ''>'' \<and> c \<noteq> CHR ''.''"
  by (auto simp: subject_byte_def)

lemma result_subject_tokens:
  "split_on (CHR ''.'') (result_subject r) = [''netsite'', ''canary'', ''results'', safeSubjectToken (res_TestID r)]"
proof -
  have "CHR ''.'' \<notin> set (safeSubjectToken (res_TestID r))"
    using safeSubjectToken_bytes [of "res_TestID r"] subject_byte_plain by (auto simp: list_all_iff)
  then show ?thesis by (simp add: result_subject_def SubjectPrefix_def split_on_single)
qed

lemma pattern_tokens: "split_on (CHR ''.'') SubjectPattern = [''netsite'', ''canary'', ''results'', ''>'']"
  by code_simp

lemma result_subject_matches: "valid_subject (result_subject r) \<and> subject_match SubjectPattern (result_subject r)"
  using safeSubjectToken_bytes [of "res_TestID r"] subject_byte_plain
  by (auto simp: valid_subject_def subject_match_def result_subject_tokens pattern_tokens list_all_iff)

text \<open>Whatever the identifier of its test, a result that has a JSON form is accepted once the
  consumer has declared its stream: the subject of the publisher is one valid token below the prefix
  that the stream collects.\<close>

theorem publication_accepted:
  assumes "ingest_EnsureStream (Some broker_js) b = (None, b')" "marshal r = Some body"
  shows "Publish (Some broker_publish) marshal r b' =
    (None, b'\<lparr>br_pending := br_pending b' @ [(result_subject r, body)]\<rparr>)"
proof -
  obtain info where e: "EnsureStream (Some broker_js) (Some canary_stream) b = (Inr info, b')"
    using assms(1) by (auto simp: ingest_EnsureStream_def split: prod.splits sum.splits)
  have c: "js_StreamInfo broker_js StreamName b' = Inr info" "\<not> streamConfigDiffers canary_stream info"
    using nats.ensure_stream_converges [OF e] by (simp_all add: canary_stream_def)
  have "(StreamName, info) \<in> set (br_streams b')"
    using c(1) by (auto simp: broker_js_def map_of_SomeD split: option.splits)
  moreover have "sc_Subjects info = [SubjectPattern]"
    using c(2) by (auto simp: streamConfigDiffers_def equalStringSlices_eq canary_stream_def split: if_splits)
  ultimately have "list_ex (\<lambda>(_, c). list_ex (\<lambda>p. subject_match p (result_subject r)) (sc_Subjects c)) (br_streams b')"
    using result_subject_matches by (force simp: list_ex_iff)
  then show ?thesis using assms(2) result_subject_matches by (simp add: Publish_def broker_publish_def)
qed

section \<open>Instances\<close>

definition demo_result :: Result where
  "demo_result = start_result ''pop-a'' \<lparr>ct_ID = ''tst.1'', ct_TenantID = ''tnt-a'', ct_Kind = KindDNS,
     ct_Target = ''a.example'', ct_Interval = 30 * second_ns, ct_Timeout = second_ns, ct_Config = NoConfig\<rparr> 7"

definition demo_marshal :: "Result \<Rightarrow> string option" where
  "demo_marshal r = (if r = demo_result then Some ''{}'' else None)"

definition demo_unmarshal :: "string \<Rightarrow> Result option" where
  "demo_unmarshal body = (if body = ''{}'' then Some demo_result else None)"

definition demo_broker :: broker where
  "demo_broker = snd (ingest_EnsureStream (Some broker_js)
     \<lparr>br_streams = [], br_consumers = [], br_pending = []\<rparr>)"

lemma demo_json: "json_ok demo_marshal demo_unmarshal"
  by (auto simp: json_ok_def demo_marshal_def demo_unmarshal_def split: if_splits)

theorem publication_accepted_witness:
  "Publish (Some broker_publish) demo_marshal demo_result demo_broker =
    (None, demo_broker\<lparr>br_pending := [(''netsite.canary.results.tst_1'', ''{}'')]\<rparr>)"
proof -
  have e: "ingest_EnsureStream (Some broker_js) \<lparr>br_streams = [], br_consumers = [], br_pending = []\<rparr> = (None, demo_broker)"
    "br_pending demo_broker = []" "result_subject demo_result = ''netsite.canary.results.tst_1''"
    by code_simp+
  show ?thesis
    using publication_accepted [OF e(1), of demo_marshal demo_result "''{}''"] e(2,3) by (simp add: demo_marshal_def)
qed

text \<open>A published result whose row is written twice, since the answer to the first insert was lost.\<close>

definition demo_published :: pipeline where
  "demo_published = (empty_pipeline demo_broker)\<lparr>pl_sent := [demo_result],
     pl_broker := snd (Publish (Some broker_publish) demo_marshal demo_result demo_broker)\<rparr>"

definition demo_unanswered :: pipeline where
  "demo_unanswered = demo_published\<lparr>pl_table := [result_row demo_result]\<rparr>"

lemma demo_reachable: "(pipe_step demo_marshal demo_unmarshal)\<^sup>*\<^sup>* (empty_pipeline demo_broker) demo_unanswered"
proof -
  have p: "Publish (Some broker_publish) demo_marshal demo_result (pl_broker (empty_pipeline demo_broker)) =
      (None, pl_broker demo_published)"
    and m: "(''netsite.canary.results.tst_1'', ''{}'') \<in> set (br_pending (pl_broker demo_published))"
    and d: "deliver demo_unmarshal ExecAnswerLost True (''netsite.canary.results.tst_1'', ''{}'')
      (pl_broker demo_published, pl_table demo_published) = (pl_broker demo_published, [result_row demo_result])"
    by code_simp+
  have "pipe_step demo_marshal demo_unmarshal (empty_pipeline demo_broker) demo_published"
    using pipe_step.published [where s = "empty_pipeline demo_broker" and unmarshal = demo_unmarshal, OF p]
    by (simp add: demo_published_def empty_pipeline_def)
  moreover have "pipe_step demo_marshal demo_unmarshal demo_published demo_unanswered"
    using pipe_step.delivered [where marshal = demo_marshal, OF m d] by (simp add: demo_unanswered_def)
  ultimately show ?thesis by simp
qed



end
