(* ===== verification/GoHash.thy ===== *)
theory GoHash
  imports GoBase "HOL-Library.Word"
begin

text \<open>
  The two hash functions of the standard library that the fingerprints use, crypto/md5 and
  crypto/sha256, on lists of bytes: the padding, the compression of a block of 64 bytes and the
  digest.  A test of the document that defines MD5 is checked at the end.
\<close>

unbundle bit_operations_syntax

type_synonym w32 = "32 word"

fun chunks :: "nat \<Rightarrow> nat \<Rightarrow> 'a list \<Rightarrow> 'a list list" where
  "chunks k 0 xs = []"
| "chunks k (Suc n) xs = take k xs # chunks k n (drop k xs)"

text \<open>The message of \<open>n\<close> bytes is followed by 128, zeros up to 56 modulo 64, and eight bytes of length.\<close>

definition zero_pad :: "nat \<Rightarrow> int list" where
  "zero_pad n = replicate ((119 - n mod 64) mod 64) 0"

definition le_bytes :: "nat \<Rightarrow> int \<Rightarrow> int list" where
  "le_bytes k x = map (\<lambda>i. x div 256 ^ i mod 256) [0..<k]"

definition be_bytes :: "nat \<Rightarrow> int \<Rightarrow> int list" where
  "be_bytes k x = rev (le_bytes k x)"

definition le_word :: "int list \<Rightarrow> w32" where
  "le_word bs = word_of_int (foldr (\<lambda>b a. a * 256 + b) bs 0)"

definition be_word :: "int list \<Rightarrow> w32" where
  "be_word bs = le_word (rev bs)"

definition rotl :: "nat \<Rightarrow> w32 \<Rightarrow> w32" where
  "rotl n x = push_bit n x OR drop_bit (32 - n) x"

definition rotr :: "nat \<Rightarrow> w32 \<Rightarrow> w32" where
  "rotr n x = drop_bit n x OR push_bit (32 - n) x"

section \<open>MD5\<close>

definition md5_table :: "w32 list" where
  "md5_table =
   [0xd76aa478, 0xe8c7b756, 0x242070db, 0xc1bdceee, 0xf57c0faf, 0x4787c62a, 0xa8304613, 0xfd469501,
    0x698098d8, 0x8b44f7af, 0xffff5bb1, 0x895cd7be, 0x6b901122, 0xfd987193, 0xa679438e, 0x49b40821,
    0xf61e2562, 0xc040b340, 0x265e5a51, 0xe9b6c7aa, 0xd62f105d, 0x02441453, 0xd8a1e681, 0xe7d3fbc8,
    0x21e1cde6, 0xc33707d6, 0xf4d50d87, 0x455a14ed, 0xa9e3e905, 0xfcefa3f8, 0x676f02d9, 0x8d2a4c8a,
    0xfffa3942, 0x8771f681, 0x6d9d6122, 0xfde5380c, 0xa4beea44, 0x4bdecfa9, 0xf6bb4b60, 0xbebfbc70,
    0x289b7ec6, 0xeaa127fa, 0xd4ef3085, 0x04881d05, 0xd9d4d039, 0xe6db99e5, 0x1fa27cf8, 0xc4ac5665,
    0xf4292244, 0x432aff97, 0xab9423a7, 0xfc93a039, 0x655b59c3, 0x8f0ccc92, 0xffeff47d, 0x85845dd1,
    0x6fa87e4f, 0xfe2ce6e0, 0xa3014314, 0x4e0811a1, 0xf7537e82, 0xbd3af235, 0x2ad7d2bb, 0xeb86d391]"

definition md5_shifts :: "nat list" where
  "md5_shifts = concat (replicate 4 [7, 12, 17, 22]) @ concat (replicate 4 [5, 9, 14, 20])
     @ concat (replicate 4 [4, 11, 16, 23]) @ concat (replicate 4 [6, 10, 15, 21])"

type_synonym md5_state = "w32 \<times> w32 \<times> w32 \<times> w32"

definition md5_mix :: "nat \<Rightarrow> w32 \<Rightarrow> w32 \<Rightarrow> w32 \<Rightarrow> w32" where
  "md5_mix i b c d =
    (if i < 16 then (b AND c) OR (NOT b AND d)
     else if i < 32 then (d AND b) OR (NOT d AND c)
     else if i < 48 then b XOR c XOR d
     else c XOR (b OR NOT d))"

definition md5_index :: "nat \<Rightarrow> nat" where
  "md5_index i = (if i < 16 then i else if i < 32 then (5 * i + 1) mod 16
     else if i < 48 then (3 * i + 5) mod 16 else (7 * i) mod 16)"

definition md5_round :: "w32 list \<Rightarrow> nat \<times> w32 \<times> nat \<Rightarrow> md5_state \<Rightarrow> md5_state" where
  "md5_round m = (\<lambda>(i, t, s) (a, b, c, d).
     (d, b + rotl s (a + md5_mix i b c d + t + m ! md5_index i), b, c))"

definition md5_block :: "md5_state \<Rightarrow> int list \<Rightarrow> md5_state" where
  "md5_block st block =
    (let m = map le_word (chunks 4 16 block);
         (a, b, c, d) = st;
         (a', b', c', d') = fold (md5_round m) (zip [0..<64] (zip md5_table md5_shifts)) st
     in (a + a', b + b', c + c', d + d'))"

definition md5_sum :: "int list \<Rightarrow> int list" where
  "md5_sum msg =
    (let padded = msg @ [128] @ zero_pad (length msg) @ le_bytes 8 (8 * int (length msg));
         (a, b, c, d) = foldl md5_block (0x67452301, 0xefcdab89, 0x98badcfe, 0x10325476)
           (chunks 64 (length padded div 64) padded)
     in concat (map (\<lambda>w. le_bytes 4 (uint w)) [a, b, c, d]))"

section \<open>SHA-256\<close>

definition sha256_table :: "w32 list" where
  "sha256_table =
   [0x428a2f98, 0x71374491, 0xb5c0fbcf, 0xe9b5dba5, 0x3956c25b, 0x59f111f1, 0x923f82a4, 0xab1c5ed5,
    0xd807aa98, 0x12835b01, 0x243185be, 0x550c7dc3, 0x72be5d74, 0x80deb1fe, 0x9bdc06a7, 0xc19bf174,
    0xe49b69c1, 0xefbe4786, 0x0fc19dc6, 0x240ca1cc, 0x2de92c6f, 0x4a7484aa, 0x5cb0a9dc, 0x76f988da,
    0x983e5152, 0xa831c66d, 0xb00327c8, 0xbf597fc7, 0xc6e00bf3, 0xd5a79147, 0x06ca6351, 0x14292967,
    0x27b70a85, 0x2e1b2138, 0x4d2c6dfc, 0x53380d13, 0x650a7354, 0x766a0abb, 0x81c2c92e, 0x92722c85,
    0xa2bfe8a1, 0xa81a664b, 0xc24b8b70, 0xc76c51a3, 0xd192e819, 0xd6990624, 0xf40e3585, 0x106aa070,
    0x19a4c116, 0x1e376c08, 0x2748774c, 0x34b0bcb5, 0x391c0cb3, 0x4ed8aa4a, 0x5b9cca4f, 0x682e6ff3,
    0x748f82ee, 0x78a5636f, 0x84c87814, 0x8cc70208, 0x90befffa, 0xa4506ceb, 0xbef9a3f7, 0xc67178f2]"

definition sha256_init :: "w32 list" where
  "sha256_init = [0x6a09e667, 0xbb67ae85, 0x3c6ef372, 0xa54ff53a, 0x510e527f, 0x9b05688c, 0x1f83d9ab, 0x5be0cd19]"

text \<open>The schedule, the latest word first.\<close>

fun sha256_extend :: "nat \<Rightarrow> w32 list \<Rightarrow> w32 list" where
  "sha256_extend 0 ws = ws"
| "sha256_extend (Suc n) ws =
    (let x = ws ! 14; y = ws ! 1;
         s0 = rotr 7 x XOR rotr 18 x XOR drop_bit 3 x;
         s1 = rotr 17 y XOR rotr 19 y XOR drop_bit 10 y
     in sha256_extend n ((ws ! 15 + s0 + ws ! 6 + s1) # ws))"

definition sha256_round :: "w32 \<times> w32 \<Rightarrow> w32 list \<Rightarrow> w32 list" where
  "sha256_round kw st =
    (case st of
       [a, b, c, d, e, f, g, h] \<Rightarrow>
         (let s1 = rotr 6 e XOR rotr 11 e XOR rotr 25 e;
              ch = (e AND f) XOR (NOT e AND g);
              t1 = h + s1 + ch + fst kw + snd kw;
              s0 = rotr 2 a XOR rotr 13 a XOR rotr 22 a;
              maj = (a AND b) XOR (a AND c) XOR (b AND c)
          in [t1 + (s0 + maj), a, b, c, d + t1, e, f, g])
     | _ \<Rightarrow> st)"

definition sha256_block :: "w32 list \<Rightarrow> int list \<Rightarrow> w32 list" where
  "sha256_block st block =
    (let ws = rev (sha256_extend 48 (rev (map be_word (chunks 4 16 block))))
     in map2 (+) st (fold sha256_round (zip sha256_table ws) st))"

definition sha256_sum :: "int list \<Rightarrow> int list" where
  "sha256_sum msg =
    (let padded = msg @ [128] @ zero_pad (length msg) @ be_bytes 8 (8 * int (length msg))
     in concat (map (\<lambda>w. be_bytes 4 (uint w))
          (foldl sha256_block sha256_init (chunks 64 (length padded div 64) padded))))"

section \<open>Digests have a fixed size\<close>

lemma length_le_bytes [simp]: "length (le_bytes k x) = k"
  by (simp add: le_bytes_def)

lemma length_be_bytes [simp]: "length (be_bytes k x) = k"
  by (simp add: be_bytes_def)

lemma le_bytes_range: "b \<in> set (le_bytes k x) \<Longrightarrow> 0 \<le> b \<and> b < 256"
  by (auto simp: le_bytes_def)

lemma be_bytes_range: "b \<in> set (be_bytes k x) \<Longrightarrow> 0 \<le> b \<and> b < 256"
  by (auto simp: be_bytes_def le_bytes_range)

lemma length_md5_sum: "length (md5_sum msg) = 16"
  by (simp add: md5_sum_def Let_def case_prod_beta)

lemma length_sha256_round: "length st = 8 \<Longrightarrow> length (sha256_round kw st) = 8"
  by (auto simp: sha256_round_def Let_def numeral_eq_Suc length_Suc_conv)

lemma length_sha256_rounds: "length st = 8 \<Longrightarrow> length (fold sha256_round kws st) = 8"
  by (induction kws arbitrary: st) (simp_all add: length_sha256_round)

lemma length_sha256_blocks: "length st = 8 \<Longrightarrow> length (foldl sha256_block st bs) = 8"
  by (induction bs arbitrary: st) (simp_all add: sha256_block_def Let_def length_sha256_rounds)

lemma length_sha256_sum: "length (sha256_sum msg) = 32"
proof -
  have "length (concat (map (\<lambda>w. be_bytes 4 (uint w)) ws)) = 4 * length ws" for ws :: "w32 list"
    by (induction ws) simp_all
  then show ?thesis
    by (simp add: sha256_sum_def Let_def length_sha256_blocks sha256_init_def)
qed

section \<open>Test vectors\<close>

lemma md5_test: "md5_sum [97, 98, 99] =
    [144, 1, 80, 152, 60, 210, 79, 176, 214, 150, 63, 125, 40, 225, 127, 114]"
  by code_simp

end
