(* ===== verification/TlsFingerprint.thy ===== *)
theory TlsFingerprint
  imports GoHash
begin

text \<open>
  The fingerprints of a TLS ClientHello (pkg/canary/tls/ja3.go and pkg/canary/tls/ja4.go): code
  points are words of 16 bits, the values that clients rotate (GREASE) are removed, and the hashes are
  those of the library.
\<close>

type_synonym u16 = "16 word"
type_synonym u8 = "8 word"

record ClientHelloFingerprint =
  ch_Version :: u16
  ch_Ciphers :: "u16 list"
  ch_Extensions :: "u16 list"
  ch_EllipticCurves :: "u16 list"
  ch_EllipticCurvePointFormats :: "u8 list"
  ch_SignatureAlgorithms :: "u16 list"
  ch_ALPN :: "string list"
  ch_SNIPresent :: bool

section \<open>JA3\<close>

definition isGREASE16 :: "u16 \<Rightarrow> bool" where
  "isGREASE16 v =
    (let hi = ucast (drop_bit 8 v) :: u8; lo = ucast v :: u8
     in hi = lo \<and> hi AND 0x0F = 0x0A)"

definition stripGreaseUint16 :: "u16 list \<Rightarrow> u16 list" where
  "stripGreaseUint16 vs = filter (\<lambda>v. \<not> isGREASE16 v) vs"

definition joinUint16 :: "u16 list \<Rightarrow> string" where
  "joinUint16 vs = (if vs = [] then [] else joined ''-'' (map (\<lambda>v. itoa (uint v)) vs))"

definition joinUint8 :: "u8 list \<Rightarrow> string" where
  "joinUint8 vs = (if vs = [] then [] else joined ''-'' (map (\<lambda>v. itoa (uint v)) vs))"

definition JA3String :: "ClientHelloFingerprint \<Rightarrow> string" where
  "JA3String f = joined '',''
    [itoa (uint (ch_Version f)), joinUint16 (stripGreaseUint16 (ch_Ciphers f)),
     joinUint16 (stripGreaseUint16 (ch_Extensions f)), joinUint16 (stripGreaseUint16 (ch_EllipticCurves f)),
     joinUint8 (ch_EllipticCurvePointFormats f)]"

definition ja3Sum :: "string \<Rightarrow> string" where
  "ja3Sum s = hex_encode (md5_sum (map byte s))"

definition zero_hello :: "ClientHelloFingerprint \<Rightarrow> bool" where
  "zero_hello f = (ch_Version f = 0 \<and> ch_Ciphers f = [] \<and> ch_Extensions f = [])"

definition JA3 :: "ClientHelloFingerprint \<Rightarrow> string" where
  "JA3 f = (if zero_hello f then [] else ja3Sum (JA3String f))"

section \<open>JA4\<close>

definition versionString :: "u16 \<Rightarrow> string" where
  "versionString v =
    (if v = 0x0304 then ''13'' else if v = 0x0303 then ''12'' else if v = 0x0302 then ''11''
     else if v = 0x0301 then ''10'' else ''00'')"

definition twoDigits :: "int \<Rightarrow> string" where
  "twoDigits n =
    (let n = (if n < 0 then 0 else n); n = (if 99 < n then 99 else n)
     in if n < 10 then ''0'' @ itoa n else itoa n)"

definition isPrintableASCII :: "char \<Rightarrow> bool" where
  "isPrintableASCII b = (0x20 \<le> byte b \<and> byte b \<le> 0x7E)"

definition firstALPN :: "string list \<Rightarrow> string" where
  "firstALPN alpn =
    (case alpn of
       [] \<Rightarrow> ''00''
     | s # _ \<Rightarrow>
         if s = [] then ''00''
         else if \<not> isPrintableASCII (hd s) \<or> \<not> isPrintableASCII (last s) then ''00''
         else [hd s, last s])"

definition commaJoinUint16 :: "u16 list \<Rightarrow> string" where
  "commaJoinUint16 vs = (if vs = [] then [] else joined '','' (map (\<lambda>v. itoa (uint v)) vs))"

definition sha256Prefix12 :: "string \<Rightarrow> string" where
  "sha256Prefix12 s =
    (if s = [] then ''000000000000'' else take 12 (hex_encode (sha256_sum (map byte s))))"

definition ja4a :: "ClientHelloFingerprint \<Rightarrow> string" where
  "ja4a f = ''t'' @ versionString (ch_Version f) @ (if ch_SNIPresent f then ''d'' else ''i'')
     @ twoDigits (int (length (stripGreaseUint16 (ch_Ciphers f))))
     @ twoDigits (int (length (stripGreaseUint16 (ch_Extensions f)))) @ firstALPN (ch_ALPN f)"

definition ja4b :: "ClientHelloFingerprint \<Rightarrow> string" where
  "ja4b f = sha256Prefix12 (commaJoinUint16 (sort (stripGreaseUint16 (ch_Ciphers f))))"

definition ja4c_input :: "ClientHelloFingerprint \<Rightarrow> string" where
  "ja4c_input f =
    (let exts = filter (\<lambda>e. \<not> (e = 0x0000 \<or> e = 0x0010)) (stripGreaseUint16 (ch_Extensions f))
     in commaJoinUint16 (sort exts) @ ''_'' @ commaJoinUint16 (stripGreaseUint16 (ch_SignatureAlgorithms f)))"

definition ja4c :: "ClientHelloFingerprint \<Rightarrow> string" where
  "ja4c f = sha256Prefix12 (ja4c_input f)"

definition JA4 :: "ClientHelloFingerprint \<Rightarrow> string" where
  "JA4 f = (if zero_hello f then [] else ja4a f @ ''_'' @ ja4b f @ ''_'' @ ja4c f)"

section \<open>GREASE\<close>

text \<open>The table of the document that reserves the values.\<close>

definition grease_table :: "u16 list" where
  "grease_table = [0x0A0A, 0x1A1A, 0x2A2A, 0x3A3A, 0x4A4A, 0x5A5A, 0x6A6A, 0x7A7A,
     0x8A8A, 0x9A9A, 0xAAAA, 0xBABA, 0xCACA, 0xDADA, 0xEAEA, 0xFAFA]"

lemma isGREASE16_uint:
  "isGREASE16 v \<longleftrightarrow> uint v div 256 = uint v mod 256 \<and> uint v mod 16 = 10"
proof -
  have b: "0 \<le> uint v" "uint v < 65536" using uint_bounded [of v] by simp_all
  have hi: "uint (ucast (drop_bit 8 v) :: u8) = uint v div 256"
  proof -
    have "uint (ucast (drop_bit 8 v) :: u8) = take_bit 8 (drop_bit 8 (uint v))"
      using take_bit_int_eq_self [of "uint v" 16] b
      by (simp add: unsigned_ucast_eq unsigned_drop_bit_eq)
    also have "\<dots> = (uint v div 256) mod 256" by (simp add: drop_bit_eq_div take_bit_eq_mod)
    also have "\<dots> = uint v div 256" using b by (intro mod_pos_pos_trivial) linarith+
    finally show ?thesis .
  qed
  have lo: "uint (ucast v :: u8) = uint v mod 256"
    by (simp add: unsigned_ucast_eq take_bit_eq_mod)
  have "w AND 0x0F = 0x0A \<longleftrightarrow> uint w mod 16 = 10" for w :: u8
  proof -
    have "uint (w AND 0x0F) = uint w AND uint (0x0F :: u8)" by (rule uint_and)
    also have "uint (0x0F :: u8) = mask 4" by (simp add: mask_eq_exp_minus_1)
    also have "uint w AND mask 4 = uint w mod 16" by (simp add: take_bit_eq_mask [symmetric] take_bit_eq_mod)
    finally have "uint (w AND 0x0F) = uint w mod 16" .
    moreover have "w AND 0x0F = 0x0A \<longleftrightarrow> uint (w AND 0x0F) = uint (0x0A :: u8)"
      by (rule word_uint_eq_iff)
    ultimately show ?thesis by simp
  qed
  then have a: "(ucast v :: u8) AND 0x0F = 0x0A \<longleftrightarrow> uint v mod 16 = 10" using lo by (simp add: mod_mod_cancel)
  show ?thesis unfolding isGREASE16_def Let_def word_uint_eq_iff [of "ucast (drop_bit 8 v) :: u8"] hi lo
    using a hi lo by (metis word_uint_eq_iff)
qed

lemma isGREASE16_table: "isGREASE16 v \<longleftrightarrow> v \<in> set grease_table"
proof -
  have b: "0 \<le> uint v" "uint v < 65536" using uint_bounded [of v] by simp_all
  have t: "v \<in> set grease_table \<longleftrightarrow> uint v \<in> set (map uint grease_table)"
    by (metis image_eqI imageE set_map word_uint_eq_iff)
  have "x div 256 = x mod 256 \<and> x mod 16 = 10 \<longleftrightarrow> (\<exists>k. 0 \<le> k \<and> k < 16 \<and> x = 4112 * k + 2570)"
    if "0 \<le> x" "x < 65536" for x :: int
  proof
    assume x: "x div 256 = x mod 256 \<and> x mod 16 = 10"
    define h where "h = x div 256"
    have h: "x = 257 * h" using x div_mult_mod_eq [of x 256] by (simp add: h_def)
    have "x = h + 16 * (16 * h)" using h by simp
    then have "h mod 16 = 10" using x by (metis mod_mult_self2)
    moreover have "0 \<le> h" "h < 256" using that h by linarith+
    ultimately have "0 \<le> h div 16 \<and> h div 16 < 16 \<and> h = 16 * (h div 16) + 10"
      using div_mult_mod_eq [of h 16] by linarith
    then show "\<exists>k. 0 \<le> k \<and> k < 16 \<and> x = 4112 * k + 2570" using h by (intro exI [of _ "h div 16"]) linarith
  next
    assume "\<exists>k. 0 \<le> k \<and> k < 16 \<and> x = 4112 * k + 2570"
    then obtain k where k: "0 \<le> k" "k < 16" "x = 4112 * k + 2570" by auto
    have d: "x = 256 * (16 * k + 10) + (16 * k + 10)" "x = 16 * (257 * k + 160) + 10" using k(3) by simp_all
    have "x div 256 = 16 * k + 10" by (rule int_div_pos_eq [OF d(1)]) (use k in simp_all)
    moreover have "x mod 256 = 16 * k + 10" by (rule int_mod_pos_eq [OF d(1)]) (use k in simp_all)
    moreover have "x mod 16 = 10" by (rule int_mod_pos_eq [OF d(2)]) simp_all
    ultimately show "x div 256 = x mod 256 \<and> x mod 16 = 10" by simp
  qed
  moreover have "(\<exists>k. 0 \<le> k \<and> k < 16 \<and> x = 4112 * k + 2570) \<longleftrightarrow> x \<in> set (map uint grease_table)" for x
  proof -
    have "map uint grease_table = map (\<lambda>k. 4112 * k + 2570) [0..15]" by code_simp
    then have "set (map uint grease_table) = (\<lambda>k. 4112 * k + 2570) ` {0..15}" by simp
    then show ?thesis by (auto simp: image_iff)
  qed
  ultimately show ?thesis using b isGREASE16_uint t by blast
qed

section \<open>The canonical string\<close>

lemma joinUint_digits:
  "set (joined [c] (map (\<lambda>v. itoa (uint v)) (vs :: 'a::len word list))) \<subseteq> {d. is_digit_byte d} \<union> {c}"
proof (induction vs)
  case (Cons v vs)
  have "set (itoa (uint v)) \<subseteq> {d. is_digit_byte d}"
    using dec_digits_digits [of "uint v"] by (auto simp: itoa_def list_all_iff)
  then show ?case using Cons by (auto simp: joined_Cons)
qed simp

lemma itoa_uint_digits: "list_all is_digit_byte (itoa (uint (v :: 'a::len word)))"
  using dec_digits_digits [of "uint v"] by (simp add: itoa_def)

text \<open>Splitting at a separator that no part has.\<close>

lemma append_sep_inject:
  assumes "c \<notin> set a" "c \<notin> set a'" "a @ c # b = a' @ c # b'"
  shows "a = a' \<and> b = b'"
proof -
  have "takeWhile (\<lambda>x. x \<noteq> c) (y @ c # z) = y" if "c \<notin> set y" for y z
    using that by (induction y) auto
  then have "a = a'" using assms by metis
  then show ?thesis using assms(3) by simp
qed

lemma append_sep_iff:
  "c \<notin> set a \<Longrightarrow> c \<notin> set a' \<Longrightarrow> a @ c # b = a' @ c # b' \<longleftrightarrow> a = a' \<and> b = b'"
  by (metis append_sep_inject)

lemma joined_inject:
  assumes "\<forall>x \<in> set xs. x \<noteq> [] \<and> c \<notin> set x" "\<forall>y \<in> set ys. y \<noteq> [] \<and> c \<notin> set y"
    "joined [c] xs = joined [c] ys"
  shows "xs = ys"
  using assms
proof (induction xs arbitrary: ys)
  case Nil
  then show ?case by (cases ys) (auto simp: joined_Cons split: if_splits)
next
  case (Cons x xs)
  obtain y ys' where ys: "ys = y # ys'" using Cons.prems by (cases ys) (auto simp: joined_Cons split: if_splits)
  have c: "c \<notin> set x" "c \<notin> set y" using Cons.prems ys by auto
  consider "xs = []" "ys' = []" | "xs \<noteq> []" "ys' \<noteq> []" | "xs = []" "ys' \<noteq> []" | "xs \<noteq> []" "ys' = []" by blast
  then show ?case
  proof cases
    case 1
    then show ?thesis using Cons.prems(3) ys by (simp add: joined_Cons)
  next
    case 2
    then have "x = y \<and> joined [c] xs = joined [c] ys'"
      using Cons.prems(3) ys append_sep_inject [OF c] by (simp add: joined_Cons)
    then show ?thesis using Cons.IH [of ys'] Cons.prems(1,2) ys by simp
  next
    case 3
    then have "x = y @ c # joined [c] ys'" using Cons.prems(3) ys by (simp add: joined_Cons)
    then show ?thesis using c by simp
  next
    case 4
    then have "y = x @ c # joined [c] xs" using Cons.prems(3) ys by (simp add: joined_Cons)
    then show ?thesis using c by simp
  qed
qed

lemma join_numbers_inject:
  assumes "\<not> is_digit_byte c"
  shows "joined [c] (map (\<lambda>v. itoa (uint v)) vs) = joined [c] (map (\<lambda>v. itoa (uint v)) ws)
    \<longleftrightarrow> vs = (ws :: 'a::len word list)"
proof
  assume j: "joined [c] (map (\<lambda>v. itoa (uint v)) vs) = joined [c] (map (\<lambda>v. itoa (uint v)) ws)"
  have "x \<noteq> [] \<and> c \<notin> set x" if "x \<in> set (map (\<lambda>v. itoa (uint v)) us)" for x and us :: "'a word list"
    using that itoa_uint_digits assms by (auto simp: list_all_iff)
  then have "map (\<lambda>v. itoa (uint v)) vs = map (\<lambda>v. itoa (uint v)) ws"
    using joined_inject [OF _ _ j] by blast
  moreover have "inj (\<lambda>v :: 'a word. itoa (uint v))" by (simp add: inj_def word_uint_eq_iff)
  ultimately show "vs = ws" by (simp add: inj_map_eq_map)
qed simp

lemma not_digits: "\<not> is_digit_byte (CHR ''-'')" "\<not> is_digit_byte (CHR '','')"
  by (code_simp, code_simp)

lemma joinUint_inject:
  "joinUint16 vs = joinUint16 ws \<longleftrightarrow> vs = ws" "joinUint8 us = joinUint8 xs \<longleftrightarrow> us = xs"
  "commaJoinUint16 vs = commaJoinUint16 ws \<longleftrightarrow> vs = ws"
proof -
  have e: "(if vs = [] then [] else joined s (map f vs)) = joined s (map f vs)" for s f and vs :: "'a list"
    by simp
  show "joinUint16 vs = joinUint16 ws \<longleftrightarrow> vs = ws"
    unfolding joinUint16_def e by (rule join_numbers_inject [OF not_digits(1)])
  show "joinUint8 us = joinUint8 xs \<longleftrightarrow> us = xs"
    unfolding joinUint8_def e by (rule join_numbers_inject [OF not_digits(1)])
  show "commaJoinUint16 vs = commaJoinUint16 ws \<longleftrightarrow> vs = ws"
    unfolding commaJoinUint16_def e by (rule join_numbers_inject [OF not_digits(2)])
qed

lemma joinUint_no_comma: "CHR '','' \<notin> set (joinUint16 vs)" "CHR '','' \<notin> set (joinUint8 us)"
  using joinUint_digits [of "CHR ''-''" vs] joinUint_digits [of "CHR ''-''" us] not_digits(2)
  by (auto simp: joinUint16_def joinUint8_def)

text \<open>C31 (roundtrip).  Nothing but GREASE is lost in the canonical JA3 string: two ClientHellos have
  the same string exactly if they agree on the version, the point formats and, once the reserved
  values are removed, on the order and content of the other three lists.  The reserved values are
  exactly the sixteen of the published table.\<close>

theorem ja3_string_canonical:
  "(JA3String f = JA3String g \<longleftrightarrow>
     ch_Version f = ch_Version g
     \<and> stripGreaseUint16 (ch_Ciphers f) = stripGreaseUint16 (ch_Ciphers g)
     \<and> stripGreaseUint16 (ch_Extensions f) = stripGreaseUint16 (ch_Extensions g)
     \<and> stripGreaseUint16 (ch_EllipticCurves f) = stripGreaseUint16 (ch_EllipticCurves g)
     \<and> ch_EllipticCurvePointFormats f = ch_EllipticCurvePointFormats g)
   \<and> stripGreaseUint16 vs = filter (\<lambda>v. v \<notin> set grease_table) vs"
proof
  have n: "CHR '','' \<notin> set (itoa (uint (v :: u16)))" for v
    using itoa_uint_digits [of v] not_digits(2) by (auto simp: list_all_iff)
  show "JA3String f = JA3String g \<longleftrightarrow>
     ch_Version f = ch_Version g
     \<and> stripGreaseUint16 (ch_Ciphers f) = stripGreaseUint16 (ch_Ciphers g)
     \<and> stripGreaseUint16 (ch_Extensions f) = stripGreaseUint16 (ch_Extensions g)
     \<and> stripGreaseUint16 (ch_EllipticCurves f) = stripGreaseUint16 (ch_EllipticCurves g)
     \<and> ch_EllipticCurvePointFormats f = ch_EllipticCurvePointFormats g"
    by (simp add: JA3String_def joined_Cons append_sep_iff n joinUint_no_comma joinUint_inject word_uint_eq_iff)
  show "stripGreaseUint16 vs = filter (\<lambda>v. v \<notin> set grease_table) vs"
    by (simp add: stripGreaseUint16_def isGREASE16_table)
qed

section \<open>JA4\<close>

lemma mset_sort_eq: "mset xs = mset ys \<Longrightarrow> sort xs = sort ys"
  by (rule properties_for_sort) simp_all

text \<open>The JA4 fingerprint does not depend on the order in which a client offers its
  ciphers and extensions, nor on the GREASE values among them or among the signature algorithms.\<close>

theorem ja4_stable:
  assumes "ch_Version f = ch_Version g" "ch_Version f \<noteq> 0" "ch_SNIPresent f = ch_SNIPresent g"
    "ch_ALPN f = ch_ALPN g"
    "mset (stripGreaseUint16 (ch_Ciphers f)) = mset (stripGreaseUint16 (ch_Ciphers g))"
    "mset (stripGreaseUint16 (ch_Extensions f)) = mset (stripGreaseUint16 (ch_Extensions g))"
    "stripGreaseUint16 (ch_SignatureAlgorithms f) = stripGreaseUint16 (ch_SignatureAlgorithms g)"
  shows "JA4 f = JA4 g"
proof -
  have "length (stripGreaseUint16 (ch_Ciphers f)) = length (stripGreaseUint16 (ch_Ciphers g))"
    "length (stripGreaseUint16 (ch_Extensions f)) = length (stripGreaseUint16 (ch_Extensions g))"
    using assms(5,6) by (metis size_mset)+
  then have a: "ja4a f = ja4a g" using assms(1,3,4) by (simp only: ja4a_def)
  have b: "ja4b f = ja4b g" using mset_sort_eq [OF assms(5)] by (simp only: ja4b_def)
  have m: "mset (filter (\<lambda>e. \<not> (e = 0x0000 \<or> e = 0x0010)) (stripGreaseUint16 (ch_Extensions f))) =
      mset (filter (\<lambda>e. \<not> (e = 0x0000 \<or> e = 0x0010)) (stripGreaseUint16 (ch_Extensions g)))"
    unfolding mset_filter assms(6) ..
  have c: "ja4c f = ja4c g"
    unfolding ja4c_def ja4c_input_def Let_def mset_sort_eq [OF m] assms(7) ..
  show ?thesis using assms(1,2) a b c by (simp add: JA4_def zero_hello_def)
qed

lemma length_twoDigits: "length (twoDigits n) = 2"
proof -
  have "length (itoa k) = (if k < 10 then 1 else 2)" if "0 \<le> k" "k \<le> 99" for k
  proof (cases "k < 10")
    case True
    then show ?thesis using that by (simp add: itoa_def dec_digits.simps [of k])
  next
    case False
    then have "k div 10 < 10" using that by simp
    then show ?thesis using that False by (simp add: itoa_def dec_digits.simps [of k] dec_digits.simps [of "k div 10"])
  qed
  then show ?thesis by (simp add: twoDigits_def Let_def)
qed

lemma length_sha256Prefix12: "length (sha256Prefix12 s) = 12"
  by (simp add: sha256Prefix12_def length_sha256_sum)

lemma length_firstALPN: "length (firstALPN a) = 2"
  by (cases a) (auto simp: firstALPN_def)

text \<open>A fingerprint that is not empty has its fixed layout: ten characters of context, two
  hashes of twelve, separated by underscores; a JA3 fingerprint has 32 characters.\<close>

theorem fingerprint_layout:
  "\<not> zero_hello f \<Longrightarrow>
   length (JA3 f) = 32 \<and>
   (\<exists>a b c. JA4 f = a @ ''_'' @ b @ ''_'' @ c \<and> length a = 10 \<and> length b = 12 \<and> length c = 12
     \<and> hd a = CHR ''t'')"
proof -
  assume "\<not> zero_hello f"
  moreover have "length (versionString v) = 2" for v by (simp add: versionString_def)
  moreover have "length (ja4a f) = 10 \<and> hd (ja4a f) = CHR ''t''"
    by (simp add: ja4a_def length_twoDigits length_firstALPN versionString_def)
  moreover have "length (ja4b f) = 12" "length (ja4c f) = 12"
    by (simp_all add: ja4b_def ja4c_def length_sha256Prefix12)
  ultimately show ?thesis
    by (intro conjI exI [of _ "ja4a f"] exI [of _ "ja4b f"] exI [of _ "ja4c f"])
      (simp_all add: JA3_def ja3Sum_def length_md5_sum JA4_def)
qed

section \<open>Instances\<close>

definition demo_hello :: ClientHelloFingerprint where
  "demo_hello = \<lparr>ch_Version = 0x0303, ch_Ciphers = [0x0A0A, 0x1301, 0x1302], ch_Extensions = [0, 16, 43, 0x2A2A],
     ch_EllipticCurves = [29, 23], ch_EllipticCurvePointFormats = [0], ch_SignatureAlgorithms = [0x0403],
     ch_ALPN = [''h2''], ch_SNIPresent = True\<rparr>"

theorem ja4_stable_witness:
  "JA4 demo_hello = JA4 (demo_hello\<lparr>ch_Ciphers := [0x1302, 0x1301, 0xFAFA], ch_Extensions := [43, 16, 0]\<rparr>)"
proof (rule ja4_stable)
  show "mset (stripGreaseUint16 (ch_Ciphers demo_hello)) =
      mset (stripGreaseUint16 (ch_Ciphers (demo_hello\<lparr>ch_Ciphers := [0x1302, 0x1301, 0xFAFA], ch_Extensions := [43, 16, 0]\<rparr>)))"
    "mset (stripGreaseUint16 (ch_Extensions demo_hello)) =
      mset (stripGreaseUint16 (ch_Extensions (demo_hello\<lparr>ch_Ciphers := [0x1302, 0x1301, 0xFAFA], ch_Extensions := [43, 16, 0]\<rparr>)))"
    by (simp_all add: stripGreaseUint16_def isGREASE16_table grease_table_def demo_hello_def)
qed (simp_all add: demo_hello_def)

theorem fingerprint_layout_witness: "length (JA3 demo_hello) = 32"
proof -
  have "\<not> zero_hello demo_hello" by (simp add: zero_hello_def demo_hello_def)
  then show ?thesis using fingerprint_layout by blast
qed

end
