(* ===== verification/AnomalyDetect.thy ===== *)
theory AnomalyDetect
  imports GoFloat "HOL-Library.Product_Lexorder"
begin

text \<open>
  The detector of package anomaly (types.go, calendar.go, holtwinters.go, stl.go and detector.go under
  pkg/anomaly).  Slices are lists, a loop over an index range is a fold over the range, and every
  operation on numbers rounds on its own.  The period of a configuration is small enough for four
  periods to be an \<open>int\<close>.  The explanation of a verdict is kept as its parts.
\<close>

section \<open>Types\<close>

type_synonym Method = string
type_synonym Severity = string

definition MethodHoltWinters :: Method where "MethodHoltWinters = ''holt_winters''"
definition MethodSeasonalDecompose :: Method where "MethodSeasonalDecompose = ''seasonal_decompose''"
definition MethodInsufficientData :: Method where "MethodInsufficientData = ''insufficient_data''"

definition SeverityNone :: Severity where "SeverityNone = ''none''"
definition SeverityWatch :: Severity where "SeverityWatch = ''watch''"
definition SeverityAnomaly :: Severity where "SeverityAnomaly = ''anomaly''"
definition SeverityCritical :: Severity where "SeverityCritical = ''critical''"

lemmas severity_defs = SeverityNone_def SeverityWatch_def SeverityAnomaly_def SeverityCritical_def

lemmas method_defs = MethodHoltWinters_def MethodSeasonalDecompose_def MethodInsufficientData_def

record Point =
  pt_At :: time
  pt_Value :: f64

record SuppressionWindow =
  sw_Start :: time
  sw_End :: time
  sw_Reason :: string

record DetectConfig =
  dc_Period :: int
  dc_Alpha :: f64
  dc_Beta :: f64
  dc_Gamma :: f64
  dc_MADThresholdWatch :: f64
  dc_MADThresholdAnomaly :: f64
  dc_MADThresholdCritical :: f64
  dc_MinSamples :: int
  dc_Calendar :: "SuppressionWindow list"

datatype reason = NoReason | BelowMinSamples int int | HoltWintersReason f64 f64 int f64
  | DecomposeReason int f64 | SuppressedReason reason string | NoSamples

record Verdict =
  vd_Method :: Method
  vd_Severity :: Severity
  vd_Suppressed :: bool
  vd_LatestPoint :: Point
  vd_Forecast :: f64
  vd_Residual :: f64
  vd_MAD :: f64
  vd_MADUnits :: f64
  vd_Reason :: reason
  vd_EvaluatedAt :: time

datatype anomaly_error = ErrEmptySeries | ErrSeriesNotSorted | ErrInvalidPeriod | ErrInsufficientData
  | AnNilDependency string | ErrVerdictNotFound | AnVerdictKey | AnNilConn | AnIdsRequired | AnWindow
  | AnUnsupportedMetric string | AnomalyDb string

definition anomaly_Defaults :: "DetectConfig \<Rightarrow> DetectConfig" where
  "anomaly_Defaults cfg =
    (let cfg = (if dc_Period cfg \<le> 1 then cfg\<lparr>dc_Period := 24\<rparr> else cfg);
         cfg = (if f64_eq (dc_Alpha cfg) 0 then cfg\<lparr>dc_Alpha := fl (3 / 10)\<rparr> else cfg);
         cfg = (if f64_eq (dc_Beta cfg) 0 then cfg\<lparr>dc_Beta := fl (1 / 10)\<rparr> else cfg);
         cfg = (if f64_eq (dc_Gamma cfg) 0 then cfg\<lparr>dc_Gamma := fl (1 / 10)\<rparr> else cfg);
         cfg = (if f64_eq (dc_MADThresholdWatch cfg) 0 then cfg\<lparr>dc_MADThresholdWatch := FFin 3\<rparr> else cfg);
         cfg = (if f64_eq (dc_MADThresholdAnomaly cfg) 0 then cfg\<lparr>dc_MADThresholdAnomaly := FFin 5\<rparr> else cfg);
         cfg = (if f64_eq (dc_MADThresholdCritical cfg) 0 then cfg\<lparr>dc_MADThresholdCritical := FFin 8\<rparr> else cfg)
     in if dc_MinSamples cfg = 0 then cfg\<lparr>dc_MinSamples := 3 * dc_Period cfg\<rparr> else cfg)"

section \<open>The calendar\<close>

text \<open>The order that \<open>sort.Slice\<close> leaves between windows of the same start is the order of the list.\<close>

definition NewCalendar :: "SuppressionWindow list \<Rightarrow> SuppressionWindow list" where
  "NewCalendar windows = sort_key sw_Start windows"

text \<open>\<open>sort.Search\<close>: bisection between \<open>i\<close> and \<open>j\<close>.\<close>

function search_loop :: "(nat \<Rightarrow> bool) \<Rightarrow> nat \<Rightarrow> nat \<Rightarrow> nat" where
  "search_loop f i j =
    (if i < j then
       (let h = (i + j) div 2 in if \<not> f h then search_loop f (h + 1) j else search_loop f i h)
     else i)"
  by pat_completeness auto
termination by (relation "measure (\<lambda>(f, i, j). j - i)") auto

declare search_loop.simps [simp del]

definition sort_Search :: "nat \<Rightarrow> (nat \<Rightarrow> bool) \<Rightarrow> nat" where
  "sort_Search n f = search_loop f 0 n"

definition Suppresses :: "SuppressionWindow list \<Rightarrow> time \<Rightarrow> bool \<times> string" where
  "Suppresses windows t =
    (if windows = [] then (False, [])
     else (let idx = sort_Search (length windows) (\<lambda>i. t < sw_Start (windows ! i))
           in if idx = 0 then (False, [])
              else if t < sw_End (windows ! (idx - 1)) then (True, sw_Reason (windows ! (idx - 1)))
              else (case find (\<lambda>w. t < sw_End w) (rev (take (idx - 1) windows)) of
                      None \<Rightarrow> (False, [])
                    | Some w \<Rightarrow> (True, sw_Reason w))))"

section \<open>Holt-Winters\<close>

definition f64_sum :: "f64 list \<Rightarrow> f64" where
  "f64_sum xs = foldl (+) 0 xs"

definition mean :: "f64 list \<Rightarrow> f64" where
  "mean xs = (if xs = [] then 0 else f64_sum xs / f64_of_int (int (length xs)))"

definition initialAdditiveSeasonals :: "f64 list \<Rightarrow> nat \<Rightarrow> f64 list" where
  "initialAdditiveSeasonals ys period =
    (let out = map (\<lambda>i. f64_sum (map (\<lambda>c. ys ! (c * period + i)) [0..<2]) / f64_of_int 2) [0..<period];
         m = mean out
     in map (\<lambda>x. x - m) out)"

definition initialTrend :: "f64 list \<Rightarrow> nat \<Rightarrow> f64" where
  "initialTrend ys period =
    f64_sum (map (\<lambda>i. (ys ! (period + i) - ys ! i) / f64_of_int (int period)) [0..<period]) / f64_of_int (int period)"

record HoltWintersFit =
  hw_InSample :: "f64 list"
  hw_NextForecast :: f64
  hw_Level :: f64
  hw_Trend :: f64
  hw_Seasonals :: "f64 list"

record hw_state =
  hs_InSample :: "f64 list"
  hs_level :: f64
  hs_trend :: f64
  hs_seasonals :: "f64 list"

definition hw_step :: "f64 list \<Rightarrow> nat \<Rightarrow> f64 \<Rightarrow> f64 \<Rightarrow> f64 \<Rightarrow> nat \<Rightarrow> hw_state \<Rightarrow> hw_state" where
  "hw_step ys period alpha beta gamma t s =
    (let season = hs_seasonals s ! (t mod period);
         fit = hs_level s + hs_trend s + season;
         yt = ys ! t;
         prevLevel = hs_level s;
         level = alpha * (yt - season) + (1 - alpha) * (hs_level s + hs_trend s);
         trend = beta * (level - prevLevel) + (1 - beta) * hs_trend s
     in \<lparr>hs_InSample = hs_InSample s @ [fit], hs_level = level, hs_trend = trend,
         hs_seasonals = (hs_seasonals s)[t mod period := gamma * (yt - level) + (1 - gamma) * season]\<rparr>)"

definition HoltWinters :: "f64 list \<Rightarrow> int \<Rightarrow> f64 \<Rightarrow> f64 \<Rightarrow> f64 \<Rightarrow> (anomaly_error, HoltWintersFit) result" where
  "HoltWinters ys period alpha beta gamma =
    (if period \<le> 1 then Inl ErrInvalidPeriod
     else if int (length ys) < 2 * period then Inl ErrInsufficientData
     else (let p = nat period; n = length ys;
               s0 = \<lparr>hs_InSample = take p ys, hs_level = mean (take p ys), hs_trend = initialTrend ys p,
                     hs_seasonals = initialAdditiveSeasonals ys p\<rparr>;
               s = fold (hw_step ys p alpha beta gamma) [p..<n] s0
           in Inr \<lparr>hw_InSample = hs_InSample s, hw_NextForecast = hs_level s + hs_trend s + hs_seasonals s ! (n mod p),
                   hw_Level = hs_level s, hw_Trend = hs_trend s, hw_Seasonals = hs_seasonals s\<rparr>))"

definition Residuals :: "HoltWintersFit \<Rightarrow> f64 list \<Rightarrow> f64 list" where
  "Residuals f ys = map (\<lambda>i. ys ! i - hw_InSample f ! i) [0..<length ys]"

section \<open>Seasonal decomposition\<close>

text \<open>The windows around \<open>i\<close> are ranges of indices: of an odd period from \<open>i - half\<close> to \<open>i + half\<close>, of an
  even one from \<open>i - half + 1\<close> to \<open>i + half\<close>.\<close>

definition centredMovingAverage :: "f64 list \<Rightarrow> nat \<Rightarrow> f64 list" where
  "centredMovingAverage ys period =
    (let n = length ys; half = period div 2
     in if odd period then
          map (\<lambda>i. if half \<le> i \<and> i < n - half
                   then f64_sum (map (\<lambda>k. ys ! k) [i - half..<i + half + 1]) / f64_of_int (int period) else 0) [0..<n]
        else
          (let periodMA = map (\<lambda>i. if half - 1 \<le> i \<and> i < n - half
                   then f64_sum (map (\<lambda>k. ys ! k) [i + 1 - half..<i + half + 1]) / f64_of_int (int period) else 0) [0..<n]
           in map (\<lambda>i. if half \<le> i \<and> i < n - half
                   then (periodMA ! (i - 1) + periodMA ! i) / f64_of_int 2 else 0) [0..<n]))"

record Decomposition =
  dm_Trend :: "f64 list"
  dm_Season :: "f64 list"
  dm_Residual :: "f64 list"
  dm_PeriodMeans :: "f64 list"

text \<open>The sum and the count of a phase collect, in order, the detrended points of the phase.\<close>

definition phase_mean :: "(nat \<Rightarrow> f64) \<Rightarrow> nat list \<Rightarrow> nat \<Rightarrow> nat \<Rightarrow> f64" where
  "phase_mean detrended idx period ph =
    (let members = filter (\<lambda>i. i mod period = ph) idx
     in if 0 < length members then f64_sum (map detrended members) / f64_of_int (int (length members)) else 0)"

definition Decompose :: "f64 list \<Rightarrow> int \<Rightarrow> (anomaly_error, Decomposition) result" where
  "Decompose ys period =
    (if period \<le> 1 then Inl ErrInvalidPeriod
     else if int (length ys) < 2 * period then Inl ErrInsufficientData
     else (let p = nat period; n = length ys; half = p div 2;
               trend = centredMovingAverage ys p;
               raw = map (phase_mean (\<lambda>i. ys ! i - trend ! i) [half..<n - half] p) [0..<p];
               m = f64_sum raw / f64_of_int period;
               periodMeans = map (\<lambda>x. x - m) raw;
               season = map (\<lambda>i. periodMeans ! (i mod p)) [0..<n];
               residual = map (\<lambda>i. if half \<le> i \<and> i < n - half then ys ! i - trend ! i - season ! i else 0) [0..<n]
           in Inr \<lparr>dm_Trend = trend, dm_Season = season, dm_Residual = residual, dm_PeriodMeans = periodMeans\<rparr>))"

text \<open>The order of \<open>sort.Float64s\<close>: what is not a number comes first.\<close>

fun f64_key :: "f64 \<Rightarrow> nat \<times> rat" where
  "f64_key FNaN = (0, 0)"
| "f64_key (FInf True) = (1, 0)"
| "f64_key (FFin r) = (2, r)"
| "f64_key (FInf False) = (3, 0)"

definition median :: "f64 list \<Rightarrow> f64" where
  "median xs =
    (let n = length xs; sorted = sort_key f64_key xs
     in if n = 0 then 0
        else if n mod 2 = 1 then sorted ! (n div 2)
        else (sorted ! (n div 2 - 1) + sorted ! (n div 2)) / f64_of_int 2)"

definition abs_dev :: "f64 \<Rightarrow> f64 \<Rightarrow> f64" where
  "abs_dev med x = (let d = x - med in if d < 0 then - d else d)"

definition MAD :: "f64 list \<Rightarrow> f64" where
  "MAD xs = (if xs = [] then 0 else median (map (abs_dev (median xs)) xs))"

section \<open>The detector\<close>

fun isSortedAsc :: "Point list \<Rightarrow> bool" where
  "isSortedAsc (a # b # s) = (if pt_At b < pt_At a then False else isSortedAsc (b # s))"
| "isSortedAsc _ = True"

definition chooseMethod :: "int \<Rightarrow> int \<Rightarrow> int \<Rightarrow> Method" where
  "chooseMethod n period minSamples =
    (if n < minSamples then MethodInsufficientData
     else if n < 2 * period then MethodInsufficientData
     else if n < 4 * period then MethodHoltWinters
     else MethodSeasonalDecompose)"

definition classifySeverity :: "f64 \<Rightarrow> DetectConfig \<Rightarrow> Severity" where
  "classifySeverity madUnits cfg =
    (if f64_is_nan madUnits \<or> f64_eq madUnits 0 then SeverityNone
     else if f64_le (dc_MADThresholdCritical cfg) madUnits then SeverityCritical
     else if f64_le (dc_MADThresholdAnomaly cfg) madUnits then SeverityAnomaly
     else if f64_le (dc_MADThresholdWatch cfg) madUnits then SeverityWatch
     else SeverityNone)"

text \<open>The two branches of the switch: the deviation, the forecast and the explanation.\<close>

definition holt_winters_part :: "f64 list \<Rightarrow> DetectConfig \<Rightarrow> (anomaly_error, f64 \<times> f64 \<times> reason) result" where
  "holt_winters_part values cfg =
    (case HoltWinters values (dc_Period cfg) (dc_Alpha cfg) (dc_Beta cfg) (dc_Gamma cfg) of
       Inl e \<Rightarrow> Inl e
     | Inr fit \<Rightarrow>
         (let n = length values; p = nat (dc_Period cfg);
              resid = map (\<lambda>i. values ! i - hw_InSample fit ! i) [p..<n]
          in Inr (MAD resid, hw_InSample fit ! (n - 1),
               HoltWintersReason (hw_Level fit) (hw_Trend fit) (int ((n - 1) mod p)) (hw_Seasonals fit ! ((n - 1) mod p)))))"

definition decompose_part :: "f64 list \<Rightarrow> DetectConfig \<Rightarrow> (anomaly_error, f64 \<times> f64 \<times> reason) result" where
  "decompose_part values cfg =
    (case Decompose values (dc_Period cfg) of
       Inl e \<Rightarrow> Inl e
     | Inr dec \<Rightarrow>
         (let n = length values; half = nat (dc_Period cfg) div 2;
              validResid = map (\<lambda>i. dm_Residual dec ! i) [half..<n - half];
              mad = MAD validResid
          in Inr (mad, dm_Trend dec ! (n - half - 1) + dm_Season dec ! (n - 1), DecomposeReason (dc_Period cfg) mad)))"

definition suppress :: "DetectConfig \<Rightarrow> Verdict \<Rightarrow> Verdict" where
  "suppress cfg v =
    (if dc_Calendar cfg = [] then v
     else (case Suppresses (NewCalendar (dc_Calendar cfg)) (pt_At (vd_LatestPoint v)) of
             (False, _) \<Rightarrow> v
           | (True, r) \<Rightarrow>
               v\<lparr>vd_Suppressed := True,
                 vd_Severity := (if vd_Severity v = SeverityAnomaly \<or> vd_Severity v = SeverityCritical
                                 then SeverityWatch else vd_Severity v),
                 vd_Reason := SuppressedReason (vd_Reason v) r\<rparr>))"

definition Detect :: "time \<Rightarrow> Point list \<Rightarrow> DetectConfig \<Rightarrow> (anomaly_error, Verdict) result" where
  "Detect now series cfg =
    (if series = [] then Inl ErrEmptySeries
     else if \<not> isSortedAsc series then Inl ErrSeriesNotSorted
     else
       (let cfg = anomaly_Defaults cfg;
            values = map pt_Value series;
            latest = last series;
            n = int (length values);
            method = chooseMethod n (dc_Period cfg) (dc_MinSamples cfg)
        in if method = MethodInsufficientData then
             Inr \<lparr>vd_Method = MethodInsufficientData, vd_Severity = SeverityNone, vd_Suppressed = False,
                  vd_LatestPoint = latest, vd_Forecast = pt_Value latest, vd_Residual = 0, vd_MAD = 0,
                  vd_MADUnits = 0, vd_Reason = BelowMinSamples n (dc_MinSamples cfg), vd_EvaluatedAt = now\<rparr>
           else
             (case (if method = MethodHoltWinters then holt_winters_part values cfg else decompose_part values cfg) of
                Inl e \<Rightarrow> Inl e
              | Inr (mad, forecast, why) \<Rightarrow>
                  (let residual = pt_Value latest - forecast;
                       units = (if 0 < mad then f64_abs residual / mad else 0)
                   in Inr (suppress cfg
                        \<lparr>vd_Method = method, vd_Severity = classifySeverity units cfg, vd_Suppressed = False,
                         vd_LatestPoint = latest, vd_Forecast = forecast, vd_Residual = residual, vd_MAD = mad,
                         vd_MADUnits = units, vd_Reason = why, vd_EvaluatedAt = now\<rparr>)))))"

section \<open>Suppression\<close>

lemma search_loop_bounds:
  assumes "i \<le> j" "j \<le> n" "\<forall>k l. k \<le> l \<and> l < n \<and> f k \<longrightarrow> f l"
    "\<forall>k<i. \<not> f k" "\<forall>k. j \<le> k \<and> k < n \<longrightarrow> f k"
  shows "search_loop f i j \<le> n \<and> (\<forall>k < n. f k \<longleftrightarrow> search_loop f i j \<le> k)"
  using assms
proof (induction f i j rule: search_loop.induct)
  case (1 f i j)
  define h where "h = (i + j) div 2"
  consider "i = j" | "i < j" "f h" | "i < j" "\<not> f h" using 1(3) by linarith
  then show ?case
  proof cases
    case 1
    have "search_loop f i j = i" using 1 by (subst search_loop.simps) simp
    moreover have "f k \<longleftrightarrow> i \<le> k" if "k < n" for k
      using "1.prems"(4,5) that \<open>i = j\<close> by (cases "i \<le> k") (simp_all add: not_le)
    ultimately show ?thesis using "1.prems"(1,2) by simp
  next
    case 2
    have h: "i \<le> h" "h < j" using 2 by (simp_all add: h_def)
    have up: "\<forall>k. h \<le> k \<and> k < n \<longrightarrow> f k" using 1(5) 2(2) by blast
    have n: "h \<le> n" "\<not> \<not> f h" using h 1(4) 2(2) by simp_all
    have "search_loop f i h \<le> n \<and> (\<forall>k < n. f k \<longleftrightarrow> search_loop f i h \<le> k)"
      by (rule 1(2) [OF 2(1) h_def n(2) h(1) n(1) 1(5,6) up])
    moreover have "search_loop f i j = search_loop f i h"
      using 2 by (subst search_loop.simps) (simp add: Let_def h_def)
    ultimately show ?thesis by simp
  next
    case 3
    have h: "h < j" using 3 by (simp add: h_def)
    have low: "\<forall>k < h + 1. \<not> f k"
    proof (intro allI impI notI)
      fix k assume "k < h + 1" "f k"
      moreover have "h < n" using h 1(4) by simp
      ultimately have "f h" using 1(5) by (metis Suc_eq_plus1 less_Suc_eq_le)
      then show False using 3(2) by simp
    qed
    have "h + 1 \<le> j" using h by simp
    then have "search_loop f (h + 1) j \<le> n \<and> (\<forall>k < n. f k \<longleftrightarrow> search_loop f (h + 1) j \<le> k)"
      by (rule 1(1) [OF 3(1) h_def 3(2) _ 1(4,5) low 1(7)])
    moreover have "search_loop f i j = search_loop f (h + 1) j"
      using 3 by (subst search_loop.simps) (simp add: Let_def h_def)
    ultimately show ?thesis by simp
  qed
qed

lemma sort_Search:
  assumes "\<forall>k l. k \<le> l \<and> l < n \<and> f k \<longrightarrow> f l"
  shows "sort_Search n f \<le> n" "k < n \<Longrightarrow> f k \<longleftrightarrow> sort_Search n f \<le> k"
proof -
  have "search_loop f 0 n \<le> n \<and> (\<forall>k < n. f k \<longleftrightarrow> search_loop f 0 n \<le> k)"
    by (rule search_loop_bounds) (use assms in auto)
  then show "sort_Search n f \<le> n" "k < n \<Longrightarrow> f k \<longleftrightarrow> sort_Search n f \<le> k"
    by (simp_all add: sort_Search_def)
qed

definition covers :: "SuppressionWindow \<Rightarrow> time \<Rightarrow> bool" where
  "covers w t = (sw_Start w \<le> t \<and> t < sw_End w)"

lemma Suppresses_sorted:
  assumes "sorted (map sw_Start ws)"
  shows "(\<exists>w \<in> set ws. covers w t) = fst (Suppresses ws t)"
    and "fst (Suppresses ws t) \<Longrightarrow> \<exists>w \<in> set ws. covers w t \<and> snd (Suppresses ws t) = sw_Reason w"
proof -
  define idx where "idx = sort_Search (length ws) (\<lambda>i. t < sw_Start (ws ! i))"
  have mono: "\<forall>k l. k \<le> l \<and> l < length ws \<and> t < sw_Start (ws ! k) \<longrightarrow> t < sw_Start (ws ! l)"
  proof (intro allI impI)
    fix k l assume a: "k \<le> l \<and> l < length ws \<and> t < sw_Start (ws ! k)"
    then have "sw_Start (ws ! k) \<le> sw_Start (ws ! l)" using sorted_nth_mono [OF assms, of k l] by simp
    then show "t < sw_Start (ws ! l)" using a by simp
  qed
  have idx: "idx \<le> length ws" "k < length ws \<Longrightarrow> t < sw_Start (ws ! k) \<longleftrightarrow> idx \<le> k" for k
    unfolding idx_def by (rule sort_Search(1) [OF mono], rule sort_Search(2) [OF mono])
  have cov: "covers w t \<longleftrightarrow> t < sw_End w" if w: "w \<in> set (take idx ws)" for w
  proof -
    obtain k where k: "k < length (take idx ws)" "take idx ws ! k = w"
      using w unfolding in_set_conv_nth by blast
    have "\<not> idx \<le> k" "k < length ws" "w = ws ! k" using k by auto
    then have "\<not> t < sw_Start w" using idx(2) [OF \<open>k < length ws\<close>] by blast
    then show ?thesis by (simp add: covers_def)
  qed
  have out: "\<not> covers w t" if w: "w \<in> set (drop idx ws)" for w
  proof -
    obtain k where k: "k < length (drop idx ws)" "drop idx ws ! k = w"
      using w unfolding in_set_conv_nth by blast
    have l: "idx + k < length ws" "w = ws ! (idx + k)" using k idx(1) by auto
    then have "t < sw_Start w" using idx(2) [OF l(1)] by simp
    then show ?thesis by (simp add: covers_def)
  qed
  have split: "(\<exists>w \<in> set ws. covers w t) \<longleftrightarrow> (\<exists>w \<in> set (take idx ws). t < sw_End w)"
    using cov out set_append [of "take idx ws" "drop idx ws"] by (metis Un_iff append_take_drop_id)
  have val: "Suppresses ws t = (case find (\<lambda>w. t < sw_End w) (rev (take idx ws)) of
      None \<Rightarrow> (False, []) | Some w \<Rightarrow> (True, sw_Reason w))"
  proof (cases "idx = 0")
    case True
    then show ?thesis by (simp add: Suppresses_def idx_def [symmetric])
  next
    case False
    then obtain k where k: "idx = Suc k" "k < length ws" using idx(1) by (cases idx) auto
    have "rev (take idx ws) = ws ! k # rev (take k ws)" using k by (simp add: take_Suc_conv_app_nth)
    moreover have "ws \<noteq> []" using k by auto
    ultimately show ?thesis using k by (simp add: Suppresses_def idx_def [symmetric])
  qed
  have found: "w \<in> set (take idx ws) \<and> t < sw_End w"
    if "find (\<lambda>w. t < sw_End w) (rev (take idx ws)) = Some w" for w
    using find_Some_set [OF that] by simp
  show "(\<exists>w \<in> set ws. covers w t) = fst (Suppresses ws t)"
  proof (cases "find (\<lambda>w. t < sw_End w) (rev (take idx ws))")
    case None
    have "\<forall>w \<in> set (take idx ws). \<not> t < sw_End w" using None by (simp add: find_None_iff)
    then show ?thesis unfolding split val None by simp
  next
    case (Some w)
    then show ?thesis unfolding split val using found [OF Some] by auto
  qed
  show "\<exists>w \<in> set ws. covers w t \<and> snd (Suppresses ws t) = sw_Reason w" if s: "fst (Suppresses ws t)"
  proof -
    obtain w where w: "find (\<lambda>w. t < sw_End w) (rev (take idx ws)) = Some w"
      using s unfolding val by (auto split: option.splits)
    have "w \<in> set ws" "covers w t" using found [OF w] cov by (auto dest: in_set_takeD)
    then show ?thesis unfolding val w by auto
  qed
qed

lemma Suppresses_calendar:
  "(fst (Suppresses (NewCalendar ws) t) \<longleftrightarrow> (\<exists>w \<in> set ws. covers w t)) \<and>
   (\<forall>r. Suppresses (NewCalendar ws) t = (True, r) \<longrightarrow> (\<exists>w \<in> set ws. covers w t \<and> r = sw_Reason w))"
proof -
  have "sorted (map sw_Start (NewCalendar ws))" by (simp add: NewCalendar_def)
  note s = Suppresses_sorted [OF this, of t]
  have "set (NewCalendar ws) = set ws" by (simp add: NewCalendar_def)
  then show ?thesis using s by auto
qed

text \<open>C18 (equivalence).  The binary search of the calendar finds a window exactly if some window, in
  whatever order they are given and however they overlap, starts at or before the time and ends
  after it, and the reason it gives is that of such a window.\<close>

theorem calendar_covers:
  "(fst (Suppresses (NewCalendar ws) t) \<longleftrightarrow> (\<exists>w \<in> set ws. covers w t)) \<and>
   (\<forall>r. Suppresses (NewCalendar ws) t = (True, r) \<longrightarrow> (\<exists>w \<in> set ws. covers w t \<and> r = sw_Reason w))"
  by (rule Suppresses_calendar)

section \<open>Verdicts\<close>

lemma isSortedAsc_sorted: "isSortedAsc s \<longleftrightarrow> sorted (map pt_At s)"
proof (induction s rule: isSortedAsc.induct)
  case (1 a b s)
  then show ?case by (auto simp: not_less)
qed simp_all

lemma Defaults_period: "2 \<le> dc_Period (anomaly_Defaults cfg)"
  by (simp add: anomaly_Defaults_def Let_def)

lemma Defaults_calendar: "dc_Calendar (anomaly_Defaults cfg) = dc_Calendar cfg"
  by (simp add: anomaly_Defaults_def Let_def)

lemma chooseMethod_cases:
  "chooseMethod n p m = MethodInsufficientData \<and> (n < m \<or> n < 2 * p)
   \<or> chooseMethod n p m = MethodHoltWinters \<and> m \<le> n \<and> 2 * p \<le> n \<and> n < 4 * p
   \<or> chooseMethod n p m = MethodSeasonalDecompose \<and> m \<le> n \<and> 2 * p \<le> n \<and> 4 * p \<le> n"
  by (simp add: chooseMethod_def)

lemma method_distinct [simp]:
  "MethodHoltWinters \<noteq> MethodInsufficientData" "MethodSeasonalDecompose \<noteq> MethodInsufficientData"
  "MethodSeasonalDecompose \<noteq> MethodHoltWinters" "MethodInsufficientData \<noteq> MethodHoltWinters"
  "MethodInsufficientData \<noteq> MethodSeasonalDecompose" "MethodHoltWinters \<noteq> MethodSeasonalDecompose"
  by (simp_all add: method_defs)

definition evaluated_part :: "f64 list \<Rightarrow> DetectConfig \<Rightarrow> Method \<Rightarrow> (anomaly_error, f64 \<times> f64 \<times> reason) result" where
  "evaluated_part values cfg m =
    (if m = MethodHoltWinters then holt_winters_part values cfg else decompose_part values cfg)"

lemma evaluated_part_Inr:
  assumes "2 \<le> dc_Period cfg" "2 * dc_Period cfg \<le> int (length values)"
  shows "\<exists>r. evaluated_part values cfg m = Inr r"
  using assms
  by (auto simp: evaluated_part_def holt_winters_part_def HoltWinters_def decompose_part_def Decompose_def Let_def)

text \<open>The verdict before the calendar.\<close>

definition raw_verdict :: "time \<Rightarrow> Point list \<Rightarrow> DetectConfig \<Rightarrow> Method \<Rightarrow> f64 \<times> f64 \<times> reason \<Rightarrow> Verdict" where
  "raw_verdict now series cfg m r =
    (case r of (mad, forecast, why) \<Rightarrow>
      (let residual = pt_Value (last series) - forecast;
           units = (if 0 < mad then f64_abs residual / mad else 0)
       in \<lparr>vd_Method = m, vd_Severity = classifySeverity units cfg, vd_Suppressed = False,
           vd_LatestPoint = last series, vd_Forecast = forecast, vd_Residual = residual, vd_MAD = mad,
           vd_MADUnits = units, vd_Reason = why, vd_EvaluatedAt = now\<rparr>))"

definition method_of :: "Point list \<Rightarrow> DetectConfig \<Rightarrow> Method" where
  "method_of series cfg = chooseMethod (int (length series)) (dc_Period (anomaly_Defaults cfg)) (dc_MinSamples (anomaly_Defaults cfg))"

lemma Detect_cases:
  assumes "series \<noteq> []" "isSortedAsc series"
  obtains (insufficient) "method_of series cfg = MethodInsufficientData"
      "Detect now series cfg = Inr \<lparr>vd_Method = MethodInsufficientData, vd_Severity = SeverityNone,
         vd_Suppressed = False, vd_LatestPoint = last series, vd_Forecast = pt_Value (last series), vd_Residual = 0,
         vd_MAD = 0, vd_MADUnits = 0,
         vd_Reason = BelowMinSamples (int (length series)) (dc_MinSamples (anomaly_Defaults cfg)), vd_EvaluatedAt = now\<rparr>"
  | (evaluated) r where "method_of series cfg = MethodHoltWinters \<or> method_of series cfg = MethodSeasonalDecompose"
      "evaluated_part (map pt_Value series) (anomaly_Defaults cfg) (method_of series cfg) = Inr r"
      "Detect now series cfg = Inr (suppress (anomaly_Defaults cfg) (raw_verdict now series (anomaly_Defaults cfg) (method_of series cfg) r))"
proof (cases "method_of series cfg = MethodInsufficientData")
  case True
  show thesis
    by (rule insufficient [OF True])
      (use assms True in \<open>simp add: Detect_def Let_def method_of_def\<close>)
next
  case False
  have m: "method_of series cfg = MethodHoltWinters \<or> method_of series cfg = MethodSeasonalDecompose"
    "2 * dc_Period (anomaly_Defaults cfg) \<le> int (length series)"
    using chooseMethod_cases [of "int (length series)" "dc_Period (anomaly_Defaults cfg)" "dc_MinSamples (anomaly_Defaults cfg)"]
      False unfolding method_of_def by auto
  obtain r where r: "evaluated_part (map pt_Value series) (anomaly_Defaults cfg) (method_of series cfg) = Inr r"
    using evaluated_part_Inr [OF Defaults_period, of cfg "map pt_Value series"] m(2) by fastforce
  have "Detect now series cfg = Inr (suppress (anomaly_Defaults cfg) (raw_verdict now series (anomaly_Defaults cfg) (method_of series cfg) r))"
    using assms False r [unfolded evaluated_part_def]
    by (cases r) (simp add: Detect_def Let_def raw_verdict_def method_of_def)
  then show thesis using evaluated m r by blast
qed

lemma Detect_outcome:
  "(case Detect now series cfg of
      Inl e \<Rightarrow> series = [] \<and> e = ErrEmptySeries
        \<or> series \<noteq> [] \<and> \<not> sorted (map pt_At series) \<and> e = ErrSeriesNotSorted
    | Inr v \<Rightarrow> series \<noteq> [] \<and> sorted (map pt_At series) \<and> vd_LatestPoint v = last series
        \<and> vd_Method v = method_of series cfg)"
proof (cases "series \<noteq> [] \<and> isSortedAsc series")
  case True
  then have ne: "series \<noteq> []" "isSortedAsc series" by simp_all
  show ?thesis
    by (rule Detect_cases [OF ne, of cfg now])
      (use ne in \<open>auto simp: isSortedAsc_sorted suppress_def raw_verdict_def Let_def split: prod.split bool.split\<close>)
next
  case False
  then show ?thesis by (auto simp: Detect_def isSortedAsc_sorted)
qed

text \<open>Detection fails exactly on an empty series and on one that is not in the order of time:
  no configuration makes one of the two models fail.\<close>

theorem detect_errors:
  "(case Detect now series cfg of
      Inl e \<Rightarrow> series = [] \<and> e = ErrEmptySeries
        \<or> series \<noteq> [] \<and> \<not> sorted (map pt_At series) \<and> e = ErrSeriesNotSorted
    | Inr v \<Rightarrow> series \<noteq> [] \<and> sorted (map pt_At series) \<and> vd_LatestPoint v = last series
        \<and> vd_Method v = method_of series cfg)"
  by (rule Detect_outcome)

text \<open>A verdict whose latest point lies in a window of the calendar is marked as suppressed
  and never more than a watch, and outside every window the severity is that of the deviation; a
  series that is too short is never marked, not even inside a window.\<close>

theorem suppression_capped:
  assumes "Detect now series cfg = Inr v"
  shows "(vd_Suppressed v \<longleftrightarrow> vd_Method v \<noteq> MethodInsufficientData \<and> (\<exists>w \<in> set (dc_Calendar cfg). covers w (pt_At (last series))))
    \<and> (vd_Suppressed v \<longrightarrow> vd_Severity v = SeverityNone \<or> vd_Severity v = SeverityWatch)
    \<and> (\<not> vd_Suppressed v \<longrightarrow> vd_Severity v = classifySeverity (vd_MADUnits v) (anomaly_Defaults cfg))"
proof -
  have ne: "series \<noteq> []" "isSortedAsc series" using assms by (auto simp: Detect_def split: if_splits)
  define cfg' where "cfg' = anomaly_Defaults cfg"
  show ?thesis
  proof (rule Detect_cases [OF ne, of cfg now], goal_cases insufficient evaluated)
    case insufficient
    then show ?thesis using assms by (auto simp: classifySeverity_def f64_eq_def zero_f64_def)
  next
    case (evaluated r)
    define raw where "raw = raw_verdict now series cfg' (method_of series cfg) r"
    have v: "v = suppress cfg' raw" using evaluated(3) assms by (simp add: raw_def cfg'_def)
    have raw: "vd_LatestPoint raw = last series" "\<not> vd_Suppressed raw"
      "vd_Severity raw = classifySeverity (vd_MADUnits raw) cfg'" "vd_Method raw \<noteq> MethodInsufficientData"
      using evaluated(1) by (auto simp: raw_def raw_verdict_def Let_def cfg'_def split: prod.splits)
    have four: "vd_Severity raw \<in> {SeverityNone, SeverityWatch, SeverityAnomaly, SeverityCritical}"
      by (simp add: raw(3) classifySeverity_def)
    note cal = Suppresses_calendar [of "dc_Calendar cfg'" "pt_At (last series)"]
    show ?thesis
    proof (cases "dc_Calendar cfg' \<noteq> [] \<and> fst (Suppresses (NewCalendar (dc_Calendar cfg')) (pt_At (last series)))")
      case True
      then have "vd_Suppressed v" "vd_Method v = vd_Method raw"
        "vd_Severity v = SeverityNone \<or> vd_Severity v = SeverityWatch"
        using four by (auto simp: v suppress_def raw(1) split: prod.splits bool.splits)
      then show ?thesis using cal True raw(4) Defaults_calendar [of cfg] by (simp add: cfg'_def)
    next
      case False
      then have "v = raw" by (auto simp: v suppress_def raw(1) split: prod.splits bool.splits)
      moreover have "\<not> (\<exists>w \<in> set (dc_Calendar cfg). covers w (pt_At (last series)))"
        using cal False Defaults_calendar [of cfg] by (auto simp: cfg'_def)
      ultimately show ?thesis using raw by (simp add: cfg'_def)
    qed
  qed
qed

lemma Detect_labels:
  assumes "Detect now series cfg = Inr v"
  shows "vd_Method v \<in> {MethodHoltWinters, MethodSeasonalDecompose, MethodInsufficientData}"
    and "vd_Severity v \<in> {SeverityNone, SeverityWatch, SeverityAnomaly, SeverityCritical}"
proof -
  have ne: "series \<noteq> []" "isSortedAsc series" using assms by (auto simp: Detect_def split: if_splits)
  have "vd_Method v \<in> {MethodHoltWinters, MethodSeasonalDecompose, MethodInsufficientData}
      \<and> vd_Severity v \<in> {SeverityNone, SeverityWatch, SeverityAnomaly, SeverityCritical}"
  proof (rule Detect_cases [OF ne, of cfg now], goal_cases insufficient evaluated)
    case insufficient
    then show ?case using assms by simp
  next
    case (evaluated r)
    have "vd_Severity w \<in> {SeverityNone, SeverityWatch, SeverityAnomaly, SeverityCritical} \<Longrightarrow>
        vd_Severity (suppress c w) \<in> {SeverityNone, SeverityWatch, SeverityAnomaly, SeverityCritical}
        \<and> vd_Method (suppress c w) = vd_Method w" for c w
      by (auto simp: suppress_def split: prod.splits bool.splits)
    moreover define raw where "raw = raw_verdict now series (anomaly_Defaults cfg) (method_of series cfg) r"
    have "vd_Severity raw \<in> {SeverityNone, SeverityWatch, SeverityAnomaly, SeverityCritical}"
      "vd_Method raw = method_of series cfg"
      by (cases r; simp add: raw_def raw_verdict_def Let_def classifySeverity_def)+
    moreover have "v = suppress (anomaly_Defaults cfg) raw" using assms evaluated(3) by (simp add: raw_def)
    ultimately show ?case using evaluated(1) by (metis insertCI)
  qed
  then show "vd_Method v \<in> {MethodHoltWinters, MethodSeasonalDecompose, MethodInsufficientData}"
    "vd_Severity v \<in> {SeverityNone, SeverityWatch, SeverityAnomaly, SeverityCritical}" by simp_all
qed

end
