(* ===== verification/AnomalyQuiet.thy ===== *)
theory AnomalyQuiet
  imports AnomalyDetect "HOL-Library.Multiset"
begin

text \<open>
  What the detector makes of a series that is zero up to its latest point, as the error rate of a test
  that has never failed: a median over the residuals that the zeros dominate.
\<close>

section \<open>Medians\<close>

lemma f64_key_inject: "f64_key x = f64_key y \<longleftrightarrow> x = y"
  by (cases x rule: f64_key.cases; cases y rule: f64_key.cases) auto

lemma length_filter_sort_key: "length (filter P (sort_key k xs)) = length (filter P xs)"
  by (metis mset_filter mset_sort size_mset)

text \<open>A value that more than half of a list has is at both middle positions of the sorted list.\<close>

lemma sorted_majority:
  assumes "sorted (map f64_key ys)" "length ys < 2 * length (filter (\<lambda>y. y = x) ys)"
    "k < length ys" "k = length ys div 2 \<or> even (length ys) \<and> k = length ys div 2 - 1"
  shows "ys ! k = x"
proof (rule ccontr)
  assume ne: "ys ! k \<noteq> x"
  define S where "S = {i. i < length ys \<and> ys ! i = x}"
  have c: "length (filter (\<lambda>y. y = x) ys) = card S" by (simp add: length_filter_conv_card S_def)
  have mono: "f64_key (ys ! i) \<le> f64_key (ys ! j)" if "i \<le> j" "j < length ys" for i j
    using sorted_nth_mono [OF assms(1), of i j] that by simp
  have key: "f64_key (ys ! k) \<noteq> f64_key x" using ne by (simp add: f64_key_inject)
  show False
  proof (cases "f64_key (ys ! k) < f64_key x")
    case True
    have "S \<subseteq> {k + 1..<length ys}"
    proof
      fix i assume i: "i \<in> S"
      then have "\<not> i \<le> k" using mono [of i k] True assms(3) by (auto simp: S_def)
      then show "i \<in> {k + 1..<length ys}" using i by (simp add: S_def)
    qed
    then have "card S \<le> length ys - (k + 1)" using card_mono [of "{k + 1..<length ys}" S] by simp
    then show False using assms(2-4) c by auto
  next
    case False
    then have less: "f64_key x < f64_key (ys ! k)" using key by simp
    have "S \<subseteq> {..<k}"
    proof
      fix i assume i: "i \<in> S"
      then have "\<not> k \<le> i" using mono [of k i] less by (auto simp: S_def)
      then show "i \<in> {..<k}" by simp
    qed
    then have "card S \<le> k" using card_mono [of "{..<k}" S] by simp
    then show False using assms(2,4) c by auto
  qed
qed

definition halves :: "f64 \<Rightarrow> bool" where
  "halves x = ((x + x) / f64_of_int 2 = x)"

lemma median_majority:
  assumes "length xs < 2 * length (filter (\<lambda>y. y = x) xs)" "halves x"
  shows "median xs = x"
proof -
  define ys where "ys = sort_key f64_key xs"
  have len: "length ys = length xs" and n0: "length xs \<noteq> 0" using assms(1) by (auto simp: ys_def)
  have s: "sorted (map f64_key ys)" "length ys < 2 * length (filter (\<lambda>y. y = x) ys)"
    using assms(1) by (simp_all add: ys_def length_filter_sort_key)
  have mid: "ys ! (length xs div 2) = x" using sorted_majority [OF s] n0 len by simp
  show ?thesis
  proof (cases "length xs mod 2 = 1")
    case True
    then show ?thesis using mid n0 by (simp add: median_def Let_def ys_def [symmetric])
  next
    case False
    then have ev: "even (length xs)" by presburger
    have "length xs div 2 - 1 < length xs" using n0 by (cases "length xs") simp_all
    then have "ys ! (length xs div 2 - 1) = x" using sorted_majority [OF s] ev n0 len by simp
    then show ?thesis
      using mid False n0 assms(2) by (simp add: median_def Let_def ys_def [symmetric] halves_def)
  qed
qed

lemma halves_0: "halves 0"
  by (simp add: halves_def f64_ops f64_of_int_exact)

lemma abs_dev_self: "abs_dev (FFin r) (FFin r) = 0"
  by (simp add: abs_dev_def f64_ops Let_def)

lemma MAD_majority:
  assumes "length xs < 2 * length (filter (\<lambda>y. y = x) xs)" "halves x" "x = FFin r"
  shows "MAD xs = 0"
proof -
  have m: "median xs = x" by (rule median_majority [OF assms(1,2)])
  have "length (filter (\<lambda>y. y = x) xs) \<le> length (filter (\<lambda>y. y = 0) (map (abs_dev x) xs))"
  proof (induction xs)
    case (Cons y ys)
    then show ?case using abs_dev_self [of r] assms(3) by auto
  qed simp
  then have "median (map (abs_dev x) xs) = 0"
    using assms(1) by (intro median_majority halves_0) simp
  moreover have "xs \<noteq> []" using assms(1) by auto
  ultimately show ?thesis by (simp add: MAD_def m)
qed

section \<open>Numbers between zero and one\<close>

text \<open>\<open>between s x\<close>: the number is finite, of the sign \<open>s\<close> and at most one in size.\<close>

definition between :: "rat \<Rightarrow> f64 \<Rightarrow> bool" where
  "between s x = ((s = 1 \<or> s = - 1) \<and> (\<exists>r. x = FFin r \<and> 0 \<le> s * r \<and> s * r \<le> 1))"

lemma fl_between:
  assumes "s = 1 \<or> s = - 1" "0 \<le> s * r" "s * r \<le> 1"
  shows "between s (fl r) \<and> halves (fl r)"
proof -
  have b: "0 \<le> s * rnd r" "s * rnd r \<le> 1"
    using assms rnd_mono [of 0 r] rnd_mono [of r 1] rnd_mono [of r 0] rnd_mono [of "- 1" r]
    by (auto simp: rnd_uminus)
  then have f: "fl r = FFin (rnd r)" using assms(1) by (intro fl_exact_bounded) auto
  obtain n k where n: "rnd r = of_int n * pow2 k" "\<bar>n\<bar> \<le> 9007199254740992" "- 1074 \<le> k"
    using rnd_form by blast
  have "rnd (2 * rnd r) = 2 * rnd r"
    by (rule rnd_exact [of _ n "k + 1"]) (use n in \<open>simp_all add: pow2_add\<close>)
  moreover have "rnd (rnd r) = rnd r" by (rule rnd_rnd)
  moreover have "\<bar>2 * rnd r\<bar> \<le> 2" using b assms(1) by auto
  ultimately have "halves (FFin (rnd r))"
    using fl_exact_bounded [of "2 * rnd r"] fl_exact_bounded [of "rnd r"] 
    by (simp add: halves_def f64_ops f64_of_int_exact)
  then show ?thesis using b assms(1) unfolding f by (auto simp: between_def)
qed

lemma between_0: "s = 1 \<or> s = - 1 \<Longrightarrow> between s 0"
  by (auto simp: between_def zero_f64_def)

lemma betweenE:
  assumes "between s x"
  obtains r where "x = FFin r" "s = 1 \<or> s = - 1" "0 \<le> s * r" "s * r \<le> 1"
  using assms by (auto simp: between_def)

lemma between_add_0:
  assumes "between s x"
  shows "between s (x + 0)" "between s (0 + x)"
  using assms fl_between by (auto elim!: betweenE simp: f64_ops)

lemma between_minus:
  assumes "between s x"
  shows "between (- s) (0 - x) \<and> halves (0 - x)"
  using assms
proof (rule betweenE)
  fix r assume r: "x = FFin r" "s = 1 \<or> s = - 1" "0 \<le> s * r" "s * r \<le> 1"
  then have "0 - x = fl (- r)" by (simp add: f64_ops)
  then show ?thesis using fl_between [of "- s" "- r"] r(2-4) by auto
qed

lemma f64_of_int_ge_1: "1 \<le> n \<Longrightarrow> f64_of_int n = FInf False \<or> (\<exists>r. f64_of_int n = FFin r \<and> 1 \<le> r)"
  using fl_mono [of 1 "of_int n"] by (cases "fl (of_int n)") (auto simp: f64_of_int_def)

lemma between_div:
  assumes "between s x" "1 \<le> n"
  shows "between s (x / f64_of_int n)"
proof -
  obtain r where r: "x = FFin r" "0 \<le> s * r" "s * r \<le> 1" "s = 1 \<or> s = - 1" using assms(1) by (auto simp: between_def)
  from f64_of_int_ge_1 [OF assms(2)] show ?thesis
  proof
    assume "f64_of_int n = FInf False"
    then show ?thesis using r between_0 [of s] by (simp add: f64_ops)
  next
    assume "\<exists>q. f64_of_int n = FFin q \<and> 1 \<le> q"
    then obtain q where q: "f64_of_int n = FFin q" "1 \<le> q" by blast
    have "0 \<le> s * (r / q)" "s * (r / q) \<le> 1"
      using r(2,3) q(2) by (simp_all add: divide_le_eq)
    then show ?thesis using fl_between [OF r(4), of "r / q"] q r(1) by (simp add: f64_ops)
  qed
qed

lemma zero_simps [simp]: "(0 :: f64) + 0 = 0" "(0 :: f64) - 0 = 0"
  by (simp_all add: f64_ops)

lemma zero_div [simp]: "1 \<le> n \<Longrightarrow> 0 / f64_of_int n = 0"
  using f64_of_int_ge_1 [of n] by (auto simp: f64_ops)

lemma zero_mult [simp]: "between 1 a \<Longrightarrow> a * 0 = 0"
  by (auto simp: between_def f64_ops)

lemma between_1_minus: "between 1 a \<Longrightarrow> between 1 (1 - a)"
  using fl_between [of 1] by (auto elim!: betweenE simp: f64_ops)

section \<open>Sums of zeros\<close>

lemma foldl_zeros: "\<forall>x \<in> set xs. x = 0 \<Longrightarrow> foldl (+) (0 :: f64) xs = 0"
  by (induction xs) auto

lemma f64_sum_zeros: "\<forall>x \<in> set xs. x = 0 \<Longrightarrow> f64_sum xs = 0"
  by (simp add: f64_sum_def foldl_zeros)

lemma foldl_between: "between s z \<Longrightarrow> \<forall>x \<in> set xs. x = 0 \<Longrightarrow> between s (foldl (+) z xs)"
  by (induction xs arbitrary: z) (simp_all add: between_add_0)

text \<open>A sum of zeros and one more number.\<close>

lemma f64_sum_between:
  assumes "between s x" "\<forall>y \<in> set xs \<union> set zs. y = 0"
  shows "between s (f64_sum (xs @ x # zs))"
  using assms foldl_between [OF between_add_0(2) [OF assms(1)], of zs] by (simp add: f64_sum_def foldl_zeros)

lemma f64_sum_between_nth:
  assumes "k < length xs" "between s (xs ! k)" "\<forall>i < length xs. i \<noteq> k \<longrightarrow> xs ! i = 0"
  shows "between s (f64_sum xs)"
proof -
  have "xs = take k xs @ xs ! k # drop (Suc k) xs" using assms(1) by (rule id_take_nth_drop)
  moreover have "\<forall>y \<in> set (take k xs) \<union> set (drop (Suc k) xs). y = 0"
    using assms(1,3) by (auto simp: in_set_conv_nth)
  ultimately show ?thesis using f64_sum_between [OF assms(2)] by metis
qed

lemma mean_zeros: "\<forall>x \<in> set xs. x = 0 \<Longrightarrow> mean xs = 0"
  by (cases xs) (simp_all add: mean_def f64_sum_zeros)

section \<open>Quiet series\<close>

definition quiet :: "f64 list \<Rightarrow> bool" where
  "quiet ys = (ys \<noteq> [] \<and> (\<forall>i < length ys - 1. ys ! i = 0) \<and> between 1 (last ys))"

text \<open>Holt-Winters stays in the state of all zeros.\<close>

definition zero_hw :: "nat \<Rightarrow> f64 list \<Rightarrow> hw_state" where
  "zero_hw p fit = \<lparr>hs_InSample = fit, hs_level = 0, hs_trend = 0, hs_seasonals = replicate p 0\<rparr>"

lemma hw_step_zero:
  assumes "ys ! t = 0" "0 < p" "between 1 a" "between 1 b" "between 1 g"
  shows "hw_step ys p a b g t (zero_hw p fit) = zero_hw p (fit @ [0])"
proof -
  have "(replicate p (0 :: f64))[t mod p := 0] = replicate p 0" using assms(2) by (simp add: list_update_same_conv)
  then show ?thesis
    using assms by (simp add: hw_step_def zero_hw_def Let_def between_1_minus)
qed

lemma hw_fold_zero:
  assumes "\<forall>t < m. ys ! t = 0" "0 < p" "between 1 a" "between 1 b" "between 1 g" "p \<le> m"
  shows "fold (hw_step ys p a b g) [p..<m] (zero_hw p fit) = zero_hw p (fit @ replicate (m - p) 0)"
  using assms(6,1)
proof (induction m rule: dec_induct)
  case (step m)
  have "[p..<Suc m] = [p..<m] @ [m]" "Suc m - p = Suc (m - p)" using step.hyps by simp_all
  then show ?case
    using step hw_step_zero [OF _ assms(2-5), of ys m] by (simp add: replicate_append_same)
qed simp

lemma quiet_take: "quiet ys \<Longrightarrow> p < length ys \<Longrightarrow> \<forall>x \<in> set (take p ys). x = 0"
  by (auto simp: quiet_def in_set_conv_nth)

lemma initial_zero:
  assumes "quiet ys" "2 \<le> p" "2 * p < length ys"
  shows "mean (take p ys) = 0" "initialTrend ys p = 0" "initialAdditiveSeasonals ys p = replicate p 0"
proof -
  have z: "ys ! i = 0" if "i < 2 * p" for i using assms(1,3) that by (simp add: quiet_def)
  show "mean (take p ys) = 0" using quiet_take [OF assms(1), of p] assms(3) by (intro mean_zeros) simp
  show "initialTrend ys p = 0"
    unfolding initialTrend_def using assms(2) z by (subst f64_sum_zeros) auto
  have o: "map (\<lambda>i. f64_sum (map (\<lambda>c. ys ! (c * p + i)) [0..<2]) / f64_of_int 2) [0..<p] = replicate p 0"
  proof (rule nth_equalityI)
    fix i assume "i < length (map (\<lambda>i. f64_sum (map (\<lambda>c. ys ! (c * p + i)) [0..<2]) / f64_of_int 2) [0..<p])"
    then have i: "i < p" by simp
    have "f64_sum (map (\<lambda>c. ys ! (c * p + i)) [0..<2]) = 0"
      using z i by (intro f64_sum_zeros) (auto simp: less_2_cases_iff numeral_2_eq_2)
    then show "map (\<lambda>i. f64_sum (map (\<lambda>c. ys ! (c * p + i)) [0..<2]) / f64_of_int 2) [0..<p] ! i = replicate p 0 ! i"
      using i by simp
  qed simp
  have "mean (replicate p 0) = 0" by (intro mean_zeros) simp
  then show "initialAdditiveSeasonals ys p = replicate p 0"
    unfolding initialAdditiveSeasonals_def o Let_def by simp
qed

lemma quiet_HoltWinters:
  assumes "quiet values" "2 \<le> dc_Period cfg" "3 * dc_Period cfg \<le> int (length values)"
    "between 1 (dc_Alpha cfg)" "between 1 (dc_Beta cfg)" "between 1 (dc_Gamma cfg)"
    "holt_winters_part values cfg = Inr (mad, forecast, why)"
  shows "mad = 0"
proof -
  define p n where "p = nat (dc_Period cfg)" and "n = length values"
  have p: "2 \<le> p" "3 * p \<le> n" using assms(2,3) by (simp_all add: p_def n_def le_nat_iff)
  define resid where "resid = map (\<lambda>i. values ! i - (take p values @ replicate (n - p) 0) ! i) [p..<n]"
  have s0: "\<lparr>hs_InSample = take p values, hs_level = mean (take p values), hs_trend = initialTrend values p,
      hs_seasonals = initialAdditiveSeasonals values p\<rparr> = zero_hw p (take p values)"
    using initial_zero [OF assms(1), of p] p by (simp add: zero_hw_def n_def)
  have zeros: "\<forall>t < n - 1. values ! t = 0" using assms(1) by (simp add: quiet_def n_def)
  have rng: "[p..<n] = [p..<n - 1] @ [n - 1]"
    using p upt_Suc_append [of p "n - 1"] by simp
  have "hs_InSample (fold (hw_step values p (dc_Alpha cfg) (dc_Beta cfg) (dc_Gamma cfg)) [p..<n]
      (zero_hw p (take p values))) = (take p values @ replicate (n - 1 - p) 0) @ [0]"
    using hw_fold_zero [OF zeros _ assms(4-6), of p "take p values"] p
    by (simp add: rng hw_step_def Let_def zero_hw_def)
  also have "\<dots> = take p values @ replicate (n - p) 0"
  proof -
    have "n - p = Suc (n - 1 - p)" using p by simp
    then show ?thesis by (simp add: replicate_append_same)
  qed
  finally have "hs_InSample (fold (hw_step values p (dc_Alpha cfg) (dc_Beta cfg) (dc_Gamma cfg)) [p..<n]
      (zero_hw p (take p values))) = take p values @ replicate (n - p) 0" .
  then have mad: "mad = MAD resid"
    using assms(7) by (auto simp: holt_winters_part_def HoltWinters_def Let_def p_def [symmetric] n_def [symmetric] s0 resid_def split: if_splits)
  have "values ! i - (take p values @ replicate (n - p) 0) ! i = 0" if "p \<le> i" "i < n - 1" for i
    using that zeros by (simp add: nth_append n_def)
  then have "\<forall>x \<in> set (map (\<lambda>i. values ! i - (take p values @ replicate (n - p) 0) ! i) [p..<n - 1]). x = 0"
    by auto
  then have "length (filter (\<lambda>x. x = 0) (map (\<lambda>i. values ! i - (take p values @ replicate (n - p) 0) ! i) [p..<n - 1])) = n - 1 - p"
    by (subst filter_True) simp_all
  then have "length resid < 2 * length (filter (\<lambda>x. x = 0) resid)"
    using p unfolding resid_def rng by simp arith
  then show ?thesis
    unfolding mad by (rule MAD_majority [OF _ halves_0]) (simp add: zero_f64_def)
qed

lemma length_filter_mono:
  "\<forall>x \<in> set xs. P x \<longrightarrow> Q x \<Longrightarrow> length (filter P xs) \<le> length (filter Q xs)"
  by (induction xs) auto

text \<open>Among consecutive indices at most every third lies in a phase of a period of three or more.\<close>

lemma phase_sparse:
  assumes "3 \<le> p"
  shows "length (filter (\<lambda>i. i mod p = r) [a..<a + 3 * k]) \<le> k"
proof (induction k)
  case (Suc k)
  define b where "b = a + 3 * k"
  have e: "a + 3 * Suc k = Suc (Suc (Suc b))" and le: "a \<le> b" by (simp_all add: b_def)
  have upt: "[a..<a + 3 * Suc k] = [a..<b] @ [b, Suc b, Suc (Suc b)]"
    unfolding e using le by simp
  have ne: "x mod p \<noteq> y mod p" if "x < y" "y < x + p" for x y :: nat
  proof
    assume "x mod p = y mod p"
    then have "p dvd y - x" using mod_eq_dvd_iff_nat [of x y p] that by simp
    then show False using that by (auto dest: dvd_imp_le)
  qed
  have "length (filter (\<lambda>i. i mod p = r) [b, Suc b, Suc (Suc b)]) \<le> 1"
    using ne [of b "Suc b"] ne [of b "Suc (Suc b)"] ne [of "Suc b" "Suc (Suc b)"] assms by auto
  then show ?case using Suc.IH unfolding upt filter_append length_append b_def by linarith
qed simp

lemma phase_majority:
  assumes "3 \<le> p" "7 \<le> N"
  shows "N < 2 * length (filter (\<lambda>i. i mod p \<noteq> r) [a..<a + N])"
proof -
  define k where "k = N div 3 + 1"
  have k: "N < 3 * k" by (simp add: k_def)
  have "[a..<a + 3 * k] = [a..<a + N] @ [a + N..<a + 3 * k]"
    using k upt_add_eq_append [of a "a + N" "3 * k - N"] by simp
  then have "length (filter (\<lambda>i. i mod p = r) [a..<a + N]) \<le> k"
    using phase_sparse [OF assms(1), of r a k] by simp
  moreover have "length (filter (\<lambda>i. i mod p = r) [a..<a + N]) + length (filter (\<lambda>i. i mod p \<noteq> r) [a..<a + N]) = N"
    using sum_length_filter_compl [of "\<lambda>i. i mod p = r" "[a..<a + N]"] by simp
  moreover have "2 * k < N" using assms(2) unfolding k_def by presburger
  ultimately show ?thesis by linarith
qed

text \<open>The trend of a quiet series is zero up to the last index where it is defined.\<close>

lemma quiet_window:
  assumes "quiet ys" "k \<le> length ys - 1"
  shows "f64_sum (map (\<lambda>i. ys ! i) [j..<k]) = 0"
  using assms by (intro f64_sum_zeros) (auto simp: quiet_def)

lemma quiet_last_window:
  assumes "quiet ys" "j < length ys"
  shows "between 1 (f64_sum (map (\<lambda>i. ys ! i) [j..<length ys]))"
proof -
  define n where "n = length ys"
  have "n = Suc (n - 1)" "j \<le> n - 1" using assms(2) by (simp_all add: n_def)
  then have "[j..<n] = [j..<n - 1] @ [n - 1]" by (metis upt_Suc_append)
  moreover have "between 1 (ys ! (n - 1))" using assms(1) last_conv_nth [of ys] by (simp add: quiet_def n_def)
  moreover have "\<forall>y \<in> set (map (\<lambda>i. ys ! i) [j..<n - 1]). y = 0" using assms(1) by (auto simp: quiet_def n_def)
  ultimately show ?thesis
    using f64_sum_between [of 1 "ys ! (n - 1)" "map (\<lambda>i. ys ! i) [j..<n - 1]" "[]"] by (simp add: n_def)
qed

lemma quiet_trend:
  assumes "quiet ys" "2 \<le> p" "2 * p \<le> length ys"
  defines "h \<equiv> p div 2"
  shows "\<And>i. h \<le> i \<Longrightarrow> i < length ys - h - 1 \<Longrightarrow> centredMovingAverage ys p ! i = 0"
    and "between 1 (centredMovingAverage ys p ! (length ys - h - 1))"
proof -
  define n where "n = length ys"
  have hp: "1 \<le> h" "2 * h \<le> p" using assms(2) by (simp_all add: h_def)
  have hn: "h \<le> n - h - 1" "n - h - 1 < n - h" "n - h - 1 + h + 1 = n"
    using hp assms(2,3) by (simp_all add: n_def)
  have pp: "1 \<le> int p" using assms(2) by simp
  show "centredMovingAverage ys p ! i = 0" if i: "h \<le> i" "i < length ys - h - 1" for i
  proof (cases "odd p")
    case True
    then show ?thesis using i pp quiet_window [OF assms(1), of "i + h + 1" "i - h"]
      by (simp add: centredMovingAverage_def Let_def h_def [symmetric])
  next
    case False
    have "f64_sum (map (\<lambda>k. ys ! k) [i + 1 - h..<i + h + 1]) = 0" "f64_sum (map (\<lambda>k. ys ! k) [i - h..<i + h]) = 0"
      using i by (intro quiet_window [OF assms(1)]; simp)+
    then show ?thesis using False i pp hp
      by (simp add: centredMovingAverage_def Let_def h_def [symmetric])
  qed
  have b: "between 1 (f64_sum (map (\<lambda>k. ys ! k) [j..<n]) / f64_of_int (int p))" if "j < n" for j
    using between_div [OF quiet_last_window [OF assms(1)] pp] that by (simp add: n_def)
  show "between 1 (centredMovingAverage ys p ! (length ys - h - 1))"
  proof (cases "odd p")
    case True
    then have "centredMovingAverage ys p ! (n - h - 1) =
        f64_sum (map (\<lambda>k. ys ! k) [n - h - 1 - h..<n]) / f64_of_int (int p)"
      using hn by (simp add: centredMovingAverage_def Let_def h_def [symmetric] n_def [symmetric])
    then show ?thesis using b [of "n - h - 1 - h"] hn by (simp add: n_def)
  next
    case False
    have z: "f64_sum (map (\<lambda>k. ys ! k) [n - h - 1 - h..<n - 1]) = 0"
      by (rule quiet_window [OF assms(1)]) (simp add: n_def)
    have e: "n - h - 1 - 1 + 1 - h = n - h - 1 - h" "n - h - 1 - 1 + h + 1 = n - 1" using hp hn assms(3) by (auto simp: n_def)
    have "centredMovingAverage ys p ! (n - h - 1) =
        (0 + f64_sum (map (\<lambda>k. ys ! k) [n - h - 1 + 1 - h..<n]) / f64_of_int (int p)) / f64_of_int 2"
      using False hp hn pp z e assms(3)
      by (auto simp: centredMovingAverage_def Let_def h_def [symmetric] n_def [symmetric])
    moreover have "n - h - 1 + 1 - h < n" using hp hn by simp
    ultimately show ?thesis
      using between_div [OF between_add_0(2) [OF b [of "n - h - 1 + 1 - h"]], of 2] by (simp add: n_def)
  qed
qed

lemma quiet_phase_means:
  assumes "quiet ys" "2 \<le> p" "2 * p \<le> length ys"
  defines "h \<equiv> p div 2"
  defines "i0 \<equiv> length ys - h - 1"
  defines "mn \<equiv> phase_mean (\<lambda>i. ys ! i - centredMovingAverage ys p ! i) [h..<length ys - h] p"
  shows "ph \<noteq> i0 mod p \<Longrightarrow> mn ph = 0" and "between (- 1) (mn (i0 mod p))"
proof -
  have hp: "1 \<le> h" "2 * h \<le> p" using assms(2) by (simp_all add: h_def)
  have i0: "h \<le> i0" "i0 < length ys - 1" "length ys - h = Suc i0" using hp assms(2,3) by (simp_all add: i0_def)
  note trend = quiet_trend [OF assms(1-3), folded h_def, folded i0_def]
  have d0: "ys ! i - centredMovingAverage ys p ! i = 0" if "h \<le> i" "i < i0" for i
    using trend(1) [OF that] assms(1) that i0 by (simp add: quiet_def)
  have d1: "between (- 1) (ys ! i0 - centredMovingAverage ys p ! i0)"
    using between_minus [OF trend(2)] assms(1) i0 by (simp add: quiet_def)
  have rng: "[h..<length ys - h] = [h..<i0] @ [i0]" using i0 by simp
  show "mn ph = 0" if "ph \<noteq> i0 mod p"
  proof -
    have "f64_sum (map (\<lambda>i. ys ! i - centredMovingAverage ys p ! i) (filter (\<lambda>i. i mod p = ph) [h..<length ys - h])) = 0"
      using d0 that by (intro f64_sum_zeros) (auto simp: rng)
    moreover have "0 < length xs \<Longrightarrow> 0 / f64_of_int (int (length xs)) = 0" for xs :: "nat list" by (rule zero_div) (simp add: Suc_le_eq)
    ultimately show ?thesis by (simp add: mn_def phase_mean_def Let_def)
  qed
  define fs where "fs = filter (\<lambda>i. i mod p = i0 mod p) [h..<i0]"
  have "between (- 1) (f64_sum (map (\<lambda>i. ys ! i - centredMovingAverage ys p ! i) fs @ (ys ! i0 - centredMovingAverage ys p ! i0) # []))"
    by (rule f64_sum_between [OF d1]) (use d0 in \<open>auto simp: fs_def\<close>)
  then have "between (- 1) (f64_sum (map (\<lambda>i. ys ! i - centredMovingAverage ys p ! i) (fs @ [i0])) / f64_of_int (int (length (fs @ [i0]))))"
    by (intro between_div) simp_all
  moreover have "filter (\<lambda>i. i mod p = i0 mod p) [h..<length ys - h] = fs @ [i0]" by (simp add: rng fs_def)
  ultimately show "between (- 1) (mn (i0 mod p))" unfolding mn_def phase_mean_def Let_def by simp
qed

lemma quiet_Decompose:
  assumes "quiet values" "3 \<le> dc_Period cfg" "4 * dc_Period cfg \<le> int (length values)"
    "decompose_part values cfg = Inr (mad, forecast, why)"
  shows "mad = 0"
proof -
  define p n h where "p = nat (dc_Period cfg)" and "n = length values" and "h = p div 2"
  define i0 where "i0 = n - h - 1"
  define trend where "trend = centredMovingAverage values p"
  define mn where "mn = phase_mean (\<lambda>i. values ! i - trend ! i) [h..<n - h] p"
  define m where "m = f64_sum (map mn [0..<p]) / f64_of_int (dc_Period cfg)"
  define residual where "residual = (\<lambda>i. values ! i - trend ! i - (mn (i mod p) - m))"
  have p: "3 \<le> p" "4 * p \<le> n" "dc_Period cfg = int p" using assms(2,3) by (simp_all add: p_def n_def le_nat_iff)
  have hp: "1 \<le> h" "2 * h \<le> p" using p by (simp_all add: h_def)
  have mad: "mad = MAD (map residual [h..<n - h])"
  proof -
    obtain dec where dec: "Decompose values (dc_Period cfg) = Inr dec"
      using assms(4) by (auto simp: decompose_part_def split: sum.splits)
    have "dm_Residual dec ! i = residual i" if "h \<le> i" "i < n - h" for i
    proof -
      have "i mod p < p" using p by simp
      then show ?thesis
        using dec that p unfolding Decompose_def Let_def p_def [symmetric]
        by (auto simp: residual_def h_def m_def mn_def trend_def n_def)
    qed
    then have e: "map residual [h..<n - h] = map (\<lambda>i. dm_Residual dec ! i) [h..<n - h]" by simp
    show ?thesis
      unfolding e using assms(4) by (simp add: decompose_part_def dec Let_def p_def h_def n_def)
  qed
  have len: "2 * p \<le> length values" "2 \<le> p" using p by (simp_all add: n_def)
  note means = quiet_phase_means [OF assms(1) len(2,1), folded h_def n_def trend_def, folded i0_def mn_def]
  note tr = quiet_trend(1) [OF assms(1) len(2,1), folded h_def n_def trend_def, folded i0_def]
  have "between (- 1) (f64_sum (map mn [0..<p]))"
    by (rule f64_sum_between_nth [of "i0 mod p"]) (use means p in auto)
  then have "between (- 1) m" unfolding m_def by (rule between_div) (use p in simp)
  then have X: "between (- 1) (0 - (0 - m))" "halves (0 - (0 - m))"
    using between_minus [of "- 1" m] between_minus [of 1 "0 - m"] by simp_all
  have res: "residual i = 0 - (0 - m)" if i: "h \<le> i" "i < n - h" "i mod p \<noteq> i0 mod p" for i
  proof -
    have "i \<noteq> i0" using i(3) by blast
    then have lt: "i < i0" "i < n - 1" using i(2) hp(1) unfolding i0_def by linarith+
    have v: "values ! i = 0" using assms(1) lt(2) unfolding quiet_def n_def by blast
    show ?thesis unfolding residual_def v tr [OF i(1) lt(1)] means(1) [OF i(3)] by simp
  qed
  have N: "n - h = h + (n - 2 * h)" "7 \<le> n - 2 * h" using p hp by simp_all
  have "n - 2 * h < 2 * length (filter (\<lambda>i. i mod p \<noteq> i0 mod p) [h..<n - h])"
    by (subst N(1)) (rule phase_majority [OF p(1) N(2)])
  also have "length (filter (\<lambda>i. i mod p \<noteq> i0 mod p) [h..<n - h]) \<le> length (filter (\<lambda>i. residual i = 0 - (0 - m)) [h..<n - h])"
    by (rule length_filter_mono) (use res in auto)
  finally have "length (map residual [h..<n - h]) < 2 * length (filter (\<lambda>y. y = 0 - (0 - m)) (map residual [h..<n - h]))"
    by (simp add: filter_map comp_def)
  moreover obtain r where "0 - (0 - m) = FFin r" using X(1) by (rule betweenE)
  ultimately show ?thesis unfolding mad using MAD_majority X(2) by blast
qed

text \<open>C40 (error).  A test that has never failed is not reported when it fails: for an error rate that was
  zero in every bucket of the window up to the latest, the deviation that both models compare with is
  zero and the verdict has severity none, however high the latest rate is.  The configuration has the
  usual number of samples, a period of three or more and smoothing factors between zero and one, as
  the default one does.\<close>

theorem first_failure_unseen:
  assumes "Detect now series cfg = Inr v"
    "\<forall>p \<in> set (butlast series). pt_Value p = 0" "between 1 (pt_Value (last series))"
    "3 \<le> dc_Period (anomaly_Defaults cfg)" "dc_MinSamples cfg = 0"
    "\<forall>x \<in> {dc_Alpha, dc_Beta, dc_Gamma}. between 1 (x (anomaly_Defaults cfg))"
  shows "vd_MAD v = 0 \<and> vd_Severity v = SeverityNone \<and>
    (3 * dc_Period (anomaly_Defaults cfg) \<le> int (length series) \<longrightarrow> vd_Method v \<noteq> MethodInsufficientData)"
proof -
  have ne: "series \<noteq> []" "isSortedAsc series" using assms(1) by (auto simp: Detect_def split: if_splits)
  define cfg' where "cfg' = anomaly_Defaults cfg"
  have min: "dc_MinSamples cfg' = 3 * dc_Period cfg'" using assms(5) by (simp add: cfg'_def anomaly_Defaults_def Let_def)
  have q: "quiet (map pt_Value series)"
  proof -
    have "map pt_Value series ! i = 0" if "i < length series - 1" for i
    proof -
      have "butlast series ! i \<in> set (butlast series)" using that by (intro nth_mem) simp
      then show ?thesis using that assms(2) by (simp add: nth_butlast)
    qed
    then show ?thesis using ne(1) assms(3) by (simp add: quiet_def last_map)
  qed
  note m = chooseMethod_cases [of "int (length series)" "dc_Period cfg'" "dc_MinSamples cfg'"]
  show ?thesis
  proof (rule Detect_cases [OF ne, of cfg now], goal_cases insufficient evaluated)
    case insufficient
    then show ?thesis using assms(1,4) m min by (auto simp: method_of_def cfg'_def)
  next
    case (evaluated r)
    obtain mad forecast why where r: "r = (mad, forecast, why)" by (cases r)
    have "mad = 0"
    proof (cases "method_of series cfg = MethodHoltWinters")
      case True
      then show ?thesis
        using evaluated(2) m min assms(4,6)
        by (intro quiet_HoltWinters [OF q, of cfg' mad forecast why])
          (auto simp: evaluated_part_def r method_of_def cfg'_def)
    next
      case False
      then show ?thesis
        using evaluated m min assms(4)
        by (intro quiet_Decompose [OF q, of cfg' mad forecast why])
          (auto simp: evaluated_part_def r method_of_def cfg'_def)
    qed
    then have "v = suppress cfg' (raw_verdict now series cfg' (method_of series cfg) (0, forecast, why))"
      using evaluated(3) assms(1) by (simp add: r cfg'_def)
    then show ?thesis using evaluated(1)
      by (auto simp: suppress_def raw_verdict_def Let_def classifySeverity_def f64_ops f64_eq_def severity_defs
          split: prod.splits bool.splits)
  qed
qed

section \<open>Instances\<close>

definition zero_config :: "SuppressionWindow list \<Rightarrow> DetectConfig" where
  "zero_config windows = \<lparr>dc_Period = 0, dc_Alpha = 0, dc_Beta = 0, dc_Gamma = 0, dc_MADThresholdWatch = 0,
     dc_MADThresholdAnomaly = 0, dc_MADThresholdCritical = 0, dc_MinSamples = 0, dc_Calendar = windows\<rparr>"

definition outage :: "Point list" where
  "outage = replicate 167 \<lparr>pt_At = 5, pt_Value = 0\<rparr> @ [\<lparr>pt_At = 6, pt_Value = 1\<rparr>]"

lemma outage_facts:
  "outage \<noteq> []" "sorted (map pt_At outage)" "length outage = 168" "last outage = \<lparr>pt_At = 6, pt_Value = 1\<rparr>"
  "butlast outage = replicate 167 \<lparr>pt_At = 5, pt_Value = 0\<rparr>"
  by (simp_all add: outage_def sorted_append)

lemma outage_verdict: "\<exists>v. Detect 9 outage (zero_config ws) = Inr v"
  using Detect_outcome [where now = 9 and series = outage and cfg = "zero_config ws"] outage_facts(1,2) by (auto split: sum.splits)

lemma zero_config_defaults:
  "dc_Period (anomaly_Defaults (zero_config ws)) = 24" "dc_MinSamples (anomaly_Defaults (zero_config ws)) = 72"
  "dc_Alpha (anomaly_Defaults (zero_config ws)) = fl (3 / 10)"
  "dc_Beta (anomaly_Defaults (zero_config ws)) = fl (1 / 10)"
  "dc_Gamma (anomaly_Defaults (zero_config ws)) = fl (1 / 10)"
  by (simp_all add: anomaly_Defaults_def zero_config_def Let_def f64_eq_def f64_ops)

theorem first_failure_unseen_witness:
  "\<exists>v. Detect 9 outage (zero_config []) = Inr v \<and> vd_Severity v = SeverityNone \<and> vd_Method v \<noteq> MethodInsufficientData"
proof -
  obtain v where v: "Detect 9 outage (zero_config []) = Inr v" using outage_verdict by blast
  have "vd_MAD v = 0 \<and> vd_Severity v = SeverityNone \<and>
    (3 * dc_Period (anomaly_Defaults (zero_config [])) \<le> int (length outage) \<longrightarrow> vd_Method v \<noteq> MethodInsufficientData)"
  proof (rule first_failure_unseen [OF v])
    show "\<forall>p \<in> set (butlast outage). pt_Value p = 0" by (simp add: outage_facts)
    show "between 1 (pt_Value (last outage))" by (simp add: outage_facts between_def f64_ops)
    show "\<forall>x \<in> {dc_Alpha, dc_Beta, dc_Gamma}. between 1 (x (anomaly_Defaults (zero_config [])))"
      using fl_between [of 1 "3 / 10"] fl_between [of 1 "1 / 10"] by (simp add: zero_config_defaults)
    show "3 \<le> dc_Period (anomaly_Defaults (zero_config []))" by (simp add: zero_config_defaults)
    show "dc_MinSamples (zero_config []) = 0" by (simp add: zero_config_def)
  qed
  then show ?thesis using v by (auto simp: zero_config_defaults outage_facts)
qed

theorem suppression_capped_witness:
  "\<exists>v. Detect 9 outage (zero_config [\<lparr>sw_Start = 2, sw_End = 8, sw_Reason = ''upgrade''\<rparr>]) = Inr v \<and> vd_Suppressed v"
proof -
  define ws where "ws = [\<lparr>sw_Start = 2, sw_End = 8, sw_Reason = ''upgrade''\<rparr>]"
  obtain v where v: "Detect 9 outage (zero_config ws) = Inr v" using outage_verdict by blast
  have "vd_Method v = method_of outage (zero_config ws)" using Detect_outcome [where now = 9 and series = outage and cfg = "zero_config ws"] by (simp add: v)
  moreover have "method_of outage (zero_config ws) = MethodSeasonalDecompose"
    by (simp add: method_of_def zero_config_defaults outage_facts chooseMethod_def)
  moreover have "\<exists>w \<in> set (dc_Calendar (zero_config ws)). covers w (pt_At (last outage))"
    by (simp add: zero_config_def ws_def covers_def outage_facts)
  ultimately have "vd_Suppressed v" using suppression_capped [OF v] by simp
  then show ?thesis using v unfolding ws_def by blast
qed

theorem calendar_covers_witness:
  "Suppresses (NewCalendar [\<lparr>sw_Start = 3, sw_End = 4, sw_Reason = ''b''\<rparr>, \<lparr>sw_Start = 1, sw_End = 9, sw_Reason = ''a''\<rparr>]) 5
    = (True, ''a'')"
proof -
  define ws :: "SuppressionWindow list" where
    "ws = [\<lparr>sw_Start = 3, sw_End = 4, sw_Reason = ''b''\<rparr>, \<lparr>sw_Start = 1, sw_End = 9, sw_Reason = ''a''\<rparr>]"
  have "fst (Suppresses (NewCalendar ws) 5)" using calendar_covers [of ws 5] by (simp add: ws_def covers_def)
  then obtain r where r: "Suppresses (NewCalendar ws) 5 = (True, r)" by (cases "Suppresses (NewCalendar ws) 5") simp
  then have "r = ''a''" using calendar_covers [of ws 5] by (auto simp: ws_def covers_def)
  then show ?thesis using r by (simp add: ws_def)
qed

end
