(* ===== verification/Http.thy ===== *)
theory Http
  imports TenantTable AuthStore
begin

text \<open>
  What the handlers of pkg/api share: the replies, the user that \<open>middleware.Authenticate\<close> attached to
  the request and the checks that every handler starts with.  A JSON body arrives decoded; \<open>None\<close> is
  one that does not decode.  \<open>Failed\<close> is a plain-text error with the detail of an error appended.
\<close>

datatype ('e, 'a) reply = Json int 'a | Empty int | Plain int string | Failed int string 'e

fun reply_status :: "('e, 'a) reply \<Rightarrow> int" where
  "reply_status (Json c _) = c"
| "reply_status (Empty c) = c"
| "reply_status (Plain c _) = c"
| "reply_status (Failed c _ _) = c"

definition with_user :: "'u option \<Rightarrow> ('u \<Rightarrow> ('e, 'a) reply) \<Rightarrow> ('e, 'a) reply" where
  "with_user u k = (case u of None \<Rightarrow> Plain 401 ''unauthorized'' | Some u \<Rightarrow> k u)"

text \<open>The same for handlers that change a state.\<close>

definition with_user_st :: "'u option \<Rightarrow> ('u \<Rightarrow> 's \<Rightarrow> ('e, 'a) reply \<times> 's) \<Rightarrow> 's \<Rightarrow> ('e, 'a) reply \<times> 's" where
  "with_user_st u k s = (case u of None \<Rightarrow> (Plain 401 ''unauthorized'', s) | Some u \<Rightarrow> k u s)"

definition with_id :: "string \<Rightarrow> ('e, 'a) reply \<Rightarrow> ('e, 'a) reply" where
  "with_id i r = (if i = [] then Plain 400 ''id required'' else r)"

definition with_id_st :: "string \<Rightarrow> ('s \<Rightarrow> ('e, 'a) reply \<times> 's) \<Rightarrow> 's \<Rightarrow> ('e, 'a) reply \<times> 's" where
  "with_id_st i k s = (if i = [] then (Plain 400 ''id required'', s) else k s)"

definition with_body :: "'b option \<Rightarrow> ('b \<Rightarrow> 's \<Rightarrow> ('e, 'a) reply \<times> 's) \<Rightarrow> 's \<Rightarrow> ('e, 'a) reply \<times> 's" where
  "with_body b k s = (case b of None \<Rightarrow> (Plain 400 ''invalid JSON body'', s) | Some b \<Rightarrow> k b s)"

lemmas http_defs = with_user_def with_user_st_def with_id_def with_id_st_def with_body_def

lemma with_user_st_snd:
  "(\<And>v. u = Some v \<Longrightarrow> P (snd (k v s))) \<Longrightarrow> P s \<Longrightarrow> P (snd (with_user_st u k s))"
  by (cases u) (auto simp: with_user_st_def)

lemma with_id_st_snd: "P (snd (k s)) \<Longrightarrow> P s \<Longrightarrow> P (snd (with_id_st i k s))"
  by (auto simp: with_id_st_def)

lemma with_body_snd: "(\<And>v. P (snd (k v s))) \<Longrightarrow> P s \<Longrightarrow> P (snd (with_body b k s))"
  by (cases b) (auto simp: with_body_def)

end
