(* ===== verification/Catalog.thy ===== *)
theory Catalog
  imports Http SloTypes
begin

text \<open>
  The catalogs of tests and of POPs: the handlers of pkg/api/tests.go and pkg/api/pops.go with the
  statements they run on the tables of pkg/store/postgres/migrations.  \<open>flt\<close> says whether the database
  fails a statement for a reason other than the primary key, \<open>created\<close> is its clock, \<open>entropy\<close> the
  bytes of the random source.  A configuration is the decoded JSON object, \<open>None\<close> for a missing one;
  what JSON decoded, JSON encodes, so that encoding it never fails.
\<close>

section \<open>Tests\<close>

record testRequest =
  tq_Kind :: string
  tq_Target :: string
  tq_IntervalMS :: int
  tq_TimeoutMS :: int
  tq_Enabled :: "bool option"
  tq_Config :: "(string \<times> json_any) list option"

text \<open>A row of the table, which is also the response.\<close>

record testResponse =
  ts_ID :: string
  ts_TenantID :: string
  ts_Kind :: string
  ts_Target :: string
  ts_IntervalMS :: int
  ts_TimeoutMS :: int
  ts_Enabled :: bool
  ts_Config :: "(string \<times> json_any) list option"
  ts_CreatedAt :: time

type_synonym tests_db = "testResponse list"

definition validKind :: "string \<Rightarrow> bool" where
  "validKind s = (s = ''dns'' \<or> s = ''http'' \<or> s = ''tls'')"

definition api_newPrefixedID :: "string \<Rightarrow> int list option \<Rightarrow> string option" where
  "api_newPrefixedID pre entropy = map_option (\<lambda>buf. pre @ ''-'' @ hex_encode buf) entropy"

definition ts_hit :: "string \<Rightarrow> string \<Rightarrow> testResponse \<Rightarrow> bool" where
  "ts_hit tenant i t = (ts_TenantID t = tenant \<and> ts_ID t = i)"

definition listTestsHandler :: "bool \<Rightarrow> nat option \<Rightarrow> User option \<Rightarrow> tests_db \<Rightarrow> (string, testResponse list) reply" where
  "listTestsHandler flt broken user db = with_user user (\<lambda>u.
    if flt then Failed 500 ''list tests: '' ''query''
    else Json 200 (received broken
      (sort_key (\<lambda>t. - ts_CreatedAt t) (filter (\<lambda>t. ts_TenantID t = u_TenantID u) db))))"

definition createTestHandler :: "bool \<Rightarrow> time \<Rightarrow> int list option \<Rightarrow> User option \<Rightarrow> testRequest option \<Rightarrow> tests_db \<Rightarrow>
    (string, testResponse) reply \<times> tests_db" where
  "createTestHandler flt created entropy user body = with_user_st user (\<lambda>u. with_body body (\<lambda>req db.
    if \<not> validKind (tq_Kind req) then (Plain 400 ''kind must be dns, http, or tls'', db)
    else if trim_space (tq_Target req) = [] then (Plain 400 ''target is required'', db)
    else
      (let interval = (if tq_IntervalMS req \<le> 0 then 30000 else tq_IntervalMS req);
           timeout = (if tq_TimeoutMS req \<le> 0 then 5000 else tq_TimeoutMS req);
           enabled = (case tq_Enabled req of None \<Rightarrow> True | Some e \<Rightarrow> e)
       in case api_newPrefixedID ''tst'' entropy of
            None \<Rightarrow> (Failed 500 ''id gen: '' ''rand'', db)
          | Some i \<Rightarrow>
              if flt \<or> i \<in> set (map ts_ID db) then (Failed 500 ''create test: '' ''insert'', db)
              else (let t = \<lparr>ts_ID = i, ts_TenantID = u_TenantID u, ts_Kind = tq_Kind req, ts_Target = tq_Target req,
                      ts_IntervalMS = interval, ts_TimeoutMS = timeout, ts_Enabled = enabled,
                      ts_Config = tq_Config req, ts_CreatedAt = created\<rparr>
                    in (Json 201 t, db @ [t])))))"

text \<open>\<open>Inr None\<close> is \<open>pgx.ErrNoRows\<close>.\<close>

definition loadTest :: "bool \<Rightarrow> string \<Rightarrow> string \<Rightarrow> tests_db \<Rightarrow> (string, testResponse option) result" where
  "loadTest flt tenant i db = (if flt then Inl ''query'' else Inr (find (ts_hit tenant i) db))"

definition getTestHandler :: "bool \<Rightarrow> User option \<Rightarrow> string \<Rightarrow> tests_db \<Rightarrow> (string, testResponse) reply" where
  "getTestHandler flt user i db = with_user user (\<lambda>u. with_id i
    (case loadTest flt (u_TenantID u) i db of
       Inr None \<Rightarrow> Plain 404 ''not found''
     | Inl e \<Rightarrow> Failed 500 ''get test: '' e
     | Inr (Some t) \<Rightarrow> Json 200 t))"

definition deleteTestHandler :: "bool \<Rightarrow> User option \<Rightarrow> string \<Rightarrow> tests_db \<Rightarrow> (string, unit) reply \<times> tests_db" where
  "deleteTestHandler flt user i = with_user_st user (\<lambda>u. with_id_st i (\<lambda>db.
    if flt then (Failed 500 ''delete test: '' ''exec'', db)
    else if \<not> list_ex (ts_hit (u_TenantID u) i) db then (Plain 404 ''not found'', db)
    else (Empty 204, filter (\<lambda>t. \<not> ts_hit (u_TenantID u) i t) db)))"

section \<open>POPs\<close>

record popRequest =
  pq_ID :: string
  pq_Name :: string
  pq_Description :: string
  pq_Region :: string
  pq_HealthURL :: string

record popResponse =
  pp_ID :: string
  pp_TenantID :: string
  pp_Name :: string
  pp_Description :: string
  pp_Region :: string
  pp_HealthURL :: string
  pp_CreatedAt :: time

type_synonym pops_db = "popResponse list"

definition pp_hit :: "string \<Rightarrow> string \<Rightarrow> popResponse \<Rightarrow> bool" where
  "pp_hit tenant i p = (pp_TenantID p = tenant \<and> pp_ID p = i)"

text \<open>The order of text is that of its bytes.\<close>

definition listPopsHandler :: "bool \<Rightarrow> nat option \<Rightarrow> User option \<Rightarrow> pops_db \<Rightarrow> (string, popResponse list) reply" where
  "listPopsHandler flt broken user db = with_user user (\<lambda>u.
    if flt then Failed 500 ''list pops: '' ''query''
    else Json 200 (received broken
      (sort_key (\<lambda>p. map byte (pp_ID p)) (filter (\<lambda>p. pp_TenantID p = u_TenantID u) db))))"

definition createPopHandler :: "bool \<Rightarrow> time \<Rightarrow> User option \<Rightarrow> popRequest option \<Rightarrow> pops_db \<Rightarrow>
    (string, popResponse) reply \<times> pops_db" where
  "createPopHandler flt created user body = with_user_st user (\<lambda>u. with_body body (\<lambda>req db.
    if \<not> has_prefix (pq_ID req) ''pop-'' then (Plain 400 ''id must start with pop-'', db)
    else if trim_space (pq_Name req) = [] then (Plain 400 ''name is required'', db)
    else if flt \<or> pq_ID req \<in> set (map pp_ID db) then (Failed 500 ''create pop: '' ''insert'', db)
    else (let p = \<lparr>pp_ID = pq_ID req, pp_TenantID = u_TenantID u, pp_Name = pq_Name req,
            pp_Description = pq_Description req, pp_Region = pq_Region req, pp_HealthURL = pq_HealthURL req,
            pp_CreatedAt = created\<rparr>
          in (Json 201 p, db @ [p]))))"

definition getPopHandler :: "bool \<Rightarrow> User option \<Rightarrow> string \<Rightarrow> pops_db \<Rightarrow> (string, popResponse) reply" where
  "getPopHandler flt user i db = with_user user (\<lambda>u. with_id i
    (if flt then Failed 500 ''get pop: '' ''query''
     else (case find (pp_hit (u_TenantID u) i) db of
             None \<Rightarrow> Plain 404 ''not found''
           | Some p \<Rightarrow> Json 200 p)))"

definition deletePopHandler :: "bool \<Rightarrow> User option \<Rightarrow> string \<Rightarrow> pops_db \<Rightarrow> (string, unit) reply \<times> pops_db" where
  "deletePopHandler flt user i = with_user_st user (\<lambda>u. with_id_st i (\<lambda>db.
    if flt then (Failed 500 ''delete pop: '' ''exec'', db)
    else if \<not> list_ex (pp_hit (u_TenantID u) i) db then (Plain 404 ''not found'', db)
    else (Empty 204, filter (\<lambda>p. \<not> pp_hit (u_TenantID u) i p) db)))"

section \<open>What the handlers do to a table\<close>

datatype ts_op = ToCreate bool time "int list option" "testRequest option" | ToDelete bool string

fun ts_apply :: "User \<Rightarrow> ts_op \<Rightarrow> tests_db \<Rightarrow> tests_db" where
  "ts_apply u (ToCreate flt created entropy body) db = snd (createTestHandler flt created entropy (Some u) body db)"
| "ts_apply u (ToDelete flt i) db = snd (deleteTestHandler flt (Some u) i db)"

definition ts_ok :: "tests_db \<Rightarrow> bool" where
  "ts_ok db = (distinct (map ts_ID db) \<and> list_all (\<lambda>t. validKind (ts_Kind t) \<and> trim_space (ts_Target t) \<noteq> []
     \<and> 0 < ts_IntervalMS t \<and> 0 < ts_TimeoutMS t) db)"

lemma ts_apply_cases:
  obtains (same) "ts_apply u oper db = db"
  | (add) t where "ts_apply u oper db = db @ [t]" "ts_TenantID t = u_TenantID u" "ts_ID t \<notin> set (map ts_ID db)"
      "validKind (ts_Kind t)" "trim_space (ts_Target t) \<noteq> []" "0 < ts_IntervalMS t" "0 < ts_TimeoutMS t"
  | (drop) i where "ts_apply u oper db = filter (\<lambda>t. \<not> ts_hit (u_TenantID u) i t) db"
proof (cases oper)
  case (ToCreate flt created entropy body)
  have "ts_apply u oper db = db \<or> (\<exists>t. ts_apply u oper db = db @ [t] \<and> ts_TenantID t = u_TenantID u
      \<and> ts_ID t \<notin> set (map ts_ID db) \<and> validKind (ts_Kind t) \<and> trim_space (ts_Target t) \<noteq> []
      \<and> 0 < ts_IntervalMS t \<and> 0 < ts_TimeoutMS t)"
    unfolding ToCreate by (auto simp: createTestHandler_def http_defs Let_def split: option.split)
  then show thesis using same add by blast
next
  case (ToDelete flt i)
  have "ts_apply u oper db = db \<or> ts_apply u oper db = filter (\<lambda>t. \<not> ts_hit (u_TenantID u) i t) db"
    unfolding ToDelete by (simp add: deleteTestHandler_def http_defs)
  then show thesis using same drop by blast
qed

definition ts_lookup :: "string \<Rightarrow> string \<Rightarrow> tests_db \<Rightarrow> testResponse option" where
  "ts_lookup tn i db = find (ts_hit tn i) db"

lemma ts_lookup_other: "tn \<noteq> u_TenantID u \<Longrightarrow> ts_lookup tn i (ts_apply u oper db) = ts_lookup tn i db"
  by (cases rule: ts_apply_cases [of u oper db])
    (auto simp: ts_lookup_def ts_hit_def intro!: find_append_untouched find_filter_untouched)

lemma ts_apply_ok: "ts_ok db \<Longrightarrow> ts_ok (ts_apply u oper db)"
  by (cases rule: ts_apply_cases [of u oper db]) (auto simp: ts_ok_def distinct_map inj_on_def list_all_iff)

definition ts_modify :: "string \<Rightarrow> User \<times> ts_op \<Rightarrow> tests_db \<Rightarrow> tests_db" where
  "ts_modify tn x db = ts_apply ((fst x)\<lparr>u_TenantID := tn\<rparr>) (snd x) db"

interpretation ts: tenant_table ts_lookup ts_modify ts_ok
  by unfold_locales (simp_all add: ts_lookup_other ts_apply_ok ts_modify_def)

datatype pp_op = PoCreate bool time "popRequest option" | PoDelete bool string

fun pp_apply :: "User \<Rightarrow> pp_op \<Rightarrow> pops_db \<Rightarrow> pops_db" where
  "pp_apply u (PoCreate flt created body) db = snd (createPopHandler flt created (Some u) body db)"
| "pp_apply u (PoDelete flt i) db = snd (deletePopHandler flt (Some u) i db)"

definition pp_ok :: "pops_db \<Rightarrow> bool" where
  "pp_ok db = (distinct (map pp_ID db) \<and> list_all (\<lambda>p. has_prefix (pp_ID p) ''pop-'' \<and> trim_space (pp_Name p) \<noteq> []) db)"

lemma pp_apply_cases:
  obtains (same) "pp_apply u oper db = db"
  | (add) p where "pp_apply u oper db = db @ [p]" "pp_TenantID p = u_TenantID u" "pp_ID p \<notin> set (map pp_ID db)"
      "has_prefix (pp_ID p) ''pop-''" "trim_space (pp_Name p) \<noteq> []"
  | (drop) i where "pp_apply u oper db = filter (\<lambda>p. \<not> pp_hit (u_TenantID u) i p) db"
proof (cases oper)
  case (PoCreate flt created body)
  have "pp_apply u oper db = db \<or> (\<exists>p. pp_apply u oper db = db @ [p] \<and> pp_TenantID p = u_TenantID u
      \<and> pp_ID p \<notin> set (map pp_ID db) \<and> has_prefix (pp_ID p) ''pop-'' \<and> trim_space (pp_Name p) \<noteq> [])"
    unfolding PoCreate by (auto simp: createPopHandler_def http_defs Let_def split: option.split)
  then show thesis using same add by blast
next
  case (PoDelete flt i)
  have "pp_apply u oper db = db \<or> pp_apply u oper db = filter (\<lambda>p. \<not> pp_hit (u_TenantID u) i p) db"
    unfolding PoDelete by (simp add: deletePopHandler_def http_defs)
  then show thesis using same drop by blast
qed

definition pp_lookup :: "string \<Rightarrow> string \<Rightarrow> pops_db \<Rightarrow> popResponse option" where
  "pp_lookup tn i db = find (pp_hit tn i) db"

lemma pp_lookup_other: "tn \<noteq> u_TenantID u \<Longrightarrow> pp_lookup tn i (pp_apply u oper db) = pp_lookup tn i db"
  by (cases rule: pp_apply_cases [of u oper db])
    (auto simp: pp_lookup_def pp_hit_def intro!: find_append_untouched find_filter_untouched)

lemma pp_apply_ok: "pp_ok db \<Longrightarrow> pp_ok (pp_apply u oper db)"
  by (cases rule: pp_apply_cases [of u oper db]) (auto simp: pp_ok_def distinct_map inj_on_def list_all_iff)

definition pp_modify :: "string \<Rightarrow> User \<times> pp_op \<Rightarrow> pops_db \<Rightarrow> pops_db" where
  "pp_modify tn x db = pp_apply ((fst x)\<lparr>u_TenantID := tn\<rparr>) (snd x) db"

interpretation pp: tenant_table pp_lookup pp_modify pp_ok
  by unfold_locales (simp_all add: pp_lookup_other pp_apply_ok pp_modify_def)

end
