(* ===== verification/Workspaces.thy ===== *)
theory Workspaces
  imports TenantTable
begin

text \<open>
  Saved views and their public links (pkg/workspaces).  The store acts on the table of
  pkg/store/postgres/migrations with its primary key and the unique slug; \<open>flt\<close> says whether the
  database fails a statement for any other reason, and \<open>created\<close> is its clock.  The JSON column holds
  the views themselves.  The service draws identifiers and slugs from the bytes it is given.
\<close>

section \<open>Data\<close>

record View =
  vw_Name :: string
  vw_URL :: string
  vw_Note :: string

record Workspace =
  wk_ID :: string
  wk_TenantID :: string
  wk_OwnerUserID :: string
  wk_Name :: string
  wk_Description :: string
  wk_Views :: "View list"
  wk_ShareSlug :: string
  wk_ShareExpiresAt :: "time option"
  wk_CreatedAt :: time
  wk_UpdatedAt :: time

record WsCreateRequest =
  wc_Name :: string
  wc_Description :: string
  wc_Views :: "View list"

record WsUpdateRequest =
  wu_Name :: "string option"
  wu_Description :: "string option"
  wu_Views :: "View list option"

datatype ws_reason = WsNameRequired | WsNameTooLong | WsTooManyViews | WsViewNameRequired | WsViewURLRequired
  | WsViewURLTooLong | WsDescriptionTooLong | WsNegativeTTL

datatype ws_error = ErrInvalidWorkspace ws_reason | ErrWorkspaceNotFound | ErrShareNotFound | WsDb string | WsSlug

definition DefaultShareTTL :: duration where "DefaultShareTTL = 7 * 24 * hour_ns"
definition MaxNameLen :: nat where "MaxNameLen = 200"
definition MaxDescriptionLen :: nat where "MaxDescriptionLen = 2000"
definition MaxViewURLLen :: nat where "MaxViewURLLen = 2048"
definition MaxViews :: nat where "MaxViews = 20"

definition ValidateName :: "string \<Rightarrow> ws_reason option" where
  "ValidateName s =
    (if trim_space s = [] then Some WsNameRequired
     else if MaxNameLen < length s then Some WsNameTooLong else None)"

fun validate_views :: "View list \<Rightarrow> ws_reason option" where
  "validate_views [] = None"
| "validate_views (v # vs) =
    (if trim_space (vw_Name v) = [] then Some WsViewNameRequired
     else if trim_space (vw_URL v) = [] then Some WsViewURLRequired
     else if MaxViewURLLen < length (vw_URL v) then Some WsViewURLTooLong
     else validate_views vs)"

definition ValidateViews :: "View list \<Rightarrow> ws_reason option" where
  "ValidateViews vs = (if MaxViews < length vs then Some WsTooManyViews else validate_views vs)"

definition ValidateDescription :: "string \<Rightarrow> ws_reason option" where
  "ValidateDescription s = (if MaxDescriptionLen < length s then Some WsDescriptionTooLong else None)"

section \<open>The store\<close>

record ws_row =
  wr_id :: string
  wr_tenant_id :: string
  wr_owner_user_id :: string
  wr_name :: string
  wr_description :: string
  wr_views :: "View list"
  wr_share_slug :: "string option"
  wr_share_expires_at :: "time option"
  wr_created_at :: time
  wr_updated_at :: time

type_synonym ws_db = "ws_row list"

definition ws_scanRow :: "ws_row \<Rightarrow> Workspace" where
  "ws_scanRow r =
    \<lparr>wk_ID = wr_id r, wk_TenantID = wr_tenant_id r, wk_OwnerUserID = wr_owner_user_id r, wk_Name = wr_name r,
     wk_Description = wr_description r, wk_Views = wr_views r,
     wk_ShareSlug = (case wr_share_slug r of None \<Rightarrow> [] | Some s \<Rightarrow> s),
     wk_ShareExpiresAt = wr_share_expires_at r, wk_CreatedAt = wr_created_at r, wk_UpdatedAt = wr_updated_at r\<rparr>"

definition ws_Insert :: "bool \<Rightarrow> time \<Rightarrow> Workspace \<Rightarrow> ws_db \<Rightarrow> (ws_error, Workspace) result \<times> ws_db" where
  "ws_Insert flt created w db =
    (if flt \<or> wk_ID w \<in> set (map wr_id db) then (Inl (WsDb ''insert''), db)
     else (let row = \<lparr>wr_id = wk_ID w, wr_tenant_id = wk_TenantID w, wr_owner_user_id = wk_OwnerUserID w,
             wr_name = wk_Name w, wr_description = wk_Description w, wr_views = wk_Views w, wr_share_slug = None,
             wr_share_expires_at = None, wr_created_at = created, wr_updated_at = created\<rparr>
           in (Inr (ws_scanRow row), db @ [row])))"

definition ws_hit :: "string \<Rightarrow> string \<Rightarrow> ws_row \<Rightarrow> bool" where
  "ws_hit tenant i r = (wr_tenant_id r = tenant \<and> wr_id r = i)"

definition ws_Get :: "bool \<Rightarrow> string \<Rightarrow> string \<Rightarrow> ws_db \<Rightarrow> (ws_error, Workspace) result" where
  "ws_Get flt tenant i db =
    (if flt then Inl (WsDb ''get'')
     else (case find (ws_hit tenant i) db of None \<Rightarrow> Inl ErrWorkspaceNotFound | Some r \<Rightarrow> Inr (ws_scanRow r)))"

text \<open>\<open>List\<close> does not look at the error of the rows.\<close>

definition ws_List :: "bool \<Rightarrow> nat option \<Rightarrow> string \<Rightarrow> ws_db \<Rightarrow> (ws_error, Workspace list) result" where
  "ws_List flt broken tenant db =
    (if flt then Inl (WsDb ''list'')
     else Inr (map ws_scanRow (received broken (sort_key (\<lambda>r. - wr_updated_at r) (filter (\<lambda>r. wr_tenant_id r = tenant) db)))))"

text \<open>An \<open>UPDATE \<dots> RETURNING\<close> of the row of a tenant.\<close>

definition ws_update_row :: "(ws_row \<Rightarrow> ws_row) \<Rightarrow> string \<Rightarrow> string \<Rightarrow> ws_db \<Rightarrow> (ws_error, Workspace) result \<times> ws_db" where
  "ws_update_row g tenant i db =
    (case find (ws_hit tenant i) db of
       None \<Rightarrow> (Inl ErrWorkspaceNotFound, db)
     | Some r \<Rightarrow> (Inr (ws_scanRow (g r)), map (\<lambda>r. if ws_hit tenant i r then g r else r) db))"

definition or_else :: "'a option \<Rightarrow> 'a \<Rightarrow> 'a" where
  "or_else a b = (case a of None \<Rightarrow> b | Some x \<Rightarrow> x)"

definition ws_Update :: "bool \<Rightarrow> time \<Rightarrow> string \<Rightarrow> string \<Rightarrow> WsUpdateRequest \<Rightarrow> ws_db \<Rightarrow>
    (ws_error, Workspace) result \<times> ws_db" where
  "ws_Update flt now tenant i req db =
    (if flt then (Inl (WsDb ''update''), db)
     else ws_update_row (\<lambda>r. r\<lparr>wr_name := or_else (wu_Name req) (wr_name r),
         wr_description := or_else (wu_Description req) (wr_description r),
         wr_views := or_else (wu_Views req) (wr_views r), wr_updated_at := now\<rparr>) tenant i db)"

definition ws_Delete :: "bool \<Rightarrow> string \<Rightarrow> string \<Rightarrow> ws_db \<Rightarrow> ws_error option \<times> ws_db" where
  "ws_Delete flt tenant i db =
    (if flt then (Some (WsDb ''delete''), db)
     else if \<not> list_ex (ws_hit tenant i) db then (Some ErrWorkspaceNotFound, db)
     else (None, filter (\<lambda>r. \<not> ws_hit tenant i r) db))"

text \<open>A slug that another row has violates the unique constraint.\<close>

definition ws_SetShare :: "bool \<Rightarrow> time \<Rightarrow> string \<Rightarrow> string \<Rightarrow> string \<Rightarrow> time option \<Rightarrow> ws_db \<Rightarrow>
    (ws_error, Workspace) result \<times> ws_db" where
  "ws_SetShare flt now tenant i slug expiresAt db =
    (let slugArg = (if slug \<noteq> [] then Some slug else None)
     in if flt \<or> (slugArg \<noteq> None \<and> list_ex (ws_hit tenant i) db
            \<and> list_ex (\<lambda>r. wr_share_slug r = slugArg \<and> \<not> ws_hit tenant i r) db)
        then (Inl (WsDb ''set share''), db)
        else ws_update_row (\<lambda>r. r\<lparr>wr_share_slug := slugArg, wr_share_expires_at := expiresAt,
               wr_updated_at := now\<rparr>) tenant i db)"

definition ws_GetByShareSlug :: "bool \<Rightarrow> string \<Rightarrow> time \<Rightarrow> ws_db \<Rightarrow> (ws_error, Workspace) result" where
  "ws_GetByShareSlug flt slug now db =
    (if slug = [] then Inl ErrShareNotFound
     else if flt then Inl (WsDb ''get by slug'')
     else (case find (\<lambda>r. wr_share_slug r = Some slug
               \<and> (case wr_share_expires_at r of None \<Rightarrow> True | Some e \<Rightarrow> now < e)) db of
             None \<Rightarrow> Inl ErrShareNotFound
           | Some r \<Rightarrow> Inr (ws_scanRow r)))"

section \<open>The service\<close>

text \<open>\<open>defaultIDGen\<close> panics without random bytes.\<close>

definition ws_defaultIDGen :: "int list option \<Rightarrow> string option" where
  "ws_defaultIDGen entropy = map_option (\<lambda>buf. ''wks-'' @ hex_encode buf) entropy"

text \<open>\<open>base64.RawURLEncoding\<close>.\<close>

definition base64url :: "int \<Rightarrow> char" where
  "base64url n = (if n < 26 then chr (65 + n) else if n < 52 then chr (71 + n) else if n < 62 then chr (n - 4)
     else if n = 62 then CHR ''-'' else CHR ''_'')"

fun base64_raw_url :: "int list \<Rightarrow> string" where
  "base64_raw_url [] = []"
| "base64_raw_url [a] = [base64url (a div 4), base64url (a mod 4 * 16)]"
| "base64_raw_url [a, b] = [base64url (a div 4), base64url (a mod 4 * 16 + b div 16), base64url (b mod 16 * 4)]"
| "base64_raw_url (a # b # c # bs) =
    [base64url (a div 4), base64url (a mod 4 * 16 + b div 16), base64url (b mod 16 * 4 + c div 64), base64url (c mod 64)]
    @ base64_raw_url bs"

definition ws_defaultSlugGen :: "int list option \<Rightarrow> string option" where
  "ws_defaultSlugGen entropy = map_option base64_raw_url entropy"

definition ws_Create :: "bool \<Rightarrow> time \<Rightarrow> string \<Rightarrow> string \<Rightarrow> string \<Rightarrow> WsCreateRequest \<Rightarrow> ws_db \<Rightarrow>
    (ws_error, Workspace) result \<times> ws_db" where
  "ws_Create flt created minted tenant owner req db =
    (case ValidateName (wc_Name req) of Some e \<Rightarrow> (Inl (ErrInvalidWorkspace e), db) | None \<Rightarrow>
    (case ValidateDescription (wc_Description req) of Some e \<Rightarrow> (Inl (ErrInvalidWorkspace e), db) | None \<Rightarrow>
    (case ValidateViews (wc_Views req) of Some e \<Rightarrow> (Inl (ErrInvalidWorkspace e), db) | None \<Rightarrow>
       ws_Insert flt created \<lparr>wk_ID = minted, wk_TenantID = tenant, wk_OwnerUserID = owner, wk_Name = wc_Name req,
         wk_Description = wc_Description req, wk_Views = wc_Views req, wk_ShareSlug = [],
         wk_ShareExpiresAt = None, wk_CreatedAt = 0, wk_UpdatedAt = 0\<rparr> db)))"

definition opt_validate :: "('a \<Rightarrow> ws_reason option) \<Rightarrow> 'a option \<Rightarrow> ws_reason option" where
  "opt_validate f a = (case a of None \<Rightarrow> None | Some x \<Rightarrow> f x)"

definition ws_Service_Update :: "bool \<Rightarrow> time \<Rightarrow> string \<Rightarrow> string \<Rightarrow> WsUpdateRequest \<Rightarrow> ws_db \<Rightarrow>
    (ws_error, Workspace) result \<times> ws_db" where
  "ws_Service_Update flt now tenant i req db =
    (case opt_validate ValidateName (wu_Name req) of Some e \<Rightarrow> (Inl (ErrInvalidWorkspace e), db) | None \<Rightarrow>
    (case opt_validate ValidateDescription (wu_Description req) of Some e \<Rightarrow> (Inl (ErrInvalidWorkspace e), db) | None \<Rightarrow>
    (case opt_validate ValidateViews (wu_Views req) of Some e \<Rightarrow> (Inl (ErrInvalidWorkspace e), db) | None \<Rightarrow>
       ws_Update flt now tenant i req db)))"

text \<open>\<open>now\<close> is the clock of the service and \<open>dbnow\<close> that of the database.\<close>

definition ws_Share :: "bool \<Rightarrow> time \<Rightarrow> time \<Rightarrow> string option \<Rightarrow> string \<Rightarrow> string \<Rightarrow> duration \<Rightarrow> ws_db \<Rightarrow>
    (ws_error, Workspace) result \<times> ws_db" where
  "ws_Share flt dbnow now minted tenant i ttl db =
    (if ttl < 0 then (Inl (ErrInvalidWorkspace WsNegativeTTL), db)
     else (let ttl = (if ttl = 0 then DefaultShareTTL else ttl)
           in case minted of
                None \<Rightarrow> (Inl WsSlug, db)
              | Some slug \<Rightarrow> ws_SetShare flt dbnow tenant i slug (Some (now + ttl)) db))"

definition ws_Unshare :: "bool \<Rightarrow> time \<Rightarrow> string \<Rightarrow> string \<Rightarrow> ws_db \<Rightarrow> (ws_error, Workspace) result \<times> ws_db" where
  "ws_Unshare flt dbnow tenant i db = ws_SetShare flt dbnow tenant i [] None db"

definition ws_Resolve :: "bool \<Rightarrow> time \<Rightarrow> string \<Rightarrow> ws_db \<Rightarrow> (ws_error, Workspace) result" where
  "ws_Resolve flt now slug db = ws_GetByShareSlug flt slug now db"

text \<open>What the public handler shows: the tenant and the owner are blank.\<close>

definition public_view :: "Workspace \<Rightarrow> Workspace" where
  "public_view w = w\<lparr>wk_TenantID := [], wk_OwnerUserID := []\<rparr>"

section \<open>Histories\<close>

datatype ws_op = WoCreate bool time string string WsCreateRequest | WoUpdate bool time string WsUpdateRequest
  | WoDelete bool string | WoShare bool time time "string option" string duration | WoUnshare bool time string

fun ws_apply :: "string \<Rightarrow> ws_op \<Rightarrow> ws_db \<Rightarrow> ws_db" where
  "ws_apply tn (WoCreate flt created minted owner req) db = snd (ws_Create flt created minted tn owner req db)"
| "ws_apply tn (WoUpdate flt now i req) db = snd (ws_Service_Update flt now tn i req db)"
| "ws_apply tn (WoDelete flt i) db = snd (ws_Delete flt tn i db)"
| "ws_apply tn (WoShare flt dbnow now minted i ttl) db = snd (ws_Share flt dbnow now minted tn i ttl db)"
| "ws_apply tn (WoUnshare flt dbnow i) db = snd (ws_Unshare flt dbnow tn i db)"

definition ws_lookup :: "string \<Rightarrow> string \<Rightarrow> ws_db \<Rightarrow> ws_row option" where
  "ws_lookup tn i db = find (ws_hit tn i) db"

text \<open>The keys of the table: no identifier and no slug occurs twice, and no slug is empty.\<close>

definition ws_ok :: "ws_db \<Rightarrow> bool" where
  "ws_ok db = (distinct (map wr_id db)
     \<and> (\<forall>r \<in> set db. \<forall>q \<in> set db. wr_share_slug r \<noteq> None \<longrightarrow> wr_share_slug r = wr_share_slug q \<longrightarrow> r = q)
     \<and> (\<forall>r \<in> set db. wr_share_slug r \<noteq> Some []))"

text \<open>Every operation appends one row of the tenant, changes one of its rows without its identity and
  keeps or sets its share, drops one, or does nothing.\<close>

definition slug_free :: "string option \<Rightarrow> string \<Rightarrow> string \<Rightarrow> ws_db \<Rightarrow> bool" where
  "slug_free slug tn i db = (slug \<noteq> Some [] \<and> (slug = None \<or> (\<forall>r \<in> set db. wr_share_slug r = slug \<longrightarrow> ws_hit tn i r)))"

lemma ws_update_row_snd:
  "snd (ws_update_row g tn i db) = map (\<lambda>r. if ws_hit tn i r then g r else r) db"
proof (cases "find (ws_hit tn i) db")
  case None
  then have "\<forall>r \<in> set db. \<not> ws_hit tn i r" by (simp add: find_None_iff)
  then show ?thesis using None by (auto simp: ws_update_row_def intro: map_idI [symmetric])
qed (simp add: ws_update_row_def)

lemma ws_update_row_absent: "find (ws_hit tn i) db = None \<Longrightarrow> ws_update_row g tn i db = (Inl ErrWorkspaceNotFound, db)"
  by (simp add: ws_update_row_def)

lemma ws_Create_snd:
  "snd (ws_Create flt created minted tn owner req db) = db \<or>
   (\<exists>row. snd (ws_Create flt created minted tn owner req db) = db @ [row] \<and> wr_tenant_id row = tn
      \<and> wr_share_slug row = None \<and> wr_id row \<notin> set (map wr_id db))"
  by (auto simp: ws_Create_def ws_Insert_def Let_def split: option.split)

lemma ws_Service_Update_snd:
  "snd (ws_Service_Update flt now tn i req db) = db \<or>
   snd (ws_Service_Update flt now tn i req db) = map (\<lambda>r. if ws_hit tn i r
     then r\<lparr>wr_name := or_else (wu_Name req) (wr_name r),
         wr_description := or_else (wu_Description req) (wr_description r),
         wr_views := or_else (wu_Views req) (wr_views r), wr_updated_at := now\<rparr> else r) db"
  unfolding ws_Service_Update_def ws_Update_def
  by (auto simp: ws_update_row_snd split: option.split)

lemma ws_SetShare_snd:
  "snd (ws_SetShare flt now tn i slug e db) = db \<or>
   slug_free (if slug = [] then None else Some slug) tn i db \<and>
   snd (ws_SetShare flt now tn i slug e db) =
     map (\<lambda>r. if ws_hit tn i r then r\<lparr>wr_share_slug := (if slug = [] then None else Some slug),
        wr_share_expires_at := e, wr_updated_at := now\<rparr> else r) db"
proof (cases "slug_free (if slug = [] then None else Some slug) tn i db")
  case True
  then show ?thesis by (simp add: ws_SetShare_def ws_update_row_snd Let_def)
next
  case False
  then have slug: "slug \<noteq> []" and other: "list_ex (\<lambda>r. wr_share_slug r = Some slug \<and> \<not> ws_hit tn i r) db"
    by (auto simp: slug_free_def list_ex_iff split: if_splits)
  have "find (ws_hit tn i) db = None" if "\<not> list_ex (ws_hit tn i) db"
    using that by (simp add: list_ex_iff find_None_iff)
  then show ?thesis using slug other by (auto simp: ws_SetShare_def ws_update_row_absent Let_def)
qed

lemma ws_apply_cases:
  obtains (same) "ws_apply tn oper db = db"
  | (add) row where "ws_apply tn oper db = db @ [row]" "wr_tenant_id row = tn" "wr_share_slug row = None"
      "wr_id row \<notin> set (map wr_id db)"
  | (edit) i g where "ws_apply tn oper db = map (\<lambda>r. if ws_hit tn i r then g r else r) db"
      "\<And>r. wr_id (g r) = wr_id r \<and> wr_tenant_id (g r) = wr_tenant_id r
         \<and> wr_share_slug (g r) = wr_share_slug r \<and> wr_share_expires_at (g r) = wr_share_expires_at r"
  | (share) i g slug e where "ws_apply tn oper db = map (\<lambda>r. if ws_hit tn i r then g r else r) db"
      "\<And>r. wr_id (g r) = wr_id r \<and> wr_tenant_id (g r) = wr_tenant_id r
         \<and> wr_share_slug (g r) = slug \<and> wr_share_expires_at (g r) = e"
      "slug_free slug tn i db"
      "slug = None \<or> (\<exists>flt dbnow now ttl. oper = WoShare flt dbnow now slug i ttl \<and> 0 \<le> ttl
         \<and> e = Some (now + (if ttl = 0 then DefaultShareTTL else ttl)))"
  | (drop) i where "ws_apply tn oper db = filter (\<lambda>r. \<not> ws_hit tn i r) db"
proof (cases oper)
  case (WoCreate flt created minted owner req)
  then show thesis using ws_Create_snd [of flt created minted tn owner req db] same add by auto
next
  case (WoUpdate flt now i req)
  show thesis
    using ws_Service_Update_snd [of flt now tn i req db]
      edit [of i "\<lambda>r. r\<lparr>wr_name := or_else (wu_Name req) (wr_name r),
         wr_description := or_else (wu_Description req) (wr_description r),
         wr_views := or_else (wu_Views req) (wr_views r), wr_updated_at := now\<rparr>"] same WoUpdate
    by auto
next
  case (WoDelete flt i)
  then have "ws_apply tn oper db = db \<or> ws_apply tn oper db = filter (\<lambda>r. \<not> ws_hit tn i r) db"
    by (simp add: ws_Delete_def)
  then show thesis using same drop WoDelete by auto
next
  case (WoShare flt dbnow now minted i ttl)
  show thesis
  proof (cases "ttl < 0 \<or> minted = None")
    case True
    then show thesis using same WoShare by (auto simp: ws_Share_def)
  next
    case False
    then obtain slug where slug: "minted = Some slug" by auto
    define e where "e = Some (now + (if ttl = 0 then DefaultShareTTL else ttl))"
    have "ws_apply tn oper db = snd (ws_SetShare flt dbnow tn i slug e db)"
      using False WoShare slug by (simp add: ws_Share_def e_def Let_def)
    then consider "ws_apply tn oper db = db"
      | "slug_free (if slug = [] then None else Some slug) tn i db"
        "ws_apply tn oper db = map (\<lambda>r. if ws_hit tn i r then r\<lparr>wr_share_slug := (if slug = [] then None else Some slug),
           wr_share_expires_at := e, wr_updated_at := dbnow\<rparr> else r) db"
      using ws_SetShare_snd [of flt dbnow tn i slug e db] by force
    then show thesis
    proof cases
      case 1
      then show thesis using same WoShare by auto
    next
      case 2
      show thesis by (rule share [OF 2(2) _ 2(1)]) (use False in \<open>auto simp: e_def WoShare slug\<close>)
    qed
  qed
next
  case (WoUnshare flt dbnow i)
  show thesis
  proof (cases flt)
    case True
    then show thesis using same WoUnshare by (auto simp: ws_Unshare_def ws_SetShare_def)
  next
    case False
    have "ws_apply tn oper db = map (\<lambda>r. if ws_hit tn i r then r\<lparr>wr_share_slug := None,
           wr_share_expires_at := None, wr_updated_at := dbnow\<rparr> else r) db"
      using False WoUnshare by (simp add: ws_Unshare_def ws_SetShare_def ws_update_row_snd Let_def)
    then show thesis by (rule share) (simp_all add: slug_free_def WoUnshare)
  qed
qed

lemma ws_okI:
  assumes "distinct (map wr_id db)"
    "\<And>r q. r \<in> set db \<Longrightarrow> q \<in> set db \<Longrightarrow> wr_share_slug r \<noteq> None \<Longrightarrow> wr_share_slug r = wr_share_slug q \<Longrightarrow> r = q"
    "\<And>r. r \<in> set db \<Longrightarrow> wr_share_slug r \<noteq> Some []"
  shows "ws_ok db"
  using assms unfolding ws_ok_def by blast

lemma ws_okD:
  assumes "ws_ok db"
  shows "distinct (map wr_id db)"
    "r \<in> set db \<Longrightarrow> q \<in> set db \<Longrightarrow> wr_share_slug r \<noteq> None \<Longrightarrow> wr_share_slug r = wr_share_slug q \<Longrightarrow> r = q"
    "r \<in> set db \<Longrightarrow> wr_share_slug r \<noteq> Some []"
  using assms unfolding ws_ok_def by blast+

text \<open>Changing rows without their identity keeps the keys if the slugs stay apart.\<close>

lemma ws_ok_map:
  assumes "ws_ok db" "\<And>r. wr_id (f r) = wr_id r"
    "\<And>r q. r \<in> set db \<Longrightarrow> q \<in> set db \<Longrightarrow> wr_share_slug (f r) \<noteq> None \<Longrightarrow> wr_share_slug (f r) = wr_share_slug (f q) \<Longrightarrow> r = q"
    "\<And>r. r \<in> set db \<Longrightarrow> wr_share_slug (f r) \<noteq> Some []"
  shows "ws_ok (map f db)"
proof (rule ws_okI)
  have "map wr_id (map f db) = map wr_id db" using assms(2) by simp
  then show "distinct (map wr_id (map f db))" using ws_okD(1) [OF assms(1)] by metis
next
  fix r q assume r: "r \<in> set (map f db)" "q \<in> set (map f db)" "wr_share_slug r \<noteq> None" "wr_share_slug r = wr_share_slug q"
  then obtain r' q' where "r' \<in> set db" "q' \<in> set db" "r = f r'" "q = f q'" by auto
  then show "r = q" using assms(3) r(3,4) by metis
qed (use assms(4) in auto)

lemma ws_apply_ok: "ws_ok db \<Longrightarrow> ws_ok (ws_apply tn oper db)"
proof (cases rule: ws_apply_cases [of tn oper db])
  case (add row)
  assume ok: "ws_ok db"
  show ?thesis unfolding add(1)
    by (rule ws_okI) (use ws_okD [OF ok] add(3,4) in \<open>auto simp: image_iff\<close>)
next
  case (edit i g)
  assume ok: "ws_ok db"
  have slug: "wr_share_slug (if ws_hit tn i r then g r else r) = wr_share_slug r" for r using edit(2) by simp
  show ?thesis unfolding edit(1)
  proof (rule ws_ok_map [OF ok])
    show "wr_id (if ws_hit tn i r then g r else r) = wr_id r" for r using edit(2) by simp
    show "r = q" if "r \<in> set db" "q \<in> set db" "wr_share_slug (if ws_hit tn i r then g r else r) \<noteq> None"
      "wr_share_slug (if ws_hit tn i r then g r else r) = wr_share_slug (if ws_hit tn i q then g q else q)" for r q
      using that(3,4) unfolding slug by (rule ws_okD(2) [OF ok that(1,2)])
    show "wr_share_slug (if ws_hit tn i r then g r else r) \<noteq> Some []" if "r \<in> set db" for r
      unfolding slug by (rule ws_okD(3) [OF ok that])
  qed
next
  case (share i g slug e)
  assume ok: "ws_ok db"
  have same_id: "r = q" if "r \<in> set db" "q \<in> set db" "wr_id r = wr_id q" for r q
    using that ws_okD(1) [OF ok] by (auto simp: distinct_map inj_on_def)
  show ?thesis unfolding share(1)
  proof (rule ws_ok_map [OF ok])
    fix r q assume rq: "r \<in> set db" "q \<in> set db" "wr_share_slug (if ws_hit tn i r then g r else r) \<noteq> None"
      "wr_share_slug (if ws_hit tn i r then g r else r) = wr_share_slug (if ws_hit tn i q then g q else q)"
    have "ws_hit tn i r = ws_hit tn i q"
      using rq share(2,3) by (auto simp: slug_free_def split: if_splits)
    then show "r = q"
    proof (cases "ws_hit tn i r")
      case True
      then show ?thesis using \<open>ws_hit tn i r = ws_hit tn i q\<close> same_id [OF rq(1,2)] by (simp add: ws_hit_def)
    next
      case False
      then show ?thesis using \<open>ws_hit tn i r = ws_hit tn i q\<close> rq(3,4) ws_okD(2) [OF ok rq(1,2)] by simp
    qed
  qed (use share(2,3) ws_okD(3) [OF ok] in \<open>auto simp: slug_free_def\<close>)
next
  case (drop i)
  assume ok: "ws_ok db"
  show ?thesis unfolding drop(1)
    by (rule ws_okI) (use ws_okD [OF ok] in \<open>auto simp: distinct_map inj_on_def\<close>)
qed simp

lemma ws_lookup_other:
  assumes "tn \<noteq> tn'"
  shows "ws_lookup tn i (ws_apply tn' oper db) = ws_lookup tn i db"
proof (cases rule: ws_apply_cases [of tn' oper db])
  case (edit j g)
  then show ?thesis
    using assms unfolding edit(1) ws_lookup_def by (intro find_map_untouched) (auto simp: ws_hit_def)
next
  case (share j g slug e)
  then show ?thesis
    using assms unfolding share(1) ws_lookup_def by (intro find_map_untouched) (auto simp: ws_hit_def)
next
  case (drop j)
  then show ?thesis
    using assms unfolding drop(1) ws_lookup_def by (intro find_filter_untouched) (auto simp: ws_hit_def)
qed (use assms in \<open>auto simp: ws_lookup_def ws_hit_def find_append_untouched\<close>)

interpretation ws: tenant_table ws_lookup ws_apply ws_ok
  by unfold_locales (simp_all add: ws_lookup_other ws_apply_ok)

definition ws_run :: "(string \<times> ws_op) list \<Rightarrow> ws_db" where
  "ws_run ops = fold (\<lambda>(tn, oper). ws_apply tn oper) ops []"

lemma ws_run_ok: "ws_ok (ws_run ops)"
proof -
  have "ws_ok []" by (simp add: ws_ok_def)
  then show ?thesis using ws.history_ok [of "[]" ops] by (simp add: ws_run_def ws.history_def)
qed

section \<open>Public links\<close>

text \<open>The operations that take back a link.\<close>

definition revokes :: "string \<Rightarrow> string \<Rightarrow> string \<times> ws_op \<Rightarrow> bool" where
  "revokes tn i x = (fst x = tn \<and>
     (case snd x of WoDelete flt j \<Rightarrow> \<not> flt \<and> j = i | WoUnshare flt _ j \<Rightarrow> \<not> flt \<and> j = i | _ \<Rightarrow> False))"

definition share_end :: "time \<Rightarrow> duration \<Rightarrow> time" where
  "share_end now ttl = now + (if ttl = 0 then DefaultShareTTL else ttl)"

lemma not_revoked:
  assumes "r \<in> set (ws_apply tn oper db)" "wr_share_slug r = Some slug"
  shows "\<not> revokes (wr_tenant_id r) (wr_id r) (tn, oper)"
proof
  assume "revokes (wr_tenant_id r) (wr_id r) (tn, oper)"
  then consider (del) "tn = wr_tenant_id r" "oper = WoDelete False (wr_id r)"
    | (unshare) dbnow where "tn = wr_tenant_id r" "oper = WoUnshare False dbnow (wr_id r)"
    by (auto simp: revokes_def split: ws_op.splits)
  then show False
  proof cases
    case del
    have "\<not> ws_hit tn (wr_id r) r"
      using assms(1) unfolding del(2) ws_apply.simps ws_Delete_def list_ex_iff by (fastforce split: if_splits)
    moreover have "ws_hit (wr_tenant_id r) (wr_id r) r" by (simp add: ws_hit_def)
    ultimately show False unfolding del(1) by contradiction
  next
    case unshare
    define i where "i = wr_id r"
    have "r \<in> (\<lambda>q. if ws_hit tn i q
        then q\<lparr>wr_share_slug := None, wr_share_expires_at := None, wr_updated_at := dbnow\<rparr> else q) ` set db"
      using assms(1) unfolding unshare(2) i_def [symmetric]
      by (simp add: ws_Unshare_def ws_SetShare_def ws_update_row_snd Let_def)
    then obtain q where "r = (if ws_hit tn i q
        then q\<lparr>wr_share_slug := None, wr_share_expires_at := None, wr_updated_at := dbnow\<rparr> else q)"
      by (rule imageE)
    moreover have "ws_hit tn i r" by (simp add: ws_hit_def i_def unshare(1))
    ultimately show False using assms(2) by (simp split: if_splits)
  qed
qed

lemma share_origin:
  assumes "r \<in> set (ws_apply tn oper db)" "wr_share_slug r = Some slug"
  shows "(\<exists>q \<in> set db. wr_id q = wr_id r \<and> wr_tenant_id q = wr_tenant_id r \<and> wr_share_slug q = Some slug
      \<and> wr_share_expires_at q = wr_share_expires_at r)
    \<or> (tn = wr_tenant_id r \<and> (\<exists>flt dbnow now ttl. oper = WoShare flt dbnow now (Some slug) (wr_id r) ttl \<and> 0 \<le> ttl
      \<and> wr_share_expires_at r = Some (share_end now ttl)))"
proof (cases rule: ws_apply_cases [of tn oper db])
  case (edit i g)
  then show ?thesis using assms by (auto split: if_splits)
next
  case (share i g sl e)
  then obtain q where q: "q \<in> set db" "r = (if ws_hit tn i q then g q else q)" using assms(1) by auto
  show ?thesis
  proof (cases "ws_hit tn i q")
    case True
    then have r: "wr_id r = i" "wr_tenant_id r = tn" "sl = Some slug" "wr_share_expires_at r = e"
      using q share(2) [of q] assms(2) by (simp_all add: ws_hit_def)
    then show ?thesis using share(4) by (auto simp: share_end_def)
  qed (use q assms in auto)
qed (use assms in auto)

text \<open>A row that has a slug has it from a share that nothing took back.\<close>

lemma share_inv:
  assumes "r \<in> set (ws_run ops)" "wr_share_slug r = Some slug"
  shows "\<exists>pre flt dbnow now ttl post.
    ops = pre @ (wr_tenant_id r, WoShare flt dbnow now (Some slug) (wr_id r) ttl) # post \<and> 0 \<le> ttl
    \<and> wr_share_expires_at r = Some (share_end now ttl)
    \<and> list_all (\<lambda>x. \<not> revokes (wr_tenant_id r) (wr_id r) x) post"
  using assms
proof (induction ops arbitrary: r rule: rev_induct)
  case (snoc x ops)
  obtain tn oper where x: "x = (tn, oper)" by (cases x)
  have r: "r \<in> set (ws_apply tn oper (ws_run ops))" using snoc.prems(1) by (simp add: x ws_run_def)
  note keep = not_revoked [OF r snoc.prems(2)]
  from share_origin [OF r snoc.prems(2)] show ?case
  proof
    assume "\<exists>q \<in> set (ws_run ops). wr_id q = wr_id r \<and> wr_tenant_id q = wr_tenant_id r
      \<and> wr_share_slug q = Some slug \<and> wr_share_expires_at q = wr_share_expires_at r"
    then obtain q where q: "q \<in> set (ws_run ops)" "wr_id q = wr_id r" "wr_tenant_id q = wr_tenant_id r"
      "wr_share_slug q = Some slug" "wr_share_expires_at q = wr_share_expires_at r" by blast
    obtain pre flt dbnow now ttl post where
      "ops = pre @ (wr_tenant_id r, WoShare flt dbnow now (Some slug) (wr_id r) ttl) # post" "0 \<le> ttl"
      "wr_share_expires_at r = Some (share_end now ttl)" "list_all (\<lambda>x. \<not> revokes (wr_tenant_id r) (wr_id r) x) post"
      using snoc.IH [OF q(1,4)] unfolding q(2,3,5) by blast
    then show ?thesis using keep
      by (intro exI [of _ pre] exI [of _ flt] exI [of _ dbnow] exI [of _ now] exI [of _ ttl] exI [of _ "post @ [x]"])
        (simp add: x)
  next
    assume "tn = wr_tenant_id r \<and> (\<exists>flt dbnow now ttl. oper = WoShare flt dbnow now (Some slug) (wr_id r) ttl
      \<and> 0 \<le> ttl \<and> wr_share_expires_at r = Some (share_end now ttl))"
    then obtain flt dbnow now ttl where "x = (wr_tenant_id r, WoShare flt dbnow now (Some slug) (wr_id r) ttl)"
      "0 \<le> ttl" "wr_share_expires_at r = Some (share_end now ttl)"
      unfolding x by blast
    then show ?thesis
      by (intro exI [of _ ops] exI [of _ flt] exI [of _ dbnow] exI [of _ now] exI [of _ ttl] exI [of _ "[]"]) simp
  qed
qed (simp add: ws_run_def)

text \<open>C10 (safety).  A link opens a workspace only until its end and only if the last operation of the
  workspace's own tenant that concerns the link is the share that minted it: in every history of
  operations of all tenants nobody else can publish a workspace, and a link does not survive an
  unshare or a deletion.\<close>

theorem link_opens:
  assumes "ws_Resolve flt t slug (ws_run ops) = Inr w"
  shows "\<exists>pre sflt dbnow now ttl post.
    ops = pre @ (wk_TenantID w, WoShare sflt dbnow now (Some slug) (wk_ID w) ttl) # post
    \<and> t < share_end now ttl \<and> wk_ShareSlug w = slug
    \<and> list_all (\<lambda>x. \<not> revokes (wk_TenantID w) (wk_ID w) x) post"
proof -
  obtain r where f: "find (\<lambda>r. wr_share_slug r = Some slug
      \<and> (case wr_share_expires_at r of None \<Rightarrow> True | Some e \<Rightarrow> t < e)) (ws_run ops) = Some r" and w: "w = ws_scanRow r"
    using assms by (auto simp: ws_Resolve_def ws_GetByShareSlug_def split: if_splits option.splits)
  have r: "r \<in> set (ws_run ops)" "wr_share_slug r = Some slug"
    "case wr_share_expires_at r of None \<Rightarrow> True | Some e \<Rightarrow> t < e"
    using find_Some_set [OF f] by simp_all
  have "wk_TenantID w = wr_tenant_id r" "wk_ID w = wr_id r" "wk_ShareSlug w = slug"
    using r(2) by (simp_all add: w ws_scanRow_def)
  then show ?thesis using share_inv [OF r(1,2)] r(3) by fastforce
qed

lemma Resolve_row:
  assumes "ws_ok db" "r \<in> set db" "wr_share_slug r = Some s"
  shows "ws_Resolve False t s db =
    (if (case wr_share_expires_at r of None \<Rightarrow> True | Some e \<Rightarrow> t < e) then Inr (ws_scanRow r) else Inl ErrShareNotFound)"
proof -
  define open_row where "open_row = (\<lambda>q :: ws_row. wr_share_slug q = Some s \<and> (case wr_share_expires_at q of None \<Rightarrow> True | Some e \<Rightarrow> t < e))"
  have u: "q = r" if "q \<in> set db" "open_row q" for q
    by (rule ws_okD(2) [OF assms(1) that(1) assms(2)]) (use that(2) assms(3) in \<open>simp_all add: open_row_def\<close>)
  have "find open_row db = (if open_row r then Some r else None)"
  proof (cases "open_row r")
    case True
    then show ?thesis using find_unique [of r db open_row, OF assms(2) True u] by simp
  next
    case False
    then have "find open_row db = None" using u by (intro find_NoneI) blast
    then show ?thesis using False by simp
  qed
  moreover have "s \<noteq> []" using ws_okD(3) [OF assms(1,2)] assms(3) by auto
  ultimately show ?thesis
    using assms(3) by (simp add: ws_Resolve_def ws_GetByShareSlug_def open_row_def [symmetric]) (simp add: open_row_def)
qed

lemma Resolve_unknown:
  assumes "\<And>r. r \<in> set db \<Longrightarrow> wr_share_slug r \<noteq> Some s"
  shows "ws_Resolve False t s db = Inl ErrShareNotFound"
proof -
  have "find (\<lambda>r. wr_share_slug r = Some s \<and> (case wr_share_expires_at r of None \<Rightarrow> True | Some e \<Rightarrow> t < e)) db = None"
    by (rule find_NoneI) (use assms in simp)
  then show ?thesis by (simp add: ws_Resolve_def ws_GetByShareSlug_def)
qed

lemma Share_Inr:
  assumes "ws_Share flt dbnow now (Some slug) tn i ttl db = (Inr w, db')" "slug \<noteq> []"
  obtains r where "find (ws_hit tn i) db = Some r" "0 \<le> ttl" "\<not> flt"
    "w = ws_scanRow (r\<lparr>wr_share_slug := Some slug, wr_share_expires_at := Some (share_end now ttl), wr_updated_at := dbnow\<rparr>)"
    "db' = map (\<lambda>r. if ws_hit tn i r then r\<lparr>wr_share_slug := Some slug,
       wr_share_expires_at := Some (share_end now ttl), wr_updated_at := dbnow\<rparr> else r) db"
  using assms
  by (auto simp: ws_Share_def ws_SetShare_def ws_update_row_def Let_def share_end_def split: if_splits option.splits)

text \<open>C21 (functional).  A share that succeeds opens exactly the shared workspace under the new slug until
  its end, closes the slug the workspace had before, and is itself closed by an unshare.\<close>

theorem share_lifecycle:
  assumes "ws_ok db" "slug \<noteq> []" "ws_Share False dbnow now (Some slug) tn i ttl db = (Inr w, db')"
  shows "wk_TenantID w = tn \<and> wk_ID w = i \<and>
    (\<forall>t. ws_Resolve False t slug db' = (if t < share_end now ttl then Inr w else Inl ErrShareNotFound)) \<and>
    (\<forall>r old t. r \<in> set db \<and> ws_hit tn i r \<and> wr_share_slug r = Some old \<and> old \<noteq> slug \<longrightarrow>
       ws_Resolve False t old db' = Inl ErrShareNotFound) \<and>
    (\<forall>t later. ws_Resolve False t slug (snd (ws_Unshare False later tn i db')) = Inl ErrShareNotFound)"
proof -
  define g where "g = (\<lambda>r :: ws_row. r\<lparr>wr_share_slug := Some slug, wr_share_expires_at := Some (share_end now ttl), wr_updated_at := dbnow\<rparr>)"
  obtain r0 where r0: "find (ws_hit tn i) db = Some r0" "w = ws_scanRow (g r0)"
    "db' = map (\<lambda>r. if ws_hit tn i r then g r else r) db"
    unfolding g_def by (rule Share_Inr [OF assms(3,2)])
  have hit: "r0 \<in> set db" "ws_hit tn i r0" using find_Some_set [OF r0(1)] by simp_all
  have ok: "ws_ok db'"
    using ws_apply_ok [OF assms(1), of tn "WoShare False dbnow now (Some slug) i ttl"] assms(3) by simp
  have mem: "g r0 \<in> set db'" unfolding r0(3) using hit by auto
  have only: "r = r0" if "r \<in> set db" "ws_hit tn i r" for r
    using that hit ws_okD(1) [OF assms(1)] by (auto simp: distinct_map inj_on_def ws_hit_def)
  have 1: "ws_Resolve False t slug db' = (if t < share_end now ttl then Inr w else Inl ErrShareNotFound)" for t
    using Resolve_row [OF ok mem, of slug t] by (simp add: g_def r0(2))
  have 2: "ws_Resolve False t old db' = Inl ErrShareNotFound"
    if "r \<in> set db" "ws_hit tn i r" "wr_share_slug r = Some old" "old \<noteq> slug" for r old t
  proof (rule Resolve_unknown)
    fix q assume "q \<in> set db'"
    then obtain p where p: "p \<in> set db" "q = (if ws_hit tn i p then g p else p)" unfolding r0(3) by auto
    show "wr_share_slug q \<noteq> Some old"
      using ws_okD(2) [OF assms(1) that(1) p(1)] that p(2) by (auto simp: g_def split: if_splits)
  qed
  have 3: "ws_Resolve False t slug (snd (ws_Unshare False later tn i db')) = Inl ErrShareNotFound" for t later
  proof (rule Resolve_unknown)
    fix q assume "q \<in> set (snd (ws_Unshare False later tn i db'))"
    then obtain p where p: "p \<in> set db'" "q = (if ws_hit tn i p
        then p\<lparr>wr_share_slug := None, wr_share_expires_at := None, wr_updated_at := later\<rparr> else p)"
      by (auto simp: ws_Unshare_def ws_SetShare_def ws_update_row_snd Let_def)
    have "ws_hit tn i (g r0)" using hit(2) by (simp add: g_def ws_hit_def)
    then show "wr_share_slug q \<noteq> Some slug"
      using ws_okD(2) [OF ok mem p(1)] p(2) by (auto simp: g_def split: if_splits)
  qed
  have "wk_TenantID w = tn \<and> wk_ID w = i" using hit(2) by (simp add: r0(2) g_def ws_scanRow_def ws_hit_def)
  then show ?thesis using 1 2 3 by blast
qed

section \<open>Instances\<close>

definition demo_ws_ops :: "(string \<times> ws_op) list" where
  "demo_ws_ops =
    [(''t1'', WoCreate False 5 ''wks-1'' ''usr-1'' \<lparr>wc_Name = ''Checkout'', wc_Description = [], wc_Views = []\<rparr>),
     (''t2'', WoCreate False 5 ''wks-2'' ''usr-2'' \<lparr>wc_Name = ''Other'', wc_Description = [], wc_Views = []\<rparr>),
     (''t1'', WoShare False 6 6 (Some ''slugA'') ''wks-1'' 100)]"

theorem link_opens_witness:
  "\<exists>pre sflt dbnow now ttl post. demo_ws_ops = pre @ (''t1'', WoShare sflt dbnow now (Some ''slugA'') ''wks-1'' ttl) # post
    \<and> 7 < share_end now ttl"
proof -
  obtain w where w: "ws_Resolve False 7 ''slugA'' (ws_run demo_ws_ops) = Inr w" "wk_TenantID w = ''t1''" "wk_ID w = ''wks-1''"
  proof -
    have "case ws_Resolve False 7 ''slugA'' (ws_run demo_ws_ops) of Inl _ \<Rightarrow> False
        | Inr w \<Rightarrow> wk_TenantID w = ''t1'' \<and> wk_ID w = ''wks-1''"
      by code_simp
    then show thesis using that by (auto split: sum.splits)
  qed
  show ?thesis using link_opens [OF w(1)] unfolding w(2,3) by blast
qed

theorem share_lifecycle_witness:
  "ws_Resolve False 29 ''slugB'' (snd (ws_Share False 9 9 (Some ''slugB'') ''t1'' ''wks-1'' 20 (ws_run demo_ws_ops))) = Inl ErrShareNotFound
   \<and> ws_Resolve False 7 ''slugA'' (snd (ws_Share False 9 9 (Some ''slugB'') ''t1'' ''wks-1'' 20 (ws_run demo_ws_ops))) = Inl ErrShareNotFound"
proof -
  define db where "db = ws_run demo_ws_ops"
  define db' where "db' = snd (ws_Share False 9 9 (Some ''slugB'') ''t1'' ''wks-1'' 20 db)"
  have "case ws_Share False 9 9 (Some ''slugB'') ''t1'' ''wks-1'' 20 db of (Inl _, _) \<Rightarrow> False | (Inr _, _) \<Rightarrow> True"
    and old: "case find (ws_hit ''t1'' ''wks-1'') db of None \<Rightarrow> False | Some r \<Rightarrow> wr_share_slug r = Some ''slugA''"
    unfolding db_def by code_simp+
  then obtain w where w: "ws_Share False 9 9 (Some ''slugB'') ''t1'' ''wks-1'' 20 db = (Inr w, db')"
    by (auto simp: db'_def split: prod.splits sum.splits)
  obtain r where r: "r \<in> set db" "ws_hit ''t1'' ''wks-1'' r" "wr_share_slug r = Some ''slugA''"
    using old by (auto split: option.splits dest: find_Some_set)
  have ok: "ws_ok db" unfolding db_def by (rule ws_run_ok)
  have "share_end 9 20 = 29" by (simp add: share_end_def)
  then show ?thesis
    using share_lifecycle [OF ok _ w] r unfolding db_def [symmetric] db'_def [symmetric] by auto
qed

end
