(* ===== verification/Annotations.thy ===== *)
theory Annotations
  imports TenantTable
begin

text \<open>
  Notes pinned to a canary, a POP or a test (pkg/annotations).  The store acts on the table of
  pkg/store/postgres/migrations with its primary key and the check of the scope; \<open>flt\<close> says whether
  the database fails a statement for any other reason, and \<open>created\<close> is its clock.  The list query is
  built as text, and \<open>sql_holds\<close> reads the predicates of that text.
\<close>

section \<open>Data\<close>

record Annotation =
  an_ID :: string
  an_TenantID :: string
  an_Scope :: string
  an_ScopeID :: string
  an_At :: time
  an_BodyMD :: string
  an_AuthorID :: string
  an_CreatedAt :: time

record AnCreateRequest =
  ac_Scope :: string
  ac_ScopeID :: string
  ac_At :: time
  ac_BodyMD :: string

record ListFilter =
  lf_Scope :: string
  lf_ScopeID :: string
  lf_From :: "time option"
  lf_To :: "time option"
  lf_Limit :: int

datatype an_reason = BadScope string | ScopeIDRequired | ScopeIDTooLong | BodyTooLong | AtRequired

datatype an_error = ErrInvalidAnnotation an_reason | ErrAnnotationNotFound | AnDb string

definition validScopes :: "string list" where
  "validScopes = [''canary'', ''pop'', ''test'']"

definition MaxBodyLen :: nat where "MaxBodyLen = 4000"
definition MaxScopeIDLen :: nat where "MaxScopeIDLen = 200"
definition DefaultListLimit :: int where "DefaultListLimit = 200"
definition MaxListLimit :: int where "MaxListLimit = 1000"

definition ValidateScope :: "string \<Rightarrow> an_reason option" where
  "ValidateScope s = (if s \<notin> set validScopes then Some (BadScope s) else None)"

definition ValidateScopeID :: "string \<Rightarrow> an_reason option" where
  "ValidateScopeID s =
    (if trim_space s = [] then Some ScopeIDRequired
     else if MaxScopeIDLen < length s then Some ScopeIDTooLong else None)"

definition ValidateBody :: "string \<Rightarrow> an_reason option" where
  "ValidateBody s = (if MaxBodyLen < length s then Some BodyTooLong else None)"

section \<open>The store\<close>

text \<open>A row of the table has the fields of an \<open>Annotation\<close>, so that \<open>scanRow\<close> copies it.\<close>

type_synonym an_db = "Annotation list"

definition an_Insert :: "bool \<Rightarrow> time \<Rightarrow> Annotation \<Rightarrow> an_db \<Rightarrow> (an_error, Annotation) result \<times> an_db" where
  "an_Insert flt created a db =
    (if flt \<or> an_ID a \<in> set (map an_ID db) \<or> an_Scope a \<notin> set validScopes then (Inl (AnDb ''insert''), db)
     else (let row = a\<lparr>an_CreatedAt := created\<rparr> in (Inr row, db @ [row])))"

definition an_hit :: "string \<Rightarrow> string \<Rightarrow> Annotation \<Rightarrow> bool" where
  "an_hit tenant i r = (an_TenantID r = tenant \<and> an_ID r = i)"

definition an_Get :: "bool \<Rightarrow> string \<Rightarrow> string \<Rightarrow> an_db \<Rightarrow> (an_error, Annotation) result" where
  "an_Get flt tenant i db =
    (if flt then Inl (AnDb ''get'')
     else (case find (an_hit tenant i) db of None \<Rightarrow> Inl ErrAnnotationNotFound | Some a \<Rightarrow> Inr a))"

datatype an_arg = ArgText string | ArgTime time

text \<open>The predicates and the arguments of the list query, in the order they are appended.\<close>

definition add_pred :: "string \<Rightarrow> an_arg option \<Rightarrow> string list \<times> an_arg list \<Rightarrow> string list \<times> an_arg list" where
  "add_pred lhs a pa =
    (case a of None \<Rightarrow> pa
     | Some v \<Rightarrow> (fst pa @ [lhs @ itoa (int (length (snd pa)) + 1)], snd pa @ [v]))"

definition list_preds :: "string \<Rightarrow> ListFilter \<Rightarrow> string list \<times> an_arg list" where
  "list_preds tenant f =
    add_pred ''at < $'' (map_option ArgTime (lf_To f))
    (add_pred ''at >= $'' (map_option ArgTime (lf_From f))
    (add_pred ''scope_id = $'' (if lf_ScopeID f \<noteq> [] then Some (ArgText (lf_ScopeID f)) else None)
    (add_pred ''scope = $'' (if lf_Scope f \<noteq> [] then Some (ArgText (lf_Scope f)) else None)
      ([''tenant_id = $1''], [ArgText tenant]))))"

definition list_limit :: "int \<Rightarrow> int" where
  "list_limit n = (let limit = (if n \<le> 0 then DefaultListLimit else n)
     in if MaxListLimit < limit then MaxListLimit else limit)"

text \<open>What PostgreSQL makes of a predicate: the columns, the operators and the numbered placeholders of
  the query.\<close>

definition sql_columns :: "(string \<times> (Annotation \<Rightarrow> an_arg \<Rightarrow> bool)) list" where
  "sql_columns =
    [(''tenant_id = $'', \<lambda>r v. ArgText (an_TenantID r) = v),
     (''scope = $'', \<lambda>r v. ArgText (an_Scope r) = v),
     (''scope_id = $'', \<lambda>r v. ArgText (an_ScopeID r) = v),
     (''at >= $'', \<lambda>r v. case v of ArgTime t \<Rightarrow> t \<le> an_At r | _ \<Rightarrow> False),
     (''at < $'', \<lambda>r v. case v of ArgTime t \<Rightarrow> an_At r < t | _ \<Rightarrow> False)]"

definition sql_holds :: "an_arg list \<Rightarrow> Annotation \<Rightarrow> string \<Rightarrow> bool" where
  "sql_holds args r p =
    (case find (\<lambda>(lhs, _). has_prefix p lhs) sql_columns of
       None \<Rightarrow> False
     | Some (lhs, cmp) \<Rightarrow>
         (case atoi (drop (length lhs) p) of
            None \<Rightarrow> False
          | Some n \<Rightarrow> 1 \<le> n \<and> n \<le> int (length args) \<and> cmp r (args ! nat (n - 1))))"

definition an_List :: "bool \<Rightarrow> nat option \<Rightarrow> string \<Rightarrow> ListFilter \<Rightarrow> an_db \<Rightarrow> (an_error, Annotation list) result" where
  "an_List flt broken tenant f db =
    (if flt then Inl (AnDb ''list'')
     else (let (preds, args) = list_preds tenant f
           in Inr (received broken (take (nat (list_limit (lf_Limit f)))
                (sort_key an_At (filter (\<lambda>r. list_all (sql_holds args r) preds) db))))))"

definition an_Delete :: "bool \<Rightarrow> string \<Rightarrow> string \<Rightarrow> an_db \<Rightarrow> an_error option \<times> an_db" where
  "an_Delete flt tenant i db =
    (if flt then (Some (AnDb ''delete''), db)
     else if \<not> list_ex (an_hit tenant i) db then (Some ErrAnnotationNotFound, db)
     else (None, filter (\<lambda>r. \<not> an_hit tenant i r) db))"

section \<open>The service\<close>

definition an_defaultIDGen :: "int list option \<Rightarrow> string option" where
  "an_defaultIDGen entropy = map_option (\<lambda>buf. ''ann-'' @ hex_encode buf) entropy"

definition an_Create :: "bool \<Rightarrow> time \<Rightarrow> string \<Rightarrow> string \<Rightarrow> string \<Rightarrow> AnCreateRequest \<Rightarrow> an_db \<Rightarrow>
    (an_error, Annotation) result \<times> an_db" where
  "an_Create flt created minted tenant author req db =
    (case ValidateScope (ac_Scope req) of Some e \<Rightarrow> (Inl (ErrInvalidAnnotation e), db) | None \<Rightarrow>
    (case ValidateScopeID (ac_ScopeID req) of Some e \<Rightarrow> (Inl (ErrInvalidAnnotation e), db) | None \<Rightarrow>
    (case ValidateBody (ac_BodyMD req) of Some e \<Rightarrow> (Inl (ErrInvalidAnnotation e), db) | None \<Rightarrow>
       if is_zero_time (ac_At req) then (Inl (ErrInvalidAnnotation AtRequired), db)
       else an_Insert flt created \<lparr>an_ID = minted, an_TenantID = tenant, an_Scope = ac_Scope req,
         an_ScopeID = ac_ScopeID req, an_At = ac_At req, an_BodyMD = ac_BodyMD req, an_AuthorID = author,
         an_CreatedAt = 0\<rparr> db)))"

definition an_Service_List :: "bool \<Rightarrow> nat option \<Rightarrow> string \<Rightarrow> ListFilter \<Rightarrow> an_db \<Rightarrow> (an_error, Annotation list) result" where
  "an_Service_List flt broken tenant f db =
    (let f = (if lf_Limit f \<le> 0 then f\<lparr>lf_Limit := DefaultListLimit\<rparr> else f);
         f = (if MaxListLimit < lf_Limit f then f\<lparr>lf_Limit := MaxListLimit\<rparr> else f)
     in case (if lf_Scope f \<noteq> [] then ValidateScope (lf_Scope f) else None) of
          Some e \<Rightarrow> Inl (ErrInvalidAnnotation e)
        | None \<Rightarrow> an_List flt broken tenant f db)"

section \<open>What the list returns\<close>

definition matches :: "string \<Rightarrow> ListFilter \<Rightarrow> Annotation \<Rightarrow> bool" where
  "matches tenant f a =
    (an_TenantID a = tenant \<and> (lf_Scope f = [] \<or> an_Scope a = lf_Scope f)
     \<and> (lf_ScopeID f = [] \<or> an_ScopeID a = lf_ScopeID f)
     \<and> (case lf_From f of None \<Rightarrow> True | Some t \<Rightarrow> t \<le> an_At a)
     \<and> (case lf_To f of None \<Rightarrow> True | Some t \<Rightarrow> an_At a < t))"

text \<open>Every predicate of the query is about the argument that was appended with it.\<close>

lemma sql_holds_numbered:
  assumes "1 \<le> n" "n \<le> int (length args)" "n < 10"
  shows "sql_holds args r (''tenant_id = $'' @ itoa n) = (ArgText (an_TenantID r) = args ! nat (n - 1))"
    and "sql_holds args r (''scope = $'' @ itoa n) = (ArgText (an_Scope r) = args ! nat (n - 1))"
    and "sql_holds args r (''scope_id = $'' @ itoa n) = (ArgText (an_ScopeID r) = args ! nat (n - 1))"
    and "sql_holds args r (''at >= $'' @ itoa n) = (case args ! nat (n - 1) of ArgTime t \<Rightarrow> t \<le> an_At r | _ \<Rightarrow> False)"
    and "sql_holds args r (''at < $'' @ itoa n) = (case args ! nat (n - 1) of ArgTime t \<Rightarrow> an_At r < t | _ \<Rightarrow> False)"
proof -
  have "atoi (itoa n) = Some n" using assms by (intro atoi_itoa) (simp add: in_int64_def int64_min_def int64_max_def)
  then show "sql_holds args r (''tenant_id = $'' @ itoa n) = (ArgText (an_TenantID r) = args ! nat (n - 1))"
    "sql_holds args r (''scope = $'' @ itoa n) = (ArgText (an_Scope r) = args ! nat (n - 1))"
    "sql_holds args r (''scope_id = $'' @ itoa n) = (ArgText (an_ScopeID r) = args ! nat (n - 1))"
    "sql_holds args r (''at >= $'' @ itoa n) = (case args ! nat (n - 1) of ArgTime t \<Rightarrow> t \<le> an_At r | _ \<Rightarrow> False)"
    "sql_holds args r (''at < $'' @ itoa n) = (case args ! nat (n - 1) of ArgTime t \<Rightarrow> an_At r < t | _ \<Rightarrow> False)"
    using assms by (simp_all add: sql_holds_def sql_columns_def has_prefix_def)
qed

lemma list_preds_matches:
  "list_all (sql_holds (snd (list_preds tn f)) r) (fst (list_preds tn f)) = matches tn f r"
proof -
  have first: "''tenant_id = $1'' = ''tenant_id = $'' @ itoa 1" by code_simp
  show ?thesis
    by (cases "lf_Scope f = []"; cases "lf_ScopeID f = []"; cases "lf_From f"; cases "lf_To f")
      (simp_all del: append.simps append_Cons add: list_preds_def add_pred_def matches_def first sql_holds_numbered nth_append)
qed

lemma list_limit_range: "1 \<le> list_limit n \<and> list_limit n \<le> 1000"
  by (simp add: list_limit_def DefaultListLimit_def MaxListLimit_def)

lemma list_preds_limit: "list_preds tn (f\<lparr>lf_Limit := n\<rparr>) = list_preds tn f"
  by (simp add: list_preds_def)

text \<open>A list returns the first annotations, in the order of their times, of exactly those
  of the tenant that match every filter that is set, and at most a thousand of them; a scope that
  does not exist is an error.\<close>

theorem annotation_list:
  "an_Service_List False None tn f db =
    (if lf_Scope f \<noteq> [] \<and> lf_Scope f \<notin> set validScopes then Inl (ErrInvalidAnnotation (BadScope (lf_Scope f)))
     else Inr (take (nat (list_limit (lf_Limit f))) (sort_key an_At (filter (matches tn f) db))))
   \<and> 1 \<le> list_limit (lf_Limit f) \<and> list_limit (lf_Limit f) \<le> 1000"
proof -
  have m: "list_all (sql_holds (snd (list_preds tn f)) r) (fst (list_preds tn f)) = matches tn f r" for r
    by (rule list_preds_matches)
  have e: "an_List False None tn (f\<lparr>lf_Limit := n\<rparr>) db =
      Inr (take (nat (list_limit n)) (sort_key an_At (filter (matches tn f) db)))" for n
    by (simp add: an_List_def list_preds_limit m case_prod_beta received_def)
  have "an_List False None tn f db = Inr (take (nat (list_limit (lf_Limit f))) (sort_key an_At (filter (matches tn f) db)))"
    using e [of "lf_Limit f"] by simp
  then show ?thesis
    using list_limit_range [of "lf_Limit f"] e [of 200] e [of 1000]
    by (auto simp: an_Service_List_def Let_def ValidateScope_def list_limit_def DefaultListLimit_def MaxListLimit_def)
qed

section \<open>Histories\<close>

datatype an_op = AoCreate bool time string string AnCreateRequest | AoDelete bool string

fun an_apply :: "string \<Rightarrow> an_op \<Rightarrow> an_db \<Rightarrow> an_db" where
  "an_apply tn (AoCreate flt created minted author req) db = snd (an_Create flt created minted tn author req db)"
| "an_apply tn (AoDelete flt i) db = snd (an_Delete flt tn i db)"

definition an_lookup :: "string \<Rightarrow> string \<Rightarrow> an_db \<Rightarrow> Annotation option" where
  "an_lookup tn i db = find (an_hit tn i) db"

definition an_ok :: "an_db \<Rightarrow> bool" where
  "an_ok db = (distinct (map an_ID db) \<and> list_all (\<lambda>a. an_Scope a \<in> set validScopes \<and> trim_space (an_ScopeID a) \<noteq> []
     \<and> length (an_ScopeID a) \<le> MaxScopeIDLen \<and> length (an_BodyMD a) \<le> MaxBodyLen \<and> an_At a \<noteq> 0) db)"

definition stored :: "time \<Rightarrow> string \<Rightarrow> string \<Rightarrow> string \<Rightarrow> AnCreateRequest \<Rightarrow> Annotation" where
  "stored created minted tn author req =
    \<lparr>an_ID = minted, an_TenantID = tn, an_Scope = ac_Scope req, an_ScopeID = ac_ScopeID req, an_At = ac_At req,
     an_BodyMD = ac_BodyMD req, an_AuthorID = author, an_CreatedAt = created\<rparr>"

definition ac_valid :: "AnCreateRequest \<Rightarrow> bool" where
  "ac_valid req = (ac_Scope req \<in> set validScopes \<and> trim_space (ac_ScopeID req) \<noteq> []
     \<and> length (ac_ScopeID req) \<le> MaxScopeIDLen \<and> length (ac_BodyMD req) \<le> MaxBodyLen \<and> ac_At req \<noteq> 0)"

lemma an_Create_eq:
  "an_Create False created minted tn author req db =
    (if \<not> ac_valid req then
       (Inl (ErrInvalidAnnotation (if ac_Scope req \<notin> set validScopes then BadScope (ac_Scope req)
          else if trim_space (ac_ScopeID req) = [] then ScopeIDRequired
          else if MaxScopeIDLen < length (ac_ScopeID req) then ScopeIDTooLong
          else if MaxBodyLen < length (ac_BodyMD req) then BodyTooLong else AtRequired)), db)
     else if minted \<in> set (map an_ID db) then (Inl (AnDb ''insert''), db)
     else (Inr (stored created minted tn author req), db @ [stored created minted tn author req]))"
  by (auto simp: an_Create_def an_Insert_def ValidateScope_def ValidateScopeID_def ValidateBody_def is_zero_time_def
      ac_valid_def stored_def Let_def)

lemma an_apply_cases:
  obtains (same) "an_apply tn oper db = db"
  | (add) created minted author req where "oper = AoCreate False created minted author req" "ac_valid req"
      "an_apply tn oper db = db @ [stored created minted tn author req]" "minted \<notin> set (map an_ID db)"
  | (drop) i where "oper = AoDelete False i" "an_apply tn oper db = filter (\<lambda>r. \<not> an_hit tn i r) db"
proof (cases oper)
  case (AoCreate flt created minted author req)
  show thesis
  proof (cases "flt \<or> \<not> ac_valid req \<or> minted \<in> set (map an_ID db)")
    case True
    moreover have "snd (an_Create True created minted tn author req db) = db"
      by (auto simp: an_Create_def an_Insert_def split: option.split)
    ultimately show thesis using same AoCreate by (cases flt) (auto simp: an_Create_eq)
  next
    case False
    then show thesis using add AoCreate by (simp add: an_Create_eq)
  qed
next
  case (AoDelete flt i)
  then show thesis using same drop by (cases flt; cases "list_ex (an_hit tn i) db") (auto simp: an_Delete_def)
qed

lemma an_lookup_other: "tn \<noteq> tn' \<Longrightarrow> an_lookup tn i (an_apply tn' oper db) = an_lookup tn i db"
  by (cases rule: an_apply_cases [of tn' oper db])
    (auto simp: an_lookup_def an_hit_def stored_def intro!: find_append_untouched find_filter_untouched)

lemma an_apply_ok: "an_ok db \<Longrightarrow> an_ok (an_apply tn oper db)"
  by (cases rule: an_apply_cases [of tn oper db])
    (auto simp: an_ok_def stored_def ac_valid_def distinct_map inj_on_def list_all_iff)

interpretation an: tenant_table an_lookup an_apply an_ok
  by unfold_locales (simp_all add: an_lookup_other an_apply_ok)

definition an_run :: "(string \<times> an_op) list \<Rightarrow> an_db" where
  "an_run ops = fold (\<lambda>(tn, oper). an_apply tn oper) ops []"

lemma not_deleted:
  assumes "a \<in> set (an_apply tn oper db)"
  shows "(tn, oper) \<noteq> (an_TenantID a, AoDelete False (an_ID a))"
proof
  assume "(tn, oper) = (an_TenantID a, AoDelete False (an_ID a))"
  then have e: "tn = an_TenantID a" "oper = AoDelete False (an_ID a)" by simp_all
  have "\<not> an_hit tn (an_ID a) a"
    using assms unfolding e(2) an_apply.simps an_Delete_def list_ex_iff by (fastforce split: if_splits)
  then show False unfolding e(1) by (simp add: an_hit_def)
qed


section \<open>Instances\<close>

definition demo_note :: "AnCreateRequest" where
  "demo_note = \<lparr>ac_Scope = ''pop'', ac_ScopeID = ''pop-lhr-01'', ac_At = 3, ac_BodyMD = ''rolled forward''\<rparr>"


end
