(* ===== verification/AnomalyState.thy ===== *)
theory AnomalyState
  imports AnomalyDetect Catalog
begin

text \<open>
  Where the detector reads and writes (pkg/anomaly/store.go, series_source.go and evaluator.go).  The
  table \<open>anomaly_state\<close> has one row for each tenant, test and metric and checks the method and the
  severity; \<open>flt\<close> says whether the database fails a statement.  The ClickHouse connection is an
  argument.  A tick evaluates every enabled test; the log lines that matter are the transitions.
\<close>

section \<open>The store\<close>

record TestRef =
  rf_TenantID :: string
  rf_TestID :: string

record VerdictRow =
  vr_TenantID :: string
  vr_TestID :: string
  vr_Metric :: string
  vr_Method :: Method
  vr_Severity :: Severity
  vr_Suppressed :: bool
  vr_LastValue :: f64
  vr_Forecast :: f64
  vr_Residual :: f64
  vr_MAD :: f64
  vr_MADUnits :: f64
  vr_Reason :: reason
  vr_LastPointAt :: time
  vr_EvaluatedAt :: time

type_synonym verdict_db = "VerdictRow list"

definition ListEnabledTests :: "bool \<Rightarrow> tests_db \<Rightarrow> (anomaly_error, TestRef list) result" where
  "ListEnabledTests flt tests =
    (if flt then Inl (AnomalyDb ''list enabled tests'')
     else Inr (map (\<lambda>t. \<lparr>rf_TenantID = ts_TenantID t, rf_TestID = ts_ID t\<rparr>)
       (sort_key (\<lambda>t. (map byte (ts_TenantID t), map byte (ts_ID t))) (filter ts_Enabled tests))))"

definition vr_hit :: "string \<Rightarrow> string \<Rightarrow> string \<Rightarrow> VerdictRow \<Rightarrow> bool" where
  "vr_hit tenant test metric r = (vr_TenantID r = tenant \<and> vr_TestID r = test \<and> vr_Metric r = metric)"

definition vr_checked :: "VerdictRow \<Rightarrow> bool" where
  "vr_checked r =
    (vr_Method r \<in> {MethodHoltWinters, MethodSeasonalDecompose, MethodInsufficientData}
     \<and> vr_Severity r \<in> {SeverityNone, SeverityWatch, SeverityAnomaly, SeverityCritical})"

definition UpsertVerdict :: "bool \<Rightarrow> VerdictRow \<Rightarrow> verdict_db \<Rightarrow> anomaly_error option \<times> verdict_db" where
  "UpsertVerdict flt row db =
    (if vr_TenantID row = [] \<or> vr_TestID row = [] \<or> vr_Metric row = [] then (Some AnVerdictKey, db)
     else if flt \<or> \<not> vr_checked row then (Some (AnomalyDb ''upsert verdict''), db)
     else (let hit = vr_hit (vr_TenantID row) (vr_TestID row) (vr_Metric row)
           in (None, if list_ex hit db then map (\<lambda>r. if hit r then row else r) db else db @ [row])))"

definition ListVerdicts :: "bool \<Rightarrow> string \<Rightarrow> verdict_db \<Rightarrow> (anomaly_error, VerdictRow list) result" where
  "ListVerdicts flt tenant db =
    (if flt then Inl (AnomalyDb ''list verdicts'')
     else Inr (sort_key (\<lambda>r. (map byte (vr_TestID r), map byte (vr_Metric r))) (filter (\<lambda>r. vr_TenantID r = tenant) db)))"

definition GetVerdict :: "bool \<Rightarrow> string \<Rightarrow> string \<Rightarrow> string \<Rightarrow> verdict_db \<Rightarrow> (anomaly_error, VerdictRow) result" where
  "GetVerdict flt tenant test metric db =
    (if flt then Inl (AnomalyDb ''get verdict'')
     else (case find (vr_hit tenant test metric) db of None \<Rightarrow> Inl ErrVerdictNotFound | Some r \<Rightarrow> Inr r))"

section \<open>The series\<close>

definition MetricLatencyP95 :: string where "MetricLatencyP95 = ''latency_p95''"
definition MetricErrorRate :: string where "MetricErrorRate = ''error_rate''"

text \<open>\<open>int64(x)\<close> of a number in range.\<close>

definition f64_trunc :: "f64 \<Rightarrow> int" where
  "f64_trunc x = (case x of FFin r \<Rightarrow> if 0 \<le> r then \<lfloor>r\<rfloor> else \<lceil>r\<rceil> | _ \<Rightarrow> 0)"

definition series_lines :: "string list \<Rightarrow> string" where
  "series_lines ls = concat (map (\<lambda>l. CHR 0x0A # ''            '' @ l) ls)"

definition buildSeriesQuery :: "string \<Rightarrow> duration \<Rightarrow> duration \<Rightarrow> (anomaly_error, string) result" where
  "buildSeriesQuery metric window bucket =
    (let bucketSecs = f64_trunc (dur_Seconds bucket); windowSecs = f64_trunc (dur_Seconds window);
         text_of = (\<lambda>agg. series_lines
           [''SELECT toStartOfInterval(observed_at, INTERVAL '' @ itoa bucketSecs @ '' SECOND) AS bucket,'',
            ''       '' @ agg @ '' AS v'',
            ''FROM canary_results'',
            ''WHERE tenant_id = ?'',
            ''  AND test_id   = ?'',
            ''  AND observed_at >= now() - INTERVAL '' @ itoa windowSecs @ '' SECOND'',
            ''GROUP BY bucket'',
            ''ORDER BY bucket''])
     in if metric = MetricLatencyP95 then Inr (text_of ''quantile(0.95)(latency_ms)'')
        else if metric = MetricErrorRate then
          Inr (text_of (''countIf(error_kind != '' @ [CHR 0x27, CHR 0x27] @ '') / greatest(count(), 1)''))
        else Inl (AnUnsupportedMetric metric))"

type_synonym series_conn = "string \<Rightarrow> string \<Rightarrow> string \<Rightarrow> (anomaly_error, Point list) result"

definition ch_Series :: "series_conn option \<Rightarrow> duration \<Rightarrow> string \<Rightarrow> string \<Rightarrow> string \<Rightarrow> duration \<Rightarrow>
    (anomaly_error, Point list) result" where
  "ch_Series conn bucketDuration tenant test metric window =
    (case conn of
       None \<Rightarrow> Inl AnNilConn
     | Some query \<Rightarrow>
         if tenant = [] \<or> test = [] then Inl AnIdsRequired
         else if window \<le> 0 then Inl AnWindow
         else (let bucket = (if bucketDuration \<le> 0 then hour_ns else bucketDuration)
               in case buildSeriesQuery metric window bucket of
                    Inl e \<Rightarrow> Inl e
                  | Inr q \<Rightarrow> query q tenant test))"

section \<open>The evaluator\<close>

record EvaluatorConfig =
  ec_Interval :: duration
  ec_Window :: duration
  ec_Bucket :: duration
  ec_Metrics :: "string list"
  ec_DetectorConfig :: DetectConfig

definition evaluator_Defaults :: "EvaluatorConfig \<Rightarrow> EvaluatorConfig" where
  "evaluator_Defaults c =
    (let c = (if ec_Interval c \<le> 0 then c\<lparr>ec_Interval := 5 * minute_ns\<rparr> else c);
         c = (if ec_Window c \<le> 0 then c\<lparr>ec_Window := 7 * 24 * hour_ns\<rparr> else c);
         c = (if ec_Bucket c \<le> 0 then c\<lparr>ec_Bucket := hour_ns\<rparr> else c)
     in if ec_Metrics c = [] then c\<lparr>ec_Metrics := [MetricLatencyP95]\<rparr> else c)"

definition anomaly_NewEvaluator :: "bool \<Rightarrow> bool \<Rightarrow> bool \<Rightarrow> bool \<Rightarrow> EvaluatorConfig \<Rightarrow> (anomaly_error, EvaluatorConfig) result" where
  "anomaly_NewEvaluator logger reader writer source cfg =
    (if \<not> logger then Inl (AnNilDependency ''logger'')
     else if \<not> reader then Inl (AnNilDependency ''reader'')
     else if \<not> writer then Inl (AnNilDependency ''writer'')
     else if \<not> source then Inl (AnNilDependency ''source'')
     else Inr (evaluator_Defaults cfg))"

text \<open>The surroundings of a tick: which reads and writes fail, the source, the clock and the catalog.\<close>

record tick_env =
  te_listFault :: bool
  te_getFault :: "TestRef \<Rightarrow> string \<Rightarrow> bool"
  te_putFault :: "TestRef \<Rightarrow> string \<Rightarrow> bool"
  te_source :: "string \<Rightarrow> string \<Rightarrow> string \<Rightarrow> duration \<Rightarrow> (anomaly_error, Point list) result"
  te_now :: time
  te_tests :: tests_db

record transition =
  tx_TestRef :: TestRef
  tx_Metric :: string
  tx_From :: Severity
  tx_To :: Severity

type_synonym evaluation = "anomaly_error option \<times> transition list \<times> verdict_db"

definition recordTransition :: "bool \<Rightarrow> bool \<Rightarrow> VerdictRow \<Rightarrow> verdict_db \<Rightarrow> evaluation" where
  "recordTransition getFault putFault row db =
    (let prevSeverity = (case GetVerdict getFault (vr_TenantID row) (vr_TestID row) (vr_Metric row) db of
           Inr prev \<Rightarrow> vr_Severity prev | Inl _ \<Rightarrow> SeverityNone)
     in case UpsertVerdict putFault row db of
          (Some e, db') \<Rightarrow> (Some e, [], db')
        | (None, db') \<Rightarrow>
            (None,
             if vr_Severity row \<noteq> prevSeverity \<and> vr_Severity row \<noteq> SeverityNone
             then [\<lparr>tx_TestRef = \<lparr>rf_TenantID = vr_TenantID row, rf_TestID = vr_TestID row\<rparr>,
                    tx_Metric = vr_Metric row, tx_From = prevSeverity, tx_To = vr_Severity row\<rparr>]
             else [], db'))"

definition anomaly_EvaluateOne :: "EvaluatorConfig \<Rightarrow> tick_env \<Rightarrow> TestRef \<Rightarrow> string \<Rightarrow> verdict_db \<Rightarrow> evaluation" where
  "anomaly_EvaluateOne cfg env t metric db =
    (case te_source env (rf_TenantID t) (rf_TestID t) metric (ec_Window cfg) of
       Inl e \<Rightarrow> (Some e, [], db)
     | Inr series \<Rightarrow>
         if series = [] then
           recordTransition (te_getFault env t metric) (te_putFault env t metric)
             \<lparr>vr_TenantID = rf_TenantID t, vr_TestID = rf_TestID t, vr_Metric = metric,
              vr_Method = MethodInsufficientData, vr_Severity = SeverityNone, vr_Suppressed = False,
              vr_LastValue = 0, vr_Forecast = 0, vr_Residual = 0, vr_MAD = 0, vr_MADUnits = 0,
              vr_Reason = NoSamples, vr_LastPointAt = te_now env, vr_EvaluatedAt = te_now env\<rparr> db
         else
           (case Detect (te_now env) series (ec_DetectorConfig cfg) of
              Inl e \<Rightarrow> (Some e, [], db)
            | Inr v \<Rightarrow>
                recordTransition (te_getFault env t metric) (te_putFault env t metric)
                  \<lparr>vr_TenantID = rf_TenantID t, vr_TestID = rf_TestID t, vr_Metric = metric,
                   vr_Method = vd_Method v, vr_Severity = vd_Severity v, vr_Suppressed = vd_Suppressed v,
                   vr_LastValue = pt_Value (vd_LatestPoint v), vr_Forecast = vd_Forecast v,
                   vr_Residual = vd_Residual v, vr_MAD = vd_MAD v, vr_MADUnits = vd_MADUnits v,
                   vr_Reason = vd_Reason v, vr_LastPointAt = pt_At (vd_LatestPoint v),
                   vr_EvaluatedAt = te_now env\<rparr> db))"

definition tick_step :: "EvaluatorConfig \<Rightarrow> tick_env \<Rightarrow> TestRef \<times> string \<Rightarrow> transition list \<times> verdict_db \<Rightarrow>
    transition list \<times> verdict_db" where
  "tick_step cfg env tm s =
    (case anomaly_EvaluateOne cfg env (fst tm) (snd tm) (snd s) of (_, txs, db) \<Rightarrow> (fst s @ txs, db))"

text \<open>The two loops, one inside the other, over the tests and the metrics.\<close>

definition tick_pairs :: "EvaluatorConfig \<Rightarrow> TestRef list \<Rightarrow> (TestRef \<times> string) list" where
  "tick_pairs cfg refs = concat (map (\<lambda>t. map (\<lambda>m. (t, m)) (ec_Metrics cfg)) refs)"

definition anomaly_tick :: "EvaluatorConfig \<Rightarrow> tick_env \<Rightarrow> transition list \<times> verdict_db \<Rightarrow> transition list \<times> verdict_db" where
  "anomaly_tick cfg env s =
    (case ListEnabledTests (te_listFault env) (te_tests env) of
       Inl _ \<Rightarrow> s
     | Inr refs \<Rightarrow> fold (tick_step cfg env) (tick_pairs cfg refs) s)"

text \<open>\<open>Run\<close> ticks once and then at every tick of the clock, until its context ends.\<close>

definition anomaly_Run :: "EvaluatorConfig \<Rightarrow> tick_env \<Rightarrow> tick_env list \<Rightarrow> verdict_db \<Rightarrow> transition list \<times> verdict_db" where
  "anomaly_Run cfg first ticks db = fold (anomaly_tick cfg) (first # ticks) ([], db)"

section \<open>What a tick leaves\<close>

definition verdict_lookup :: "TestRef \<Rightarrow> string \<Rightarrow> verdict_db \<Rightarrow> VerdictRow option" where
  "verdict_lookup t m db = find (vr_hit (rf_TenantID t) (rf_TestID t) m) db"

lemma UpsertVerdict_lookup:
  assumes "UpsertVerdict flt row db = (None, db')"
  shows "verdict_lookup t m db' =
    (if vr_TenantID row = rf_TenantID t \<and> vr_TestID row = rf_TestID t \<and> vr_Metric row = m then Some row
     else verdict_lookup t m db)"
proof -
  define hit where "hit = vr_hit (vr_TenantID row) (vr_TestID row) (vr_Metric row)"
  define P where "P = vr_hit (rf_TenantID t) (rf_TestID t) m"
  have db': "db' = (if list_ex hit db then map (\<lambda>r. if hit r then row else r) db else db @ [row])"
    using assms by (auto simp: UpsertVerdict_def Let_def hit_def split: if_splits)
  show ?thesis
  proof (cases "vr_TenantID row = rf_TenantID t \<and> vr_TestID row = rf_TestID t \<and> vr_Metric row = m")
    case True
    then have "P = hit" "hit row" by (simp_all add: P_def hit_def vr_hit_def)
    have "find P db' = Some row"
      unfolding db' \<open>P = hit\<close> using \<open>hit row\<close> by (induction db) auto
    then show ?thesis using True by (simp add: verdict_lookup_def P_def)
  next
    case False
    then have p: "\<not> P row" "\<And>r. hit r \<Longrightarrow> \<not> P r" by (auto simp: P_def hit_def vr_hit_def)
    have "find P (map (\<lambda>r. if hit r then row else r) db) = find P db"
      by (rule find_map_untouched) (use p in auto)
    then have "find P db' = find P db" unfolding db' using p by (simp add: find_append_untouched)
    then show ?thesis unfolding verdict_lookup_def P_def by (simp only: False if_False)
  qed
qed

text \<open>The row that an evaluation is to write, and whether it does.\<close>

definition verdict_row :: "EvaluatorConfig \<Rightarrow> tick_env \<Rightarrow> TestRef \<Rightarrow> string \<Rightarrow> (anomaly_error, VerdictRow) result" where
  "verdict_row cfg env t metric =
    (case te_source env (rf_TenantID t) (rf_TestID t) metric (ec_Window cfg) of
       Inl e \<Rightarrow> Inl e
     | Inr [] \<Rightarrow>
         Inr \<lparr>vr_TenantID = rf_TenantID t, vr_TestID = rf_TestID t, vr_Metric = metric,
              vr_Method = MethodInsufficientData, vr_Severity = SeverityNone, vr_Suppressed = False,
              vr_LastValue = 0, vr_Forecast = 0, vr_Residual = 0, vr_MAD = 0, vr_MADUnits = 0,
              vr_Reason = NoSamples, vr_LastPointAt = te_now env, vr_EvaluatedAt = te_now env\<rparr>
     | Inr series \<Rightarrow>
         map_sum id (\<lambda>v. \<lparr>vr_TenantID = rf_TenantID t, vr_TestID = rf_TestID t, vr_Metric = metric,
                   vr_Method = vd_Method v, vr_Severity = vd_Severity v, vr_Suppressed = vd_Suppressed v,
                   vr_LastValue = pt_Value (vd_LatestPoint v), vr_Forecast = vd_Forecast v,
                   vr_Residual = vd_Residual v, vr_MAD = vd_MAD v, vr_MADUnits = vd_MADUnits v,
                   vr_Reason = vd_Reason v, vr_LastPointAt = pt_At (vd_LatestPoint v),
                   vr_EvaluatedAt = te_now env\<rparr>) (Detect (te_now env) series (ec_DetectorConfig cfg)))"

lemma EvaluateOne_row:
  "anomaly_EvaluateOne cfg env t m db =
    (case verdict_row cfg env t m of
       Inl e \<Rightarrow> (Some e, [], db)
     | Inr row \<Rightarrow> recordTransition (te_getFault env t m) (te_putFault env t m) row db)"
  by (auto simp: anomaly_EvaluateOne_def verdict_row_def split: sum.split list.split)

lemma verdict_row_key:
  assumes "verdict_row cfg env t m = Inr row"
  shows "vr_TenantID row = rf_TenantID t \<and> vr_TestID row = rf_TestID t \<and> vr_Metric row = m \<and> vr_checked row"
proof (cases "te_source env (rf_TenantID t) (rf_TestID t) m (ec_Window cfg)")
  case (Inr series)
  show ?thesis
  proof (cases series)
    case Nil
    then show ?thesis using assms Inr by (auto simp: verdict_row_def vr_checked_def)
  next
    case (Cons p ps)
    then obtain v where v: "Detect (te_now env) series (ec_DetectorConfig cfg) = Inr v"
      using assms Inr by (cases "Detect (te_now env) series (ec_DetectorConfig cfg)") (auto simp: verdict_row_def)
    show ?thesis using assms Inr Cons v Detect_labels [OF v] by (auto simp: verdict_row_def vr_checked_def)
  qed
qed (use assms in \<open>simp add: verdict_row_def\<close>)

definition written :: "EvaluatorConfig \<Rightarrow> tick_env \<Rightarrow> TestRef \<Rightarrow> string \<Rightarrow> VerdictRow option" where
  "written cfg env t m =
    (case verdict_row cfg env t m of
       Inl _ \<Rightarrow> None
     | Inr row \<Rightarrow> if te_putFault env t m \<or> rf_TenantID t = [] \<or> rf_TestID t = [] \<or> m = [] then None else Some row)"

lemma EvaluateOne_lookup:
  "verdict_lookup t' m' (snd (snd (anomaly_EvaluateOne cfg env t m db))) =
    (case written cfg env t m of
       Some row \<Rightarrow> if t' = t \<and> m' = m then Some row else verdict_lookup t' m' db
     | None \<Rightarrow> verdict_lookup t' m' db)"
proof (cases "verdict_row cfg env t m")
  case (Inl e)
  then show ?thesis by (simp add: EvaluateOne_row written_def)
next
  case (Inr row)
  note key = verdict_row_key [OF Inr]
  obtain e db' where u: "UpsertVerdict (te_putFault env t m) row db = (e, db')" by fastforce
  have db': "snd (snd (anomaly_EvaluateOne cfg env t m db)) = db'"
    using Inr u by (simp add: EvaluateOne_row recordTransition_def Let_def split: option.split)
  show ?thesis
  proof (cases "written cfg env t m")
    case None
    then have "db' = db" using u key Inr by (auto simp: written_def UpsertVerdict_def split: if_splits)
    then show ?thesis using None db' by simp
  next
    case (Some r)
    then have "r = row" "e = None"
      using u key Inr by (auto simp: written_def UpsertVerdict_def Let_def split: if_splits)
    then have "UpsertVerdict (te_putFault env t m) row db = (None, db')" using u by simp
    from UpsertVerdict_lookup [OF this, of t' m'] show ?thesis
      unfolding db' using key Some \<open>r = row\<close> by (cases t; cases t') auto
  qed
qed

lemma fold_tick_lookup:
  "verdict_lookup t m (snd (fold (tick_step cfg env) ps s)) =
    (if (t, m) \<in> set ps \<and> written cfg env t m \<noteq> None then written cfg env t m else verdict_lookup t m (snd s))"
proof (induction ps arbitrary: s)
  case (Cons p ps)
  obtain t' m' where p: "p = (t', m')" by (cases p)
  have "verdict_lookup t m (snd (tick_step cfg env p s)) =
      (if (t, m) = p \<and> written cfg env t m \<noteq> None then written cfg env t m else verdict_lookup t m (snd s))"
    using EvaluateOne_lookup [of t m cfg env t' m' "snd s"]
    by (auto simp: tick_step_def p split: prod.split option.splits)
  then show ?case by (auto simp: Cons.IH)
qed simp

text \<open>C13 (refinement).  A tick is, test by test and metric by metric, independent: the verdict of an
  enabled test is replaced by the one on its series whenever that series could be read and the write
  did not fail, and every other verdict stays as it was, whatever goes wrong with the rest.\<close>

theorem anomaly_tick_pointwise:
  "verdict_lookup t m (snd (anomaly_tick cfg env s)) =
    (if \<not> te_listFault env \<and> (\<exists>x \<in> set (te_tests env). ts_Enabled x \<and> t = \<lparr>rf_TenantID = ts_TenantID x, rf_TestID = ts_ID x\<rparr>)
        \<and> m \<in> set (ec_Metrics cfg) \<and> written cfg env t m \<noteq> None
     then written cfg env t m else verdict_lookup t m (snd s))"
proof (cases "te_listFault env")
  case False
  define refs where "refs = map (\<lambda>t. \<lparr>rf_TenantID = ts_TenantID t, rf_TestID = ts_ID t\<rparr>)
       (sort_key (\<lambda>t. (map byte (ts_TenantID t), map byte (ts_ID t))) (filter ts_Enabled (te_tests env)))"
  have tick: "anomaly_tick cfg env s = fold (tick_step cfg env) (tick_pairs cfg refs) s"
    using False by (simp add: anomaly_tick_def ListEnabledTests_def refs_def)
  have "(t, m) \<in> set (tick_pairs cfg refs) \<longleftrightarrow>
      (\<exists>x \<in> set (te_tests env). ts_Enabled x \<and> t = \<lparr>rf_TenantID = ts_TenantID x, rf_TestID = ts_ID x\<rparr>) \<and> m \<in> set (ec_Metrics cfg)"
    by (auto simp: tick_pairs_def refs_def)
  then show ?thesis using False by (simp add: tick fold_tick_lookup)
qed (simp add: anomaly_tick_def ListEnabledTests_def)

end
