(* ===== verification/ApiHandlers.thy ===== *)
theory ApiHandlers
  imports Catalog Workspaces Annotations SloStore AnomalyState AuthService
begin

text \<open>
  The handlers of pkg/api for workspaces, annotations, objectives, verdicts, sessions and the health
  of the server.  The fault and the clock of the database are arguments, as in the stores; the parser
  of times is the argument \<open>parse_time\<close>.
\<close>

section \<open>Workspaces\<close>

definition listWorkspacesHandler :: "bool \<Rightarrow> nat option \<Rightarrow> User option \<Rightarrow> ws_db \<Rightarrow> (ws_error, Workspace list) reply" where
  "listWorkspacesHandler flt broken user db = with_user user (\<lambda>u.
    case ws_List flt broken (u_TenantID u) db of
      Inl e \<Rightarrow> Failed 500 ''list workspaces: '' e
    | Inr out \<Rightarrow> Json 200 out)"

definition createWorkspaceHandler :: "bool \<Rightarrow> time \<Rightarrow> string \<Rightarrow> User option \<Rightarrow> WsCreateRequest option \<Rightarrow> ws_db \<Rightarrow>
    (ws_error, Workspace) reply \<times> ws_db" where
  "createWorkspaceHandler flt created minted user body = with_user_st user (\<lambda>u. with_body body (\<lambda>req db.
    case ws_Create flt created minted (u_TenantID u) (u_ID u) req db of
      (Inl e, db') \<Rightarrow>
        (case e of ErrInvalidWorkspace _ \<Rightarrow> Failed 400 [] e | _ \<Rightarrow> Failed 500 ''create workspace: '' e, db')
    | (Inr out, db') \<Rightarrow> (Json 201 out, db')))"

definition getWorkspaceHandler :: "bool \<Rightarrow> User option \<Rightarrow> string \<Rightarrow> ws_db \<Rightarrow> (ws_error, Workspace) reply" where
  "getWorkspaceHandler flt user i db = with_user user (\<lambda>u. with_id i
    (case ws_Get flt (u_TenantID u) i db of
       Inl e \<Rightarrow> if e = ErrWorkspaceNotFound then Plain 404 ''not found'' else Failed 500 ''get workspace: '' e
     | Inr out \<Rightarrow> Json 200 out))"

text \<open>The switch over the error of an update or a share.\<close>

definition ws_failure :: "string \<Rightarrow> ws_error \<Rightarrow> (ws_error, 'a) reply" where
  "ws_failure what e =
    (case e of
       ErrWorkspaceNotFound \<Rightarrow> Plain 404 ''not found''
     | ErrInvalidWorkspace _ \<Rightarrow> Failed 400 [] e
     | _ \<Rightarrow> Failed 500 what e)"

definition ws_reply :: "string \<Rightarrow> (ws_error, Workspace) result \<times> ws_db \<Rightarrow> (ws_error, Workspace) reply \<times> ws_db" where
  "ws_reply what r = (case r of (Inl e, db) \<Rightarrow> (ws_failure what e, db) | (Inr out, db) \<Rightarrow> (Json 200 out, db))"

definition updateWorkspaceHandler :: "bool \<Rightarrow> time \<Rightarrow> User option \<Rightarrow> string \<Rightarrow> WsUpdateRequest option \<Rightarrow> ws_db \<Rightarrow>
    (ws_error, Workspace) reply \<times> ws_db" where
  "updateWorkspaceHandler flt now user i body = with_user_st user (\<lambda>u. with_id_st i (with_body body (\<lambda>req db.
    ws_reply ''update workspace: '' (ws_Service_Update flt now (u_TenantID u) i req db))))"

definition deleteWorkspaceHandler :: "bool \<Rightarrow> User option \<Rightarrow> string \<Rightarrow> ws_db \<Rightarrow> (ws_error, unit) reply \<times> ws_db" where
  "deleteWorkspaceHandler flt user i = with_user_st user (\<lambda>u. with_id_st i (\<lambda>db.
    case ws_Delete flt (u_TenantID u) i db of
      (Some e, db') \<Rightarrow>
        (if e = ErrWorkspaceNotFound then Plain 404 ''not found'' else Failed 500 ''delete workspace: '' e, db')
    | (None, db') \<Rightarrow> (Empty 204, db')))"

text \<open>\<open>ttlSeconds\<close> is the field after the attempt to decode the body, whose error is dropped: zero when
  there was none.  The product of the two \<open>time.Duration\<close> values wraps around.\<close>

definition shareWorkspaceHandler :: "bool \<Rightarrow> time \<Rightarrow> time \<Rightarrow> string option \<Rightarrow> User option \<Rightarrow> string \<Rightarrow> int \<Rightarrow> ws_db \<Rightarrow>
    (ws_error, Workspace) reply \<times> ws_db" where
  "shareWorkspaceHandler flt dbnow now minted user i ttlSeconds = with_user_st user (\<lambda>u. with_id_st i (\<lambda>db.
    ws_reply ''share workspace: ''
      (ws_Share flt dbnow now minted (u_TenantID u) i (wrap64 (ttlSeconds * second_ns)) db)))"

definition unshareWorkspaceHandler :: "bool \<Rightarrow> time \<Rightarrow> User option \<Rightarrow> string \<Rightarrow> ws_db \<Rightarrow> (ws_error, Workspace) reply \<times> ws_db" where
  "unshareWorkspaceHandler flt dbnow user i = with_user_st user (\<lambda>u. with_id_st i (\<lambda>db.
    case ws_Unshare flt dbnow (u_TenantID u) i db of
      (Inl e, db') \<Rightarrow>
        (if e = ErrWorkspaceNotFound then Plain 404 ''not found'' else Failed 500 ''unshare workspace: '' e, db')
    | (Inr out, db') \<Rightarrow> (Json 200 out, db')))"

definition resolveShareHandler :: "bool \<Rightarrow> time \<Rightarrow> string \<Rightarrow> ws_db \<Rightarrow> (ws_error, Workspace) reply" where
  "resolveShareHandler flt now slug db =
    (if slug = [] then Plain 400 ''slug required''
     else (case ws_Resolve flt now slug db of
             Inl e \<Rightarrow> if e = ErrShareNotFound then Plain 404 ''not found or expired'' else Failed 500 ''resolve share: '' e
           | Inr out \<Rightarrow> Json 200 (public_view out)))"

section \<open>Annotations\<close>

text \<open>The query parameters, each empty when it is not given.\<close>

record an_params =
  aq_scope :: string
  aq_scope_id :: string
  aq_from :: string
  aq_to :: string
  aq_limit :: string

definition opt_param :: "string \<Rightarrow> (string \<Rightarrow> 'a option) \<Rightarrow> 'a option option" where
  "opt_param s parse = (if s = [] then Some None else map_option Some (parse s))"

definition listAnnotationsHandler :: "(string \<Rightarrow> time option) \<Rightarrow> bool \<Rightarrow> nat option \<Rightarrow> User option \<Rightarrow> an_params \<Rightarrow> an_db \<Rightarrow>
    (an_error, Annotation list) reply" where
  "listAnnotationsHandler parse_time flt broken user q db = with_user user (\<lambda>u.
    case opt_param (aq_from q) parse_time of None \<Rightarrow> Plain 400 ''bad from: '' | Some from \<Rightarrow>
    (case opt_param (aq_to q) parse_time of None \<Rightarrow> Plain 400 ''bad to: '' | Some until \<Rightarrow>
    (case opt_param (aq_limit q) (\<lambda>s. case atoi s of Some n \<Rightarrow> if n < 0 then None else Some n | None \<Rightarrow> None) of
       None \<Rightarrow> Plain 400 ''bad limit''
     | Some n \<Rightarrow>
        (case an_Service_List flt broken (u_TenantID u)
             \<lparr>lf_Scope = aq_scope q, lf_ScopeID = aq_scope_id q, lf_From = from, lf_To = until,
              lf_Limit = (case n of None \<Rightarrow> 0 | Some n \<Rightarrow> n)\<rparr> db of
           Inl e \<Rightarrow> (case e of ErrInvalidAnnotation _ \<Rightarrow> Failed 400 [] e | _ \<Rightarrow> Failed 500 ''list annotations: '' e)
         | Inr out \<Rightarrow> Json 200 out))))"

definition createAnnotationHandler :: "bool \<Rightarrow> time \<Rightarrow> string \<Rightarrow> User option \<Rightarrow> AnCreateRequest option \<Rightarrow> an_db \<Rightarrow>
    (an_error, Annotation) reply \<times> an_db" where
  "createAnnotationHandler flt created minted user body = with_user_st user (\<lambda>u. with_body body (\<lambda>req db.
    case an_Create flt created minted (u_TenantID u) (u_ID u) req db of
      (Inl e, db') \<Rightarrow>
        (case e of ErrInvalidAnnotation _ \<Rightarrow> Failed 400 [] e | _ \<Rightarrow> Failed 500 ''create annotation: '' e, db')
    | (Inr out, db') \<Rightarrow> (Json 201 out, db')))"

definition getAnnotationHandler :: "bool \<Rightarrow> User option \<Rightarrow> string \<Rightarrow> an_db \<Rightarrow> (an_error, Annotation) reply" where
  "getAnnotationHandler flt user i db = with_user user (\<lambda>u. with_id i
    (case an_Get flt (u_TenantID u) i db of
       Inl e \<Rightarrow> if e = ErrAnnotationNotFound then Plain 404 ''not found'' else Failed 500 ''get annotation: '' e
     | Inr out \<Rightarrow> Json 200 out))"

definition deleteAnnotationHandler :: "bool \<Rightarrow> User option \<Rightarrow> string \<Rightarrow> an_db \<Rightarrow> (an_error, unit) reply \<times> an_db" where
  "deleteAnnotationHandler flt user i = with_user_st user (\<lambda>u. with_id_st i (\<lambda>db.
    case an_Delete flt (u_TenantID u) i db of
      (Some e, db') \<Rightarrow>
        (if e = ErrAnnotationNotFound then Plain 404 ''not found'' else Failed 500 ''delete annotation: '' e, db')
    | (None, db') \<Rightarrow> (Empty 204, db')))"

section \<open>Objectives\<close>

record sloRequest =
  sq_Name :: string
  sq_Description :: string
  sq_SLIKind :: string
  sq_SLIFilter :: "(string \<times> json_any) list"
  sq_ObjectivePct :: f64
  sq_WindowSeconds :: int
  sq_FastBurnThreshold :: f64
  sq_SlowBurnThreshold :: f64
  sq_NotifierURL :: string
  sq_Enabled :: "bool option"

record sloStateBlock =
  sb_LastEvaluatedAt :: time
  sb_LastStatus :: Status
  sb_LastBurnRate :: f64
  sb_LastAlertedAt :: "time option"

text \<open>The response has the fields of an \<open>SLO\<close> and the block of its state.\<close>

record sloResponse =
  sx_SLO :: SLO
  sx_State :: "sloStateBlock option"

definition toSLOResponse :: "SLO \<Rightarrow> sloResponse" where
  "toSLOResponse s = \<lparr>sx_SLO = s, sx_State = None\<rparr>"

definition toSLOWithStateResponse :: "WithState \<Rightarrow> sloResponse" where
  "toSLOWithStateResponse s =
    (let r = toSLOResponse (ws_SLO s)
     in if ws_HasState s then
          r\<lparr>sx_State := Some
             \<lparr>sb_LastEvaluatedAt = st_LastEvaluatedAt (ws_State s), sb_LastStatus = st_LastStatus (ws_State s),
              sb_LastBurnRate = st_LastBurnRate (ws_State s),
              sb_LastAlertedAt = (if is_zero_time (st_LastAlertedAt (ws_State s)) then None
                                  else Some (st_LastAlertedAt (ws_State s)))\<rparr>\<rparr>
        else r)"

definition sli_kind :: "string \<Rightarrow> SLIKind" where
  "sli_kind s = (if s = ''canary_success'' then SLIKindCanarySuccess else SLIKindOther s)"

datatype slo_http_error = SloErr slo_error | IdGen

definition listSLOsHandler :: "bool \<Rightarrow> User option \<Rightarrow> slo_db \<Rightarrow> (slo_http_error, sloResponse list) reply" where
  "listSLOsHandler flt user db = with_user user (\<lambda>u.
    case ListSLOsWithState flt (u_TenantID u) db of
      Inl e \<Rightarrow> Failed 500 ''list slos: '' (SloErr e)
    | Inr out \<Rightarrow> Json 200 (map toSLOWithStateResponse out))"

definition createSLOHandler :: "bool \<Rightarrow> time \<Rightarrow> int list option \<Rightarrow> User option \<Rightarrow> sloRequest option \<Rightarrow> slo_db \<Rightarrow>
    (slo_http_error, sloResponse) reply \<times> slo_db" where
  "createSLOHandler flt created entropy user body = with_user_st user (\<lambda>u. with_body body (\<lambda>req db.
    let fastT = (if f64_le (sq_FastBurnThreshold req) 0 then fl (144 / 10) else sq_FastBurnThreshold req);
        slowT = (if f64_le (sq_SlowBurnThreshold req) 0 then fl 6 else sq_SlowBurnThreshold req);
        enabled = (case sq_Enabled req of None \<Rightarrow> True | Some e \<Rightarrow> e)
    in case api_newPrefixedID ''slo'' entropy of
         None \<Rightarrow> (Failed 500 ''id gen: '' IdGen, db)
       | Some i \<Rightarrow>
           (case CreateSLO flt created
                \<lparr>slo_ID = i, slo_TenantID = u_TenantID u, slo_Name = sq_Name req, slo_Description = sq_Description req,
                 slo_SLIKind = sli_kind (sq_SLIKind req), slo_SLIFilter = sq_SLIFilter req,
                 slo_ObjectivePct = sq_ObjectivePct req, slo_WindowSeconds = sq_WindowSeconds req,
                 slo_FastBurnThreshold = fastT, slo_SlowBurnThreshold = slowT, slo_NotifierURL = sq_NotifierURL req,
                 slo_Enabled = enabled, slo_CreatedAt = 0\<rparr> db of
              (Inl e, db') \<Rightarrow>
                (case e of
                   ErrInvalidSLO _ \<Rightarrow> Failed 400 [] (SloErr e)
                 | ErrUnsupportedSLI _ \<Rightarrow> Failed 400 [] (SloErr e)
                 | _ \<Rightarrow> Failed 500 ''create slo: '' (SloErr e), db')
            | (Inr out, db') \<Rightarrow> (Json 201 (toSLOResponse out), db'))))"

definition getSLOHandler :: "bool \<Rightarrow> User option \<Rightarrow> string \<Rightarrow> slo_db \<Rightarrow> (slo_http_error, sloResponse) reply" where
  "getSLOHandler flt user i db = with_user user (\<lambda>u. with_id i
    (case GetSLO flt (u_TenantID u) i db of
       Inl e \<Rightarrow> if e = ErrSLONotFound then Plain 404 ''not found'' else Failed 500 ''get slo: '' (SloErr e)
     | Inr out \<Rightarrow> Json 200 (toSLOResponse out)))"

definition deleteSLOHandler :: "bool \<Rightarrow> User option \<Rightarrow> string \<Rightarrow> slo_db \<Rightarrow> (slo_http_error, unit) reply \<times> slo_db" where
  "deleteSLOHandler flt user i = with_user_st user (\<lambda>u. with_id_st i (\<lambda>db.
    case DeleteSLO flt (u_TenantID u) i db of
      (Some e, db') \<Rightarrow>
        (if e = ErrSLONotFound then Plain 404 ''not found'' else Failed 500 ''delete slo: '' (SloErr e), db')
    | (None, db') \<Rightarrow> (Empty 204, db')))"

section \<open>Verdicts\<close>

text \<open>The response has the fields of a \<open>VerdictRow\<close>.\<close>

definition toAnomalyResponse :: "VerdictRow \<Rightarrow> VerdictRow" where
  "toAnomalyResponse v = v"

definition listAnomalyStateHandler :: "bool \<Rightarrow> User option \<Rightarrow> verdict_db \<Rightarrow> (anomaly_error, VerdictRow list) reply" where
  "listAnomalyStateHandler flt user db = with_user user (\<lambda>u.
    case ListVerdicts flt (u_TenantID u) db of
      Inl e \<Rightarrow> Failed 500 ''list anomaly state: '' e
    | Inr rows \<Rightarrow> Json 200 (map toAnomalyResponse rows))"

definition verdict_reply :: "(anomaly_error, VerdictRow) result \<Rightarrow> (anomaly_error, VerdictRow) reply" where
  "verdict_reply r =
    (case r of
       Inl e \<Rightarrow> if e = ErrVerdictNotFound then Plain 404 ''anomaly verdict not found'' else Failed 500 ''get anomaly verdict: '' e
     | Inr row \<Rightarrow> Json 200 (toAnomalyResponse row))"

definition getAnomalyForTestHandler :: "bool \<Rightarrow> User option \<Rightarrow> string \<Rightarrow> verdict_db \<Rightarrow> (anomaly_error, VerdictRow) reply" where
  "getAnomalyForTestHandler flt user testID db = with_user user (\<lambda>u.
    if testID = [] then Plain 400 ''missing test id''
    else verdict_reply (GetVerdict flt (u_TenantID u) testID MetricLatencyP95 db))"

definition getAnomalyForTestMetricHandler :: "bool \<Rightarrow> User option \<Rightarrow> string \<Rightarrow> string \<Rightarrow> verdict_db \<Rightarrow>
    (anomaly_error, VerdictRow) reply" where
  "getAnomalyForTestMetricHandler flt user testID metric db = with_user user (\<lambda>u.
    if testID = [] \<or> metric = [] then Plain 400 ''missing test id or metric''
    else verdict_reply (GetVerdict flt (u_TenantID u) testID metric db))"

section \<open>Sessions\<close>

record loginRequest =
  lq_TenantID :: string
  lq_Email :: string
  lq_Password :: string

record userResponse =
  ux_ID :: string
  ux_TenantID :: string
  ux_Email :: string
  ux_Role :: Role

definition user_response :: "User \<Rightarrow> userResponse" where
  "user_response u = \<lparr>ux_ID = u_ID u, ux_TenantID = u_TenantID u, ux_Email = u_Email u, ux_Role = u_Role u\<rparr>"

text \<open>\<open>now\<close>, \<open>seen\<close> and \<open>issued\<close> are the clock at the login, at the look-up that follows it and when the
  cookie is written.\<close>

definition loginHandler :: "Service \<Rightarrow> 's Store \<Rightarrow> int list option \<Rightarrow> time \<Rightarrow> time \<Rightarrow> time \<Rightarrow> loginRequest option \<Rightarrow> 's \<Rightarrow>
    ((auth_error, userResponse) reply \<times> Cookie option) \<times> 's" where
  "loginHandler svc st entropy now seen issued body s =
    (case body of
       None \<Rightarrow> ((Plain 400 ''invalid JSON body'', None), s)
     | Some req \<Rightarrow>
         if lq_TenantID req = [] \<or> lq_Email req = [] \<or> lq_Password req = []
         then ((Plain 400 ''tenant_id, email, and password are required'', None), s)
         else
           (case Login svc st entropy now (lq_TenantID req) (lq_Email req) (lq_Password req) s of
              (Inl e, s') \<Rightarrow>
                ((if e = ErrInvalidCredentials then Plain 401 ''invalid credentials'' else Plain 500 ''internal error'', None), s')
            | (Inr sess, s') \<Rightarrow>
                (case Whoami st (ses_ID sess) seen s' of
                   Inl _ \<Rightarrow> ((Plain 500 ''internal error'', None), s')
                 | Inr user \<Rightarrow> ((Json 200 (user_response user), Some (SetSessionCookie issued sess)), s'))))"

definition logoutHandler :: "'s Store \<Rightarrow> (string \<times> string) list \<Rightarrow> 's \<Rightarrow> ((auth_error, unit) reply \<times> Cookie option) \<times> 's" where
  "logoutHandler st cookies s =
    ((Empty 204, Some ClearSessionCookie), snd (Logout st (SessionIDFromRequest cookies) s))"

definition whoamiHandler :: "User option \<Rightarrow> (auth_error, userResponse) reply" where
  "whoamiHandler user = with_user user (\<lambda>u. Json 200 (user_response u))"

section \<open>Health\<close>

record healthResponse =
  hx_Status :: string
  hx_Version :: string
  hx_Commit :: string
  hx_Built :: string
  hx_Backends :: "(string \<times> string) list"

text \<open>\<open>ping\<close> is the error of the probe.\<close>

definition healthHandler :: "string \<Rightarrow> string \<Rightarrow> string \<Rightarrow> string option \<Rightarrow> (string, healthResponse) reply" where
  "healthHandler version commit built ping =
    Json 200 \<lparr>hx_Status = ''ok'', hx_Version = version, hx_Commit = commit, hx_Built = built,
      hx_Backends = [(''postgres'', case ping of Some e \<Rightarrow> ''down: '' @ e | None \<Rightarrow> ''up'')]\<rparr>"

end
