(* ===== verification/ApiQuery.thy ===== *)
theory ApiQuery
  imports NetqlParse NetqlClickHouse NetqlProm Ingest Http
begin

text \<open>
  The handlers of pkg/api that query the measurements: netql.go and results.go.  The ClickHouse
  connection that executes a translated query is an argument; the fixed query for the results of a
  test reads the table that the ingest consumer fills.
\<close>

section \<open>netql\<close>

record netqlTranslateResponse =
  nx_Backend :: Backend
  nx_Metric :: string
  nx_SQL :: string
  nx_PromQL :: string
  nx_Args :: "Arg list"

definition compileNetQL :: "string \<Rightarrow> Registry \<Rightarrow> string \<Rightarrow> (netql_error, netqlTranslateResponse) result" where
  "compileNetQL query reg tenantID =
    (case Parse query of
       Inl e \<Rightarrow> Inl e
     | Inr q \<Rightarrow>
         (case Check (Some q) (Some reg) of
            Some e \<Rightarrow> Inl e
          | None \<Rightarrow>
              (let spec = the (reg_Get reg (q_Metric q));
                   out = \<lparr>nx_Backend = ms_Backend spec, nx_Metric = ms_Name spec, nx_SQL = [], nx_PromQL = [], nx_Args = []\<rparr>
               in case ms_Backend spec of
                    BackendClickHouse \<Rightarrow>
                      (case TranslateClickHouse (Some q) (Some reg) tenantID of
                         Inl e \<Rightarrow> Inl e
                       | Inr t \<Rightarrow> Inr (out\<lparr>nx_SQL := tr_SQL t, nx_Args := tr_Args t\<rparr>))
                  | BackendPrometheus \<Rightarrow>
                      (case TranslatePrometheus (Some q) (Some reg) of
                         Inl e \<Rightarrow> Inl e
                       | Inr s \<Rightarrow> Inr (out\<lparr>nx_PromQL := s\<rparr>)))))"

definition netqlError :: "netql_error \<Rightarrow> (netql_error, 'a) reply" where
  "netqlError e =
    (case e of
       LexError _ _ \<Rightarrow> Failed 400 [] e
     | ParseError _ _ _ \<Rightarrow> Failed 400 [] e
     | TypeError _ \<Rightarrow> Failed 400 [] e
     | TranslateError _ \<Rightarrow> Failed 422 [] e
     | _ \<Rightarrow> Failed 500 ''netql: '' e)"

definition netqlTranslateHandler :: "Registry \<Rightarrow> User option \<Rightarrow> string option \<Rightarrow>
    (netql_error, netqlTranslateResponse) reply" where
  "netqlTranslateHandler reg user body = with_user user (\<lambda>u.
    case body of
      None \<Rightarrow> Plain 400 ''invalid JSON body''
    | Some query \<Rightarrow>
        (case compileNetQL query reg (u_TenantID u) of
           Inl e \<Rightarrow> netqlError e
         | Inr out \<Rightarrow> Json 200 out))"

datatype 'v execute_body = Executed netqlTranslateResponse "string list" "'v list list"
  | TranslatedOnly netqlTranslateResponse

datatype execute_error = NetqlErr netql_error | ChErr string

definition executeClickHouse :: "(string \<Rightarrow> Arg list \<Rightarrow> (string, string list \<times> 'v list list) result) \<Rightarrow> string \<Rightarrow> Arg list \<Rightarrow>
    (execute_error, string list \<times> 'v list list) result" where
  "executeClickHouse ch sql args = map_sum ChErr id (ch sql args)"

definition netqlExecuteHandler :: "Registry \<Rightarrow> (string \<Rightarrow> Arg list \<Rightarrow> (string, string list \<times> 'v list list) result) \<Rightarrow>
    User option \<Rightarrow> string option \<Rightarrow> (execute_error, 'v execute_body) reply" where
  "netqlExecuteHandler reg ch user body = with_user user (\<lambda>u.
    case body of
      None \<Rightarrow> Plain 400 ''invalid JSON body''
    | Some query \<Rightarrow>
        (case compileNetQL query reg (u_TenantID u) of
           Inl e \<Rightarrow> Failed (reply_status (netqlError e :: (netql_error, unit) reply))
             (case (netqlError e :: (netql_error, unit) reply) of Failed _ p _ \<Rightarrow> p | _ \<Rightarrow> []) (NetqlErr e)
         | Inr tr \<Rightarrow>
             if nx_Backend tr \<noteq> BackendClickHouse then Json 501 (TranslatedOnly tr)
             else (case executeClickHouse ch (nx_SQL tr) (nx_Args tr) of
                     Inl e \<Rightarrow> Failed 500 ''execute: '' e
                   | Inr (columns, rows) \<Rightarrow> Json 200 (Executed tr columns rows))))"

section \<open>Results of a test\<close>

record resultRow =
  rr_TestID :: string
  rr_PopID :: string
  rr_ObservedAt :: time
  rr_LatencyMs :: f64
  rr_DNSMs :: f64
  rr_ConnectMs :: f64
  rr_TLSMs :: f64
  rr_TTFBMs :: f64
  rr_StatusCode :: int
  rr_ErrorKind :: string

definition col_str :: "canary_row \<Rightarrow> string \<Rightarrow> string" where
  "col_str r c = (case map_of r c of Some (ChString s) \<Rightarrow> s | _ \<Rightarrow> [])"

definition col_time :: "canary_row \<Rightarrow> string \<Rightarrow> time" where
  "col_time r c = (case map_of r c of Some (ChTime t) \<Rightarrow> t | _ \<Rightarrow> 0)"

definition col_f32 :: "canary_row \<Rightarrow> string \<Rightarrow> f64" where
  "col_f32 r c = (case map_of r c of Some (ChFloat32 x) \<Rightarrow> x | _ \<Rightarrow> 0)"

definition col_u16 :: "canary_row \<Rightarrow> string \<Rightarrow> int" where
  "col_u16 r c = (case map_of r c of Some (ChUInt16 n) \<Rightarrow> n | _ \<Rightarrow> 0)"

definition scan_result :: "canary_row \<Rightarrow> resultRow" where
  "scan_result r =
    \<lparr>rr_TestID = col_str r ''test_id'', rr_PopID = col_str r ''pop_id'', rr_ObservedAt = col_time r ''observed_at'',
     rr_LatencyMs = col_f32 r ''latency_ms'', rr_DNSMs = col_f32 r ''dns_ms'', rr_ConnectMs = col_f32 r ''connect_ms'',
     rr_TLSMs = col_f32 r ''tls_ms'', rr_TTFBMs = col_f32 r ''ttfb_ms'', rr_StatusCode = col_u16 r ''status_code'',
     rr_ErrorKind = col_str r ''error_kind''\<rparr>"

text \<open>The limit of the query string, empty when there is none.\<close>

definition results_limit :: "string \<Rightarrow> int option" where
  "results_limit v =
    (if v = [] then Some 100
     else (case atoi v of
             None \<Rightarrow> None
           | Some n \<Rightarrow> if n < 1 then None else Some (if 1000 < n then 1000 else n)))"

definition listTestResultsHandler :: "bool \<Rightarrow> nat option \<Rightarrow> User option \<Rightarrow> string \<Rightarrow> string \<Rightarrow> canary_row list \<Rightarrow>
    (string, resultRow list) reply" where
  "listTestResultsHandler flt broken user testID limitParam table = with_user user (\<lambda>u. with_id testID
    (case results_limit limitParam of
       None \<Rightarrow> Plain 400 ''limit must be a positive integer''
     | Some limit \<Rightarrow>
         if flt then Failed 500 ''query: '' ''query''
         else Json 200 (map scan_result (received broken (take (nat limit)
           (sort_key (\<lambda>r. - col_time r ''observed_at'')
             (filter (\<lambda>r. col_str r ''tenant_id'' = u_TenantID u \<and> col_str r ''test_id'' = testID) table)))))))"

section \<open>Errors of the compiler\<close>

lemma first_error_Some: "first_error rs = Some e \<Longrightarrow> Some e \<in> set rs"
  by (induction rs rule: first_error.induct) auto

lemma checkExpr_TypeError: "checkExpr x spec = Some e \<Longrightarrow> \<exists>r. e = TypeError r"
proof (induction x)
  case (EPred p k)
  then show ?case by (auto simp: checkPredicate_def split: option.splits if_splits)
qed (auto dest!: first_error_Some)

lemma Check_TypeError: "Check q reg = Some e \<Longrightarrow> \<exists>r. e = TypeError r"
  by (auto simp: Check_def checkGroupBy_def checkOrderBy_def checkLimit_def dest!: first_error_Some checkExpr_TypeError checkExpr_TypeError [OF sym]
      split: option.splits if_splits)

lemma collectLabels_TranslateError:
  "collectLabels x t = Inl e \<Longrightarrow> \<exists>r. e = TranslateError r"
  "collectAll xs t = Inl e \<Longrightarrow> \<exists>r. e = TranslateError r"
  by (induction x t and xs t rule: collectLabels_collectAll.induct)
    (auto simp: collectPredicate_def split: option.splits Op.splits sum.splits if_splits)

lemma TranslatePrometheus_error:
  "TranslatePrometheus q reg = Inl e \<Longrightarrow> (\<exists>r. e = TypeError r) \<or> (\<exists>r. e = TranslateError r)"
  using Check_TypeError collectLabels_TranslateError(1)
  by (fastforce simp: TranslatePrometheus_def Let_def split: option.splits if_splits sum.splits)

lemma TranslateClickHouse_error:
  "TranslateClickHouse q reg tn = Inl e \<Longrightarrow> (\<exists>r. e = TypeError r) \<or> (\<exists>r. e = TranslateError r)"
  using Check_TypeError by (fastforce simp: TranslateClickHouse_def Let_def split: option.splits if_splits)

lemma compileNetQL_error: "compileNetQL query reg tn = Inl e \<Longrightarrow> e \<noteq> OutOfFuel"
  using Parse_fuel [of query] Check_TypeError TranslatePrometheus_error TranslateClickHouse_error
  by (fastforce simp: compileNetQL_def Let_def split: sum.splits option.splits Backend.splits)

lemma compileNetQL_ch:
  "compileNetQL query reg tn = Inr out \<and> nx_Backend out = BackendClickHouse \<longleftrightarrow>
    (\<exists>q tr. Parse query = Inr q \<and> TranslateClickHouse (Some q) (Some reg) tn = Inr tr
      \<and> out = \<lparr>nx_Backend = BackendClickHouse, nx_Metric = ms_Name (the (reg_Get reg (q_Metric q))),
          nx_SQL = tr_SQL tr, nx_PromQL = [], nx_Args = tr_Args tr\<rparr>)"
  by (auto simp: compileNetQL_def Let_def TranslateClickHouse_def split: sum.splits option.splits Backend.splits)

lemma TranslateClickHouse_tenants:
  assumes "TranslateClickHouse (Some q) (Some reg) tn = Inr tr"
  shows "hd (tr_Args tr) = ArgString tn"
    and "\<exists>tr'. TranslateClickHouse (Some q) (Some reg) tn' = Inr tr' \<and> tr_SQL tr' = tr_SQL tr \<and> tl (tr_Args tr') = tl (tr_Args tr)"
  using assms unfolding TranslateClickHouse_frags by auto

lemma netqlError_status: "e \<noteq> OutOfFuel \<Longrightarrow> reply_status (netqlError e) \<in> {400, 422}"
  by (cases e) (simp_all add: netqlError_def)

lemma netqlError_not_Json: "netqlError e \<noteq> Json c x"
  by (cases e) (simp_all add: netqlError_def)

text \<open>Whatever an authenticated user sends, the translation endpoint answers with 200, 400 or
  422; and what it returns for ClickHouse is the same SQL for every tenant, with the user's own tenant
  as the first argument.\<close>

theorem translate_tenant:
  "reply_status (netqlTranslateHandler reg (Some u) body) \<in> {200, 400, 422}
   \<and> (\<forall>out. netqlTranslateHandler reg (Some u) body = Json 200 out \<and> nx_Backend out = BackendClickHouse \<longrightarrow>
        hd (nx_Args out) = ArgString (u_TenantID u) \<and>
        (\<exists>out'. netqlTranslateHandler reg (Some v) body = Json 200 out' \<and> nx_SQL out' = nx_SQL out
           \<and> tl (nx_Args out') = tl (nx_Args out)))"
proof (cases body)
  case None
  then show ?thesis by (simp add: netqlTranslateHandler_def with_user_def)
next
  case (Some query)
  have st: "reply_status (netqlTranslateHandler reg (Some u) body) \<in> {200, 400, 422}"
    using compileNetQL_error [of query reg "u_TenantID u"] netqlError_status
    by (cases "compileNetQL query reg (u_TenantID u)") (auto simp: netqlTranslateHandler_def with_user_def Some)
  have "hd (nx_Args out) = ArgString (u_TenantID u) \<and>
        (\<exists>out'. netqlTranslateHandler reg (Some v) body = Json 200 out' \<and> nx_SQL out' = nx_SQL out
           \<and> tl (nx_Args out') = tl (nx_Args out))"
    if out: "netqlTranslateHandler reg (Some u) body = Json 200 out" "nx_Backend out = BackendClickHouse" for out
  proof -
    have "compileNetQL query reg (u_TenantID u) = Inr out"
      using out(1) by (auto simp: netqlTranslateHandler_def with_user_def Some netqlError_not_Json split: sum.splits)
    then obtain q tr where q: "Parse query = Inr q" "TranslateClickHouse (Some q) (Some reg) (u_TenantID u) = Inr tr"
      "nx_SQL out = tr_SQL tr" "nx_Args out = tr_Args tr"
      using compileNetQL_ch [of query reg "u_TenantID u" out] out(2) by auto
    obtain tr' where tr': "TranslateClickHouse (Some q) (Some reg) (u_TenantID v) = Inr tr'" "tr_SQL tr' = tr_SQL tr"
      "tl (tr_Args tr') = tl (tr_Args tr)"
      using TranslateClickHouse_tenants(2) [OF q(2)] by blast
    define out' where "out' = \<lparr>nx_Backend = BackendClickHouse, nx_Metric = ms_Name (the (reg_Get reg (q_Metric q))),
          nx_SQL = tr_SQL tr', nx_PromQL = [], nx_Args = tr_Args tr'\<rparr>"
    have "compileNetQL query reg (u_TenantID v) = Inr out'"
      using compileNetQL_ch [of query reg "u_TenantID v" out'] q(1) tr'(1) by (auto simp: out'_def)
    then have "netqlTranslateHandler reg (Some v) body = Json 200 out'"
      by (simp add: netqlTranslateHandler_def with_user_def Some)
    then show ?thesis using q tr' TranslateClickHouse_tenants(1) [OF q(2)] by (auto simp: out'_def)
  qed
  then show ?thesis using st by blast
qed

section \<open>From a result to the endpoint\<close>

definition shown :: "Result \<Rightarrow> resultRow" where
  "shown r =
    \<lparr>rr_TestID = res_TestID r, rr_PopID = res_PopID r, rr_ObservedAt = res_ObservedAt r,
     rr_LatencyMs = res_LatencyMs r, rr_DNSMs = res_DNSMs r, rr_ConnectMs = res_ConnectMs r,
     rr_TLSMs = res_TLSMs r, rr_TTFBMs = res_TTFBMs r, rr_StatusCode = res_StatusCode r,
     rr_ErrorKind = res_ErrorKind r\<rparr>"

lemma result_row_columns:
  "col_str (result_row r) ''tenant_id'' = res_TenantID r" "col_str (result_row r) ''test_id'' = res_TestID r"
  "col_time (result_row r) ''observed_at'' = res_ObservedAt r" "scan_result (result_row r) = shown r"
  by (simp_all add: result_row_def insert_columns_def insert_args_def col_str_def col_time_def col_f32_def col_u16_def
      scan_result_def shown_def)

lemma sort_key_map: "sort_key f (map g xs) = map g (sort_key (\<lambda>x. f (g x)) xs)"
proof (induction xs)
  case (Cons x xs)
  have "insort_key f (g x) (map g ys) = map g (insort_key (\<lambda>x. f (g x)) x ys)" for ys
    by (induction ys) auto
  then show ?case by (simp add: Cons.IH)
qed simp

lemma results_of_ingested:
  assumes "testID \<noteq> []" "results_limit limitParam = Some n"
  shows "listTestResultsHandler False None (Some u) testID limitParam (map result_row rs) =
    Json 200 (map shown (take (nat n) (sort_key (\<lambda>r. - res_ObservedAt r)
        (filter (\<lambda>r. res_TenantID r = u_TenantID u \<and> res_TestID r = testID) rs))))"
  using assms by (simp add: listTestResultsHandler_def with_user_def with_id_def received_def filter_map sort_key_map
      take_map comp_def result_row_columns)

text \<open>What the consumer inserted comes back: over a table of ingested results the endpoint
  returns the latest ones of the test and of the user's tenant, newest first, with the values that
  the POP reported, at most the limit and never more than a thousand of them.\<close>

theorem results_roundtrip:
  assumes "testID \<noteq> []" "results_limit limitParam = Some n"
  shows "listTestResultsHandler False None (Some u) testID limitParam (map result_row rs) =
      Json 200 (map shown (take (nat n) (sort_key (\<lambda>r. - res_ObservedAt r)
        (filter (\<lambda>r. res_TenantID r = u_TenantID u \<and> res_TestID r = testID) rs))))
    \<and> 1 \<le> n \<and> n \<le> 1000"
  using results_of_ingested [OF assms] assms(2) by (auto simp: results_limit_def split: if_splits option.splits)

section \<open>Instances\<close>

theorem results_roundtrip_witness:
  "listTestResultsHandler False None (Some \<lparr>u_ID = ''usr-1'', u_TenantID = ''tnt-a'', u_Email = ''a'', u_Role = RoleViewer,
      u_CreatedAt = 0\<rparr>) ''tst.1'' ''5'' (map result_row [demo_result]) = Json 200 [shown demo_result]"
proof -
  have l: "results_limit ''5'' = Some 5" by code_simp
  have f: "filter (\<lambda>r. res_TenantID r = ''tnt-a'' \<and> res_TestID r = ''tst.1'') [demo_result] = [demo_result]"
    by (simp add: demo_result_def start_result_def)
  show ?thesis
    using results_roundtrip [OF _ l, of "''tst.1''" "\<lparr>u_ID = ''usr-1'', u_TenantID = ''tnt-a'', u_Email = ''a'',
      u_Role = RoleViewer, u_CreatedAt = 0\<rparr>" "[demo_result]"] f by simp
qed

definition demo_user :: "string \<Rightarrow> User" where
  "demo_user tenant = \<lparr>u_ID = ''usr-1'', u_TenantID = tenant, u_Email = ''a'', u_Role = RoleViewer, u_CreatedAt = 0\<rparr>"

theorem translate_tenant_witness:
  "\<exists>out. netqlTranslateHandler DefaultRegistry (Some (demo_user ''tnt-a'')) (Some ''latency_p95 by pop'') = Json 200 out
    \<and> hd (nx_Args out) = ArgString ''tnt-a''"
proof -
  have "case netqlTranslateHandler DefaultRegistry (Some (demo_user ''tnt-a'')) (Some ''latency_p95 by pop'') of
      Json c out \<Rightarrow> c = 200 \<and> nx_Backend out = BackendClickHouse | _ \<Rightarrow> False"
    by code_simp
  then obtain out where out: "netqlTranslateHandler DefaultRegistry (Some (demo_user ''tnt-a'')) (Some ''latency_p95 by pop'') = Json 200 out"
    "nx_Backend out = BackendClickHouse"
    by (auto split: reply.splits)
  have "hd (nx_Args out) = ArgString (u_TenantID (demo_user ''tnt-a''))"
    using translate_tenant [of DefaultRegistry "demo_user ''tnt-a''" "Some ''latency_p95 by pop''"] out by blast
  then show ?thesis using out(1) by (auto simp: demo_user_def)
qed

end
