(* ===== verification/ApiSystem.thy ===== *)
theory ApiSystem
  imports ApiServer ApiHandlers ApiQuery
begin

text \<open>
  The control plane as one state machine: the tables of all components, and a request as a step that
  authenticates the cookie, finds the route, authorizes the user and runs the handler.  The body and
  the query of a request are text; the decoders of the JSON library are part of the environment, as
  are the clocks (the n-th reading within a request), the random bytes, the faults of the database
  (first the look-up of the session, then the statement of the handler), the build information and
  the ClickHouse connection.
\<close>

section \<open>State, requests, replies\<close>

record control_plane =
  cp_auth :: auth_db
  cp_tests :: tests_db
  cp_pops :: pops_db
  cp_slo :: slo_db
  cp_ws :: ws_db
  cp_an :: an_db
  cp_verdicts :: verdict_db
  cp_results :: "canary_row list"

record decoders =
  dec_login :: "string \<Rightarrow> loginRequest option"
  dec_test :: "string \<Rightarrow> testRequest option"
  dec_pop :: "string \<Rightarrow> popRequest option"
  dec_slo :: "string \<Rightarrow> sloRequest option"
  dec_ws_create :: "string \<Rightarrow> WsCreateRequest option"
  dec_ws_update :: "string \<Rightarrow> WsUpdateRequest option"
  dec_ttl :: "string \<Rightarrow> int"
  dec_an :: "string \<Rightarrow> AnCreateRequest option"
  dec_query :: "string \<Rightarrow> string option"
  dec_time :: "string \<Rightarrow> time option"

record environment =
  env_svc :: Service
  env_registry :: Registry
  env_decoders :: decoders
  env_ch :: "string \<Rightarrow> Arg list \<Rightarrow> (string, string list \<times> string list list) result"
  env_auth_fault :: bool
  env_fault :: bool
  env_broken :: "nat option"
  env_dbclock :: time
  env_clock :: "nat \<Rightarrow> time"
  env_entropy :: "int list option"
  env_build :: "string \<times> string \<times> string"
  env_ping :: "string option"
  env_metrics :: string

record request =
  rq_method :: string
  rq_path :: "string list"
  rq_cookies :: "(string \<times> string) list"
  rq_query :: "(string \<times> string) list"
  rq_body :: string

datatype api_body = BTests "testResponse list" | BTest testResponse | BPops "popResponse list" | BPop popResponse
  | BSlos "sloResponse list" | BSlo sloResponse | BWorkspaces "Workspace list" | BWorkspace Workspace
  | BAnnotations "Annotation list" | BAnnotation Annotation | BVerdicts "VerdictRow list" | BVerdict VerdictRow
  | BResults "resultRow list" | BTranslation netqlTranslateResponse | BExecution "string execute_body"
  | BUser userResponse | BHealth healthResponse | BMetrics string | BNothing

datatype api_error = EText string | EWorkspace ws_error | EAnnotation an_error | ESlo slo_http_error
  | EAnomaly anomaly_error | EAuth auth_error | ENetql netql_error | EExecute execute_error

type_synonym response = "(api_error, api_body) reply \<times> Cookie option"

section \<open>The step\<close>

fun wild_values :: "seg list \<Rightarrow> string list \<Rightarrow> string list" where
  "wild_values (Wild # ps) (s # ss) = s # wild_values ps ss"
| "wild_values (Lit l # ps) (s # ss) = wild_values ps ss"
| "wild_values _ _ = []"

definition path_values :: "string \<Rightarrow> string list \<Rightarrow> string list" where
  "path_values m path =
    (case find (route_match m path) routes of None \<Rightarrow> [] | Some r \<Rightarrow> wild_values (rt_Pattern r) path)"

definition path_value :: "request \<Rightarrow> nat \<Rightarrow> string" where
  "path_value rq n = (let vs = path_values (rq_method rq) (rq_path rq) in if n < length vs then vs ! n else [])"

definition query_param :: "request \<Rightarrow> string \<Rightarrow> string" where
  "query_param rq k = (case map_of (rq_query rq) k of None \<Rightarrow> [] | Some v \<Rightarrow> v)"

definition annotation_params :: "request \<Rightarrow> an_params" where
  "annotation_params rq =
    \<lparr>aq_scope = query_param rq ''scope'', aq_scope_id = query_param rq ''scope_id'', aq_from = query_param rq ''from'',
     aq_to = query_param rq ''to'', aq_limit = query_param rq ''limit''\<rparr>"

text \<open>A handler whose identifier generator panics: \<open>Recover\<close> answers with 500, unless the handler had
  answered before it came to generate one.\<close>

definition with_minted :: "string option \<Rightarrow> (string \<Rightarrow> 's \<Rightarrow> ('e, 'a) reply \<times> 's) \<Rightarrow> 's \<Rightarrow> ('e, 'a) reply \<times> 's" where
  "with_minted minted k s =
    (case minted of
       Some i \<Rightarrow> k i s
     | None \<Rightarrow> (if reply_status (fst (k [] s)) < 500 \<and> 300 \<le> reply_status (fst (k [] s)) then fst (k [] s)
                else Plain 500 ''internal server error'', s))"

definition respond :: "('e \<Rightarrow> api_error) \<Rightarrow> ('a \<Rightarrow> api_body) \<Rightarrow> ('e, 'a) reply \<Rightarrow> response" where
  "respond f g r = (map_reply f g r, None)"

fun run_handler :: "environment \<Rightarrow> request \<Rightarrow> Handler \<Rightarrow> User option \<Rightarrow> control_plane \<Rightarrow> response \<times> control_plane" where
  "run_handler env rq HHealth user s =
    (respond EText BHealth (healthHandler (fst (env_build env)) (fst (snd (env_build env))) (snd (snd (env_build env)))
       (env_ping env)), s)"
| "run_handler env rq HMetrics user s = ((Json 200 (BMetrics (env_metrics env)), None), s)"
| "run_handler env rq HLogin user s =
    (case loginHandler (env_svc env) (Repo_Store (env_fault env) (env_dbclock env)) (env_entropy env) (env_clock env 1)
        (env_clock env 2) (env_clock env 3) (dec_login (env_decoders env) (rq_body rq)) (cp_auth s) of
       ((r, c), db) \<Rightarrow> ((map_reply EAuth BUser r, c), s\<lparr>cp_auth := db\<rparr>))"
| "run_handler env rq HLogout user s =
    (case logoutHandler (Repo_Store (env_fault env) (env_dbclock env)) (rq_cookies rq) (cp_auth s) of
       ((r, c), db) \<Rightarrow> ((map_reply EAuth (\<lambda>_. BNothing) r, c), s\<lparr>cp_auth := db\<rparr>))"
| "run_handler env rq HWhoami user s = (respond EAuth BUser (whoamiHandler user), s)"
| "run_handler env rq HListTests user s =
    (respond EText BTests (listTestsHandler (env_fault env) (env_broken env) user (cp_tests s)), s)"
| "run_handler env rq HCreateTest user s =
    (case createTestHandler (env_fault env) (env_dbclock env) (env_entropy env) user
        (dec_test (env_decoders env) (rq_body rq)) (cp_tests s) of
       (r, db) \<Rightarrow> (respond EText BTest r, s\<lparr>cp_tests := db\<rparr>))"
| "run_handler env rq HGetTest user s =
    (respond EText BTest (getTestHandler (env_fault env) user (path_value rq 0) (cp_tests s)), s)"
| "run_handler env rq HDeleteTest user s =
    (case deleteTestHandler (env_fault env) user (path_value rq 0) (cp_tests s) of
       (r, db) \<Rightarrow> (respond EText (\<lambda>_. BNothing) r, s\<lparr>cp_tests := db\<rparr>))"
| "run_handler env rq HListPops user s =
    (respond EText BPops (listPopsHandler (env_fault env) (env_broken env) user (cp_pops s)), s)"
| "run_handler env rq HCreatePop user s =
    (case createPopHandler (env_fault env) (env_dbclock env) user (dec_pop (env_decoders env) (rq_body rq)) (cp_pops s) of
       (r, db) \<Rightarrow> (respond EText BPop r, s\<lparr>cp_pops := db\<rparr>))"
| "run_handler env rq HGetPop user s =
    (respond EText BPop (getPopHandler (env_fault env) user (path_value rq 0) (cp_pops s)), s)"
| "run_handler env rq HDeletePop user s =
    (case deletePopHandler (env_fault env) user (path_value rq 0) (cp_pops s) of
       (r, db) \<Rightarrow> (respond EText (\<lambda>_. BNothing) r, s\<lparr>cp_pops := db\<rparr>))"
| "run_handler env rq HListTestResults user s =
    (respond EText BResults (listTestResultsHandler (env_fault env) (env_broken env) user (path_value rq 0)
       (query_param rq ''limit'') (cp_results s)), s)"
| "run_handler env rq HListSLOs user s =
    (respond ESlo BSlos (listSLOsHandler (env_fault env) user (cp_slo s)), s)"
| "run_handler env rq HCreateSLO user s =
    (case createSLOHandler (env_fault env) (env_dbclock env) (env_entropy env) user
        (dec_slo (env_decoders env) (rq_body rq)) (cp_slo s) of
       (r, db) \<Rightarrow> (respond ESlo BSlo r, s\<lparr>cp_slo := db\<rparr>))"
| "run_handler env rq HGetSLO user s =
    (respond ESlo BSlo (getSLOHandler (env_fault env) user (path_value rq 0) (cp_slo s)), s)"
| "run_handler env rq HDeleteSLO user s =
    (case deleteSLOHandler (env_fault env) user (path_value rq 0) (cp_slo s) of
       (r, db) \<Rightarrow> (respond ESlo (\<lambda>_. BNothing) r, s\<lparr>cp_slo := db\<rparr>))"
| "run_handler env rq HListWorkspaces user s =
    (respond EWorkspace BWorkspaces (listWorkspacesHandler (env_fault env) (env_broken env) user (cp_ws s)), s)"
| "run_handler env rq HCreateWorkspace user s =
    (case with_minted (ws_defaultIDGen (env_entropy env)) (\<lambda>i. createWorkspaceHandler (env_fault env) (env_dbclock env) i user
        (dec_ws_create (env_decoders env) (rq_body rq))) (cp_ws s) of
       (r, db) \<Rightarrow> (respond EWorkspace BWorkspace r, s\<lparr>cp_ws := db\<rparr>))"
| "run_handler env rq HGetWorkspace user s =
    (respond EWorkspace BWorkspace (getWorkspaceHandler (env_fault env) user (path_value rq 0) (cp_ws s)), s)"
| "run_handler env rq HUpdateWorkspace user s =
    (case updateWorkspaceHandler (env_fault env) (env_dbclock env) user (path_value rq 0)
        (dec_ws_update (env_decoders env) (rq_body rq)) (cp_ws s) of
       (r, db) \<Rightarrow> (respond EWorkspace BWorkspace r, s\<lparr>cp_ws := db\<rparr>))"
| "run_handler env rq HDeleteWorkspace user s =
    (case deleteWorkspaceHandler (env_fault env) user (path_value rq 0) (cp_ws s) of
       (r, db) \<Rightarrow> (respond EWorkspace (\<lambda>_. BNothing) r, s\<lparr>cp_ws := db\<rparr>))"
| "run_handler env rq HShareWorkspace user s =
    (case shareWorkspaceHandler (env_fault env) (env_dbclock env) (env_clock env 1) (ws_defaultSlugGen (env_entropy env))
        user (path_value rq 0) (dec_ttl (env_decoders env) (rq_body rq)) (cp_ws s) of
       (r, db) \<Rightarrow> (respond EWorkspace BWorkspace r, s\<lparr>cp_ws := db\<rparr>))"
| "run_handler env rq HUnshareWorkspace user s =
    (case unshareWorkspaceHandler (env_fault env) (env_dbclock env) user (path_value rq 0) (cp_ws s) of
       (r, db) \<Rightarrow> (respond EWorkspace BWorkspace r, s\<lparr>cp_ws := db\<rparr>))"
| "run_handler env rq HResolveShare user s =
    (respond EWorkspace BWorkspace (resolveShareHandler (env_fault env) (env_clock env 1) (path_value rq 0) (cp_ws s)), s)"
| "run_handler env rq HListAnnotations user s =
    (respond EAnnotation BAnnotations (listAnnotationsHandler (dec_time (env_decoders env)) (env_fault env) (env_broken env)
       user (annotation_params rq) (cp_an s)), s)"
| "run_handler env rq HCreateAnnotation user s =
    (case with_minted (an_defaultIDGen (env_entropy env)) (\<lambda>i. createAnnotationHandler (env_fault env) (env_dbclock env) i user
        (dec_an (env_decoders env) (rq_body rq))) (cp_an s) of
       (r, db) \<Rightarrow> (respond EAnnotation BAnnotation r, s\<lparr>cp_an := db\<rparr>))"
| "run_handler env rq HGetAnnotation user s =
    (respond EAnnotation BAnnotation (getAnnotationHandler (env_fault env) user (path_value rq 0) (cp_an s)), s)"
| "run_handler env rq HDeleteAnnotation user s =
    (case deleteAnnotationHandler (env_fault env) user (path_value rq 0) (cp_an s) of
       (r, db) \<Rightarrow> (respond EAnnotation (\<lambda>_. BNothing) r, s\<lparr>cp_an := db\<rparr>))"
| "run_handler env rq HNetqlTranslate user s =
    (respond ENetql BTranslation (netqlTranslateHandler (env_registry env) user
       (dec_query (env_decoders env) (rq_body rq))), s)"
| "run_handler env rq HNetqlExecute user s =
    (respond EExecute BExecution (netqlExecuteHandler (env_registry env) (env_ch env) user
       (dec_query (env_decoders env) (rq_body rq))), s)"
| "run_handler env rq HListAnomalyState user s =
    (respond EAnomaly BVerdicts (listAnomalyStateHandler (env_fault env) user (cp_verdicts s)), s)"
| "run_handler env rq HGetAnomalyForTest user s =
    (respond EAnomaly BVerdict (getAnomalyForTestHandler (env_fault env) user (path_value rq 0) (cp_verdicts s)), s)"
| "run_handler env rq HGetAnomalyForTestMetric user s =
    (respond EAnomaly BVerdict (getAnomalyForTestMetricHandler (env_fault env) user (path_value rq 0) (path_value rq 1)
       (cp_verdicts s)), s)"

definition request_user :: "environment \<Rightarrow> request \<Rightarrow> control_plane \<Rightarrow> User option" where
  "request_user env rq s =
    Authenticate (Repo_Store (env_auth_fault env) (env_dbclock env)) (rq_cookies rq) (env_clock env 0) (cp_auth s)"

text \<open>What \<open>Authorize\<close> and the multiplexer write without a handler.\<close>

definition answered :: "int \<Rightarrow> (api_error, api_body) reply" where
  "answered code = Plain code
     (if code = 401 then ''unauthorized'' else if code = 403 then ''forbidden'' else if code = 404 then ''404 page not found''
      else if code = 405 then ''Method Not Allowed'' else ''internal authorization error'')"

text \<open>A request has two parts: what the middleware and the multiplexer make of it, and its handler.\<close>

definition admit :: "environment \<Rightarrow> request \<Rightarrow> control_plane \<Rightarrow> outcome" where
  "admit env rq s =
    serve (Repo_Store (env_auth_fault env) (env_dbclock env)) (rq_cookies rq) (env_clock env 0)
      (rq_method rq) (rq_path rq) (cp_auth s)"

fun complete :: "environment \<Rightarrow> request \<Rightarrow> outcome \<Rightarrow> control_plane \<Rightarrow> response \<times> control_plane" where
  "complete env rq (Answered code) s = ((answered code, None), s)"
| "complete env rq (Reached h user) s = run_handler env rq h user s"

definition api_step :: "environment \<Rightarrow> request \<Rightarrow> control_plane \<Rightarrow> response \<times> control_plane" where
  "api_step env rq s = complete env rq (admit env rq s) s"

definition api_run :: "(environment \<times> request) list \<Rightarrow> control_plane \<Rightarrow> control_plane" where
  "api_run rqs s = fold (\<lambda>(env, rq) s. snd (api_step env rq s)) rqs s"

section \<open>What a request does to the catalogs\<close>

datatype cp_op = CTest ts_op | CPop pp_op | CSlo slo_op | CWs ws_op | CAn an_op

fun cp_apply :: "User \<Rightarrow> cp_op \<Rightarrow> control_plane \<Rightarrow> control_plane" where
  "cp_apply u (CTest x) s = s\<lparr>cp_tests := ts_apply u x (cp_tests s)\<rparr>"
| "cp_apply u (CPop x) s = s\<lparr>cp_pops := pp_apply u x (cp_pops s)\<rparr>"
| "cp_apply u (CSlo x) s = s\<lparr>cp_slo := slo_apply (u_TenantID u) x (cp_slo s)\<rparr>"
| "cp_apply u (CWs x) s = s\<lparr>cp_ws := ws_apply (u_TenantID u) x (cp_ws s)\<rparr>"
| "cp_apply u (CAn x) s = s\<lparr>cp_an := an_apply (u_TenantID u) x (cp_an s)\<rparr>"

text \<open>The owner of a workspace and the author of an annotation are the user.\<close>

fun op_by :: "User \<Rightarrow> cp_op \<Rightarrow> bool" where
  "op_by u (CWs (WoCreate flt created minted owner req)) = (owner = u_ID u)"
| "op_by u (CAn (AoCreate flt created minted author req)) = (author = u_ID u)"
| "op_by u _ = True"

lemma createSLOHandler_apply:
  "snd (createSLOHandler flt created entropy (Some u) body db) = db
   \<or> (\<exists>x. snd (createSLOHandler flt created entropy (Some u) body db) = slo_apply (u_TenantID u) x db)"
proof (cases body)
  case (Some req)
  show ?thesis
  proof (cases "api_newPrefixedID ''slo'' entropy")
    case (Some i)
    define row where "row = \<lparr>slo_ID = i, slo_TenantID = u_TenantID u, slo_Name = sq_Name req, slo_Description = sq_Description req,
      slo_SLIKind = sli_kind (sq_SLIKind req), slo_SLIFilter = sq_SLIFilter req, slo_ObjectivePct = sq_ObjectivePct req,
      slo_WindowSeconds = sq_WindowSeconds req,
      slo_FastBurnThreshold = (if f64_le (sq_FastBurnThreshold req) 0 then fl (144 / 10) else sq_FastBurnThreshold req),
      slo_SlowBurnThreshold = (if f64_le (sq_SlowBurnThreshold req) 0 then fl 6 else sq_SlowBurnThreshold req),
      slo_NotifierURL = sq_NotifierURL req, slo_Enabled = (case sq_Enabled req of None \<Rightarrow> True | Some e \<Rightarrow> e), slo_CreatedAt = 0\<rparr>"
    have "snd (createSLOHandler flt created entropy (Some u) body db) = snd (CreateSLO flt created row db)"
      using Some \<open>body = Some req\<close>
      by (simp add: createSLOHandler_def with_user_st_def with_body_def Let_def row_def [symmetric] split: prod.split sum.split)
    also have "\<dots> = slo_apply (u_TenantID u) (SoCreate flt created row) db" by (simp add: row_def)
    finally show ?thesis by blast
  qed (simp add: createSLOHandler_def with_user_st_def with_body_def \<open>body = Some req\<close> Let_def)
qed (simp add: createSLOHandler_def with_user_st_def with_body_def)

lemma deleteSLOHandler_apply:
  "snd (deleteSLOHandler flt (Some u) i db) = db \<or>
   snd (deleteSLOHandler flt (Some u) i db) = slo_apply (u_TenantID u) (SoDelete flt i) db"
  by (simp add: deleteSLOHandler_def http_defs split: prod.split option.split)

lemma acts:
  "(P \<Longrightarrow> y = ws_apply tn x db) \<Longrightarrow> P \<Longrightarrow> op_by u (CWs x) \<Longrightarrow> y = db \<or> (\<exists>x. op_by u (CWs x) \<and> y = ws_apply tn x db)"
  "(P \<Longrightarrow> z = an_apply tn w as) \<Longrightarrow> P \<Longrightarrow> op_by u (CAn w) \<Longrightarrow> z = as \<or> (\<exists>x. op_by u (CAn x) \<and> z = an_apply tn x as)"
  by blast+

lemma workspace_handlers_apply:
  "snd (createWorkspaceHandler flt now minted (Some u) wbody db) = db \<or>
   (\<exists>x. op_by u (CWs x) \<and> snd (createWorkspaceHandler flt now minted (Some u) wbody db) = ws_apply (u_TenantID u) x db)"
  "snd (updateWorkspaceHandler flt now (Some u) i ubody db) = db \<or>
   (\<exists>x. op_by u (CWs x) \<and> snd (updateWorkspaceHandler flt now (Some u) i ubody db) = ws_apply (u_TenantID u) x db)"
  "snd (deleteWorkspaceHandler flt (Some u) i db) = db \<or>
   (\<exists>x. op_by u (CWs x) \<and> snd (deleteWorkspaceHandler flt (Some u) i db) = ws_apply (u_TenantID u) x db)"
  "snd (shareWorkspaceHandler flt dbnow now slug (Some u) i ttl db) = db \<or>
   (\<exists>x. op_by u (CWs x) \<and> snd (shareWorkspaceHandler flt dbnow now slug (Some u) i ttl db) = ws_apply (u_TenantID u) x db)"
  "snd (unshareWorkspaceHandler flt dbnow (Some u) i db) = db \<or>
   (\<exists>x. op_by u (CWs x) \<and> snd (unshareWorkspaceHandler flt dbnow (Some u) i db) = ws_apply (u_TenantID u) x db)"
proof -
  note defs = with_user_st_def with_id_st_def with_body_def ws_reply_def
  show "snd (createWorkspaceHandler flt now minted (Some u) wbody db) = db \<or>
   (\<exists>x. op_by u (CWs x) \<and> snd (createWorkspaceHandler flt now minted (Some u) wbody db) = ws_apply (u_TenantID u) x db)"
  proof (cases wbody)
    case (Some req)
    then have "snd (createWorkspaceHandler flt now minted (Some u) wbody db) =
        ws_apply (u_TenantID u) (WoCreate flt now minted (u_ID u) req) db"
      by (simp add: createWorkspaceHandler_def defs split: prod.split sum.split)
    then show ?thesis by (rule acts(1) [OF _ TrueI]) simp
  qed (simp add: createWorkspaceHandler_def defs)
  show "snd (updateWorkspaceHandler flt now (Some u) i ubody db) = db \<or>
   (\<exists>x. op_by u (CWs x) \<and> snd (updateWorkspaceHandler flt now (Some u) i ubody db) = ws_apply (u_TenantID u) x db)"
  proof (cases ubody)
    case (Some req)
    then have "i \<noteq> [] \<Longrightarrow> snd (updateWorkspaceHandler flt now (Some u) i ubody db) =
        ws_apply (u_TenantID u) (WoUpdate flt now i req) db"
      by (simp add: updateWorkspaceHandler_def defs split: prod.split sum.split)
    then show ?thesis by (cases "i = []") (simp add: updateWorkspaceHandler_def defs, erule (1) acts(1), simp)
  qed (simp add: updateWorkspaceHandler_def defs)
  have "i \<noteq> [] \<Longrightarrow> snd (deleteWorkspaceHandler flt (Some u) i db) = ws_apply (u_TenantID u) (WoDelete flt i) db"
    by (simp add: deleteWorkspaceHandler_def defs split: prod.split option.split)
  then show "snd (deleteWorkspaceHandler flt (Some u) i db) = db \<or>
   (\<exists>x. op_by u (CWs x) \<and> snd (deleteWorkspaceHandler flt (Some u) i db) = ws_apply (u_TenantID u) x db)"
    by (cases "i = []") (simp add: deleteWorkspaceHandler_def defs, erule (1) acts(1), simp)
  have "i \<noteq> [] \<Longrightarrow> snd (shareWorkspaceHandler flt dbnow now slug (Some u) i ttl db) =
      ws_apply (u_TenantID u) (WoShare flt dbnow now slug i (wrap64 (ttl * second_ns))) db"
    by (simp add: shareWorkspaceHandler_def defs split: prod.split sum.split)
  then show "snd (shareWorkspaceHandler flt dbnow now slug (Some u) i ttl db) = db \<or>
   (\<exists>x. op_by u (CWs x) \<and> snd (shareWorkspaceHandler flt dbnow now slug (Some u) i ttl db) = ws_apply (u_TenantID u) x db)"
    by (cases "i = []") (simp add: shareWorkspaceHandler_def defs, erule (1) acts(1), simp)
  have "i \<noteq> [] \<Longrightarrow> snd (unshareWorkspaceHandler flt dbnow (Some u) i db) = ws_apply (u_TenantID u) (WoUnshare flt dbnow i) db"
    by (simp add: unshareWorkspaceHandler_def defs split: prod.split sum.split)
  then show "snd (unshareWorkspaceHandler flt dbnow (Some u) i db) = db \<or>
   (\<exists>x. op_by u (CWs x) \<and> snd (unshareWorkspaceHandler flt dbnow (Some u) i db) = ws_apply (u_TenantID u) x db)"
    by (cases "i = []") (simp add: unshareWorkspaceHandler_def defs, erule (1) acts(1), simp)
qed

lemma annotation_handlers_apply:
  "snd (createAnnotationHandler flt now minted (Some u) body db) = db \<or>
   (\<exists>x. op_by u (CAn x) \<and> snd (createAnnotationHandler flt now minted (Some u) body db) = an_apply (u_TenantID u) x db)"
  "snd (deleteAnnotationHandler flt (Some u) i db) = db \<or>
   (\<exists>x. op_by u (CAn x) \<and> snd (deleteAnnotationHandler flt (Some u) i db) = an_apply (u_TenantID u) x db)"
proof -
  show "snd (createAnnotationHandler flt now minted (Some u) body db) = db \<or>
   (\<exists>x. op_by u (CAn x) \<and> snd (createAnnotationHandler flt now minted (Some u) body db) = an_apply (u_TenantID u) x db)"
  proof (cases body)
    case (Some req)
    then have "snd (createAnnotationHandler flt now minted (Some u) body db) =
        an_apply (u_TenantID u) (AoCreate flt now minted (u_ID u) req) db"
      by (simp add: createAnnotationHandler_def http_defs split: prod.split sum.split)
    then show ?thesis by (rule acts(2) [OF _ TrueI]) simp
  qed (simp add: createAnnotationHandler_def http_defs)
  have "i \<noteq> [] \<Longrightarrow> snd (deleteAnnotationHandler flt (Some u) i db) = an_apply (u_TenantID u) (AoDelete flt i) db"
    by (simp add: deleteAnnotationHandler_def http_defs split: prod.split option.split)
  then show "snd (deleteAnnotationHandler flt (Some u) i db) = db \<or>
   (\<exists>x. op_by u (CAn x) \<and> snd (deleteAnnotationHandler flt (Some u) i db) = an_apply (u_TenantID u) x db)"
    by (cases "i = []") (simp add: deleteAnnotationHandler_def http_defs, erule (1) acts(2), simp)
qed

definition reading_handlers :: "Handler list" where
  "reading_handlers = [HHealth, HWhoami, HListTests, HGetTest, HListPops, HGetPop, HListTestResults, HListSLOs, HGetSLO,
     HListWorkspaces, HGetWorkspace, HResolveShare, HListAnnotations, HGetAnnotation, HNetqlTranslate, HNetqlExecute,
     HListAnomalyState, HGetAnomalyForTest, HGetAnomalyForTestMetric, HMetrics]"

lemma run_reading: "h \<in> set reading_handlers \<Longrightarrow> snd (run_handler env rq h user s) = s"
  by (auto simp: reading_handlers_def)

text \<open>What a login or a logout does to the tables.\<close>

inductive session_change :: "auth_db \<Rightarrow> auth_db \<Rightarrow> bool" where
  unchanged: "session_change db db"
| opened: "session_change db (snd (Repo_CreateSession flt created x db))"
| closed: "session_change db (snd (DeleteSession flt i db))"

lemma Login_change: "session_change db (snd (Login svc (Repo_Store flt created) entropy now tenant email password db))"
  using Login_state [of svc "Repo_Store flt created" entropy now tenant email password db]
  by (auto simp: Repo_Store_def intro: session_change.intros)

lemma loginHandler_change:
  "session_change db (snd (loginHandler svc (Repo_Store flt created) entropy now seen issued body db))"
proof (cases body)
  case (Some req)
  let ?L = "Login svc (Repo_Store flt created) entropy now (lq_TenantID req) (lq_Email req) (lq_Password req) db"
  have "snd (loginHandler svc (Repo_Store flt created) entropy now seen issued body db) \<in> {db, snd ?L}"
    by (auto simp: Some loginHandler_def split: prod.split sum.split)
  then show ?thesis using Login_change session_change.unchanged by (elim insertE) simp_all
qed (simp add: loginHandler_def session_change.unchanged)

lemma Logout_change: "session_change db (snd (Logout (Repo_Store flt created) i db))"
  by (simp add: Logout_def Repo_Store_def session_change.intros)

lemma run_session:
  assumes "h = HLogin \<or> h = HLogout"
  shows "\<exists>db. snd (run_handler env rq h user s) = s\<lparr>cp_auth := db\<rparr> \<and> session_change (cp_auth s) db"
proof -
  let ?in = "loginHandler (env_svc env) (Repo_Store (env_fault env) (env_dbclock env)) (env_entropy env) (env_clock env 1)
      (env_clock env 2) (env_clock env 3) (dec_login (env_decoders env) (rq_body rq)) (cp_auth s)"
  let ?out = "logoutHandler (Repo_Store (env_fault env) (env_dbclock env)) (rq_cookies rq) (cp_auth s)"
  from assms consider "h = HLogin" | "h = HLogout" by blast
  then show ?thesis
  proof cases
    case 1
    then have "snd (run_handler env rq h user s) = s\<lparr>cp_auth := snd ?in\<rparr>" by (simp split: prod.split)
    then show ?thesis using loginHandler_change by blast
  next
    case 2
    then have "snd (run_handler env rq h user s) = s\<lparr>cp_auth := snd ?out\<rparr>" by (simp add: logoutHandler_def)
    then show ?thesis using Logout_change by (auto simp: logoutHandler_def)
  qed
qed

text \<open>A handler that acts on one table for the user.\<close>

lemma slots:
  "snd a = cp_slo s \<or> (\<exists>x. snd a = slo_apply (u_TenantID u) x (cp_slo s)) \<Longrightarrow>
     (\<exists>x. op_by u x \<and> snd (case a of (r, db) \<Rightarrow> (f r, s\<lparr>cp_slo := db\<rparr>)) = cp_apply u x s) \<or> snd (case a of (r, db) \<Rightarrow> (f r, s\<lparr>cp_slo := db\<rparr>)) = s"
  "snd b = cp_ws s \<or> (\<exists>x. op_by u (CWs x) \<and> snd b = ws_apply (u_TenantID u) x (cp_ws s)) \<Longrightarrow>
     (\<exists>x. op_by u x \<and> snd (case b of (r, db) \<Rightarrow> (g r, s\<lparr>cp_ws := db\<rparr>)) = cp_apply u x s) \<or> snd (case b of (r, db) \<Rightarrow> (g r, s\<lparr>cp_ws := db\<rparr>)) = s"
  "snd c = cp_an s \<or> (\<exists>x. op_by u (CAn x) \<and> snd c = an_apply (u_TenantID u) x (cp_an s)) \<Longrightarrow>
     (\<exists>x. op_by u x \<and> snd (case c of (r, db) \<Rightarrow> (h r, s\<lparr>cp_an := db\<rparr>)) = cp_apply u x s) \<or> snd (case c of (r, db) \<Rightarrow> (h r, s\<lparr>cp_an := db\<rparr>)) = s"
  subgoal by (cases a) (auto intro: exI [of _ "CSlo _"])
  subgoal by (cases b) (auto intro: exI [of _ "CWs _"])
  subgoal by (cases c) (auto intro: exI [of _ "CAn _"])
  done

lemma with_minted_apply:
  assumes "\<And>i. snd (k i t) = t \<or> (\<exists>x. P x \<and> snd (k i t) = g x t)"
  shows "snd (with_minted m k t) = t \<or> (\<exists>x. P x \<and> snd (with_minted m k t) = g x t)"
  by (cases m) (simp_all add: with_minted_def assms)

lemma run_writing:
  assumes "h \<notin> set reading_handlers" "h \<noteq> HLogin" "h \<noteq> HLogout"
  shows "(\<exists>x. op_by u x \<and> snd (run_handler env rq h (Some u) s) = cp_apply u x s) \<or> snd (run_handler env rq h (Some u) s) = s"
proof -
  consider "h = HCreateTest" | "h = HDeleteTest" | "h = HCreatePop" | "h = HDeletePop" | "h = HCreateSLO" | "h = HDeleteSLO"
    | "h = HCreateWorkspace" | "h = HUpdateWorkspace" | "h = HDeleteWorkspace" | "h = HShareWorkspace" | "h = HUnshareWorkspace"
    | "h = HCreateAnnotation" | "h = HDeleteAnnotation"
    using assms by (cases h) (simp_all add: reading_handlers_def)
  then show ?thesis
  proof cases
    case 1
    then have "snd (run_handler env rq h (Some u) s) =
        cp_apply u (CTest (ToCreate (env_fault env) (env_dbclock env) (env_entropy env) (dec_test (env_decoders env) (rq_body rq)))) s"
      by (simp split: prod.split)
    then show ?thesis by - (rule disjI1, rule exI, rule conjI [rotated], assumption, simp)
  next
    case 2
    then have "snd (run_handler env rq h (Some u) s) = cp_apply u (CTest (ToDelete (env_fault env) (path_value rq 0))) s"
      by (simp split: prod.split)
    then show ?thesis by - (rule disjI1, rule exI, rule conjI [rotated], assumption, simp)
  next
    case 3
    then have "snd (run_handler env rq h (Some u) s) =
        cp_apply u (CPop (PoCreate (env_fault env) (env_dbclock env) (dec_pop (env_decoders env) (rq_body rq)))) s"
      by (simp split: prod.split)
    then show ?thesis by - (rule disjI1, rule exI, rule conjI [rotated], assumption, simp)
  next
    case 4
    then have "snd (run_handler env rq h (Some u) s) = cp_apply u (CPop (PoDelete (env_fault env) (path_value rq 0))) s"
      by (simp split: prod.split)
    then show ?thesis by - (rule disjI1, rule exI, rule conjI [rotated], assumption, simp)
  next
    case 5
    show ?thesis unfolding 5 run_handler.simps by (rule slots, rule createSLOHandler_apply)
  next
    case 6
    show ?thesis unfolding 6 run_handler.simps by (rule slots) (use deleteSLOHandler_apply in blast)
  next
    case 7
    show ?thesis unfolding 7 run_handler.simps by (rule slots, rule with_minted_apply, rule workspace_handlers_apply)
  next
    case 8
    show ?thesis unfolding 8 run_handler.simps by (rule slots, rule workspace_handlers_apply)
  next
    case 9
    show ?thesis unfolding 9 run_handler.simps by (rule slots, rule workspace_handlers_apply)
  next
    case 10
    show ?thesis unfolding 10 run_handler.simps by (rule slots, rule workspace_handlers_apply)
  next
    case 11
    show ?thesis unfolding 11 run_handler.simps by (rule slots, rule workspace_handlers_apply)
  next
    case 12
    show ?thesis unfolding 12 run_handler.simps by (rule slots, rule with_minted_apply, rule annotation_handlers_apply)
  next
    case 13
    show ?thesis unfolding 13 run_handler.simps by (rule slots, rule annotation_handlers_apply)
  qed
qed

lemma routes_writing:
  "list_all (\<lambda>r. rt_Handler r \<in> set reading_handlers \<or> rt_Method r \<in> set [''POST'', ''PATCH'', ''DELETE'']) routes"
  by code_simp

fun served_user :: "outcome \<Rightarrow> User option" where
  "served_user (Answered code) = None"
| "served_user (Reached h user) = user"

lemma served_user_admit: "served_user (admit env rq s) = Some u \<Longrightarrow> request_user env rq s = Some u"
proof (cases "admit env rq s")
  case (Reached h user)
  then show "served_user (admit env rq s) = Some u \<Longrightarrow> request_user env rq s = Some u"
    unfolding admit_def serve_def request_user_def by (auto elim: dispatch_Reached)
qed simp

text \<open>The handler of a request, whenever it runs, changes nothing, the sessions, or one catalog for the user
  that was admitted, who is no viewer.\<close>

lemma complete_cases:
  assumes "out = admit env rq s0"
  obtains (same) "snd (complete env rq out s) = s"
  | (session) db where "snd (complete env rq out s) = s\<lparr>cp_auth := db\<rparr>" "session_change (cp_auth s) db"
  | (act) u x where "served_user out = Some u" "snd (complete env rq out s) = cp_apply u x s" "op_by u x"
      "Role_Valid (u_Role u)" "u_Role u \<noteq> RoleViewer" "rq_method rq \<in> {''POST'', ''PATCH'', ''DELETE''}"
proof (cases out)
  case (Answered code)
  then show thesis using same by simp
next
  case (Reached h user)
  then have step: "snd (complete env rq out s) = snd (run_handler env rq h user s)" by simp
  have reached: "serve (Repo_Store (env_auth_fault env) (env_dbclock env)) (rq_cookies rq) (env_clock env 0)
      (rq_method rq) (rq_path rq) (cp_auth s0) = Reached h user" using assms Reached by (simp add: admit_def)
  obtain r where r: "r \<in> set routes" "route_match (rq_method rq) (rq_path rq) r" "h = rt_Handler r"
    using reached unfolding serve_def by (rule dispatch_Reached)
  consider "h \<in> set reading_handlers" | "h = HLogin \<or> h = HLogout"
    | "h \<notin> set reading_handlers" "h \<noteq> HLogin" "h \<noteq> HLogout" by blast
  then show thesis
  proof cases
    case 1
    then show thesis using same step run_reading by simp
  next
    case 2
    then show thesis using session step run_session [of h env rq user s] by auto
  next
    case 3
    have "rt_Method r \<in> {''POST'', ''PATCH'', ''DELETE''}"
      using routes_writing [unfolded list_all_iff, rule_format, OF r(1)] 3(1) r(3) by auto
    then have m: "rq_method rq \<in> {''POST'', ''PATCH'', ''DELETE''}"
      using r(2) by (auto simp: route_match_def method_match_def)
    have "h \<notin> set public_handlers" "h \<noteq> HNetqlTranslate"
      using 3 by (auto simp: public_handlers_def reading_handlers_def)
    then obtain u where u: "user = Some u" "Role_Valid (u_Role u)" "u_Role u \<noteq> RoleViewer"
      using protected_handlers [OF reached] m by force
    show thesis using run_writing [OF 3, of u env rq s] same act u step Reached m by auto
  qed
qed

lemma api_step_cases:
  obtains (same) "snd (api_step env rq s) = s"
  | (session) db where "snd (api_step env rq s) = s\<lparr>cp_auth := db\<rparr>" "session_change (cp_auth s) db"
  | (act) u x where "request_user env rq s = Some u" "snd (api_step env rq s) = cp_apply u x s" "op_by u x"
      "Role_Valid (u_Role u)" "u_Role u \<noteq> RoleViewer" "rq_method rq \<in> {''POST'', ''PATCH'', ''DELETE''}"
  by (rule complete_cases [OF refl, of env rq s s]) (auto simp: api_step_def dest: served_user_admit)

section \<open>Isolation\<close>

text \<open>What the catalogs hold under an identifier for a tenant, and whether they are well formed.\<close>

definition tenant_sees :: "string \<Rightarrow> string \<Rightarrow> control_plane \<Rightarrow>
    testResponse option \<times> popResponse option \<times> (SLO \<times> state_row option) option \<times> ws_row option \<times> Annotation option" where
  "tenant_sees tn i s =
    (ts_lookup tn i (cp_tests s), pp_lookup tn i (cp_pops s), slo_lookup tn i (cp_slo s), ws_lookup tn i (cp_ws s),
     an_lookup tn i (cp_an s))"

definition cp_ok :: "control_plane \<Rightarrow> bool" where
  "cp_ok s = (ts_ok (cp_tests s) \<and> pp_ok (cp_pops s) \<and> slo_ids_ok (cp_slo s) \<and> ws_ok (cp_ws s) \<and> an_ok (cp_an s))"

lemma cp_apply_ok: "cp_ok s \<Longrightarrow> cp_ok (cp_apply u x s)"
  by (cases x) (simp_all add: cp_ok_def ts_apply_ok pp_apply_ok slo_table.modify_ok ws.modify_ok an.modify_ok)

lemma cp_apply_other: "cp_ok s \<Longrightarrow> tn \<noteq> u_TenantID u \<Longrightarrow> tenant_sees tn i (cp_apply u x s) = tenant_sees tn i s"
  by (cases x) (simp_all add: tenant_sees_def cp_ok_def ts_lookup_other pp_lookup_other slo_table.frame ws.frame an.frame)

lemma api_step_ok: "cp_ok s \<Longrightarrow> cp_ok (snd (api_step env rq s))"
  by (cases rule: api_step_cases [of env rq s]) (simp_all add: cp_apply_ok, simp add: cp_ok_def)

lemma complete_other:
  assumes "out = admit env rq s0" "cp_ok s" "map_option u_TenantID (served_user out) \<noteq> Some tn"
  shows "tenant_sees tn i (snd (complete env rq out s)) = tenant_sees tn i s"
  by (rule complete_cases [OF assms(1), of s]) (use assms(2,3) in \<open>simp_all add: cp_apply_other\<close>, simp add: tenant_sees_def)

lemma api_step_other:
  assumes "cp_ok s" "map_option u_TenantID (request_user env rq s) \<noteq> Some tn"
  shows "tenant_sees tn i (snd (api_step env rq s)) = tenant_sees tn i s"
  using assms served_user_admit [of env rq s]
  by (cases "served_user (admit env rq s)") (auto simp: api_step_def intro!: complete_other)

text \<open>Histories in which no request comes from the tenant: a request is from the tenant when its cookie,
  at that moment, names a session of one of the tenant's users.\<close>

fun foreign :: "string \<Rightarrow> (environment \<times> request) list \<Rightarrow> control_plane \<Rightarrow> bool" where
  "foreign tn [] s = True"
| "foreign tn ((env, rq) # rqs) s =
    (map_option u_TenantID (request_user env rq s) \<noteq> Some tn \<and> foreign tn rqs (snd (api_step env rq s)))"

lemma api_run_Cons: "api_run ((env, rq) # rqs) s = api_run rqs (snd (api_step env rq s))"
  by (simp add: api_run_def)

lemma api_run_ok: "cp_ok s \<Longrightarrow> cp_ok (api_run rqs s)"
  by (induction rqs arbitrary: s) (auto simp: api_run_Cons api_step_ok, simp add: api_run_def)

text \<open>Tenants are isolated: whatever requests reach the server, in whatever order, with
  whatever faults, what a tenant has under any identifier in any of the five catalogs stays as it is
  as long as none of the requests comes from a user of the tenant.\<close>

theorem tenant_isolation:
  assumes "cp_ok s" "foreign tn rqs s"
  shows "tenant_sees tn i (api_run rqs s) = tenant_sees tn i s"
  using assms
proof (induction rqs arbitrary: s)
  case Nil
  then show ?case by (simp add: api_run_def)
next
  case (Cons x rqs)
  obtain env rq where x: "x = (env, rq)" by (cases x)
  then show ?case
    using Cons api_step_ok [of s env rq] api_step_other [of s env rq tn i] by (simp add: api_run_Cons)
qed

definition empty_plane :: control_plane where
  "empty_plane = \<lparr>cp_auth = \<lparr>ad_tenants = [], ad_users = [], ad_sessions = []\<rparr>, cp_tests = [], cp_pops = [],
     cp_slo = \<lparr>db_slos = [], db_slo_state = []\<rparr>, cp_ws = [], cp_an = [], cp_verdicts = [], cp_results = []\<rparr>"

text \<open>The catalogs stay well formed: after any requests to a server that started empty apart from
  its users, every test has a valid kind, a target and positive times, every POP its prefix and a
  name, every annotation a known scope, shares are complete, and identifiers are unique.\<close>

theorem catalogs_well_formed: "cp_ok (api_run rqs (empty_plane\<lparr>cp_auth := users\<rparr>))"
  by (rule api_run_ok) (simp add: cp_ok_def empty_plane_def ts_ok_def pp_ok_def slo_ids_ok_def ws_ok_def an_ok_def)

text \<open>C15 (safety).  A request that changes anything but the sessions comes from an authenticated user with
  a valid role other than viewer, and its method is POST, PATCH or DELETE.\<close>

theorem only_writers_write:
  assumes "\<forall>db. snd (api_step env rq s) \<noteq> s\<lparr>cp_auth := db\<rparr>"
  shows "\<exists>u. request_user env rq s = Some u \<and> Role_Valid (u_Role u) \<and> u_Role u \<noteq> RoleViewer
    \<and> rq_method rq \<in> {''POST'', ''PATCH'', ''DELETE''}"
proof (cases rule: api_step_cases [of env rq s])
  case same
  then show ?thesis using assms [rule_format, of "cp_auth s"] by simp
qed (use assms in auto)

text \<open>Two states agree for a tenant when they have the same sessions and users and the same rows of the
  tenant; of the rows of others nothing is said.\<close>

definition agree :: "string \<Rightarrow> control_plane \<Rightarrow> control_plane \<Rightarrow> bool" where
  "agree tn s s' =
    (cp_auth s = cp_auth s'
     \<and> filter (\<lambda>t. ts_TenantID t = tn) (cp_tests s) = filter (\<lambda>t. ts_TenantID t = tn) (cp_tests s')
     \<and> filter (\<lambda>p. pp_TenantID p = tn) (cp_pops s) = filter (\<lambda>p. pp_TenantID p = tn) (cp_pops s')
     \<and> filter (\<lambda>x. slo_TenantID x = tn) (db_slos (cp_slo s)) = filter (\<lambda>x. slo_TenantID x = tn) (db_slos (cp_slo s'))
     \<and> (\<forall>x \<in> set (db_slos (cp_slo s)). slo_TenantID x = tn \<longrightarrow>
           find_state (cp_slo s) (slo_ID x) = find_state (cp_slo s') (slo_ID x))
     \<and> filter (\<lambda>w. wr_tenant_id w = tn) (cp_ws s) = filter (\<lambda>w. wr_tenant_id w = tn) (cp_ws s')
     \<and> filter (\<lambda>a. an_TenantID a = tn) (cp_an s) = filter (\<lambda>a. an_TenantID a = tn) (cp_an s')
     \<and> filter (\<lambda>v. vr_TenantID v = tn) (cp_verdicts s) = filter (\<lambda>v. vr_TenantID v = tn) (cp_verdicts s')
     \<and> filter (\<lambda>r. col_str r ''tenant_id'' = tn) (cp_results s) = filter (\<lambda>r. col_str r ''tenant_id'' = tn) (cp_results s'))"

lemma find_of_filter: "filter Q xs = filter Q ys \<Longrightarrow> (\<And>x. P x \<Longrightarrow> Q x) \<Longrightarrow> find P xs = find P ys"
  by (metis find_filter_untouched)

lemma filter_of_filter:
  assumes "filter Q xs = filter Q ys" "\<And>x. P x \<Longrightarrow> Q x"
  shows "filter P xs = filter P ys"
proof -
  have "filter P zs = filter P (filter Q zs)" for zs using assms(2) by (induction zs) auto
  then show ?thesis using assms(1) by metis
qed

lemma agree_finds:
  assumes "agree tn s s'"
  shows "find (ts_hit tn i) (cp_tests s) = find (ts_hit tn i) (cp_tests s')"
    and "find (pp_hit tn i) (cp_pops s) = find (pp_hit tn i) (cp_pops s')"
    and "find (\<lambda>x. slo_TenantID x = tn \<and> slo_ID x = i) (db_slos (cp_slo s)) = find (\<lambda>x. slo_TenantID x = tn \<and> slo_ID x = i) (db_slos (cp_slo s'))"
    and "find (ws_hit tn i) (cp_ws s) = find (ws_hit tn i) (cp_ws s')"
    and "find (an_hit tn i) (cp_an s) = find (an_hit tn i) (cp_an s')"
    and "find (vr_hit tn i m) (cp_verdicts s) = find (vr_hit tn i m) (cp_verdicts s')"
    and "filter (matches tn f) (cp_an s) = filter (matches tn f) (cp_an s')"
    and "filter (\<lambda>r. col_str r ''tenant_id'' = tn \<and> col_str r ''test_id'' = i) (cp_results s) =
      filter (\<lambda>r. col_str r ''tenant_id'' = tn \<and> col_str r ''test_id'' = i) (cp_results s')"
proof -
  have ts: "filter (\<lambda>t. ts_TenantID t = tn) (cp_tests s) = filter (\<lambda>t. ts_TenantID t = tn) (cp_tests s')"
    and pp: "filter (\<lambda>p. pp_TenantID p = tn) (cp_pops s) = filter (\<lambda>p. pp_TenantID p = tn) (cp_pops s')"
    and slo: "filter (\<lambda>x. slo_TenantID x = tn) (db_slos (cp_slo s)) = filter (\<lambda>x. slo_TenantID x = tn) (db_slos (cp_slo s'))"
    and ws: "filter (\<lambda>w. wr_tenant_id w = tn) (cp_ws s) = filter (\<lambda>w. wr_tenant_id w = tn) (cp_ws s')"
    and an: "filter (\<lambda>a. an_TenantID a = tn) (cp_an s) = filter (\<lambda>a. an_TenantID a = tn) (cp_an s')"
    and vr: "filter (\<lambda>v. vr_TenantID v = tn) (cp_verdicts s) = filter (\<lambda>v. vr_TenantID v = tn) (cp_verdicts s')"
    and rs: "filter (\<lambda>r. col_str r ''tenant_id'' = tn) (cp_results s) = filter (\<lambda>r. col_str r ''tenant_id'' = tn) (cp_results s')"
    using assms by (simp_all add: agree_def)
  show "find (ts_hit tn i) (cp_tests s) = find (ts_hit tn i) (cp_tests s')"
    by (rule find_of_filter [OF ts]) (simp add: ts_hit_def)
  show "find (pp_hit tn i) (cp_pops s) = find (pp_hit tn i) (cp_pops s')"
    by (rule find_of_filter [OF pp]) (simp add: pp_hit_def)
  show "find (\<lambda>x. slo_TenantID x = tn \<and> slo_ID x = i) (db_slos (cp_slo s)) =
      find (\<lambda>x. slo_TenantID x = tn \<and> slo_ID x = i) (db_slos (cp_slo s'))"
    by (rule find_of_filter [OF slo]) simp
  show "find (ws_hit tn i) (cp_ws s) = find (ws_hit tn i) (cp_ws s')"
    by (rule find_of_filter [OF ws]) (simp add: ws_hit_def)
  show "find (an_hit tn i) (cp_an s) = find (an_hit tn i) (cp_an s')"
    by (rule find_of_filter [OF an]) (simp add: an_hit_def)
  show "find (vr_hit tn i m) (cp_verdicts s) = find (vr_hit tn i m) (cp_verdicts s')"
    by (rule find_of_filter [OF vr]) (simp add: vr_hit_def)
  show "filter (matches tn f) (cp_an s) = filter (matches tn f) (cp_an s')"
    by (rule filter_of_filter [OF an]) (simp add: matches_def)
  show "filter (\<lambda>r. col_str r ''tenant_id'' = tn \<and> col_str r ''test_id'' = i) (cp_results s) =
      filter (\<lambda>r. col_str r ''tenant_id'' = tn \<and> col_str r ''test_id'' = i) (cp_results s')"
    by (rule filter_of_filter [OF rs]) simp
qed

lemma joined_row_agree: "find_state db (slo_ID x) = find_state db' (slo_ID x) \<Longrightarrow> joined_row db x = joined_row db' x"
  by (simp add: joined_row_def)

lemma agree_slo_list:
  assumes "agree tn s s'"
  shows "ListSLOsWithState flt tn (cp_slo s) = ListSLOsWithState flt tn (cp_slo s')"
proof -
  define rows where "rows = filter (\<lambda>x. slo_TenantID x = tn) (db_slos (cp_slo s))"
  have r: "filter (\<lambda>x. slo_TenantID x = tn) (db_slos (cp_slo s')) = rows"
    using assms by (simp add: agree_def rows_def)
  have "\<forall>x \<in> set (db_slos (cp_slo s)). slo_TenantID x = tn \<longrightarrow>
      find_state (cp_slo s) (slo_ID x) = find_state (cp_slo s') (slo_ID x)"
    using assms unfolding agree_def by (elim conjE)
  then have st: "\<forall>x \<in> set rows. find_state (cp_slo s) (slo_ID x) = find_state (cp_slo s') (slo_ID x)"
    by (simp add: rows_def)
  have "map (joined_row (cp_slo s)) (sort_key (\<lambda>x. - slo_CreatedAt x) rows) =
      map (joined_row (cp_slo s')) (sort_key (\<lambda>x. - slo_CreatedAt x) rows)"
    using st by (intro map_cong refl joined_row_agree) auto
  then show ?thesis by (simp add: ListSLOsWithState_def r rows_def [symmetric])
qed

lemma an_List_matches:
  "an_List flt broken tn f db =
    (if flt then Inl (AnDb ''list'')
     else Inr (received broken (take (nat (list_limit (lf_Limit f))) (sort_key an_At (filter (matches tn f) db)))))"
  by (simp add: an_List_def list_preds_matches case_prod_beta)

lemma run_reading_agree:
  assumes "agree (u_TenantID u) s s'" "h \<in> set reading_handlers" "h \<noteq> HResolveShare"
  shows "fst (run_handler env rq h (Some u) s) = fst (run_handler env rq h (Some u) s')"
proof -
  note same = agree_finds [OF assms(1)] agree_slo_list [OF assms(1)]
  have lists: "filter (\<lambda>t. ts_TenantID t = u_TenantID u) (cp_tests s) = filter (\<lambda>t. ts_TenantID t = u_TenantID u) (cp_tests s')"
    "filter (\<lambda>p. pp_TenantID p = u_TenantID u) (cp_pops s) = filter (\<lambda>p. pp_TenantID p = u_TenantID u) (cp_pops s')"
    "filter (\<lambda>w. wr_tenant_id w = u_TenantID u) (cp_ws s) = filter (\<lambda>w. wr_tenant_id w = u_TenantID u) (cp_ws s')"
    "filter (\<lambda>v. vr_TenantID v = u_TenantID u) (cp_verdicts s) = filter (\<lambda>v. vr_TenantID v = u_TenantID u) (cp_verdicts s')"
    using assms(1) by (simp_all add: agree_def)
  have an: "an_List flt broken (u_TenantID u) f (cp_an s) = an_List flt broken (u_TenantID u) f (cp_an s')"
    for flt broken f by (simp add: an_List_matches same)
  have list: "listAnnotationsHandler p flt broken (Some u) q (cp_an s) = listAnnotationsHandler p flt broken (Some u) q (cp_an s')"
    for p flt broken q unfolding listAnnotationsHandler_def with_user_def option.case an_Service_List_def an ..
  have res: "listTestResultsHandler flt broken (Some u) i q (cp_results s) = listTestResultsHandler flt broken (Some u) i q (cp_results s')"
    for flt broken i q unfolding listTestResultsHandler_def with_user_def option.case same ..
  show ?thesis
    using assms(2,3)
    by (cases h rule: Handler.exhaust) (simp_all add: reading_handlers_def listTestsHandler_def getTestHandler_def loadTest_def listPopsHandler_def
        getPopHandler_def listSLOsHandler_def getSLOHandler_def GetSLO_def listWorkspacesHandler_def
        ws_List_def getWorkspaceHandler_def ws_Get_def getAnnotationHandler_def
        an_Get_def listAnomalyStateHandler_def ListVerdicts_def getAnomalyForTestHandler_def
        getAnomalyForTestMetricHandler_def GetVerdict_def with_user_def lists list res same)
qed

lemma routes_share:
  "list_all (\<lambda>r. rt_Handler r = HResolveShare \<longrightarrow> rt_Pattern r = [Lit ''v1'', Lit ''share'', Wild]) routes"
  by code_simp

text \<open>C6 (safety).  Nothing of another tenant can be read: when two states agree on the sessions, the users
  and the rows of a user's tenant, then every GET or HEAD request of the user that does not resolve a
  public share gets the same response in both, whatever the rows of the others are.\<close>

theorem read_noninterference:
  assumes "request_user env rq s = Some u" "agree (u_TenantID u) s s'"
    "rq_method rq = ''GET'' \<or> rq_method rq = ''HEAD''" "take 2 (rq_path rq) \<noteq> [''v1'', ''share'']"
  shows "fst (api_step env rq s) = fst (api_step env rq s')"
proof -
  have auth: "cp_auth s' = cp_auth s" using assms(2) by (simp add: agree_def)
  show ?thesis
  proof (cases "serve (Repo_Store (env_auth_fault env) (env_dbclock env)) (rq_cookies rq) (env_clock env 0)
        (rq_method rq) (rq_path rq) (cp_auth s)")
    case (Answered code)
    then show ?thesis by (simp add: api_step_def admit_def auth)
  next
    case (Reached h user)
    obtain r where r: "r \<in> set routes" "route_match (rq_method rq) (rq_path rq) r" "h = rt_Handler r"
        "user = request_user env rq s"
      using Reached unfolding serve_def request_user_def by (rule dispatch_Reached)
    have "rt_Handler r \<in> set reading_handlers"
      using routes_writing [unfolded list_all_iff, rule_format, OF r(1)] r(2) assms(3)
      by (auto simp: route_match_def method_match_def)
    moreover have "h \<noteq> HResolveShare"
    proof
      assume "h = HResolveShare"
      then have "rt_Pattern r = [Lit ''v1'', Lit ''share'', Wild]"
        using routes_share [unfolded list_all_iff, rule_format, OF r(1)] r(3) by simp
      then show False using r(2) assms(4) by (auto simp: route_match_def path_match_def list_all2_Cons1)
    qed
    ultimately show ?thesis
      using run_reading_agree [OF assms(2), of h env rq] r(3,4) Reached assms(1) by (simp add: api_step_def admit_def auth)
  qed
qed

section \<open>Instances\<close>

definition demo_decoders :: decoders where
  "demo_decoders = \<lparr>dec_login = \<lambda>_. None, dec_test = \<lambda>_. None,
     dec_pop = \<lambda>b. Some \<lparr>pq_ID = b, pq_Name = ''Paris'', pq_Description = [], pq_Region = ''eu'', pq_HealthURL = []\<rparr>,
     dec_slo = \<lambda>_. None, dec_ws_create = \<lambda>_. None, dec_ws_update = \<lambda>_. None, dec_ttl = \<lambda>_. 0, dec_an = \<lambda>_. None,
     dec_query = \<lambda>b. Some b, dec_time = \<lambda>_. None\<rparr>"

definition demo_env :: environment where
  "demo_env = \<lparr>env_svc = demo_service, env_registry = DefaultRegistry, env_decoders = demo_decoders,
     env_ch = \<lambda>_ _. Inl ''down'', env_auth_fault = False, env_fault = False, env_broken = None, env_dbclock = 9,
     env_clock = \<lambda>n. 9 + int n, env_entropy = Some [1, 171], env_build = (''0'', ''0'', ''0''), env_ping = None, env_metrics = []\<rparr>"

definition demo_request :: "string \<Rightarrow> string list \<Rightarrow> string \<Rightarrow> request" where
  "demo_request m path body = \<lparr>rq_method = m, rq_path = path, rq_cookies = [(''ns_session'', ''ses-01ab'')], rq_query = [],
     rq_body = body\<rparr>"

definition demo_pop :: "string \<Rightarrow> string \<Rightarrow> popResponse" where
  "demo_pop tenant i = \<lparr>pp_ID = i, pp_TenantID = tenant, pp_Name = ''P'', pp_Description = [], pp_Region = [], pp_HealthURL = [],
     pp_CreatedAt = 1\<rparr>"

definition demo_plane :: "popResponse list \<Rightarrow> control_plane" where
  "demo_plane pops = empty_plane\<lparr>cp_auth := snd demo_login, cp_pops := pops\<rparr>"

definition demo_requests :: "(environment \<times> request) list" where
  "demo_requests = [(demo_env, demo_request ''POST'' [''v1'', ''pops''] ''pop-x''),
     (demo_env, demo_request ''DELETE'' [''v1'', ''pops'', ''pop-b''] [])]"

theorem tenant_isolation_witness:
  "tenant_sees ''tnt-b'' ''pop-b'' (api_run demo_requests (demo_plane [demo_pop ''tnt-b'' ''pop-b''])) =
     (None, Some (demo_pop ''tnt-b'' ''pop-b''), None, None, None)
   \<and> map pp_ID (cp_pops (api_run demo_requests (demo_plane [demo_pop ''tnt-b'' ''pop-b'']))) = [''pop-b'', ''pop-x'']"
proof -
  have ok: "cp_ok (demo_plane [demo_pop ''tnt-b'' ''pop-b''])" by code_simp
  have f: "foreign ''tnt-b'' demo_requests (demo_plane [demo_pop ''tnt-b'' ''pop-b''])" by code_simp
  have v: "tenant_sees ''tnt-b'' ''pop-b'' (demo_plane [demo_pop ''tnt-b'' ''pop-b'']) =
     (None, Some (demo_pop ''tnt-b'' ''pop-b''), None, None, None)" by code_simp
  have m: "map pp_ID (cp_pops (api_run demo_requests (demo_plane [demo_pop ''tnt-b'' ''pop-b'']))) = [''pop-b'', ''pop-x'']"
    by code_simp
  show ?thesis using tenant_isolation [OF ok f, of "''pop-b''"] v m by simp
qed

theorem only_writers_write_witness:
  "\<exists>u. request_user demo_env (demo_request ''POST'' [''v1'', ''pops''] ''pop-x'') (demo_plane []) = Some u
     \<and> u_Role u \<noteq> RoleViewer"
proof -
  have p: "map pp_ID (cp_pops (snd (api_step demo_env (demo_request ''POST'' [''v1'', ''pops''] ''pop-x'') (demo_plane [])))) = [''pop-x'']"
    by code_simp
  have "snd (api_step demo_env (demo_request ''POST'' [''v1'', ''pops''] ''pop-x'') (demo_plane [])) \<noteq> (demo_plane [])\<lparr>cp_auth := db\<rparr>"
    for db
  proof
    assume "snd (api_step demo_env (demo_request ''POST'' [''v1'', ''pops''] ''pop-x'') (demo_plane [])) = (demo_plane [])\<lparr>cp_auth := db\<rparr>"
    then show False using p by (simp add: demo_plane_def)
  qed
  then show ?thesis
    using only_writers_write [of demo_env "demo_request ''POST'' [''v1'', ''pops''] ''pop-x''" "demo_plane []"] by blast
qed

theorem read_noninterference_witness:
  "fst (api_step demo_env (demo_request ''GET'' [''v1'', ''pops''] []) (demo_plane [demo_pop ''tnt-b'' ''pop-b'', demo_pop ''tnt-a'' ''pop-a''])) =
   fst (api_step demo_env (demo_request ''GET'' [''v1'', ''pops''] []) (demo_plane [demo_pop ''tnt-a'' ''pop-a'']))"
proof (rule read_noninterference)
  show "request_user demo_env (demo_request ''GET'' [''v1'', ''pops''] [])
      (demo_plane [demo_pop ''tnt-b'' ''pop-b'', demo_pop ''tnt-a'' ''pop-a'']) =
      Some \<lparr>u_ID = ''usr-1'', u_TenantID = ''tnt-a'', u_Email = ''ann@a.io'', u_Role = RoleOperator, u_CreatedAt = 1\<rparr>"
    by code_simp
  show "agree (u_TenantID \<lparr>u_ID = ''usr-1'', u_TenantID = ''tnt-a'', u_Email = ''ann@a.io'', u_Role = RoleOperator, u_CreatedAt = 1\<rparr>)
      (demo_plane [demo_pop ''tnt-b'' ''pop-b'', demo_pop ''tnt-a'' ''pop-a'']) (demo_plane [demo_pop ''tnt-a'' ''pop-a''])"
    by (simp add: agree_def demo_plane_def empty_plane_def demo_pop_def)
qed (simp_all add: demo_request_def)

end
