(* ===== verification/Migrations.thy ===== *)
theory Migrations
  imports GoBase
begin

text \<open>
  The two schema runners: \<open>Migrate\<close> of pkg/store/postgres/migrate.go, which applies each file in a
  transaction of its own, and \<open>Apply\<close> of pkg/store/clickhouse/schema.go, which has no transactions.
  What a statement does to a database is the argument \<open>exec\<close>, \<open>None\<close> for an error; the faults of the
  connection are an argument as well.  The interface \<open>schema_runner\<close> is what the two have in common:
  what applying one file can do.
\<close>

section \<open>Files and tables\<close>

record dir_entry =
  de_Name :: string
  de_IsDir :: bool
  de_Body :: string

text \<open>The names are the order of \<open>sort.Strings\<close>: that of their bytes.\<close>

definition listSQLFiles :: "dir_entry list \<Rightarrow> (string \<times> string) list" where
  "listSQLFiles entries =
    sort_key (\<lambda>f. map byte (fst f))
      (map (\<lambda>e. (de_Name e, de_Body e))
        (filter (\<lambda>e. \<not> de_IsDir e \<and> has_suffix (de_Name e) ''.sql'') entries))"

text \<open>The schema and the tracking table, which may not exist yet.\<close>

record 'd sdb =
  sd_data :: 'd
  sd_tracking :: "string list option"

definition tracked :: "'d sdb \<Rightarrow> string list" where
  "tracked s = (case sd_tracking s of None \<Rightarrow> [] | Some ns \<Rightarrow> ns)"

definition ensure_tracking :: "'d sdb \<Rightarrow> 'd sdb" where
  "ensure_tracking s = s\<lparr>sd_tracking := Some (tracked s)\<rparr>"

datatype mig_error = NilPool | NilSource | EnsureFailed | LoadFailed | ListFailed | ReadFailed string
  | BeginFailed string | ApplyFailed string | RecordFailed string | CommitFailed string

section \<open>One file\<close>

text \<open>What happens to the connection while a file is applied: at one of the calls it fails, or (\<open>\<dots>Lost\<close>)
  the server does what it was asked to, but its answer does not arrive.  ClickHouse has no \<open>Begin\<close> and no
  \<open>Commit\<close>; a transaction of PostgreSQL that does not get to its commit is rolled back.\<close>

datatype file_fault = NoFault | AtBegin | AtApply | ApplyLost | AtRecord | RecordLost | AtCommit | CommitLost

definition pg_applyOne :: "(string \<Rightarrow> 'd \<Rightarrow> 'd option) \<Rightarrow> file_fault \<Rightarrow> string \<Rightarrow> string \<Rightarrow> 'd sdb \<Rightarrow>
    mig_error option \<times> 'd sdb" where
  "pg_applyOne exec flt name body s =
    (if flt = AtBegin then (Some (BeginFailed name), s)
     else (case (if flt = AtApply \<or> flt = ApplyLost then None else exec body (sd_data s)) of
             None \<Rightarrow> (Some (ApplyFailed name), s)
           | Some d \<Rightarrow>
               if flt = AtRecord \<or> flt = RecordLost then (Some (RecordFailed name), s)
               else (let done = \<lparr>sd_data = d, sd_tracking = Some (if name \<in> set (tracked s) then tracked s else tracked s @ [name])\<rparr>
                     in if flt = AtCommit then (Some (CommitFailed name), s)
                        else if flt = CommitLost then (Some (CommitFailed name), done)
                        else (None, done))))"

definition ch_applyOne :: "(string \<Rightarrow> 'd \<Rightarrow> 'd option) \<Rightarrow> file_fault \<Rightarrow> string \<Rightarrow> string \<Rightarrow> 'd sdb \<Rightarrow>
    mig_error option \<times> 'd sdb" where
  "ch_applyOne exec flt name body s =
    (case (if flt = AtApply then None else exec body (sd_data s)) of
       None \<Rightarrow> (Some (ApplyFailed name), s)
     | Some d \<Rightarrow>
         (let run = s\<lparr>sd_data := d\<rparr>; recorded = run\<lparr>sd_tracking := Some (tracked s @ [name])\<rparr>
          in if flt = ApplyLost then (Some (ApplyFailed name), run)
             else if flt = AtRecord then (Some (RecordFailed name), run)
             else if flt = RecordLost then (Some (RecordFailed name), recorded)
             else (None, recorded)))"

section \<open>The runners\<close>

text \<open>The loop over the files, the set \<open>applied\<close> having been read before it.\<close>

fun run_files :: "('f \<Rightarrow> string \<Rightarrow> string \<Rightarrow> 'd sdb \<Rightarrow> mig_error option \<times> 'd sdb) \<Rightarrow> (string \<Rightarrow> 'f option) \<Rightarrow> string set \<Rightarrow>
    (string \<times> string) list \<Rightarrow> 'd sdb \<Rightarrow> mig_error option \<times> 'd sdb" where
  "run_files one flt applied [] s = (None, s)"
| "run_files one flt applied ((name, body) # fs) s =
    (if name \<in> applied then run_files one flt applied fs s
     else (case flt name of
             None \<Rightarrow> (Some (ReadFailed name), s)
           | Some f \<Rightarrow>
               (case one f name body s of
                  (Some e, s') \<Rightarrow> (Some e, s')
                | (None, s') \<Rightarrow> run_files one flt applied fs s')))"

text \<open>The environment of one call: whether the pool and the source are there, the faults of the first
  statements and of the directory, and for each file whether it can be read and what happens to it.\<close>

record mig_env =
  me_pool :: bool
  me_src :: bool
  me_ensure :: bool
  me_load :: bool
  me_dir :: bool
  me_file :: "string \<Rightarrow> file_fault option"

definition run_schema :: "(file_fault \<Rightarrow> string \<Rightarrow> string \<Rightarrow> 'd sdb \<Rightarrow> mig_error option \<times> 'd sdb) \<Rightarrow> dir_entry list \<Rightarrow>
    mig_env \<Rightarrow> 'd sdb \<Rightarrow> mig_error option \<times> 'd sdb" where
  "run_schema one entries env s =
    (if \<not> me_pool env then (Some NilPool, s)
     else if \<not> me_src env then (Some NilSource, s)
     else if me_ensure env then (Some EnsureFailed, s)
     else (let s1 = ensure_tracking s
           in if me_load env then (Some LoadFailed, s1)
              else if me_dir env then (Some ListFailed, s1)
              else run_files one (me_file env) (set (tracked s1)) (listSQLFiles entries) s1))"

definition Migrate :: "(string \<Rightarrow> 'd \<Rightarrow> 'd option) \<Rightarrow> dir_entry list \<Rightarrow> mig_env \<Rightarrow> 'd sdb \<Rightarrow> mig_error option \<times> 'd sdb" where
  "Migrate exec = run_schema (pg_applyOne exec)"

definition Apply :: "(string \<Rightarrow> 'd \<Rightarrow> 'd option) \<Rightarrow> dir_entry list \<Rightarrow> mig_env \<Rightarrow> 'd sdb \<Rightarrow> mig_error option \<times> 'd sdb" where
  "Apply exec = run_schema (ch_applyOne exec)"

text \<open>ClickHouse has its own copies of the two loops before the files: over the directory, and over the rows of the tracking table, which may
  name a file twice.  They agree with those of PostgreSQL, so that one runner serves both.\<close>

fun sql_names :: "dir_entry list \<Rightarrow> (string \<times> string) list \<Rightarrow> (string \<times> string) list" where
  "sql_names [] files = files"
| "sql_names (e # es) files =
    (if de_IsDir e then sql_names es files
     else if \<not> has_suffix (de_Name e) ''.sql'' then sql_names es files
     else sql_names es (files @ [(de_Name e, de_Body e)]))"

definition ch_listSQLFiles :: "dir_entry list \<Rightarrow> (string \<times> string) list" where
  "ch_listSQLFiles entries = sort_key (\<lambda>f. map byte (fst f)) (sql_names entries [])"

definition ch_loadAppliedSet :: "'d sdb \<Rightarrow> string set" where
  "ch_loadAppliedSet s = fold insert (tracked s) {}"

lemma sql_names_eq:
  "sql_names es files = files @ map (\<lambda>e. (de_Name e, de_Body e))
     (filter (\<lambda>e. \<not> de_IsDir e \<and> has_suffix (de_Name e) ''.sql'') es)"
  by (induction es arbitrary: files) simp_all

lemma ch_run_schema:
  "me_pool env \<Longrightarrow> me_src env \<Longrightarrow> \<not> me_ensure env \<Longrightarrow> \<not> me_load env \<Longrightarrow> \<not> me_dir env \<Longrightarrow>
   Apply exec entries env s =
     run_files (ch_applyOne exec) (me_file env) (ch_loadAppliedSet (ensure_tracking s)) (ch_listSQLFiles entries) (ensure_tracking s)"
  by (simp add: Apply_def run_schema_def Let_def ch_loadAppliedSet_def union_set_fold [symmetric] ch_listSQLFiles_def
      sql_names_eq listSQLFiles_def)

text \<open>A call without faults, and the calls of the boots of a deployment.\<close>

definition quiet_env :: mig_env where
  "quiet_env = \<lparr>me_pool = True, me_src = True, me_ensure = False, me_load = False, me_dir = False,
     me_file = \<lambda>_. Some NoFault\<rparr>"

definition migrations :: "(string \<Rightarrow> 'd \<Rightarrow> 'd option) \<Rightarrow> dir_entry list \<Rightarrow> mig_env list \<Rightarrow> 'd sdb \<Rightarrow> 'd sdb" where
  "migrations exec entries envs s = fold (\<lambda>env s. snd (Migrate exec entries env s)) envs s"

definition applications :: "(string \<Rightarrow> 'd \<Rightarrow> 'd option) \<Rightarrow> dir_entry list \<Rightarrow> mig_env list \<Rightarrow> 'd sdb \<Rightarrow> 'd sdb" where
  "applications exec entries envs s = fold (\<lambda>env s. snd (Apply exec entries env s)) envs s"

section \<open>What the files do, one after the other\<close>

fun runs :: "(string \<Rightarrow> 'd \<Rightarrow> 'd option) \<Rightarrow> (string \<times> string) list \<Rightarrow> 'd \<Rightarrow> 'd option" where
  "runs exec [] d = Some d"
| "runs exec ((name, body) # fs) d = Option.bind (exec body d) (runs exec fs)"

lemma runs_append: "runs exec (fs @ gs) d = Option.bind (runs exec fs d) (runs exec gs)"
proof (induction fs arbitrary: d)
  case (Cons f fs)
  then show ?case by (cases f; cases "exec (snd f) d") simp_all
qed simp

lemma runs_snoc: "runs exec fs d = Some d' \<Longrightarrow> runs exec (fs @ [(name, body)]) d = exec body d'"
  by (cases "exec body d'") (simp_all add: runs_append)

text \<open>The interface: without an error, applying a file runs and records it; with one, it did nothing or both,
  or, when the runner may be \<open>torn\<close>, it ran the file without recording it.\<close>

locale schema_runner =
  fixes one :: "file_fault \<Rightarrow> string \<Rightarrow> string \<Rightarrow> 'd sdb \<Rightarrow> mig_error option \<times> 'd sdb"
    and exec :: "string \<Rightarrow> 'd \<Rightarrow> 'd option"
    and torn :: bool
  assumes done_law: "one f name body s = (None, s') \<Longrightarrow> name \<notin> set (tracked s) \<Longrightarrow>
      \<exists>d. exec body (sd_data s) = Some d \<and> s' = \<lparr>sd_data = d, sd_tracking = Some (tracked s @ [name])\<rparr>"
    and failed_law: "one f name body s = (Some e, s') \<Longrightarrow> name \<notin> set (tracked s) \<Longrightarrow>
      s' = s \<or> (\<exists>d. exec body (sd_data s) = Some d
        \<and> (torn \<and> s' = s\<lparr>sd_data := d\<rparr> \<or> s' = \<lparr>sd_data = d, sd_tracking = Some (tracked s @ [name])\<rparr>))"
    and quiet_law: "exec body (sd_data s) = Some d \<Longrightarrow> fst (one NoFault name body s) = None"
begin

text \<open>\<open>k\<close> files are recorded; the schema is that after \<open>k\<close> of them, or after one more if the runner may be
  torn.\<close>

definition at_file :: "(string \<times> string) list \<Rightarrow> 'd \<Rightarrow> nat \<Rightarrow> 'd sdb \<Rightarrow> bool" where
  "at_file files d0 k s =
    (k \<le> length files \<and> tracked s = map fst (take k files)
     \<and> (runs exec (take k files) d0 = Some (sd_data s)
       \<or> torn \<and> k < length files \<and> runs exec (take (Suc k) files) d0 = Some (sd_data s)))"

definition idem :: "(string \<times> string) list \<Rightarrow> 'd \<Rightarrow> bool" where
  "idem files d0 = (torn \<longrightarrow> (\<forall>k < length files. \<forall>d. runs exec (take (Suc k) files) d0 = Some d \<longrightarrow> exec (snd (files ! k)) d = Some d))"

lemma exec_next:
  assumes "idem files d0" "at_file files d0 k s" "k < length files"
  shows "exec (snd (files ! k)) (sd_data s) = runs exec (take (Suc k) files) d0"
proof -
  have t: "take (Suc k) files = take k files @ [(fst (files ! k), snd (files ! k))]"
    using assms(3) by (simp add: take_Suc_conv_app_nth)
  from assms(2) consider "runs exec (take k files) d0 = Some (sd_data s)" | torn "runs exec (take (Suc k) files) d0 = Some (sd_data s)"
    by (auto simp: at_file_def)
  then show ?thesis
  proof cases
    case 1
    then show ?thesis unfolding t by (rule runs_snoc [symmetric])
  next
    case 2
    then show ?thesis using assms(1,3) unfolding idem_def by metis
  qed
qed

lemma at_file_recorded:
  assumes "at_file files d0 k s" "k < length files" "runs exec (take (Suc k) files) d0 = Some d"
  shows "at_file files d0 (Suc k) \<lparr>sd_data = d, sd_tracking = Some (tracked s @ [fst (files ! k)])\<rparr>"
  using assms by (simp add: at_file_def tracked_def take_Suc_conv_app_nth)

lemma at_file_fresh:
  assumes "at_file files d0 k s" "k < length files" "distinct (map fst files)"
  shows "fst (files ! k) \<notin> set (tracked s)"
proof
  assume "fst (files ! k) \<in> set (tracked s)"
  then obtain i where i: "i < k" "fst (files ! i) = fst (files ! k)"
    using assms(1,2) by (auto simp: at_file_def in_set_conv_nth)
  then show False using assms(2,3) nth_eq_iff_index_eq [of "map fst files" i k] by simp
qed

lemma at_file_pending:
  assumes "at_file files d0 k s" "k < length files" "distinct (map fst files)" "k0 \<le> k"
  shows "fst (files ! k) \<notin> set (map fst (take k0 files))"
  using at_file_fresh [OF assms(1-3)] assms(1) set_take_subset_set_take [OF assms(4), of files]
  by (auto simp: at_file_def)

lemma run_files_at:
  assumes "idem files d0" "distinct (map fst files)" "at_file files d0 k s" "k0 \<le> k"
  shows "\<exists>k'. at_file files d0 k' (snd (run_files one flt (set (map fst (take k0 files))) (drop k files) s)) \<and> k \<le> k'"
  using assms(3,4)
proof (induction "length files - k" arbitrary: k s)
  case 0
  then show ?case by auto
next
  case (Suc n)
  then have k: "k < length files" and n: "n = length files - Suc k" by simp_all
  obtain name body where nb: "files ! k = (name, body)" by (cases "files ! k")
  have drop: "drop k files = (name, body) # drop (Suc k) files" using k nb by (simp add: Cons_nth_drop_Suc [symmetric])
  have "fst (files ! k) \<notin> set (tracked s)" using at_file_fresh [OF Suc.prems(1) k assms(2)] .
  then have new: "name \<notin> set (tracked s)" by (simp add: nb)
  have skip: "name \<notin> set (map fst (take k0 files))"
    using at_file_pending [OF Suc.prems(1) k assms(2) Suc.prems(2)] by (simp add: nb)
  have ex: "exec body (sd_data s) = runs exec (take (Suc k) files) d0"
    using exec_next [OF assms(1) Suc.prems(1) k] by (simp add: nb)
  show ?case
  proof (cases "flt name")
    case None
    then show ?thesis using Suc.prems skip by (auto simp: drop)
  next
    case (Some f)
    obtain e s' where one: "one f name body s = (e, s')" by (cases "one f name body s")
    show ?thesis
    proof (cases e)
      case None
      obtain d where d: "exec body (sd_data s) = Some d" "s' = \<lparr>sd_data = d, sd_tracking = Some (tracked s @ [name])\<rparr>"
        using done_law [OF one [unfolded None] new] by blast
      have "at_file files d0 (Suc k) s'"
        using at_file_recorded [OF Suc.prems(1) k, of d] ex d by (simp add: nb)
      then obtain k' where "at_file files d0 k' (snd (run_files one flt (set (map fst (take k0 files))) (drop (Suc k) files) s'))" "Suc k \<le> k'"
        using Suc.hyps(1) [of "Suc k" s'] n Suc.prems(2) by auto
      moreover have "run_files one flt (set (map fst (take k0 files))) (drop k files) s =
          run_files one flt (set (map fst (take k0 files))) (drop (Suc k) files) s'"
        unfolding drop run_files.simps(2) using skip by (simp add: Some one None)
      ultimately show ?thesis using Suc_leD by metis
    next
      case (Some e')
      have r: "snd (run_files one flt (set (map fst (take k0 files))) (drop k files) s) = s'"
        unfolding drop run_files.simps(2) using skip by (simp add: \<open>flt name = Some f\<close> one Some)
      from failed_law [OF one [unfolded Some] new] consider "s' = s"
        | d where torn "exec body (sd_data s) = Some d" "s' = s\<lparr>sd_data := d\<rparr>"
        | d where "exec body (sd_data s) = Some d" "s' = \<lparr>sd_data = d, sd_tracking = Some (tracked s @ [name])\<rparr>" by blast
      then show ?thesis
      proof cases
        case 1
        then show ?thesis using r Suc.prems(1) by auto
      next
        case 2
        then have "at_file files d0 k s'" using Suc.prems(1) k ex unfolding at_file_def tracked_def by auto
        then show ?thesis using r by auto
      next
        case 3
        then have "at_file files d0 (Suc k) s'" using at_file_recorded [OF Suc.prems(1) k, of d] ex by (simp add: nb)
        then show ?thesis using r by (intro exI [of _ "Suc k"]) simp
      qed
    qed
  qed
qed

lemma run_files_skip:
  assumes "set (map fst fs) \<subseteq> applied"
  shows "run_files one flt applied (fs @ gs) s = run_files one flt applied gs s"
  using assms by (induction fs) auto

lemma at_file_schema:
  assumes "files = listSQLFiles entries" "idem files d0" "distinct (map fst files)" "at_file files d0 k s"
  shows "\<exists>k'. at_file files d0 k' (snd (run_schema one entries env s)) \<and> k \<le> k'"
proof -
  have e: "at_file files d0 k (ensure_tracking s)" "tracked (ensure_tracking s) = map fst (take k files)"
    using assms(4) by (auto simp: at_file_def ensure_tracking_def tracked_def)
  have "run_files one flt (set (map fst (take k files))) files t = run_files one flt (set (map fst (take k files))) (drop k files) t"
    for flt t using run_files_skip [of "take k files" _ flt "drop k files" t] by simp
  then show ?thesis
    using run_files_at [OF assms(2,3) e(1), of k "me_file env"] assms(4) e
    by (auto simp: run_schema_def Let_def assms(1) [symmetric])
qed

definition history :: "dir_entry list \<Rightarrow> mig_env list \<Rightarrow> 'd sdb \<Rightarrow> 'd sdb" where
  "history entries envs s = fold (\<lambda>env s. snd (run_schema one entries env s)) envs s"

lemma at_file_history:
  assumes "files = listSQLFiles entries" "idem files d0" "distinct (map fst files)" "at_file files d0 k s"
  shows "\<exists>k'. at_file files d0 k' (history entries envs s) \<and> k \<le> k'"
  using assms(4)
proof (induction envs arbitrary: k s)
  case (Cons env envs)
  obtain k1 where "at_file files d0 k1 (snd (run_schema one entries env s))" "k \<le> k1"
    using at_file_schema [OF assms(1-3) Cons.prems] by blast
  then show ?case using Cons.IH by (fastforce simp: history_def)
qed (auto simp: history_def)

lemma run_files_quiet:
  assumes "idem files d0" "distinct (map fst files)" "at_file files d0 k s" "k0 \<le> k" "runs exec files d0 \<noteq> None"
    "\<forall>name. flt name = Some NoFault"
  shows "fst (run_files one flt (set (map fst (take k0 files))) (drop k files) s) = None
    \<and> at_file files d0 (length files) (snd (run_files one flt (set (map fst (take k0 files))) (drop k files) s))"
  using assms(3,4)
proof (induction "length files - k" arbitrary: k s)
  case 0
  then show ?case by (auto simp: at_file_def)
next
  case (Suc n)
  then have k: "k < length files" and n: "n = length files - Suc k" by simp_all
  obtain name body where nb: "files ! k = (name, body)" by (cases "files ! k")
  have drop: "drop k files = (name, body) # drop (Suc k) files" using k nb by (simp add: Cons_nth_drop_Suc [symmetric])
  have new: "name \<notin> set (tracked s)" using at_file_fresh [OF Suc.prems(1) k assms(2)] by (simp add: nb)
  have skip: "name \<notin> set (map fst (take k0 files))"
    using at_file_pending [OF Suc.prems(1) k assms(2) Suc.prems(2)] by (simp add: nb)
  have "runs exec (take (Suc k) files) d0 \<noteq> None"
    using assms(5) runs_append [of exec "take (Suc k) files" "drop (Suc k) files" d0] by (cases "runs exec (take (Suc k) files) d0") simp_all
  then obtain d where d: "exec body (sd_data s) = Some d" "runs exec (take (Suc k) files) d0 = Some d"
    using exec_next [OF assms(1) Suc.prems(1) k] by (auto simp: nb)
  obtain e s' where one: "one NoFault name body s = (e, s')" by (cases "one NoFault name body s")
  have e: "e = None" using quiet_law [of body s d name] d(1) one by simp
  have s': "s' = \<lparr>sd_data = d, sd_tracking = Some (tracked s @ [name])\<rparr>"
    using done_law [OF one [unfolded e] new] d(1) by auto
  have at: "at_file files d0 (Suc k) s'"
    unfolding s' using at_file_recorded [OF Suc.prems(1) k d(2)] by (simp add: nb)
  have "run_files one flt (set (map fst (take k0 files))) (drop k files) s =
      run_files one flt (set (map fst (take k0 files))) (drop (Suc k) files) s'"
    unfolding drop run_files.simps(2) using skip assms(6) by (simp add: one e)
  then show ?case using Suc.hyps(1) [OF n at] Suc.prems(2) by simp
qed

lemma quiet_schema:
  assumes "files = listSQLFiles entries" "idem files d0" "distinct (map fst files)" "at_file files d0 k s"
    "runs exec files d0 = Some d"
  shows "fst (run_schema one entries quiet_env s) = None \<and> sd_data (snd (run_schema one entries quiet_env s)) = d
    \<and> tracked (snd (run_schema one entries quiet_env s)) = map fst files"
proof -
  have e: "at_file files d0 k (ensure_tracking s)" "tracked (ensure_tracking s) = map fst (take k files)"
    using assms(4) by (auto simp: at_file_def ensure_tracking_def tracked_def)
  define r where "r = run_files one (me_file quiet_env) (set (map fst (take k files))) (drop k files) (ensure_tracking s)"
  have sk: "run_files one (me_file quiet_env) (set (map fst (take k files))) files (ensure_tracking s) = r"
    using run_files_skip [of "take k files" _ "me_file quiet_env" "drop k files" "ensure_tracking s"] by (simp add: r_def)
  have "fst r = None \<and> at_file files d0 (length files) (snd r)"
    unfolding r_def using assms(5) by (intro run_files_quiet [OF assms(2,3) e(1)]) (simp_all add: quiet_env_def)
  moreover have "run_schema one entries quiet_env s = r"
    using sk e(2) by (simp add: run_schema_def Let_def assms(1) [symmetric] quiet_env_def)
  ultimately show ?thesis using assms(5) by (auto simp: at_file_def)
qed

end

section \<open>The two runners\<close>

lemma pg_laws:
  "pg_applyOne exec f name body s = (None, s') \<Longrightarrow> name \<notin> set (tracked s) \<Longrightarrow>
     \<exists>d. exec body (sd_data s) = Some d \<and> s' = \<lparr>sd_data = d, sd_tracking = Some (tracked s @ [name])\<rparr>"
  "pg_applyOne exec f name body s = (Some e, s') \<Longrightarrow> name \<notin> set (tracked s) \<Longrightarrow>
     s' = s \<or> (\<exists>d. exec body (sd_data s) = Some d
       \<and> (False \<and> s' = s\<lparr>sd_data := d\<rparr> \<or> s' = \<lparr>sd_data = d, sd_tracking = Some (tracked s @ [name])\<rparr>))"
  "exec body (sd_data s) = Some d \<Longrightarrow> fst (pg_applyOne exec NoFault name body s) = None"
  by (auto simp: pg_applyOne_def Let_def split: option.splits if_splits)

lemma ch_laws:
  "ch_applyOne exec f name body s = (None, s') \<Longrightarrow> name \<notin> set (tracked s) \<Longrightarrow>
     \<exists>d. exec body (sd_data s) = Some d \<and> s' = \<lparr>sd_data = d, sd_tracking = Some (tracked s @ [name])\<rparr>"
  "ch_applyOne exec f name body s = (Some e, s') \<Longrightarrow> name \<notin> set (tracked s) \<Longrightarrow>
     s' = s \<or> (\<exists>d. exec body (sd_data s) = Some d
       \<and> (True \<and> s' = s\<lparr>sd_data := d\<rparr> \<or> s' = \<lparr>sd_data = d, sd_tracking = Some (tracked s @ [name])\<rparr>))"
  "exec body (sd_data s) = Some d \<Longrightarrow> fst (ch_applyOne exec NoFault name body s) = None"
  by (auto simp: ch_applyOne_def Let_def split: option.splits if_splits)

interpretation pg: schema_runner "pg_applyOne exec" exec False
  by unfold_locales (fact pg_laws)+

interpretation ch: schema_runner "ch_applyOne exec" exec True
  by unfold_locales (fact ch_laws)+

lemma migrations_history: "migrations exec entries envs s = pg.history exec entries envs s"
  by (simp add: migrations_def pg.history_def Migrate_def)

lemma applications_history: "applications exec entries envs s = ch.history exec entries envs s"
  by (simp add: applications_def ch.history_def Apply_def)

text \<open>C22 (invariant).  Migrations of PostgreSQL run exactly once and in order: after any boots of a
  deployment, each of which may fail anywhere, the schema is what the recorded files make of the
  fresh database, and these are the first ones of the list; and when no file is wrong, the next boot
  without a fault brings it to the end of the list.\<close>

theorem migrate_exactly_once:
  assumes "distinct (map fst (listSQLFiles entries))"
  shows "let files = listSQLFiles entries; s = migrations exec entries envs \<lparr>sd_data = d0, sd_tracking = None\<rparr>
    in (\<exists>k \<le> length files. tracked s = map fst (take k files) \<and> runs exec (take k files) d0 = Some (sd_data s))
      \<and> (\<forall>d. runs exec files d0 = Some d \<longrightarrow>
           fst (Migrate exec entries quiet_env s) = None \<and> sd_data (snd (Migrate exec entries quiet_env s)) = d
           \<and> tracked (snd (Migrate exec entries quiet_env s)) = map fst files)"
proof -
  define files s where "files = listSQLFiles entries" and
    "s = migrations exec entries envs \<lparr>sd_data = d0, sd_tracking = None\<rparr>"
  have id: "pg.idem exec files d0" by (simp add: pg.idem_def)
  have "pg.at_file exec files d0 0 \<lparr>sd_data = d0, sd_tracking = None\<rparr>" by (simp add: pg.at_file_def tracked_def)
  then obtain k where k: "pg.at_file exec files d0 k s"
    using pg.at_file_history [OF files_def id assms [folded files_def]] unfolding s_def migrations_history by blast
  moreover have "fst (Migrate exec entries quiet_env s) = None \<and> sd_data (snd (Migrate exec entries quiet_env s)) = d
      \<and> tracked (snd (Migrate exec entries quiet_env s)) = map fst files" if "runs exec files d0 = Some d" for d
    using pg.quiet_schema [OF files_def id assms [folded files_def] k that] by (simp add: Migrate_def)
  ultimately show ?thesis unfolding Let_def files_def [symmetric] s_def [symmetric] pg.at_file_def by blast
qed

text \<open>C24 (safety).  ClickHouse has no transactions, but where running a statement again changes nothing, the
  schema is that of the recorded files, or of one file more, whatever fails; and the next boot without
  a fault brings it to the end of the list, as if each file had run once.\<close>

theorem apply_at_least_once:
  assumes "distinct (map fst (listSQLFiles entries))" "\<forall>f \<in> set (listSQLFiles entries). \<forall>d d'. exec (snd f) d = Some d' \<longrightarrow> exec (snd f) d' = Some d'"
  shows "let files = listSQLFiles entries; s = applications exec entries envs \<lparr>sd_data = d0, sd_tracking = None\<rparr>
    in (\<exists>k \<le> length files. tracked s = map fst (take k files) \<and>
          (runs exec (take k files) d0 = Some (sd_data s) \<or> runs exec (take (Suc k) files) d0 = Some (sd_data s)))
      \<and> (\<forall>d. runs exec files d0 = Some d \<longrightarrow>
           fst (Apply exec entries quiet_env s) = None \<and> sd_data (snd (Apply exec entries quiet_env s)) = d
           \<and> tracked (snd (Apply exec entries quiet_env s)) = map fst files)"
proof -
  define files s where "files = listSQLFiles entries" and
    "s = applications exec entries envs \<lparr>sd_data = d0, sd_tracking = None\<rparr>"
  have id: "ch.idem exec files d0"
  proof -
    have "exec (snd (files ! k)) d = Some d" if k: "k < length files" and r: "runs exec (take (Suc k) files) d0 = Some d" for k d
    proof -
      have "take (Suc k) files = take k files @ [(fst (files ! k), snd (files ! k))]"
        using k by (simp add: take_Suc_conv_app_nth)
      then obtain d1 where "runs exec (take k files) d0 = Some d1" "exec (snd (files ! k)) d1 = Some d"
        using r by (cases "runs exec (take k files) d0"; cases "exec (snd (files ! k)) (the (runs exec (take k files) d0))")
          (auto simp: runs_append simp del: prod.collapse)
      then show ?thesis using assms(2) nth_mem [OF k] unfolding files_def [symmetric] by blast
    qed
    then show ?thesis by (simp add: ch.idem_def)
  qed
  have "ch.at_file exec files d0 0 \<lparr>sd_data = d0, sd_tracking = None\<rparr>" by (simp add: ch.at_file_def tracked_def)
  then obtain k where k: "ch.at_file exec files d0 k s"
    using ch.at_file_history [OF files_def id assms(1) [folded files_def]] unfolding s_def applications_history by blast
  moreover have "fst (Apply exec entries quiet_env s) = None \<and> sd_data (snd (Apply exec entries quiet_env s)) = d
      \<and> tracked (snd (Apply exec entries quiet_env s)) = map fst files" if "runs exec files d0 = Some d" for d
    using ch.quiet_schema [OF files_def id assms(1) [folded files_def] k that] by (simp add: Apply_def)
  ultimately show ?thesis unfolding Let_def files_def [symmetric] s_def [symmetric] ch.at_file_def by blast
qed

section \<open>Instances\<close>

text \<open>A database that logs what it ran, and one of tables that exist.\<close>

definition logging_exec :: "string \<Rightarrow> string list \<Rightarrow> string list option" where
  "logging_exec body d = (if body = ''bad'' then None else Some (d @ [body]))"

definition creating_exec :: "string \<Rightarrow> string list \<Rightarrow> string list option" where
  "creating_exec body d = Some (if body \<in> set d then d else d @ [body])"

definition demo_sources :: "dir_entry list" where
  "demo_sources = [\<lparr>de_Name = ''0002_b.sql'', de_IsDir = False, de_Body = ''B''\<rparr>,
     \<lparr>de_Name = ''README.md'', de_IsDir = False, de_Body = ''R''\<rparr>, \<lparr>de_Name = ''0001_a.sql'', de_IsDir = False, de_Body = ''A''\<rparr>]"

definition faulty :: "string \<Rightarrow> file_fault \<Rightarrow> mig_env" where
  "faulty name f = quiet_env\<lparr>me_file := \<lambda>n. Some (if n = name then f else NoFault)\<rparr>"

lemma demo_files: "listSQLFiles demo_sources = [(''0001_a.sql'', ''A''), (''0002_b.sql'', ''B'')]" by code_simp

theorem migrate_exactly_once_witness:
  "sd_data (snd (Migrate logging_exec demo_sources quiet_env
     (migrations logging_exec demo_sources [faulty ''0002_b.sql'' AtCommit, faulty ''0002_b.sql'' CommitLost]
       \<lparr>sd_data = [], sd_tracking = None\<rparr>))) = [''A'', ''B'']"
proof -
  have d: "distinct (map fst (listSQLFiles demo_sources))" by (simp add: demo_files)
  have r: "runs logging_exec (listSQLFiles demo_sources) [] = Some [''A'', ''B'']" unfolding demo_files by code_simp
  show ?thesis
    using conjunct2 [OF migrate_exactly_once [OF d, of logging_exec
        "[faulty ''0002_b.sql'' AtCommit, faulty ''0002_b.sql'' CommitLost]" "[]", unfolded Let_def]] r by simp
qed

theorem apply_at_least_once_witness:
  "sd_data (snd (Apply creating_exec demo_sources quiet_env
     (applications creating_exec demo_sources [faulty ''0001_a.sql'' AtRecord, faulty ''0002_b.sql'' ApplyLost]
       \<lparr>sd_data = [], sd_tracking = None\<rparr>))) = [''A'', ''B'']"
proof -
  have d: "distinct (map fst (listSQLFiles demo_sources))" by (simp add: demo_files)
  have i: "\<forall>f \<in> set (listSQLFiles demo_sources). \<forall>d d'. creating_exec (snd f) d = Some d' \<longrightarrow> creating_exec (snd f) d' = Some d'"
    by (auto simp: creating_exec_def)
  have r: "runs creating_exec (listSQLFiles demo_sources) [] = Some [''A'', ''B'']" unfolding demo_files by code_simp
  show ?thesis
    using conjunct2 [OF apply_at_least_once [OF d i, of
        "[faulty ''0001_a.sql'' AtRecord, faulty ''0002_b.sql'' ApplyLost]" "[]", unfolded Let_def]] r by simp
qed

end
