(* ===== verification/Seed.thy ===== *)
theory Seed
  imports Migrations AuthService Catalog SloStore
begin

text \<open>
  The bootstrap commands of the CLI: \<open>ns seed admin\<close> (cmd/ns/seed.go) and \<open>ns seed demo\<close>
  (cmd/ns/seed_demo.go) on the tables of PostgreSQL.  The flags and the environment are records; whether
  the connection opens, what the migrations do and the faults of the database are arguments.
\<close>

section \<open>The first admin\<close>

record seed_flags =
  sf_tenantID :: string
  sf_tenantName :: string
  sf_email :: string
  sf_password :: string

record cli_env =
  ce_password :: string
  ce_dsn :: string

datatype seed_error = EmailRequired | PasswordRequired | DsnRequired | ConnectFailed | MigrateFailed mig_error
  | SeedAuth auth_error | SeedStatement string

datatype seed_result = SeedCreated string string string | SeedExists string string

text \<open>\<open>open\<close> is whether the connection opens and \<open>migrated\<close> the error of the migrations, if any.\<close>

definition seed_admin :: "Service \<Rightarrow> bool \<Rightarrow> mig_error option \<Rightarrow> bool \<Rightarrow> time \<Rightarrow> int list option \<Rightarrow> time \<Rightarrow>
    cli_env \<Rightarrow> seed_flags \<Rightarrow> auth_db \<Rightarrow> (seed_error, seed_result) result \<times> auth_db" where
  "seed_admin svc opens migrated flt created entropy now env f db =
    (let password = (if sf_password f = [] then ce_password env else sf_password f)
     in if sf_email f = [] then (Inl EmailRequired, db)
        else if password = [] then (Inl PasswordRequired, db)
        else if ce_dsn env = [] then (Inl DsnRequired, db)
        else if \<not> opens then (Inl ConnectFailed, db)
        else (case migrated of
                Some e \<Rightarrow> (Inl (MigrateFailed e), db)
              | None \<Rightarrow>
                  (case EnsureTenant flt created \<lparr>t_ID = sf_tenantID f, t_Name = sf_tenantName f, t_CreatedAt = 0\<rparr> db of
                     (Some e, db1) \<Rightarrow> (Inl (SeedAuth e), db1)
                   | (None, db1) \<Rightarrow>
                       (case CreateUser svc (Repo_Store flt created) entropy now
                           \<lparr>ci_TenantID = sf_tenantID f, ci_Email = trim_space (sf_email f), ci_Password = password,
                            ci_Role = RoleAdmin\<rparr> db1 of
                          (Inl e, db2) \<Rightarrow>
                            (if e = ErrUserExists then Inr (SeedExists (sf_tenantID f) (sf_email f)) else Inl (SeedAuth e), db2)
                        | (Inr u, db2) \<Rightarrow> (Inr (SeedCreated (sf_tenantID f) (u_Email u) (u_ID u)), db2)))))"

section \<open>The demo\<close>

record pg_db =
  pg_auth :: auth_db
  pg_pops :: pops_db
  pg_tests :: tests_db
  pg_slo :: slo_db

text \<open>\<open>INSERT \<dots> ON CONFLICT (id) DO NOTHING\<close>.\<close>

definition insert_new :: "('r \<Rightarrow> string) \<Rightarrow> 'r list \<Rightarrow> 'r \<Rightarrow> 'r list" where
  "insert_new key rows r = (if key r \<in> set (map key rows) then rows else rows @ [r])"

definition demo_pops :: "(string \<times> string \<times> string \<times> string) list" where
  "demo_pops = [(''pop-lhr'', ''London'', ''eu-west'', []), (''pop-sjc'', ''San Jose'', ''us-west'', []),
     (''pop-fra'', ''Frankfurt'', ''eu-central'', [])]"

definition demo_tests :: "(string \<times> string \<times> string \<times> int \<times> int \<times> (string \<times> json_any) list) list" where
  "demo_tests =
    [(''tst-cf-1111-https'', ''http'', ''https://1.1.1.1/'', 30000, 5000, []),
     (''tst-google-https'', ''http'', ''https://www.google.com/'', 30000, 5000, []),
     (''tst-cf-dns'', ''dns'', ''one.one.one.one'', 30000, 5000,
        [(''resolver'', AnyString ''1.1.1.1:53''), (''record_type'', AnyString ''A'')]),
     (''tst-quad9-dns'', ''dns'', ''dns.quad9.net'', 30000, 5000,
        [(''resolver'', AnyString ''9.9.9.9:53''), (''record_type'', AnyString ''A'')]),
     (''tst-google-tls'', ''tls'', ''www.google.com:443'', 30000, 5000, [])]"

definition demo_slo :: "string \<Rightarrow> SLO" where
  "demo_slo tenantID =
    \<lparr>slo_ID = ''slo-cf-1111-availability'', slo_TenantID = tenantID, slo_Name = ''cf 1.1.1.1 availability'',
     slo_Description = ''Demo SLO over the cf-1.1.1.1 HTTPS canary'', slo_SLIKind = SLIKindCanarySuccess,
     slo_SLIFilter = [(''test_id'', AnyString ''tst-cf-1111-https'')], slo_ObjectivePct = fl (995 / 1000),
     slo_WindowSeconds = 30 * 24 * 60 * 60, slo_FastBurnThreshold = fl (144 / 10), slo_SlowBurnThreshold = fl 6,
     slo_NotifierURL = [], slo_Enabled = True, slo_CreatedAt = 0\<rparr>"

text \<open>A fault of the transaction: nothing of it stays, or its commit is done and its answer lost.\<close>

datatype tx_fault = TxFails string | TxCommitLost

record seedCounts =
  sc_pops :: nat
  sc_tests :: nat
  sc_slos :: nat

definition demo_pop_row :: "time \<Rightarrow> string \<Rightarrow> string \<times> string \<times> string \<times> string \<Rightarrow> popResponse" where
  "demo_pop_row created tenantID p = (case p of (i, name, region, url) \<Rightarrow>
    \<lparr>pp_ID = i, pp_TenantID = tenantID, pp_Name = name, pp_Description = ''Demo POP'', pp_Region = region,
     pp_HealthURL = url, pp_CreatedAt = created\<rparr>)"

definition demo_test_row :: "time \<Rightarrow> string \<Rightarrow> string \<times> string \<times> string \<times> int \<times> int \<times> (string \<times> json_any) list \<Rightarrow>
    testResponse" where
  "demo_test_row created tenantID t = (case t of (i, kind, target, ims, tms, cfg) \<Rightarrow>
    \<lparr>ts_ID = i, ts_TenantID = tenantID, ts_Kind = kind, ts_Target = target, ts_IntervalMS = ims, ts_TimeoutMS = tms,
     ts_Enabled = True, ts_Config = Some cfg, ts_CreatedAt = created\<rparr>)"

definition seed_rows :: "time \<Rightarrow> string \<Rightarrow> pg_db \<Rightarrow> (seed_error, pg_db) result" where
  "seed_rows created tenantID s =
    (let s1 = s\<lparr>pg_auth := (pg_auth s)\<lparr>ad_tenants := insert_new t_ID (ad_tenants (pg_auth s))
           \<lparr>t_ID = tenantID, t_Name = ''Demo'', t_CreatedAt = created\<rparr>\<rparr>\<rparr>;
         s2 = s1\<lparr>pg_pops := foldl (insert_new pp_ID) (pg_pops s1) (map (demo_pop_row created tenantID) demo_pops)\<rparr>;
         s3 = s2\<lparr>pg_tests := foldl (insert_new ts_ID) (pg_tests s2) (map (demo_test_row created tenantID) demo_tests)\<rparr>
     in case insert_row created (demo_slo tenantID) (pg_slo s3) of
          Inr row \<Rightarrow> Inr (s3\<lparr>pg_slo := (pg_slo s3)\<lparr>db_slos := db_slos (pg_slo s3) @ [row]\<rparr>\<rparr>)
        | Inl e \<Rightarrow> if e = SloDuplicateKey then Inr s3 else Inl (SeedStatement ''slo''))"

definition seedDemo :: "tx_fault option \<Rightarrow> time \<Rightarrow> string \<Rightarrow> pg_db \<Rightarrow> (seed_error, seedCounts) result \<times> pg_db" where
  "seedDemo flt created tenantID s =
    (case flt of
       Some (TxFails what) \<Rightarrow> (Inl (SeedStatement what), s)
     | _ \<Rightarrow>
         (case seed_rows created tenantID s of
            Inl e \<Rightarrow> (Inl e, s)
          | Inr s' \<Rightarrow>
              if flt = Some TxCommitLost then (Inl (SeedStatement ''commit''), s')
              else (Inr \<lparr>sc_pops = length demo_pops, sc_tests = length demo_tests, sc_slos = 1\<rparr>, s')))"

section \<open>What stays\<close>

lemma insert_new_twice: "key r \<in> set (map key rows) \<Longrightarrow> insert_new key rows r = rows"
  by (simp add: insert_new_def)

lemma foldl_insert_new_keys: "set (map key (foldl (insert_new key) rows rs)) = set (map key rows) \<union> set (map key rs)"
  by (induction rs arbitrary: rows) (auto simp: insert_new_def)

lemma foldl_insert_new_present: "set (map key rs) \<subseteq> set (map key rows) \<Longrightarrow> foldl (insert_new key) rows rs = rows"
  by (induction rs arbitrary: rows) (auto simp: insert_new_def)

lemma foldl_insert_new_append: "\<exists>new. foldl (insert_new key) rows rs = rows @ new \<and> set new \<subseteq> set rs"
proof (induction rs arbitrary: rows)
  case (Cons r rs)
  then obtain new where "foldl (insert_new key) (insert_new key rows r) rs = insert_new key rows r @ new" "set new \<subseteq> set rs"
    by blast
  moreover have "insert_new key rows r = rows \<or> insert_new key rows r = rows @ [r]" by (simp add: insert_new_def)
  ultimately show ?case by auto
qed simp

lemma demo_slo_row: "insert_row created (demo_slo tn) db =
  (if ''slo-cf-1111-availability'' \<in> set (map slo_ID (db_slos db)) then Inl SloDuplicateKey
   else Inr ((demo_slo tn)\<lparr>slo_CreatedAt := created\<rparr>))"
proof -
  have o: "numeric_col 7 6 (fl (199 / 200)) = Some (fl (199 / 200))" by code_simp
  have f: "numeric_col 8 4 (fl (72 / 5)) = Some (fl (72 / 5))" by code_simp
  have s: "numeric_col 8 4 (fl 6) = Some (fl 6)" by code_simp
  have c: "f64_lt 0 (fl (199 / 200)) \<and> f64_lt (fl (199 / 200)) 1 \<and> f64_lt 0 (fl (72 / 5)) \<and> f64_lt 0 (fl 6)" by code_simp
  show ?thesis unfolding insert_row_def by (simp add: demo_slo_def pg_positive_def o f s c)
qed

lemma demo_row_keys [simp]:
  "pp_ID (demo_pop_row created tn p) = fst p" "pp_TenantID (demo_pop_row created tn p) = tn"
  "ts_ID (demo_test_row created tn t) = fst t" "ts_TenantID (demo_test_row created tn t) = tn"
  by (simp_all add: demo_pop_row_def demo_test_row_def split: prod.split)

lemma seed_rows_eq: "seed_rows created tn s =
  Inr \<lparr>pg_auth = (pg_auth s)\<lparr>ad_tenants := insert_new t_ID (ad_tenants (pg_auth s))
        \<lparr>t_ID = tn, t_Name = ''Demo'', t_CreatedAt = created\<rparr>\<rparr>,
      pg_pops = foldl (insert_new pp_ID) (pg_pops s) (map (demo_pop_row created tn) demo_pops),
      pg_tests = foldl (insert_new ts_ID) (pg_tests s) (map (demo_test_row created tn) demo_tests),
      pg_slo = (if ''slo-cf-1111-availability'' \<in> set (map slo_ID (db_slos (pg_slo s))) then pg_slo s
        else (pg_slo s)\<lparr>db_slos := db_slos (pg_slo s) @ [(demo_slo tn)\<lparr>slo_CreatedAt := created\<rparr>]\<rparr>)\<rparr>"
  by (simp add: seed_rows_def Let_def demo_slo_row)

lemma seeded_present:
  "foldl (insert_new pp_ID) (foldl (insert_new pp_ID) rows (map (demo_pop_row c tn) demo_pops)) (map (demo_pop_row c' tn') demo_pops) =
   foldl (insert_new pp_ID) rows (map (demo_pop_row c tn) demo_pops)"
  "foldl (insert_new ts_ID) (foldl (insert_new ts_ID) trows (map (demo_test_row c tn) demo_tests)) (map (demo_test_row c' tn') demo_tests) =
   foldl (insert_new ts_ID) trows (map (demo_test_row c tn) demo_tests)"
  by (rule foldl_insert_new_present; simp only: foldl_insert_new_keys; simp add: image_image)+

lemma seeded_rows:
  "\<exists>new. foldl (insert_new pp_ID) rows (map (demo_pop_row c tn) demo_pops) = rows @ new \<and> (\<forall>p \<in> set new. pp_TenantID p = tn)"
  "\<exists>new. foldl (insert_new ts_ID) trows (map (demo_test_row c tn) demo_tests) = trows @ new \<and> (\<forall>t \<in> set new. ts_TenantID t = tn)"
  subgoal
    using foldl_insert_new_append [of pp_ID rows "map (demo_pop_row c tn) demo_pops"]
    by - (elim exE conjE, intro exI conjI, assumption, auto)
  subgoal
    using foldl_insert_new_append [of ts_ID trows "map (demo_test_row c tn) demo_tests"]
    by - (elim exE conjE, intro exI conjI, assumption, auto)
  done

text \<open>A demo seed is one transaction and runs once: a failed one changes nothing, a second
  one for the same tenant changes nothing, and rows that are there stay as they are, because a seed
  only adds rows of its tenant.  A seed for a second tenant adds no row to the three catalogs, and its
  counts are the same all the same.\<close>

theorem seed_demo_once:
  "let s1 = snd (seedDemo None c tn s); all = \<lparr>sc_pops = 3, sc_tests = 5, sc_slos = 1\<rparr>
   in snd (seedDemo (Some (TxFails what)) c tn s) = s
    \<and> fst (seedDemo None c tn s) = Inr all
    \<and> seedDemo None c' tn s1 = (Inr all, s1)
    \<and> (\<exists>pops tests slos. pg_pops s1 = pg_pops s @ pops \<and> pg_tests s1 = pg_tests s @ tests
        \<and> db_slos (pg_slo s1) = db_slos (pg_slo s) @ slos
        \<and> (\<forall>p \<in> set pops. pp_TenantID p = tn) \<and> (\<forall>t \<in> set tests. ts_TenantID t = tn) \<and> (\<forall>x \<in> set slos. slo_TenantID x = tn))
    \<and> fst (seedDemo None c' tn' s1) = Inr all
    \<and> (\<lambda>s. (pg_pops s, pg_tests s, pg_slo s)) (snd (seedDemo None c' tn' s1)) = (pg_pops s1, pg_tests s1, pg_slo s1)"
proof -
  define s1 where "s1 = snd (seedDemo None c tn s)"
  have s1: "seed_rows c tn s = Inr s1" unfolding s1_def seedDemo_def by (simp add: seed_rows_eq)
  have counts: "fst (seedDemo None d t u) = Inr \<lparr>sc_pops = 3, sc_tests = 5, sc_slos = 1\<rparr>" for d t u
    by (simp add: seedDemo_def seed_rows_eq demo_pops_def demo_tests_def)
  have f: "pg_pops s1 = foldl (insert_new pp_ID) (pg_pops s) (map (demo_pop_row c tn) demo_pops)"
    "pg_tests s1 = foldl (insert_new ts_ID) (pg_tests s) (map (demo_test_row c tn) demo_tests)"
    "''slo-cf-1111-availability'' \<in> set (map slo_ID (db_slos (pg_slo s1)))" "tn \<in> set (map t_ID (ad_tenants (pg_auth s1)))"
    "\<exists>slos. db_slos (pg_slo s1) = db_slos (pg_slo s) @ slos \<and> (\<forall>x \<in> set slos. slo_TenantID x = tn)"
    using s1 by (auto simp: seed_rows_eq insert_new_def demo_slo_def split: if_splits)
  have rest: "seed_rows c' t s1 = Inr (s1\<lparr>pg_auth := (pg_auth s1)\<lparr>ad_tenants := insert_new t_ID (ad_tenants (pg_auth s1))
        \<lparr>t_ID = t, t_Name = ''Demo'', t_CreatedAt = c'\<rparr>\<rparr>\<rparr>)" for t
    using f(1-3) seeded_present by (simp add: seed_rows_eq)
  then have two: "seedDemo None c' tn s1 = (Inr \<lparr>sc_pops = 3, sc_tests = 5, sc_slos = 1\<rparr>, s1)"
    using counts [of c' tn s1] f(4) by (simp add: seedDemo_def insert_new_def)
  have other: "(\<lambda>s. (pg_pops s, pg_tests s, pg_slo s)) (snd (seedDemo None c' tn' s1)) = (pg_pops s1, pg_tests s1, pg_slo s1)"
    using rest [of tn'] by (simp add: seedDemo_def)
  show ?thesis
    unfolding Let_def s1_def [symmetric]
    using counts two other f(5) seeded_rows(1) [of "pg_pops s" c tn] seeded_rows(2) [of "pg_tests s" c tn]
    unfolding f(1,2) by (auto simp: seedDemo_def)
qed

text \<open>Seeding the admin works once: the first run that reports a created user has stored
  an admin of the tenant with the trimmed email in lower case, whom a second run with the same flags
  finds and leaves alone.\<close>

theorem seed_admin_once:
  assumes "seed_admin svc True None False c entropy now env f db = (Inr (SeedCreated tn email i), db1)"
    "NewUserID entropy' = Inr i'"
  shows "seed_admin svc True None False c' entropy' now' env f db1 = (Inr (SeedExists (sf_tenantID f) (sf_email f)), db1)
    \<and> (\<exists>r \<in> set (ad_users db1). u_ID (ur_user r) = i \<and> u_TenantID (ur_user r) = sf_tenantID f \<and> u_Role (ur_user r) = RoleAdmin
        \<and> u_Email (ur_user r) = to_lower (trim_space (sf_email f)))
    \<and> sf_tenantID f \<in> set (map t_ID (ad_tenants db1))"
proof -
  define pw where "pw = (if sf_password f = [] then ce_password env else sf_password f)"
  define inp where "inp = \<lparr>ci_TenantID = sf_tenantID f, ci_Email = trim_space (sf_email f), ci_Password = pw, ci_Role = RoleAdmin\<rparr>"
  have pre: "sf_email f \<noteq> []" "pw \<noteq> []" "ce_dsn env \<noteq> []"
    using assms(1) by (auto simp: seed_admin_def Let_def pw_def split: if_splits)
  obtain dbt where t: "EnsureTenant False c \<lparr>t_ID = sf_tenantID f, t_Name = sf_tenantName f, t_CreatedAt = 0\<rparr> db = (None, dbt)"
    by (cases "sf_tenantID f \<in> set (map t_ID (ad_tenants db))") (auto simp: EnsureTenant_def)
  obtain u where u: "CreateUser svc (Repo_Store False c) entropy now inp dbt = (Inr u, db1)" "u_ID u = i"
    using assms(1) pre t by (auto simp: seed_admin_def Let_def pw_def [symmetric] inp_def [symmetric] split: prod.splits sum.splits if_splits)
  obtain h where h: "HashPassword (svc_bcrypt svc) (svc_cost svc) pw = Inr h"
    and v: "u_TenantID u = sf_tenantID f" "u_Email u = trim_space (sf_email f)" "u_Role u = RoleAdmin"
    and s: "Repo_CreateUser False c u h dbt = (None, db1)"
    using u by (auto simp: CreateUser_def Let_def inp_def repo_operations split: if_splits sum.splits prod.splits option.splits)
  have tn: "sf_tenantID f \<in> set (map t_ID (ad_tenants db1))"
    and row: "\<lparr>ur_user = u\<lparr>u_Email := to_lower (u_Email u), u_CreatedAt := c\<rparr>, ur_password_hash = h\<rparr> \<in> set (ad_users db1)"
    using s v by (auto simp: Repo_CreateUser_def Let_def split: if_splits)
  have t2: "EnsureTenant False c' \<lparr>t_ID = sf_tenantID f, t_Name = sf_tenantName f, t_CreatedAt = 0\<rparr> db1 = (None, db1)"
    using tn by (simp add: EnsureTenant_def)
  have "Repo_CreateUser False c' w h' db1 = (Some ErrUserExists, db1)"
    if "u_TenantID w = sf_tenantID f" "u_Email w = trim_space (sf_email f)" "Role_Valid (u_Role w)" for w h'
  proof -
    have "list_ex (\<lambda>r. u_ID (ur_user r) = u_ID w \<or>
           u_TenantID (ur_user r) = u_TenantID w \<and> citext_eq (u_Email (ur_user r)) (to_lower (u_Email w))) (ad_users db1)"
      unfolding list_ex_iff using row v that by (intro bexI [OF _ row]) (simp add: citext_eq_def)
    then show ?thesis using that(3) by (simp add: Repo_CreateUser_def Let_def)
  qed
  moreover have "Role_Valid RoleAdmin" by (simp add: Role_Valid_def)
  ultimately have "CreateUser svc (Repo_Store False c') entropy' now' inp db1 = (Inl ErrUserExists, db1)"
    using h assms(2) by (simp add: CreateUser_def Let_def inp_def repo_operations)
  then have "seed_admin svc True None False c' entropy' now' env f db1 = (Inr (SeedExists (sf_tenantID f) (sf_email f)), db1)"
    using pre t2 by (simp add: seed_admin_def Let_def pw_def [symmetric] inp_def [symmetric])
  then show ?thesis using row v u(2) tn by (auto intro!: bexI [OF _ row])
qed

section \<open>Instances\<close>

definition empty_pg :: pg_db where
  "empty_pg = \<lparr>pg_auth = \<lparr>ad_tenants = [], ad_users = [], ad_sessions = []\<rparr>, pg_pops = [], pg_tests = [],
     pg_slo = \<lparr>db_slos = [], db_slo_state = []\<rparr>\<rparr>"

theorem seed_demo_once_witness:
  "fst (seedDemo None 9 ''tnt-b'' (snd (seedDemo None 5 ''tnt-a'' empty_pg))) = Inr \<lparr>sc_pops = 3, sc_tests = 5, sc_slos = 1\<rparr>
   \<and> map pp_TenantID (pg_pops (snd (seedDemo None 9 ''tnt-b'' (snd (seedDemo None 5 ''tnt-a'' empty_pg))))) =
       [''tnt-a'', ''tnt-a'', ''tnt-a'']"
proof -
  have "map pp_TenantID (pg_pops (snd (seedDemo None 5 ''tnt-a'' empty_pg))) = [''tnt-a'', ''tnt-a'', ''tnt-a'']"
    by (simp add: seedDemo_def seed_rows_eq empty_pg_def demo_pops_def insert_new_def)
  then show ?thesis
    using seed_demo_once [of 5 "''tnt-a''" empty_pg "''x''" 9 "''tnt-b''"] by (simp add: Let_def)
qed

definition demo_flags :: seed_flags where
  "demo_flags = \<lparr>sf_tenantID = ''tnt-default'', sf_tenantName = ''Default Tenant'', sf_email = '' Root@x.io'', sf_password = []\<rparr>"

definition demo_cli :: cli_env where
  "demo_cli = \<lparr>ce_password = ''correct-horse-9'', ce_dsn = ''postgres://x''\<rparr>"

definition demo_seeded :: "(seed_error, seed_result) result \<times> auth_db" where
  "demo_seeded = seed_admin demo_service True None False 5 (Some [1]) 5 demo_cli demo_flags
     \<lparr>ad_tenants = [], ad_users = [], ad_sessions = []\<rparr>"

theorem seed_admin_once_witness:
  "seed_admin demo_service True None False 8 (Some [2]) 8 demo_cli demo_flags (snd demo_seeded) =
     (Inr (SeedExists ''tnt-default'' '' Root@x.io''), snd demo_seeded)
   \<and> (\<exists>r \<in> set (ad_users (snd demo_seeded)). u_Email (ur_user r) = ''root@x.io'' \<and> u_Role (ur_user r) = RoleAdmin)"
proof -
  have f: "fst demo_seeded = Inr (SeedCreated ''tnt-default'' ''Root@x.io'' ''usr-01'')" by code_simp
  have s: "seed_admin demo_service True None False 5 (Some [1]) 5 demo_cli demo_flags
     \<lparr>ad_tenants = [], ad_users = [], ad_sessions = []\<rparr> =
     (Inr (SeedCreated ''tnt-default'' ''Root@x.io'' ''usr-01''), snd demo_seeded)"
    using f unfolding demo_seeded_def by (metis prod.collapse)
  have i: "NewUserID (Some [2]) = Inr ''usr-02''" by code_simp
  have e: "to_lower (trim_space (sf_email demo_flags)) = ''root@x.io''" by code_simp
  show ?thesis using seed_admin_once [OF s i, of 8 8] e by (auto simp: demo_flags_def)
qed

end
