(* ===== verification/Services.thy ===== *)
theory Services
  imports GoFloat
begin

text \<open>
  What a server connects to when it starts: telemetry (pkg/integrations/otel/setup.go), the databases
  (pkg/store/postgres/conn.go, pkg/store/clickhouse/conn.go), NATS (pkg/store/nats/conn.go) and the
  metrics endpoint (pkg/store/prometheus/registry.go).  What the client libraries answer is an argument;
  the state is what is left running.  The environment is an association list.
\<close>

section \<open>The environment\<close>

type_synonym environ = "(string \<times> string) list"

definition getenv :: "environ \<Rightarrow> string \<Rightarrow> string" where
  "getenv env key = (case map_of env key of None \<Rightarrow> [] | Some v \<Rightarrow> v)"

definition envString :: "environ \<Rightarrow> string \<Rightarrow> string \<Rightarrow> string" where
  "envString env key def = (case map_of env key of Some v \<Rightarrow> if v \<noteq> [] then v else def | None \<Rightarrow> def)"

text \<open>\<open>strconv.ParseBool\<close>.\<close>

definition ParseBool :: "string \<Rightarrow> bool option" where
  "ParseBool s =
    (if s \<in> set [''1'', ''t'', ''T'', ''true'', ''TRUE'', ''True''] then Some True
     else if s \<in> set [''0'', ''f'', ''F'', ''false'', ''FALSE'', ''False''] then Some False else None)"

definition envBool :: "environ \<Rightarrow> string \<Rightarrow> bool \<Rightarrow> bool" where
  "envBool env key def =
    (case map_of env key of
       None \<Rightarrow> def
     | Some v \<Rightarrow> if v = [] then def else (case ParseBool v of None \<Rightarrow> def | Some b \<Rightarrow> b))"

text \<open>\<open>parse\<close> is \<open>strconv.ParseFloat\<close>; the number only goes on to the sampler of the telemetry library.\<close>

definition envFloat :: "(string \<Rightarrow> f64 option) \<Rightarrow> environ \<Rightarrow> string \<Rightarrow> f64 \<Rightarrow> f64" where
  "envFloat parse env key def =
    (case map_of env key of
       None \<Rightarrow> def
     | Some v \<Rightarrow> if v = [] then def else (case parse v of None \<Rightarrow> def | Some f \<Rightarrow> f))"

section \<open>Telemetry\<close>

record OtelConfig =
  oc_Enabled :: bool
  oc_OTLPEndpoint :: string
  oc_Insecure :: bool
  oc_SamplingRatio :: f64
  oc_ServiceName :: string
  oc_ServiceVersion :: string

definition ConfigFromEnv :: "(string \<Rightarrow> f64 option) \<Rightarrow> environ \<Rightarrow> string \<Rightarrow> string \<Rightarrow> OtelConfig" where
  "ConfigFromEnv parse env serviceName serviceVersion =
    \<lparr>oc_Enabled = envBool env ''NETSITE_OTEL_ENABLED'' True,
     oc_OTLPEndpoint = envString env ''NETSITE_OTEL_OTLP_ENDPOINT'' ''localhost:4317'',
     oc_Insecure = envBool env ''NETSITE_OTEL_INSECURE'' True,
     oc_SamplingRatio = envFloat parse env ''NETSITE_OTEL_SAMPLING_RATIO'' (fl (1 / 100)),
     oc_ServiceName = envString env ''NETSITE_OTEL_SERVICE_NAME'' serviceName,
     oc_ServiceVersion = envString env ''NETSITE_OTEL_SERVICE_VERSION'' serviceVersion\<rparr>"

datatype otel_error = ErrEmptyServiceName | ResourceFailed | TraceExporterFailed | MetricExporterFailed

datatype provider = NoProvider | Running | Stopped

record providers =
  pv_tracer :: provider
  pv_meter :: provider

text \<open>Whether the resource and the two exporters can be built.\<close>

record otel_deps =
  od_resource :: bool
  od_trace :: "string \<Rightarrow> bool \<Rightarrow> bool"
  od_metric :: "string \<Rightarrow> bool \<Rightarrow> bool"

definition otel_Setup :: "otel_deps \<Rightarrow> OtelConfig \<Rightarrow> providers \<Rightarrow> otel_error option \<times> providers" where
  "otel_Setup deps cfg p =
    (if \<not> oc_Enabled cfg then (None, p)
     else if trim_space (oc_ServiceName cfg) = [] then (Some ErrEmptyServiceName, p)
     else if \<not> od_resource deps then (Some ResourceFailed, p)
     else if \<not> od_trace deps (oc_OTLPEndpoint cfg) (oc_Insecure cfg) then (Some TraceExporterFailed, p)
     else (let p1 = p\<lparr>pv_tracer := Running\<rparr>
           in if \<not> od_metric deps (oc_OTLPEndpoint cfg) (oc_Insecure cfg)
              then (Some MetricExporterFailed, p1\<lparr>pv_tracer := Stopped\<rparr>)
              else (None, p1\<lparr>pv_meter := Running\<rparr>)))"

text \<open>The function that a set-up returns: both providers are shut down, whatever the first one answers.\<close>

definition otel_shutdown :: "OtelConfig \<Rightarrow> bool \<Rightarrow> bool \<Rightarrow> providers \<Rightarrow> string list \<times> providers" where
  "otel_shutdown cfg trace_fails meter_fails p =
    (if \<not> oc_Enabled cfg then ([], p)
     else ((if trace_fails then [''trace shutdown''] else []) @ (if meter_fails then [''meter shutdown''] else []),
           \<lparr>pv_tracer = Stopped, pv_meter = Stopped\<rparr>))"

section \<open>Connections\<close>

datatype open_error = EmptyDSN | ParseFailed | CreateFailed | PingFailed

text \<open>What a client library answers for an address, at each stage.\<close>

record connector =
  cn_parse :: "string \<Rightarrow> bool"
  cn_create :: "string \<Rightarrow> bool"
  cn_ping :: "string \<Rightarrow> bool"

text \<open>\<open>opened\<close> counts the open connections.\<close>

definition pg_Open :: "connector \<Rightarrow> string \<Rightarrow> int \<Rightarrow> open_error option \<times> int" where
  "pg_Open cn dsn opened =
    (if dsn = [] then (Some EmptyDSN, opened)
     else if \<not> cn_parse cn dsn then (Some ParseFailed, opened)
     else if \<not> cn_create cn dsn then (Some CreateFailed, opened)
     else (let opened = opened + 1
           in if \<not> cn_ping cn dsn then (Some PingFailed, opened - 1) else (None, opened)))"

definition ch_Open :: "connector \<Rightarrow> string \<Rightarrow> int \<Rightarrow> open_error option \<times> int" where
  "ch_Open cn dsn opened =
    (if dsn = [] then (Some EmptyDSN, opened)
     else if \<not> cn_parse cn dsn then (Some ParseFailed, opened)
     else if \<not> cn_create cn dsn then (Some CreateFailed, opened)
     else (let opened = opened + 1
           in if \<not> cn_ping cn dsn then (Some PingFailed, opened - 1) else (None, opened)))"

text \<open>The options that NATS gets; a connection is its method that opens JetStream.\<close>

datatype nats_option = Name string | MaxReconnects int | ReconnectWait duration | PingInterval duration
  | MaxPingsOutstanding int

datatype js_option = PublishAsyncMaxPending int

type_synonym 'j nats_conn = "js_option list \<Rightarrow> 'j option"

datatype connect_error = ErrEmptyURL | DialFailed

definition nats_Connect :: "(string \<Rightarrow> nats_option list \<Rightarrow> 'j nats_conn option) \<Rightarrow> string \<Rightarrow> string \<Rightarrow>
    (connect_error, 'j nats_conn) result" where
  "nats_Connect dial url clientName =
    (if url = [] then Inl ErrEmptyURL
     else (let opts = [Name clientName, MaxReconnects (- 1), ReconnectWait (5 * second_ns), PingInterval (20 * second_ns),
                       MaxPingsOutstanding 2]
           in case dial url opts of None \<Rightarrow> Inl DialFailed | Some nc \<Rightarrow> Inr nc))"

datatype js_error = NilConn | JetStreamFailed

definition nats_JetStream :: "'j nats_conn option \<Rightarrow> (js_error, 'j) result" where
  "nats_JetStream nc =
    (case nc of
       None \<Rightarrow> Inl NilConn
     | Some open_js \<Rightarrow>
         (case open_js [PublishAsyncMaxPending 256] of None \<Rightarrow> Inl JetStreamFailed | Some js \<Rightarrow> Inr js))"

text \<open>A registry is the list of its collectors; a mux is the list of the patterns that it serves.\<close>

datatype collector = GoCollector | ProcessCollector

definition prom_NewRegistry :: "collector list" where
  "prom_NewRegistry = [] @ [GoCollector] @ [ProcessCollector]"

datatype expose_error = ErrNilRegistry | ErrNilMux

definition ExposeOn :: "string list option \<Rightarrow> collector list option \<Rightarrow> expose_error option \<times> string list option" where
  "ExposeOn mux reg =
    (if reg = None then (Some ErrNilRegistry, mux)
     else (case mux of None \<Rightarrow> (Some ErrNilMux, mux) | Some patterns \<Rightarrow> (None, Some (patterns @ [''/metrics'']))))"

text \<open>A connection stays open exactly when the caller gets it.\<close>

lemma open_no_leak:
  "snd (pg_Open cn dsn n) = n + (if fst (pg_Open cn dsn n) = None then 1 else 0)"
  "snd (ch_Open cn dsn n) = n + (if fst (ch_Open cn dsn n) = None then 1 else 0)"
  by (simp_all add: pg_Open_def ch_Open_def Let_def)

lemma open_empty [simp]:
  "fst (pg_Open cn [] n) \<noteq> None" "fst (ch_Open cn [] n) \<noteq> None" "nats_Connect dial [] name = Inl ErrEmptyURL"
  by (simp_all add: pg_Open_def ch_Open_def nats_Connect_def)

text \<open>JetStream is open only on a connection to a named server that reconnects for ever.\<close>

lemma jetstream_open:
  assumes "nats_Connect dial url name = Inr nc" "nats_JetStream (Some nc) = Inr js"
  shows "url \<noteq> [] \<and> (\<exists>opts. dial url opts = Some nc \<and> Name name \<in> set opts \<and> MaxReconnects (- 1) \<in> set opts)
    \<and> nc [PublishAsyncMaxPending 256] = Some js"
  using assms by (auto simp: nats_Connect_def nats_JetStream_def Let_def split: if_splits option.splits)

section \<open>What telemetry promises\<close>

text \<open>A set-up of the telemetry of a named service leaves both pipelines running or none, and it
  fails only when telemetry is enabled; for a configuration from the environment the service name is the
  reason exactly if the variable for it consists of white space, which is neither missing nor replaced by
  the default.  After a shutdown nothing runs.\<close>

theorem otel_all_or_nothing:
  fixes deps env parse name version
  defines "cfg \<equiv> ConfigFromEnv parse env name version"
  defines "r \<equiv> otel_Setup deps cfg \<lparr>pv_tracer = NoProvider, pv_meter = NoProvider\<rparr>"
  assumes "trim_space name \<noteq> []"
  shows "(pv_tracer (snd r) = Running \<longleftrightarrow> pv_meter (snd r) = Running)
    \<and> (pv_tracer (snd r) = Running \<longleftrightarrow> fst r = None \<and> oc_Enabled cfg)
    \<and> (fst r = Some ErrEmptyServiceName \<longleftrightarrow>
        oc_Enabled cfg \<and> getenv env ''NETSITE_OTEL_SERVICE_NAME'' \<noteq> []
        \<and> trim_space (getenv env ''NETSITE_OTEL_SERVICE_NAME'') = [])
    \<and> (\<forall>e1 e2. pv_tracer (snd (otel_shutdown cfg e1 e2 (snd r))) \<noteq> Running
        \<and> pv_meter (snd (otel_shutdown cfg e1 e2 (snd r))) \<noteq> Running)"
proof -
  have n: "trim_space (oc_ServiceName cfg) = [] \<longleftrightarrow>
      getenv env ''NETSITE_OTEL_SERVICE_NAME'' \<noteq> [] \<and> trim_space (getenv env ''NETSITE_OTEL_SERVICE_NAME'') = []"
    using assms(3) by (auto simp: cfg_def ConfigFromEnv_def envString_def getenv_def split: option.splits)
  show ?thesis unfolding n [symmetric] r_def by (auto simp: otel_Setup_def otel_shutdown_def Let_def)
qed

theorem otel_all_or_nothing_witness:
  "fst (otel_Setup \<lparr>od_resource = True, od_trace = \<lambda>_ _. True, od_metric = \<lambda>_ _. True\<rparr>
      (ConfigFromEnv (\<lambda>_. None) [(''NETSITE_OTEL_SERVICE_NAME'', '' '')] ''ns-pop'' ''dev'')
      \<lparr>pv_tracer = NoProvider, pv_meter = NoProvider\<rparr>) = Some ErrEmptyServiceName"
proof -
  have "trim_space ''ns-pop'' \<noteq> []" by code_simp
  note t = otel_all_or_nothing [OF this, of "\<lparr>od_resource = True, od_trace = \<lambda>_ _. True, od_metric = \<lambda>_ _. True\<rparr>"
      "\<lambda>_. None" "[(''NETSITE_OTEL_SERVICE_NAME'', '' '')]" "''dev''"]
  moreover have "trim_space '' '' = []" by code_simp
  ultimately show ?thesis by (simp add: getenv_def ConfigFromEnv_def envBool_def)
qed

end
