(* ===== verification/DevTLS.thy ===== *)
theory DevTLS
  imports Services GoHash
begin

text \<open>
  Development certificates (cmd/ns-controlplane/devtls.go): the check that an address is a loopback one, with
  the parsers of the standard library that it uses, and \<open>AutoTLS\<close> with the files it leaves.  Making keys and
  certificates is a record of the functions of the standard library.
\<close>

section \<open>Addresses\<close>

text \<open>\<open>net.SplitHostPort\<close>; the host, or nothing on an error.\<close>

definition last_index :: "char \<Rightarrow> string \<Rightarrow> nat option" where
  "last_index c s = (if c \<in> set s then Some (length s - 1 - length (takeWhile (\<lambda>x. x \<noteq> c) (rev s))) else None)"

definition SplitHostPort :: "string \<Rightarrow> string option" where
  "SplitHostPort s =
    (case last_index (CHR '':'') s of
       None \<Rightarrow> None
     | Some i \<Rightarrow>
         (if hd s = CHR ''['' then
            (let e = length (takeWhile (\<lambda>x. x \<noteq> CHR '']'') s)
             in if e = length s \<or> Suc e \<noteq> i then None
                else if CHR ''['' \<in> set (drop 1 s) \<or> CHR '']'' \<in> set (drop (Suc e) s) then None
                else Some (drop 1 (take e s)))
          else if CHR '':'' \<in> set (take i s) \<or> CHR ''['' \<in> set s \<or> CHR '']'' \<in> set s then None
          else Some (take i s)))"

text \<open>\<open>net.ParseIP\<close>: four bytes or sixteen.\<close>

definition ip4_field :: "string \<Rightarrow> int option" where
  "ip4_field f =
    (if f = [] \<or> \<not> list_all is_digit_byte f \<or> (1 < length f \<and> hd f = CHR ''0'') \<or> 255 < digits_val f then None
     else Some (digits_val f))"

definition parse_ip4 :: "string \<Rightarrow> int list option" where
  "parse_ip4 s =
    (case map ip4_field (split_on (CHR ''.'') s) of
       [Some a, Some b, Some c, Some d] \<Rightarrow> Some [a, b, c, d]
     | _ \<Rightarrow> None)"

definition hex_value :: "char \<Rightarrow> int option" where
  "hex_value c =
    (let n = byte c
     in if 48 \<le> n \<and> n \<le> 57 then Some (n - 48)
        else if 97 \<le> n \<and> n \<le> 102 then Some (n - 87)
        else if 65 \<le> n \<and> n \<le> 70 then Some (n - 55) else None)"

definition hex_group :: "string \<Rightarrow> int" where
  "hex_group s = foldl (\<lambda>acc c. 16 * acc + (case hex_value c of None \<Rightarrow> 0 | Some n \<Rightarrow> n)) 0 s"

text \<open>The groups of an IPv6 address: \<open>n\<close> more fit, \<open>ell\<close> is where the ellipsis was.\<close>

fun ip6_groups :: "nat \<Rightarrow> int list \<Rightarrow> nat option \<Rightarrow> string \<Rightarrow> (int list \<times> nat option) option" where
  "ip6_groups 0 acc ell s = (if s = [] then Some (acc, ell) else None)"
| "ip6_groups (Suc n) acc ell s =
    (let hexs = takeWhile (\<lambda>c. hex_value c \<noteq> None) s; rest = drop (length hexs) s;
         acc' = acc @ [hex_group hexs div 256, hex_group hexs mod 256]
     in if hexs = [] \<or> 4 < length hexs then None
        else (case rest of
                [] \<Rightarrow> Some (acc', ell)
              | c # s1 \<Rightarrow>
                  if c = CHR ''.'' then
                    (if (ell = None \<and> length acc \<noteq> 12) \<or> 16 < length acc + 4 then None
                     else map_option (\<lambda>b. (acc @ b, ell)) (parse_ip4 s))
                  else if c \<noteq> CHR '':'' then None
                  else (case s1 of
                          [] \<Rightarrow> None
                        | d # s2 \<Rightarrow>
                            if d = CHR '':'' then
                              (if ell \<noteq> None then None
                               else if s2 = [] then Some (acc', Some (length acc'))
                               else ip6_groups n acc' (Some (length acc')) s2)
                            else ip6_groups n acc' ell s1)))"

definition parse_ip6 :: "string \<Rightarrow> int list option" where
  "parse_ip6 s =
    (let groups = (if has_prefix s ''::'' then (if drop 2 s = [] then Some ([], Some 0) else ip6_groups 8 [] (Some 0) (drop 2 s))
                   else ip6_groups 8 [] None s)
     in case groups of
          None \<Rightarrow> None
        | Some (bs, ell) \<Rightarrow>
            (case ell of
               None \<Rightarrow> if length bs < 16 then None else Some bs
             | Some e \<Rightarrow> if length bs < 16 then Some (take e bs @ replicate (16 - length bs) 0 @ drop e bs) else None))"

definition ParseIP :: "string \<Rightarrow> int list option" where
  "ParseIP s =
    (case find (\<lambda>c. c \<in> {CHR ''.'', CHR '':'', CHR ''%''}) s of
       None \<Rightarrow> None
     | Some c \<Rightarrow> if c = CHR ''.'' then parse_ip4 s
                 else if c = CHR '':'' then (if CHR ''%'' \<in> set s then None else parse_ip6 s) else None)"

definition IsLoopback :: "int list \<Rightarrow> bool" where
  "IsLoopback ip =
    (if length ip = 4 then hd ip = 127
     else if take 12 ip = replicate 10 0 @ [255, 255] then ip ! 12 = 127
     else ip = replicate 15 0 @ [1])"

definition isLoopbackAddr :: "string \<Rightarrow> bool" where
  "isLoopbackAddr addr =
    (let host = trim_space (case SplitHostPort addr of None \<Rightarrow> addr | Some h \<Rightarrow> h)
     in if host = [] then False
        else if host = ''localhost'' then True
        else (case ParseIP host of None \<Rightarrow> False | Some ip \<Rightarrow> IsLoopback ip))"

text \<open>The addresses of the documentation of \<open>isLoopbackAddr\<close>, and some more.\<close>

lemma loopback_addresses:
  "list_all isLoopbackAddr [''127.0.0.1:8080'', ''[::1]:8080'', ''localhost:8080'', ''127.0.0.1'', ''127.9.8.7:1'', ''::1'',
     ''[::ffff:127.0.0.1]:443'', ''[0:0:0:0:0:0:0:1]:1'', '' 127.0.0.1:80'']"
  "\<not> list_ex isLoopbackAddr ['':8080'', [], ''0.0.0.0:8080'', ''192.168.1.5:8080'', ''example.com:8080'', ''[::]:80'',
     ''127.0.0.01:80'', ''[::2]:1'', ''127.1:80'', ''[1::1::1]:2'', ''[::1%lo]:80'']"
  by code_simp+

section \<open>Files\<close>

text \<open>What is below the directory for temporary files: a directory with its mode, or a file with its mode and
  its bytes.  An operation is refused, or a write stops after some bytes.\<close>

datatype entry = Directory int | File int string

type_synonym files = "string \<Rightarrow> entry option"

datatype fs_fault = Refused | Short nat

text \<open>\<open>os.MkdirAll\<close> takes a directory that exists as it is.\<close>

definition MkdirAll :: "fs_fault option \<Rightarrow> string \<Rightarrow> int \<Rightarrow> files \<Rightarrow> bool \<times> files" where
  "MkdirAll flt path mode fs =
    (case fs path of
       Some (Directory _) \<Rightarrow> (True, fs)
     | Some (File _ _) \<Rightarrow> (False, fs)
     | None \<Rightarrow> if flt \<noteq> None then (False, fs) else (True, fs(path \<mapsto> Directory mode)))"

text \<open>\<open>os.WriteFile\<close> truncates a file that exists and keeps its mode.\<close>

definition WriteFile :: "fs_fault option \<Rightarrow> string \<Rightarrow> string \<Rightarrow> int \<Rightarrow> files \<Rightarrow> bool \<times> files" where
  "WriteFile flt path bytes mode fs =
    (case fs path of
       Some (Directory _) \<Rightarrow> (False, fs)
     | old \<Rightarrow>
         (let m = (case old of Some (File m _) \<Rightarrow> m | _ \<Rightarrow> mode)
          in case flt of
               None \<Rightarrow> (True, fs(path \<mapsto> File m bytes))
             | Some Refused \<Rightarrow> (False, fs)
             | Some (Short n) \<Rightarrow> (False, fs(path \<mapsto> File m (take n bytes)))))"

section \<open>Certificates\<close>

record cert_template =
  tm_SerialNumber :: int
  tm_CommonName :: string
  tm_Organization :: "string list"
  tm_NotBefore :: time
  tm_NotAfter :: time
  tm_KeyUsage :: "string list"
  tm_ExtKeyUsage :: "string list"
  tm_IPAddresses :: "int list list"
  tm_DNSNames :: "string list"
  tm_IsCA :: bool
  tm_BasicConstraintsValid :: bool

definition dev_template :: "int \<Rightarrow> time \<Rightarrow> cert_template" where
  "dev_template serial now = \<lparr>tm_SerialNumber = serial, tm_CommonName = ''localhost'', tm_Organization = [''NetSite Dev AutoTLS''],
     tm_NotBefore = now + - minute_ns, tm_NotAfter = now + 30 * 24 * hour_ns,
     tm_KeyUsage = [''DigitalSignature'', ''KeyEncipherment''], tm_ExtKeyUsage = [''ServerAuth''],
     tm_IPAddresses = [replicate 10 0 @ [255, 255, 127, 0, 0, 1], replicate 15 0 @ [1]], tm_DNSNames = [''localhost''],
     tm_IsCA = False, tm_BasicConstraintsValid = True\<rparr>"

text \<open>A private key is a string of bytes, as are the DER forms; the certificate is signed with the key
  itself.\<close>

record tls_deps =
  td_generate :: "string option"
  td_serial :: "int option"
  td_create :: "cert_template \<Rightarrow> string \<Rightarrow> string option"
  td_marshal :: "string \<Rightarrow> string option"
  td_pem :: "string \<Rightarrow> string \<Rightarrow> string"
  td_fault :: "string \<Rightarrow> fs_fault option"
  td_tmp :: string

datatype devtls_error = ErrNonLoopbackBind | KeyFailed | SerialFailed | CreateFailed | MkdirFailed | WriteCertFailed
  | MarshalFailed | WriteKeyFailed

record AutoTLSResult =
  at_CertFile :: string
  at_KeyFile :: string
  at_SHA256Fingerprint :: string

definition devTLSDir :: string where "devTLSDir = ''netsite-devtls''"

definition dev_dir :: "tls_deps \<Rightarrow> string" where "dev_dir d = td_tmp d @ ''/'' @ devTLSDir"
definition cert_path :: "tls_deps \<Rightarrow> string" where "cert_path d = dev_dir d @ ''/cert.pem''"
definition key_path :: "tls_deps \<Rightarrow> string" where "key_path d = dev_dir d @ ''/key.pem''"

definition AutoTLS :: "tls_deps \<Rightarrow> time \<Rightarrow> string \<Rightarrow> files \<Rightarrow> (devtls_error, AutoTLSResult) result \<times> files" where
  "AutoTLS d now addr fs =
    (if \<not> isLoopbackAddr addr then (Inl ErrNonLoopbackBind, fs)
     else (case td_generate d of
       None \<Rightarrow> (Inl KeyFailed, fs)
     | Some priv \<Rightarrow>
     (case td_serial d of
       None \<Rightarrow> (Inl SerialFailed, fs)
     | Some serial \<Rightarrow>
     (case td_create d (dev_template serial now) priv of
       None \<Rightarrow> (Inl CreateFailed, fs)
     | Some derBytes \<Rightarrow>
     (case MkdirAll (td_fault d (dev_dir d)) (dev_dir d) 448 fs of
       (False, fs) \<Rightarrow> (Inl MkdirFailed, fs)
     | (True, fs) \<Rightarrow>
     (case WriteFile (td_fault d (cert_path d)) (cert_path d) (td_pem d ''CERTIFICATE'' derBytes) 384 fs of
       (False, fs) \<Rightarrow> (Inl WriteCertFailed, fs)
     | (True, fs) \<Rightarrow>
     (case td_marshal d priv of
       None \<Rightarrow> (Inl MarshalFailed, fs)
     | Some keyDER \<Rightarrow>
     (case WriteFile (td_fault d (key_path d)) (key_path d) (td_pem d ''EC PRIVATE KEY'' keyDER) 384 fs of
       (False, fs) \<Rightarrow> (Inl WriteKeyFailed, fs)
     | (True, fs) \<Rightarrow>
       (Inr \<lparr>at_CertFile = cert_path d, at_KeyFile = key_path d,
          at_SHA256Fingerprint = hex_encode (sha256_sum (map byte derBytes))\<rparr>, fs)))))))))"

section \<open>What it leaves\<close>

lemma dev_paths [simp]:
  "cert_path d \<noteq> key_path d" "dev_dir d \<noteq> cert_path d" "dev_dir d \<noteq> key_path d" "cert_path d \<noteq> []" "key_path d \<noteq> []"
  by (simp_all add: cert_path_def key_path_def)

lemma MkdirAll_other: "p \<noteq> path \<Longrightarrow> snd (MkdirAll flt path mode fs) p = fs p"
  by (simp add: MkdirAll_def split: option.split entry.split)

lemma WriteFile_other: "p \<noteq> path \<Longrightarrow> snd (WriteFile flt path bytes mode fs) p = fs p"
  by (simp add: WriteFile_def Let_def split: option.split entry.split fs_fault.split)

lemma WriteFile_ok:
  "WriteFile flt path bytes mode fs = (True, fs') \<Longrightarrow>
   fs' path = Some (File (case fs path of Some (File m _) \<Rightarrow> m | _ \<Rightarrow> mode) bytes)"
  by (auto simp: WriteFile_def Let_def split: option.splits entry.splits fs_fault.splits)

text \<open>Whatever fails, nothing but the directory and the two files is touched, and for an address that is not a
  loopback one not even those.\<close>

lemma AutoTLS_confined:
  assumes "p \<notin> {dev_dir d, cert_path d, key_path d} \<or> \<not> isLoopbackAddr addr"
  shows "snd (AutoTLS d now addr fs) p = fs p"
proof (cases "isLoopbackAddr addr")
  case True
  then have p: "p \<noteq> dev_dir d" "p \<noteq> cert_path d" "p \<noteq> key_path d" using assms by auto
  obtain a fs1 where fs1: "MkdirAll (td_fault d (dev_dir d)) (dev_dir d) 448 fs = (a, fs1)" by fastforce
  have w: "snd (WriteFile flt path bytes mode g) p = g p" if "path \<in> {cert_path d, key_path d}" for flt path bytes mode g
    using that p by (intro WriteFile_other) auto
  have w': "g' p = g p" if "WriteFile flt path bytes mode g = (ok, g')" "path \<in> {cert_path d, key_path d}"
    for flt path bytes mode g ok g'
    using w [OF that(2), of flt bytes mode g] that(1) by simp
  have "fs1 p = fs p" using MkdirAll_other [OF p(1), of "td_fault d (dev_dir d)" 448 fs] fs1 by simp
  then show ?thesis by (auto simp: AutoTLS_def fs1 True split: option.split prod.split bool.split dest!: w')
qed (simp add: AutoTLS_def)

text \<open>A success leaves a certificate and its key in the files it names, on a loopback address only.\<close>

lemma AutoTLS_ok:
  assumes "AutoTLS d now addr fs = (Inr r, fs')"
  shows "isLoopbackAddr addr \<and> at_CertFile r = cert_path d \<and> at_KeyFile r = key_path d
    \<and> (\<exists>priv serial der keyDER m m'. td_generate d = Some priv \<and> td_serial d = Some serial
         \<and> td_create d (dev_template serial now) priv = Some der \<and> td_marshal d priv = Some keyDER
         \<and> fs' (cert_path d) = Some (File m (td_pem d ''CERTIFICATE'' der))
         \<and> fs' (key_path d) = Some (File m' (td_pem d ''EC PRIVATE KEY'' keyDER))
         \<and> at_SHA256Fingerprint r = hex_encode (sha256_sum (map byte der)))"
proof -
  obtain priv serial der keyDER fs1 fs2 where s: "isLoopbackAddr addr" "td_generate d = Some priv" "td_serial d = Some serial"
    "td_create d (dev_template serial now) priv = Some der"
    "td_marshal d priv = Some keyDER" "r = \<lparr>at_CertFile = cert_path d, at_KeyFile = key_path d,
          at_SHA256Fingerprint = hex_encode (sha256_sum (map byte der))\<rparr>"
    and w: "WriteFile (td_fault d (cert_path d)) (cert_path d) (td_pem d ''CERTIFICATE'' der) 384 fs1 = (True, fs2)"
      "WriteFile (td_fault d (key_path d)) (key_path d) (td_pem d ''EC PRIVATE KEY'' keyDER) 384 fs2 = (True, fs')"
    using assms by (auto simp: AutoTLS_def split: if_splits option.splits prod.splits bool.splits)
  have "fs' (cert_path d) = fs2 (cert_path d)"
    using WriteFile_other [of "cert_path d" "key_path d" "td_fault d (key_path d)" _ 384 fs2] w(2) by (metis dev_paths(1) snd_conv)
  then show ?thesis using s WriteFile_ok [OF w(1)] WriteFile_ok [OF w(2)] by auto
qed

text \<open>The key is private only if its file is new: one that exists keeps its mode.\<close>

lemma key_mode:
  assumes "AutoTLS d now addr fs = (Inr r, fs')"
  shows "\<exists>bytes. fs' (key_path d) = Some (File (case fs (key_path d) of Some (File m _) \<Rightarrow> m | _ \<Rightarrow> 384) bytes)"
proof -
  obtain der keyDER fs1 fs2 where m: "MkdirAll (td_fault d (dev_dir d)) (dev_dir d) 448 fs = (True, fs1)"
    and w: "WriteFile (td_fault d (cert_path d)) (cert_path d) (td_pem d ''CERTIFICATE'' der) 384 fs1 = (True, fs2)"
      "WriteFile (td_fault d (key_path d)) (key_path d) (td_pem d ''EC PRIVATE KEY'' keyDER) 384 fs2 = (True, fs')"
    using assms by (auto simp: AutoTLS_def split: if_splits option.splits prod.splits bool.splits)
  have "fs1 (key_path d) = fs (key_path d)"
    using MkdirAll_other [of "key_path d" "dev_dir d" "td_fault d (dev_dir d)" 448 fs] m by (metis dev_paths(3) snd_conv)
  moreover have "fs2 (key_path d) = fs1 (key_path d)"
    using WriteFile_other [of "key_path d" "cert_path d" "td_fault d (cert_path d)" _ 384 fs1] w(1) by (metis dev_paths(1) snd_conv)
  ultimately show ?thesis using WriteFile_ok [OF w(2)] by simp
qed

end
