(* ===== verification/Boot.thy ===== *)
theory Boot
  imports DevTLS Migrations ApiServer AnomalyState Ingest
begin

text \<open>
  The two servers from the command line on: \<open>run\<close> of cmd/ns-controlplane/main.go with its development
  certificates (devtls.go) and its web handler (web.go), and \<open>run\<close> of cmd/ns-pop/main.go.  The
  environment is an association list; what the packages that are not part of the repository answer is
  an argument.
\<close>

section \<open>The environment\<close>

definition envOr :: "environ \<Rightarrow> string \<Rightarrow> string \<Rightarrow> string" where
  "envOr env key def = (case map_of env key of Some v \<Rightarrow> if v \<noteq> [] then v else def | None \<Rightarrow> def)"

definition parseDurationOr :: "environ \<Rightarrow> string \<Rightarrow> duration \<Rightarrow> duration" where
  "parseDurationOr env key def =
    (case map_of env key of
       None \<Rightarrow> def
     | Some v \<Rightarrow> if v = [] then def else (case ParseDuration v of None \<Rightarrow> def | Some d \<Rightarrow> d))"

section \<open>The control plane\<close>

definition exitOK :: int where "exitOK = 0"
definition exitOTelSetup :: int where "exitOTelSetup = 2"
definition exitMissingDSN :: int where "exitMissingDSN = 3"
definition exitDBConnect :: int where "exitDBConnect = 4"
definition exitMigrate :: int where "exitMigrate = 5"
definition exitServerBuild :: int where "exitServerBuild = 6"
definition exitServerRuntime :: int where "exitServerRuntime = 7"
definition exitNATSConnect :: int where "exitNATSConnect = 8"
definition exitJetStream :: int where "exitJetStream = 9"
definition exitEnsureStream :: int where "exitEnsureStream = 10"
definition exitClickHouseConn :: int where "exitClickHouseConn = 11"

text \<open>What the services that the server depends on do during a boot.\<close>

record ('d, 'c, 's) host =
  h_otel :: otel_deps
  h_float :: "string \<Rightarrow> f64 option"
  h_version :: string
  h_pg_open :: connector
  h_pg_exec :: "string \<Rightarrow> 'd \<Rightarrow> 'd option"
  h_pg_files :: "dir_entry list"
  h_pg_env :: mig_env
  h_nats :: "string \<Rightarrow> nats_option list \<Rightarrow> 's JetStream nats_conn option"
  h_ch_open :: connector
  h_ch_exec :: "string \<Rightarrow> 'c \<Rightarrow> 'c option"
  h_ch_files :: "dir_entry list"
  h_ch_env :: mig_env
  h_tls :: tls_deps
  h_now :: time
  h_serve :: bool

record ('d, 'c, 's) backends =
  bk_pg :: "'d sdb"
  bk_js :: 's
  bk_ch :: "'c sdb"
  bk_files :: files

definition server_config :: "environ \<Rightarrow> string \<Rightarrow> string \<Rightarrow> Config" where
  "server_config env cert key =
    \<lparr>cfg_Addr = envOr env ''NETSITE_CONTROLPLANE_HTTP_ADDR'' '':8080'', cfg_Pool = True, cfg_Logger = True, cfg_PromReg = True,
     cfg_Auth = True, cfg_CH = True, cfg_SLOStore = True, cfg_Workspaces = True, cfg_Annotations = True,
     cfg_NetQLRegistry = True, cfg_AnomalyStore = True, cfg_TLSCertFile = cert, cfg_TLSKeyFile = key,
     cfg_AllowPlaintext = (getenv env ''NETSITE_CONTROLPLANE_ALLOW_PLAINTEXT'' = ''true''), cfg_TLSMinVersion = 0\<rparr>"

text \<open>The certificate and the key, or nothing when they conflict with \<open>NETSITE_DEV_AUTOTLS\<close>.\<close>

definition tls_files :: "environ \<Rightarrow> tls_deps \<Rightarrow> time \<Rightarrow> files \<Rightarrow> (string \<times> string) option \<times> files" where
  "tls_files env d now fs =
    (let tlsCert = getenv env ''NETSITE_CONTROLPLANE_TLS_CERT_FILE''; tlsKey = getenv env ''NETSITE_CONTROLPLANE_TLS_KEY_FILE''
     in if getenv env ''NETSITE_DEV_AUTOTLS'' = ''true'' then
          (if tlsCert \<noteq> [] \<or> tlsKey \<noteq> [] then (None, fs)
           else (case AutoTLS d now (envOr env ''NETSITE_CONTROLPLANE_HTTP_ADDR'' '':8080'') fs of
                   (Inl _, fs) \<Rightarrow> (None, fs) | (Inr res, fs) \<Rightarrow> (Some (at_CertFile res, at_KeyFile res), fs)))
        else (Some (tlsCert, tlsKey), fs))"

definition anomaly_enabled :: "environ \<Rightarrow> EvaluatorConfig option" where
  "anomaly_enabled env =
    (if getenv env ''NETSITE_ANOMALY_DISABLED'' \<noteq> ''true''
     then Some \<lparr>ec_Interval = parseDurationOr env ''NETSITE_ANOMALY_INTERVAL'' (5 * minute_ns), ec_Window = 0, ec_Bucket = 0,
       ec_Metrics = [], ec_DetectorConfig = \<lparr>dc_Period = 0, dc_Alpha = 0, dc_Beta = 0, dc_Gamma = 0, dc_MADThresholdWatch = 0,
         dc_MADThresholdAnomaly = 0, dc_MADThresholdCritical = 0, dc_MinSamples = 0, dc_Calendar = []\<rparr>\<rparr>
     else None)"

text \<open>Everything after the backends: the evaluator, the certificates and the server.\<close>

definition build_server :: "environ \<Rightarrow> tls_deps \<Rightarrow> time \<Rightarrow> files \<Rightarrow> Server option \<times> files" where
  "build_server env d now fs =
    (case (case anomaly_enabled env of None \<Rightarrow> None | Some cfg \<Rightarrow>
             (case anomaly_NewEvaluator True True True True cfg of Inl e \<Rightarrow> Some e | Inr _ \<Rightarrow> None)) of
       Some _ \<Rightarrow> (None, fs)
     | None \<Rightarrow>
         (case tls_files env d now fs of
            (None, fs) \<Rightarrow> (None, fs)
          | (Some (cert, key), fs) \<Rightarrow>
              (case api_New (server_config env cert key) of Inl _ \<Rightarrow> (None, fs) | Inr srv \<Rightarrow> (Some srv, fs))))"

definition otel_up :: "otel_deps \<Rightarrow> OtelConfig \<Rightarrow> bool" where
  "otel_up deps cfg = (fst (otel_Setup deps cfg \<lparr>pv_tracer = NoProvider, pv_meter = NoProvider\<rparr>) = None)"

definition boot :: "environ \<Rightarrow> ('d, 'c, 's) host \<Rightarrow> ('d, 'c, 's) backends \<Rightarrow> (int, Server) result \<times> ('d, 'c, 's) backends" where
  "boot env h b =
    (let dsn = getenv env ''NETSITE_CONTROLPLANE_DB_URL''; chURL = envOr env ''NETSITE_CONTROLPLANE_CH_URL'' []
     in if \<not> otel_up (h_otel h) (ConfigFromEnv (h_float h) env ''ns-controlplane'' (h_version h)) then (Inl exitOTelSetup, b)
        else if dsn = [] then (Inl exitMissingDSN, b)
        else if fst (pg_Open (h_pg_open h) dsn 0) \<noteq> None then (Inl exitDBConnect, b)
        else (case Migrate (h_pg_exec h) (h_pg_files h) (h_pg_env h) (bk_pg b) of
                (Some _, pg) \<Rightarrow> (Inl exitMigrate, b\<lparr>bk_pg := pg\<rparr>)
              | (None, pg) \<Rightarrow>
                  (let b = b\<lparr>bk_pg := pg\<rparr>
                   in case nats_Connect (h_nats h) (envOr env ''NETSITE_CONTROLPLANE_NATS_URL'' ''nats://localhost:4222'')
                            ''ns-controlplane'' of
                        Inl _ \<Rightarrow> (Inl exitNATSConnect, b)
                      | Inr nc \<Rightarrow>
                     (case nats_JetStream (Some nc) of
                        Inl _ \<Rightarrow> (Inl exitJetStream, b)
                      | Inr jsc \<Rightarrow>
                     (case ingest_EnsureStream (Some jsc) (bk_js b) of
                              (Some _, js) \<Rightarrow> (Inl exitEnsureStream, b\<lparr>bk_js := js\<rparr>)
                            | (None, js) \<Rightarrow>
                                (let b = b\<lparr>bk_js := js\<rparr>
                                 in if chURL = [] \<or> fst (ch_Open (h_ch_open h) chURL 0) \<noteq> None then (Inl exitClickHouseConn, b)
                                    else (case Apply (h_ch_exec h) (h_ch_files h) (h_ch_env h) (bk_ch b) of
                                            (Some _, ch) \<Rightarrow> (Inl exitClickHouseConn, b\<lparr>bk_ch := ch\<rparr>)
                                          | (None, ch) \<Rightarrow>
                                              (case build_server env (h_tls h) (h_now h) (bk_files b) of
                                                 (None, fs) \<Rightarrow> (Inl exitServerBuild, b\<lparr>bk_ch := ch, bk_files := fs\<rparr>)
                                               | (Some srv, fs) \<Rightarrow> (Inr srv, b\<lparr>bk_ch := ch, bk_files := fs\<rparr>)))))))))"

definition controlplane_run :: "environ \<Rightarrow> ('d, 'c, 's) host \<Rightarrow> ('d, 'c, 's) backends \<Rightarrow> int \<times> ('d, 'c, 's) backends" where
  "controlplane_run env h b =
    (case boot env h b of
       (Inl code, b') \<Rightarrow> (code, b')
     | (Inr srv, b') \<Rightarrow> (if h_serve h then exitOK else exitServerRuntime, b'))"

section \<open>The outermost handler\<close>

datatype web_reply = WebFile string | WebIndex string | WebMissingIndex | WebStub

text \<open>\<open>index\<close> is the page of the bundle, if there is one; files are served by the standard library.\<close>

definition webHandler :: "string option \<Rightarrow> string \<Rightarrow> web_reply" where
  "webHandler index path =
    (case index of
       None \<Rightarrow> WebStub
     | Some page \<Rightarrow> if has_prefix path ''/assets/'' \<or> has_prefix path ''/favicon'' then WebFile path else WebIndex page)"

definition to_api :: "string \<Rightarrow> bool" where
  "to_api path = (has_prefix path ''/v1/'' \<or> path = ''/v1'' \<or> path = ''/metrics'')"

definition path_text :: "string list \<Rightarrow> string" where
  "path_text segs = concat (map (\<lambda>s. CHR ''/'' # s) segs)"

text \<open>An answer of the API carries the header of \<open>HSTS\<close>, which \<open>api_New\<close> mounts below this handler.\<close>

datatype 'a front = FromApi "(string \<times> string) list" 'a | FromWeb web_reply

text \<open>The handler that \<open>run\<close> installs over that of the API; \<open>api\<close> is the answer that the API would give.\<close>

definition outer_handler :: "Server \<Rightarrow> string option \<Rightarrow> (string list \<Rightarrow> 'a) \<Rightarrow> string list \<Rightarrow> 'a front" where
  "outer_handler srv index api segs =
    (if to_api (path_text segs) then FromApi (HSTS srv) (api segs) else FromWeb (webHandler index (path_text segs)))"

section \<open>The agent\<close>

definition exitMissingConfig :: int where "exitMissingConfig = 3"
definition exitConfigLoad :: int where "exitConfigLoad = 4"
definition pop_exitNATSConnect :: int where "pop_exitNATSConnect = 5"
definition pop_exitJetStream :: int where "pop_exitJetStream = 6"

text \<open>The tests that \<open>run\<close> hands to the scheduler: those of the configuration that convert, then the mesh.\<close>

definition pop_tests :: "PopConfig \<Rightarrow> Test list" where
  "pop_tests cfg =
    concat (map (\<lambda>td. case ToCanaryTest td of Inl _ \<Rightarrow> [] | Inr t \<Rightarrow> [t]) (pc_Tests cfg))
    @ (case GenerateMeshTests (pc_Mesh cfg) (pc_PopID cfg) of Inl _ \<Rightarrow> [] | Inr mesh \<Rightarrow> mesh)"

record 's pop_host =
  ph_otel :: otel_deps
  ph_float :: "string \<Rightarrow> f64 option"
  ph_version :: string
  ph_read_file :: "string \<Rightarrow> string option"
  ph_unmarshal :: "string \<Rightarrow> PopConfig option"
  ph_nats :: "string \<Rightarrow> nats_option list \<Rightarrow> (string \<Rightarrow> string \<Rightarrow> 's \<Rightarrow> bool \<times> 's) nats_conn option"
  ph_marshal :: "Result \<Rightarrow> string option"
  ph_network :: network

text \<open>\<open>evs\<close> is the order in which the tests fire until the shutdown; a panic ends a Go program with the
  exit status 2.\<close>

definition pop_run :: "environ \<Rightarrow> 's pop_host \<Rightarrow> (Test \<times> time) list \<Rightarrow> 's \<Rightarrow> int \<times> 's" where
  "pop_run env h evs s =
    (let path = getenv env ''NETSITE_POP_CONFIG''
     in if \<not> otel_up (ph_otel h) (ConfigFromEnv (ph_float h) env ''ns-pop'' (ph_version h)) then (exitOTelSetup, s)
        else if path = [] then (exitMissingConfig, s)
        else (case LoadConfig (ph_read_file h) (ph_unmarshal h) path of
                Inl _ \<Rightarrow> (exitConfigLoad, s)
              | Inr cfg \<Rightarrow>
                  (case nats_Connect (ph_nats h) (pc_NATSURL cfg) (''ns-pop:'' @ pc_PopID cfg) of
                     Inl _ \<Rightarrow> (pop_exitNATSConnect, s)
                   | Inr nc \<Rightarrow>
                  (case nats_JetStream (Some nc) of
                     Inl _ \<Rightarrow> (pop_exitJetStream, s)
                   | Inr js \<Rightarrow>
                  (case scheduler_Run (Some js) (ph_marshal h) (DefaultRunners (ph_network h) (pc_PopID cfg))
                            (pop_tests cfg) evs s of
                          (TickerPanic, s') \<Rightarrow> (2, s')
                        | (_, s') \<Rightarrow> (exitOK, s'))))))"

lemma valid_converts:
  assumes "validate_test i td = None"
  shows "\<exists>t. ToCanaryTest td = Inr t \<and> ct_ID t = td_ID td"
  using validate_test_None [OF assms] by (elim exE conjE) (rule exI, erule conjI, simp)

lemma pop_tests_all:
  assumes "LoadConfig rd um path = Inr cfg"
  shows "\<exists>mesh. map ct_ID (pop_tests cfg) = map td_ID (pc_Tests cfg) @ map ct_ID mesh
    \<and> (mesh = [] \<or> GenerateMeshTests (pc_Mesh cfg) (pc_PopID cfg) = Inr mesh)"
proof -
  have v: "pop_Validate cfg = None" using assms by (auto simp: LoadConfig_def split: if_splits option.splits)
  have "map ct_ID (concat (map (\<lambda>td. case ToCanaryTest td of Inl _ \<Rightarrow> [] | Inr t \<Rightarrow> [t]) tds)) = map td_ID tds"
    if "set tds \<subseteq> set (pc_Tests cfg)" for tds
    using that
  proof (induction tds)
    case (Cons td tds)
    obtain k where "validate_test k td = None"
      using v Cons.prems validate_tests_nth by (auto simp: pop_Validate_def split: if_splits)
    then obtain t where "ToCanaryTest td = Inr t" "ct_ID t = td_ID td" using valid_converts by blast
    then show ?case using Cons by simp
  qed simp
  then have c: "map ct_ID (concat (map (\<lambda>td. case ToCanaryTest td of Inl _ \<Rightarrow> [] | Inr t \<Rightarrow> [t]) (pc_Tests cfg)))
    = map td_ID (pc_Tests cfg)" by blast
  show ?thesis
  proof (cases "GenerateMeshTests (pc_Mesh cfg) (pc_PopID cfg)")
    case (Inl e)
    then show ?thesis using c by (intro exI [of _ "[]"]) (simp add: pop_tests_def)
  next
    case (Inr mesh)
    then show ?thesis using c by (intro exI [of _ mesh]) (simp add: pop_tests_def)
  qed
qed

section \<open>What a boot promises\<close>

lemma build_server_tls:
  assumes "build_server env d now fs = (Some srv, fs')"
  shows "(srv_tlsEnabled srv \<and> srv_minVersion srv = Some VersionTLS13
        \<or> \<not> srv_tlsEnabled srv \<and> getenv env ''NETSITE_CONTROLPLANE_ALLOW_PLAINTEXT'' = ''true'')
    \<and> (if getenv env ''NETSITE_DEV_AUTOTLS'' = ''true''
       then srv_tlsEnabled srv \<and> isLoopbackAddr (cfg_Addr (srv_cfg srv))
         \<and> (\<exists>serial priv der m. td_generate d = Some priv \<and> td_create d (dev_template serial now) priv = Some der
              \<and> fs' (cfg_TLSCertFile (srv_cfg srv)) = Some (File m (td_pem d ''CERTIFICATE'' der)))
       else fs' = fs)"
proof -
  obtain cert key where t: "tls_files env d now fs = (Some (cert, key), fs')"
      "api_New (server_config env cert key) = Inr srv"
    using assms by (auto simp: build_server_def split: option.splits sum.splits prod.splits)
  have cfg: "cfg_TLSCertFile (srv_cfg srv) = cert" "cfg_Addr (srv_cfg srv) = envOr env ''NETSITE_CONTROLPLANE_HTTP_ADDR'' '':8080''"
    "(srv_tlsEnabled srv \<longleftrightarrow> cert \<noteq> [] \<and> key \<noteq> [])
     \<and> (srv_tlsEnabled srv \<and> srv_minVersion srv = Some VersionTLS13
        \<or> \<not> srv_tlsEnabled srv \<and> getenv env ''NETSITE_CONTROLPLANE_ALLOW_PLAINTEXT'' = ''true'')"
    using t(2) by (auto simp: api_New_def validateTLSConfig_def Let_def server_config_def split: option.splits if_splits)
  show ?thesis
  proof (cases "getenv env ''NETSITE_DEV_AUTOTLS'' = ''true''")
    case True
    then obtain r where r: "AutoTLS d now (envOr env ''NETSITE_CONTROLPLANE_HTTP_ADDR'' '':8080'') fs = (Inr r, fs')"
        "cert = at_CertFile r" "key = at_KeyFile r"
      using t(1) by (auto simp: tls_files_def Let_def split: if_splits sum.splits prod.splits)
    then show ?thesis using True cfg AutoTLS_ok [OF r(1)] by auto
  next
    case False
    then show ?thesis using t(1) cfg(3) by (auto simp: tls_files_def Let_def)
  qed
qed


definition demo_tls :: tls_deps where
  "demo_tls = \<lparr>td_generate = Some ''k'', td_serial = Some 7, td_create = \<lambda>_ k. Some k, td_marshal = Some, td_pem = \<lambda>_ b. b,
     td_fault = \<lambda>_. None, td_tmp = ''/tmp''\<rparr>"

definition demo_host :: "(unit, unit, broker) host" where
  "demo_host = \<lparr>h_otel = \<lparr>od_resource = True, od_trace = \<lambda>_ _. True, od_metric = \<lambda>_ _. True\<rparr>,
     h_float = (\<lambda>_. None), h_version = ''dev'',
     h_pg_open = \<lparr>cn_parse = \<lambda>_. True, cn_create = \<lambda>_. True, cn_ping = \<lambda>_. True\<rparr>, h_pg_exec = (\<lambda>_. Some), h_pg_files = [\<lparr>de_Name = ''0001.sql'', de_IsDir = False, de_Body = ''CREATE TABLE t''\<rparr>], h_pg_env = quiet_env, h_nats = (\<lambda>_ _. Some (\<lambda>_. Some broker_js)),
     h_ch_open = \<lparr>cn_parse = \<lambda>_. True, cn_create = \<lambda>_. True, cn_ping = \<lambda>_. True\<rparr>, h_ch_exec = (\<lambda>_. Some), h_ch_files = [], h_ch_env = quiet_env, h_tls = demo_tls, h_now = 5,
     h_serve = True\<rparr>"

definition dev_env :: environ where
  "dev_env = [(''NETSITE_CONTROLPLANE_DB_URL'', ''postgres://db''), (''NETSITE_CONTROLPLANE_CH_URL'', ''clickhouse://ch''),
     (''NETSITE_DEV_AUTOTLS'', ''true''), (''NETSITE_CONTROLPLANE_HTTP_ADDR'', ''127.0.0.1:8443'')]"

definition empty_backends :: "(unit, unit, broker) backends" where
  "empty_backends = \<lparr>bk_pg = \<lparr>sd_data = (), sd_tracking = None\<rparr>,
     bk_js = \<lparr>br_streams = [], br_consumers = [], br_pending = []\<rparr>, bk_ch = \<lparr>sd_data = (), sd_tracking = None\<rparr>, bk_files = \<lambda>_. None\<rparr>"

text \<open>The certificate is made symbolically, since its fingerprint is of no interest here.\<close>

lemma dev_certificate: "\<exists>fs. tls_files dev_env demo_tls 5 (\<lambda>_. None) = (Some (cert_path demo_tls, key_path demo_tls), fs)"
proof -
  have "isLoopbackAddr ''127.0.0.1:8443''" by code_simp
  moreover have "getenv dev_env ''NETSITE_DEV_AUTOTLS'' = ''true''" "getenv dev_env ''NETSITE_CONTROLPLANE_TLS_CERT_FILE'' = []"
    "getenv dev_env ''NETSITE_CONTROLPLANE_TLS_KEY_FILE'' = []"
    "envOr dev_env ''NETSITE_CONTROLPLANE_HTTP_ADDR'' '':8080'' = ''127.0.0.1:8443''" by code_simp+
  ultimately show ?thesis
    by (simp add: tls_files_def AutoTLS_def demo_tls_def MkdirAll_def WriteFile_def cert_path_def key_path_def)
qed

lemma dev_server: "\<exists>srv fs. build_server dev_env demo_tls 5 (\<lambda>_. None) = (Some srv, fs)"
proof -
  have "case anomaly_enabled dev_env of None \<Rightarrow> False
      | Some cfg \<Rightarrow> (case anomaly_NewEvaluator True True True True cfg of Inl e \<Rightarrow> False | Inr _ \<Rightarrow> True)" by code_simp
  moreover have "envOr dev_env ''NETSITE_CONTROLPLANE_HTTP_ADDR'' '':8080'' \<noteq> []" "\<not> VersionTLS13 < VersionTLS12" by code_simp+
  ultimately show ?thesis using dev_certificate
    by (auto simp: build_server_def api_New_def validateTLSConfig_def nil_dependency_def server_config_def Let_def
        split: option.splits sum.splits)
qed


lemma routes_below_v1:
  "list_all (\<lambda>r. rt_Pattern r = [Lit ''metrics''] \<or> take 1 (rt_Pattern r) = [Lit ''v1''] \<and> drop 1 (rt_Pattern r) \<noteq> []) routes"
  by code_simp

lemma has_prefix_Nil [simp]: "has_prefix xs []"
  by (simp add: has_prefix_def)

lemma has_prefix_Cons [simp]: "has_prefix (x # xs) (y # ys) \<longleftrightarrow> x = y \<and> has_prefix xs ys"
  by (auto simp: has_prefix_def)

lemma api_path:
  assumes "r \<in> set routes" "path_match (rt_Pattern r) segs"
  shows "to_api (path_text segs)"
proof -
  have "rt_Pattern r = [Lit ''metrics''] \<or> (\<exists>p ps. rt_Pattern r = Lit ''v1'' # p # ps)"
    using routes_below_v1 assms(1) by (cases "rt_Pattern r") (auto simp: list_all_iff neq_Nil_conv)
  then show ?thesis
    using assms(2) by (auto simp: path_match_def to_api_def path_text_def list_all2_Cons1)
qed

lemma dispatch_unknown:
  assumes "\<not> list_ex (\<lambda>r. path_match (rt_Pattern r) segs) routes"
  shows "dispatch user m segs = Answered 404"
proof -
  have "find (route_match m segs) routes = None"
    using assms by (auto simp: find_None_iff list_ex_iff route_match_def)
  then show ?thesis using assms by (simp add: dispatch_def)
qed

text \<open>The web page takes nothing from the API: a path of the route table has the answer of
  the API alone, whatever the method and the user.  Every other path gets the page, so that the front end
  routes it and none is missing, unless it lies under /v1, where it is answered with 404, or names a file
  of the bundle; none of these replies carries the transport-security header.  (The path is a clean one: the multiplexer first redirects every other.)\<close>

theorem front_routing:
  "outer_handler srv (Some page) (\<lambda>path. serve st cookies now m path s) segs =
    (if list_ex (\<lambda>r. path_match (rt_Pattern r) segs) routes then FromApi (HSTS srv) (serve st cookies now m segs s)
     else if to_api (path_text segs) then FromApi (HSTS srv) (Answered 404)
     else if has_prefix (path_text segs) ''/assets/'' \<or> has_prefix (path_text segs) ''/favicon''
       then FromWeb (WebFile (path_text segs))
     else FromWeb (WebIndex page))"
  using api_path [of _ segs] dispatch_unknown [of segs]
  by (auto simp: outer_handler_def serve_def webHandler_def list_ex_iff)

end
