(* ===== verification/Deployment.thy ===== *)
theory Deployment
  imports ApiSystem SloEvaluator Ingest Seed
begin

text \<open>
  A running deployment: the agents, the broker, the consumer, the two evaluators and the API server, all on
  the same tables, and the seed commands beside them. Each goroutine of cmd/ns-controlplane/main.go makes its
  steps in its own order and the steps of different goroutines interleave in any order. A tick of an evaluator
  lists its work first and then works it off piece by piece, while the catalogs may change under it; an
  evaluation of an objective reads and alerts in one step and writes its state in a later one; a request is
  admitted in one step and handled in a later one, so that many are in flight and handled in any order. A
  restart loses what was listed, evaluated or in flight, and nothing else.

  The other pairs of accesses stay together, because no step in between could be told apart from one before or
  after both: a delivery inserts and acknowledges, and nobody else reads what is acknowledged; the anomaly
  evaluator writes a verdict that depends on no table, and reads the old one for the log only; a login reads
  users, which no request changes.
\<close>

section \<open>State and steps\<close>

text \<open>Next to the tables: the requests in flight with what the middleware made of them, the latest first, the
  work listed by the running tick of either evaluator, the state that the running evaluation is going to
  write, and as a record of what went out the published results and the alerts with their outcome.\<close>

record deployment =
  dp_plane :: control_plane
  dp_broker :: broker
  dp_inflight :: "(environment \<times> request \<times> outcome) list"
  dp_slo_work :: "time \<times> SLO list"
  dp_slo_pending :: "State option"
  dp_anomaly_work :: "(TestRef \<times> string) list"
  dp_sent :: "Result list"
  dp_alerts :: "(delivery \<times> bool) list"

text \<open>What does not change: the JSON forms of a result, the cooldown of the alerts and the configuration of the
  anomaly evaluator.\<close>

record wiring =
  wr_marshal :: "Result \<Rightarrow> string option"
  wr_unmarshal :: "string \<Rightarrow> Result option"
  wr_cooldown :: duration
  wr_anomaly :: EvaluatorConfig

datatype event =
    Arrive environment request
  | Handle nat
  | Fire runner time Test
  | Deliver message exec_outcome bool
  | SloTick bool time
  | SloNext bool sli_source notify_env
  | SloWrite bool
  | AnomalyTick bool
  | AnomalyNext tick_env
  | Restart
  | SeedAdmin Service bool "mig_error option" bool time "int list option" time cli_env seed_flags
  | SeedDemo "tx_fault option" time string

text \<open>The tables that the seed commands write.\<close>

definition seed_tables :: "control_plane \<Rightarrow> pg_db" where
  "seed_tables p = \<lparr>pg_auth = cp_auth p, pg_pops = cp_pops p, pg_tests = cp_tests p, pg_slo = cp_slo p\<rparr>"

definition with_tables :: "pg_db \<Rightarrow> control_plane \<Rightarrow> control_plane" where
  "with_tables t p = p\<lparr>cp_auth := pg_auth t, cp_pops := pg_pops t, cp_tests := pg_tests t, cp_slo := pg_slo t\<rparr>"

fun dep_step :: "wiring \<Rightarrow> event \<Rightarrow> deployment \<Rightarrow> deployment" where
  "dep_step w (Arrive env rq) s = s\<lparr>dp_inflight := (env, rq, admit env rq (dp_plane s)) # dp_inflight s\<rparr>"
| "dep_step w (Handle n) s =
    (if length (dp_inflight s) \<le> n then s
     else (case dp_inflight s ! n of
             (env, rq, out) \<Rightarrow>
               s\<lparr>dp_inflight := take n (dp_inflight s) @ drop (Suc n) (dp_inflight s),
                 dp_plane := snd (complete env rq out (dp_plane s))\<rparr>))"
| "dep_step w (Fire run now t) s =
    (case Publish (Some broker_publish) (wr_marshal w) (run now t) (dp_broker s) of
       (None, b) \<Rightarrow> s\<lparr>dp_broker := b, dp_sent := dp_sent s @ [run now t]\<rparr>
     | (Some _, b) \<Rightarrow> s\<lparr>dp_broker := b\<rparr>)"
| "dep_step w (Deliver m ex ack_ok) s =
    (if m \<notin> set (br_pending (dp_broker s)) then s
     else (case deliver (wr_unmarshal w) ex ack_ok m (dp_broker s, cp_results (dp_plane s)) of
             (b, table) \<Rightarrow> s\<lparr>dp_broker := b, dp_plane := (dp_plane s)\<lparr>cp_results := table\<rparr>\<rparr>))"
| "dep_step w (SloTick flt now) s =
    (if snd (dp_slo_work s) \<noteq> [] \<or> dp_slo_pending s \<noteq> None then s
     else (case ListEnabled flt (cp_slo (dp_plane s)) of
             Inl _ \<Rightarrow> s
           | Inr slos \<Rightarrow> s\<lparr>dp_slo_work := (now, slos)\<rparr>))"
| "dep_step w (SloNext getFault src env) s =
    (case (dp_slo_pending s, dp_slo_work s) of
       (None, now, x # xs) \<Rightarrow>
         (case evaluate_begin (GetState getFault) src env (wr_cooldown w) x now (cp_slo (dp_plane s)) of
            Inl _ \<Rightarrow> s\<lparr>dp_slo_work := (now, xs)\<rparr>
          | Inr (st, alerts) \<Rightarrow>
              s\<lparr>dp_slo_work := (now, xs), dp_slo_pending := Some st, dp_alerts := dp_alerts s @ alerts\<rparr>)
     | _ \<Rightarrow> s)"
| "dep_step w (SloWrite putFault) s =
    (case dp_slo_pending s of
       None \<Rightarrow> s
     | Some st \<Rightarrow>
         s\<lparr>dp_slo_pending := None,
           dp_plane := (dp_plane s)\<lparr>cp_slo := snd (UpsertState putFault st (cp_slo (dp_plane s)))\<rparr>\<rparr>)"
| "dep_step w (AnomalyTick flt) s =
    (if dp_anomaly_work s \<noteq> [] then s
     else (case ListEnabledTests flt (cp_tests (dp_plane s)) of
             Inl _ \<Rightarrow> s
           | Inr refs \<Rightarrow> s\<lparr>dp_anomaly_work := tick_pairs (wr_anomaly w) refs\<rparr>))"
| "dep_step w (AnomalyNext env) s =
    (case dp_anomaly_work s of
       [] \<Rightarrow> s
     | (t, m) # ps \<Rightarrow>
         s\<lparr>dp_anomaly_work := ps,
           dp_plane := (dp_plane s)\<lparr>cp_verdicts := snd (snd (anomaly_EvaluateOne (wr_anomaly w) env t m (cp_verdicts (dp_plane s))))\<rparr>\<rparr>)"
| "dep_step w Restart s =
    s\<lparr>dp_inflight := [], dp_slo_work := (0, []), dp_slo_pending := None, dp_anomaly_work := []\<rparr>"
| "dep_step w (SeedAdmin svc opens migrated flt created entropy now cli flags) s =
    s\<lparr>dp_plane := (dp_plane s)\<lparr>cp_auth := snd (seed_admin svc opens migrated flt created entropy now cli flags (cp_auth (dp_plane s)))\<rparr>\<rparr>"
| "dep_step w (SeedDemo flt created tenant) s =
    s\<lparr>dp_plane := with_tables (snd (seedDemo flt created tenant (seed_tables (dp_plane s)))) (dp_plane s)\<rparr>"

definition dep_run :: "wiring \<Rightarrow> event list \<Rightarrow> deployment \<Rightarrow> deployment" where
  "dep_run w evs s = fold (dep_step w) evs s"

text \<open>A deployment as its first boot leaves it: streams without messages, and empty tables.\<close>

definition fresh :: "broker \<Rightarrow> deployment" where
  "fresh b = \<lparr>dp_plane = empty_plane, dp_broker = b\<lparr>br_pending := []\<rparr>, dp_inflight = [], dp_slo_work = (0, []),
     dp_slo_pending = None, dp_anomaly_work = [], dp_sent = [], dp_alerts = []\<rparr>"

lemma dep_run_simps [simp]:
  "dep_run w [] s = s" "dep_run w (e # evs) s = dep_run w evs (dep_step w e s)"
  "dep_run w (evs @ evs') s = dep_run w evs' (dep_run w evs s)"
  by (simp_all add: dep_run_def)

lemma dep_run_invariant:
  assumes "\<And>e s. I s \<Longrightarrow> I (dep_step w e s)" "I s"
  shows "I (dep_run w evs s)"
  using assms(2) by (induction evs arbitrary: s) (simp_all add: assms(1))

text \<open>Without anything in between, the two steps of a request are the request, and the steps of a tick are the
  tick.\<close>

definition request_events :: "environment \<Rightarrow> request \<Rightarrow> event list" where
  "request_events env rq = [Arrive env rq, Handle 0]"

lemma uninterrupted_request:
  "dep_run w (request_events env rq) s = s\<lparr>dp_plane := snd (api_step env rq (dp_plane s))\<rparr>"
  by (simp add: request_events_def api_step_def)

definition evaluation_events :: "bool \<Rightarrow> bool \<Rightarrow> sli_source \<Rightarrow> notify_env \<Rightarrow> event list" where
  "evaluation_events getFault putFault src env = [SloNext getFault src env, SloWrite putFault]"

lemma uninterrupted_evaluation:
  fixes w src env getFault putFault
  assumes "dp_slo_pending s = None" "dp_slo_work s = (now, x # xs)"
  defines "e \<equiv> EvaluateOne (GetState getFault) (UpsertState putFault) src env (wr_cooldown w) x now (cp_slo (dp_plane s))"
  shows "dep_run w (evaluation_events getFault putFault src env) s =
    s\<lparr>dp_slo_work := (now, xs), dp_plane := (dp_plane s)\<lparr>cp_slo := ev_store e\<rparr>, dp_alerts := dp_alerts s @ ev_alerts e\<rparr>"
  using assms(1,2)
  by (cases "evaluate_begin (GetState getFault) src env (wr_cooldown w) x now (cp_slo (dp_plane s))")
    (auto simp: evaluation_events_def e_def EvaluateOne_parts)

lemma slo_work_off:
  fixes w src env getFault putFault
  assumes "dp_slo_pending s = None" "dp_slo_work s = (now, slos)"
  defines "s' \<equiv> dep_run w (concat (replicate (length slos) (evaluation_events getFault putFault src env))) s"
  shows "cp_slo (dp_plane s') =
      fold (\<lambda>x d. ev_store (EvaluateOne (GetState getFault) (UpsertState putFault) src env (wr_cooldown w) x now d)) slos
        (cp_slo (dp_plane s))"
    "dp_slo_pending s' = None" "dp_slo_work s' = (now, [])"
proof -
  have "cp_slo (dp_plane (dep_run w (concat (replicate (length slos) (evaluation_events getFault putFault src env))) s)) =
      fold (\<lambda>x d. ev_store (EvaluateOne (GetState getFault) (UpsertState putFault) src env (wr_cooldown w) x now d)) slos
        (cp_slo (dp_plane s))
    \<and> dp_slo_pending (dep_run w (concat (replicate (length slos) (evaluation_events getFault putFault src env))) s) = None
    \<and> dp_slo_work (dep_run w (concat (replicate (length slos) (evaluation_events getFault putFault src env))) s) = (now, [])"
    using assms(1,2) by (induction slos arbitrary: s) (simp_all add: uninterrupted_evaluation)
  then show "cp_slo (dp_plane s') =
      fold (\<lambda>x d. ev_store (EvaluateOne (GetState getFault) (UpsertState putFault) src env (wr_cooldown w) x now d)) slos
        (cp_slo (dp_plane s))"
    "dp_slo_pending s' = None" "dp_slo_work s' = (now, [])" by (simp_all add: s'_def)
qed

definition idle :: "deployment \<Rightarrow> bool" where
  "idle s = (snd (dp_slo_work s) = [] \<and> dp_slo_pending s = None)"

lemma uninterrupted_slo_tick:
  fixes w src env getFault putFault and flt now
  assumes "idle s" "ListEnabled flt (cp_slo (dp_plane s)) = Inr slos"
  defines "s' \<equiv> dep_run w (SloTick flt now # concat (replicate (length slos) (evaluation_events getFault putFault src env))) s"
  shows "cp_slo (dp_plane s') =
      slo_tick (GetState getFault) (UpsertState putFault) src env (wr_cooldown w) now (Inr slos) (cp_slo (dp_plane s))"
    "idle s'"
  using assms(1,2) slo_work_off [of "s\<lparr>dp_slo_work := (now, slos)\<rparr>" now slos w getFault putFault src env]
  by (simp_all add: s'_def slo_tick_def idle_def)

lemma anomaly_work_off:
  "dp_anomaly_work s = ps \<Longrightarrow>
   cp_verdicts (dp_plane (dep_run w (replicate (length ps) (AnomalyNext env)) s)) =
     snd (fold (tick_step (wr_anomaly w) env) ps (txs, cp_verdicts (dp_plane s)))"
proof (induction ps arbitrary: s txs)
  case (Cons p ps)
  obtain t m where p: "p = (t, m)" by (cases p)
  obtain e txs' db where e: "anomaly_EvaluateOne (wr_anomaly w) env t m (cp_verdicts (dp_plane s)) = (e, txs', db)"
    by (cases "anomaly_EvaluateOne (wr_anomaly w) env t m (cp_verdicts (dp_plane s))")
  have "dp_anomaly_work (dep_step w (AnomalyNext env) s) = ps" using Cons.prems by (simp add: p)
  from Cons.IH [OF this, of "txs @ txs'"] show ?case using Cons.prems by (simp add: p tick_step_def e)
qed simp

lemma uninterrupted_anomaly_tick:
  assumes "dp_anomaly_work s = []" "ListEnabledTests (te_listFault env) (cp_tests (dp_plane s)) = Inr refs"
    "te_tests env = cp_tests (dp_plane s)"
  shows "cp_verdicts (dp_plane (dep_run w (AnomalyTick (te_listFault env) #
       replicate (length (tick_pairs (wr_anomaly w) refs)) (AnomalyNext env)) s)) =
    snd (anomaly_tick (wr_anomaly w) env ([], cp_verdicts (dp_plane s)))"
  using assms anomaly_work_off [of "s\<lparr>dp_anomaly_work := tick_pairs (wr_anomaly w) refs\<rparr>" "tick_pairs (wr_anomaly w) refs" w env "[]"]
  by (simp add: anomaly_tick_def)

text \<open>So what the loops of the goroutines do when each runs alone is among the runs of a deployment.\<close>

lemma slo_round_events:
  assumes "idle s"
  shows "\<exists>evs. cp_slo (dp_plane (dep_run w evs s)) = slo_round_tick (wr_cooldown w) rd (cp_slo (dp_plane s))
    \<and> idle (dep_run w evs s)"
proof (cases "ListEnabled (rd_listFault rd) (cp_slo (dp_plane s))")
  case (Inl e)
  then show ?thesis using assms by (intro exI [of _ "[]"]) (simp add: slo_round_tick_def slo_tick_def)
next
  case (Inr slos)
  note tick = uninterrupted_slo_tick [OF assms Inr, of w "rd_now rd" "rd_getFault rd" "rd_putFault rd" "rd_source rd" "rd_env rd"]
  show ?thesis using tick by (intro exI conjI) (simp_all only: slo_round_tick_def Inr)
qed

lemma slo_Run_events:
  assumes "idle s"
  shows "\<exists>evs. cp_slo (dp_plane (dep_run w evs s)) = slo_Run (wr_cooldown w) first ticks (cp_slo (dp_plane s))"
proof -
  have "\<exists>evs. cp_slo (dp_plane (dep_run w evs s)) = fold (slo_round_tick (wr_cooldown w)) rds (cp_slo (dp_plane s))" for rds
    using assms
  proof (induction rds arbitrary: s)
    case Nil
    then show ?case by (intro exI [of _ "[]"]) simp
  next
    case (Cons rd rds)
    obtain evs where evs: "cp_slo (dp_plane (dep_run w evs s)) = slo_round_tick (wr_cooldown w) rd (cp_slo (dp_plane s))"
      "idle (dep_run w evs s)" using slo_round_events [OF Cons.prems] by blast
    obtain evs' where "cp_slo (dp_plane (dep_run w evs' (dep_run w evs s))) =
        fold (slo_round_tick (wr_cooldown w)) rds (cp_slo (dp_plane (dep_run w evs s)))"
      using Cons.IH [OF evs(2)] by blast
    then show ?case using evs(1) by (intro exI [of _ "evs @ evs'"]) simp
  qed
  then show ?thesis unfolding slo_Run_def .
qed

text \<open>The rounds of the consumer, on messages that the broker has when they are handed out.\<close>

fun fetchable :: "(string \<Rightarrow> Result option) \<Rightarrow> (message \<times> exec_outcome \<times> bool) list \<Rightarrow> broker \<times> canary_row list \<Rightarrow> bool" where
  "fetchable unmarshal [] bt = True"
| "fetchable unmarshal ((m, ex, ack_ok) # ms) bt =
    (m \<in> set (br_pending (fst bt)) \<and> fetchable unmarshal ms (deliver unmarshal ex ack_ok m bt))"

lemma ingest_Run_events:
  assumes "fetchable (wr_unmarshal w) (concat (map (case_option [] id) rounds)) (dp_broker s, cp_results (dp_plane s))"
  shows "\<exists>evs. ingest_Run (wr_unmarshal w) True rounds (dp_broker s, cp_results (dp_plane s)) =
     (True, dp_broker (dep_run w evs s), cp_results (dp_plane (dep_run w evs s)))"
proof -
  define handled where "handled = fold (\<lambda>(m, ex, ack_ok). deliver (wr_unmarshal w) ex ack_ok m)"
  have round: "consume_round (wr_unmarshal w) fetched bt = handled (case_option [] id fetched) bt" for fetched bt
    by (cases fetched) (simp_all add: consume_round_def handled_def)
  have rounds: "fold (consume_round (wr_unmarshal w)) rounds bt = handled (concat (map (case_option [] id) rounds)) bt" for bt
    by (induction rounds arbitrary: bt) (simp_all add: round, simp_all add: handled_def)
  have "\<exists>evs. handled ms (dp_broker s, cp_results (dp_plane s)) =
      (dp_broker (dep_run w evs s), cp_results (dp_plane (dep_run w evs s)))"
    if "fetchable (wr_unmarshal w) ms (dp_broker s, cp_results (dp_plane s))" for ms
    using that
  proof (induction ms arbitrary: s)
    case Nil
    then show ?case by (intro exI [of _ "[]"]) (simp add: handled_def)
  next
    case (Cons d ms)
    obtain m ex ack_ok where d: "d = (m, ex, ack_ok)" by (cases d)
    let ?t = "dep_step w (Deliver m ex ack_ok) s"
    have t: "(dp_broker ?t, cp_results (dp_plane ?t)) = deliver (wr_unmarshal w) ex ack_ok m (dp_broker s, cp_results (dp_plane s))"
      using Cons.prems by (simp add: d split: prod.split)
    obtain evs where "handled ms (dp_broker ?t, cp_results (dp_plane ?t)) =
        (dp_broker (dep_run w evs ?t), cp_results (dp_plane (dep_run w evs ?t)))"
      using Cons.IH [of ?t] Cons.prems t by (auto simp: d)
    then show ?case using t by (intro exI [of _ "Deliver m ex ack_ok # evs"]) (simp add: handled_def d)
  qed
  from this [OF assms] show ?thesis by (simp add: ingest_Run_def rounds)
qed

lemma complete_results [simp]: "cp_results (snd (complete env rq out s)) = cp_results s"
proof (cases out)
  case (Reached h user)
  then show ?thesis by (cases h) (simp_all split: prod.split)
qed simp

section \<open>The deployment refines the pipeline\<close>

definition pipe_of :: "deployment \<Rightarrow> pipeline" where
  "pipe_of s = \<lparr>pl_broker = dp_broker s, pl_table = cp_results (dp_plane s), pl_sent = dp_sent s\<rparr>"

lemma pipe_of_step:
  "pipe_of (dep_step w e s) = pipe_of s \<or> pipe_step (wr_marshal w) (wr_unmarshal w) (pipe_of s) (pipe_of (dep_step w e s))"
proof (cases e)
  case (Fire run now t)
  obtain r b where p: "Publish (Some broker_publish) (wr_marshal w) (run now t) (dp_broker s) = (r, b)" by fastforce
  then show ?thesis
    using pipe_step.published [of "wr_marshal w" "run now t" "pipe_of s" b "wr_unmarshal w"]
      pipe_step.refused [of "wr_marshal w" "run now t" "pipe_of s" _ b "wr_unmarshal w"]
    by (cases r) (auto simp: Fire pipe_of_def)
next
  case (Deliver m ex ack_ok)
  obtain b table where d: "deliver (wr_unmarshal w) ex ack_ok m (dp_broker s, cp_results (dp_plane s)) = (b, table)" by fastforce
  then show ?thesis
    using pipe_step.delivered [of m "pipe_of s" "wr_unmarshal w" ex ack_ok b table "wr_marshal w"]
    by (auto simp: Deliver pipe_of_def)
qed (auto simp: pipe_of_def with_tables_def Let_def split: sum.split prod.split list.split option.split)

lemma pipe_of_run:
  "(pipe_step (wr_marshal w) (wr_unmarshal w))\<^sup>*\<^sup>* (pipe_of s) (pipe_of (dep_run w evs s))"
proof (induction evs arbitrary: s)
  case (Cons e evs)
  then show ?case using pipe_of_step [of w e s] by (metis dep_run_simps(2) converse_rtranclp_into_rtranclp)
qed simp

lemma pipe_of_fresh: "pipe_of (fresh b) = empty_pipeline b"
  by (simp add: fresh_def pipe_of_def empty_pipeline_def empty_plane_def)


end
