(* ===== verification/CatalogServices.thy ===== *)
theory CatalogServices
  imports Workspaces Annotations
begin

text \<open>
  The services of the workspaces and of the annotations over the interfaces that they are given
  (pkg/workspaces/service.go, pkg/annotations/types.go).  A \<open>Reader\<close> and a \<open>Mutator\<close> are records of
  functions on some state, the options of a service carry its clock and its generators, and each method
  calls what it is given.  With the stores of PostgreSQL and the default options the methods are the operations
  of Workspaces and Annotations.  The locales state what a service promises over any store: only what
  it has validated reaches the table.
\<close>

section \<open>Generators\<close>

text \<open>A clock reads the time of the machine, a generator the bytes of \<open>crypto/rand\<close>; \<open>None\<close> is a
  panic of an identifier generator and an error of a slug generator.\<close>

type_synonym Clock = "time \<Rightarrow> time"
type_synonym IDGen = "int list option \<Rightarrow> string option"

definition time_Now_UTC :: Clock where "time_Now_UTC t = t"

section \<open>The service of the workspaces\<close>

record 's ws_Reader =
  wsr_Get :: "string \<Rightarrow> string \<Rightarrow> 's \<Rightarrow> (ws_error, Workspace) result"
  wsr_List :: "string \<Rightarrow> 's \<Rightarrow> (ws_error, Workspace list) result"
  wsr_GetByShareSlug :: "string \<Rightarrow> time \<Rightarrow> 's \<Rightarrow> (ws_error, Workspace) result"

record 's ws_Mutator =
  wsm_Insert :: "Workspace \<Rightarrow> 's \<Rightarrow> (ws_error, Workspace) result \<times> 's"
  wsm_Update :: "string \<Rightarrow> string \<Rightarrow> WsUpdateRequest \<Rightarrow> 's \<Rightarrow> (ws_error, Workspace) result \<times> 's"
  wsm_Delete :: "string \<Rightarrow> string \<Rightarrow> 's \<Rightarrow> ws_error option \<times> 's"
  wsm_SetShare :: "string \<Rightarrow> string \<Rightarrow> string \<Rightarrow> time option \<Rightarrow> 's \<Rightarrow> (ws_error, Workspace) result \<times> 's"

record ws_Options =
  wso_Now :: "Clock option"
  wso_MintID :: "IDGen option"
  wso_MintSlug :: "IDGen option"

record 's ws_Service =
  wss_r :: "'s ws_Reader"
  wss_m :: "'s ws_Mutator"
  wss_now :: Clock
  wss_mintID :: IDGen
  wss_mintSlug :: IDGen

definition ws_NewService :: "'s ws_Reader \<Rightarrow> 's ws_Mutator \<Rightarrow> ws_Options \<Rightarrow> 's ws_Service" where
  "ws_NewService r m opts =
    \<lparr>wss_r = r, wss_m = m, wss_now = or_else (wso_Now opts) time_Now_UTC,
     wss_mintID = or_else (wso_MintID opts) ws_defaultIDGen, wss_mintSlug = or_else (wso_MintSlug opts) ws_defaultSlugGen\<rparr>"

definition wss_Create :: "'s ws_Service \<Rightarrow> int list option \<Rightarrow> string \<Rightarrow> string \<Rightarrow> WsCreateRequest \<Rightarrow> 's \<Rightarrow>
    ((ws_error, Workspace) result \<times> 's) option" where
  "wss_Create sv entropy tenant owner req s =
    (case ValidateName (wc_Name req) of Some e \<Rightarrow> Some (Inl (ErrInvalidWorkspace e), s) | None \<Rightarrow>
    (case ValidateDescription (wc_Description req) of Some e \<Rightarrow> Some (Inl (ErrInvalidWorkspace e), s) | None \<Rightarrow>
    (case ValidateViews (wc_Views req) of Some e \<Rightarrow> Some (Inl (ErrInvalidWorkspace e), s) | None \<Rightarrow>
    (case wss_mintID sv entropy of
       None \<Rightarrow> None
     | Some minted \<Rightarrow>
         Some (wsm_Insert (wss_m sv) \<lparr>wk_ID = minted, wk_TenantID = tenant, wk_OwnerUserID = owner, wk_Name = wc_Name req,
           wk_Description = wc_Description req, wk_Views = wc_Views req, wk_ShareSlug = [],
           wk_ShareExpiresAt = None, wk_CreatedAt = 0, wk_UpdatedAt = 0\<rparr> s)))))"

definition wss_Get :: "'s ws_Service \<Rightarrow> string \<Rightarrow> string \<Rightarrow> 's \<Rightarrow> (ws_error, Workspace) result" where
  "wss_Get sv tenant i s = wsr_Get (wss_r sv) tenant i s"

definition wss_List :: "'s ws_Service \<Rightarrow> string \<Rightarrow> 's \<Rightarrow> (ws_error, Workspace list) result" where
  "wss_List sv tenant s = wsr_List (wss_r sv) tenant s"

definition wss_Update :: "'s ws_Service \<Rightarrow> string \<Rightarrow> string \<Rightarrow> WsUpdateRequest \<Rightarrow> 's \<Rightarrow> (ws_error, Workspace) result \<times> 's" where
  "wss_Update sv tenant i req s =
    (case opt_validate ValidateName (wu_Name req) of Some e \<Rightarrow> (Inl (ErrInvalidWorkspace e), s) | None \<Rightarrow>
    (case opt_validate ValidateDescription (wu_Description req) of Some e \<Rightarrow> (Inl (ErrInvalidWorkspace e), s) | None \<Rightarrow>
    (case opt_validate ValidateViews (wu_Views req) of Some e \<Rightarrow> (Inl (ErrInvalidWorkspace e), s) | None \<Rightarrow>
       wsm_Update (wss_m sv) tenant i req s)))"

definition wss_Delete :: "'s ws_Service \<Rightarrow> string \<Rightarrow> string \<Rightarrow> 's \<Rightarrow> ws_error option \<times> 's" where
  "wss_Delete sv tenant i s = wsm_Delete (wss_m sv) tenant i s"

definition wss_Share :: "'s ws_Service \<Rightarrow> time \<Rightarrow> int list option \<Rightarrow> string \<Rightarrow> string \<Rightarrow> duration \<Rightarrow> 's \<Rightarrow>
    (ws_error, Workspace) result \<times> 's" where
  "wss_Share sv now entropy tenant i ttl s =
    (if ttl < 0 then (Inl (ErrInvalidWorkspace WsNegativeTTL), s)
     else (let ttl = (if ttl = 0 then DefaultShareTTL else ttl)
           in case wss_mintSlug sv entropy of
                None \<Rightarrow> (Inl WsSlug, s)
              | Some slug \<Rightarrow> wsm_SetShare (wss_m sv) tenant i slug (Some (wss_now sv now + ttl)) s))"

definition wss_Unshare :: "'s ws_Service \<Rightarrow> string \<Rightarrow> string \<Rightarrow> 's \<Rightarrow> (ws_error, Workspace) result \<times> 's" where
  "wss_Unshare sv tenant i s = wsm_SetShare (wss_m sv) tenant i [] None s"

definition wss_Resolve :: "'s ws_Service \<Rightarrow> time \<Rightarrow> string \<Rightarrow> 's \<Rightarrow> (ws_error, Workspace) result" where
  "wss_Resolve sv now slug s = wsr_GetByShareSlug (wss_r sv) slug (wss_now sv now) s"

text \<open>The store of PostgreSQL is both interfaces; \<open>flt\<close> and \<open>broken\<close> are the faults of the connection.\<close>

definition ws_store_reader :: "bool \<Rightarrow> nat option \<Rightarrow> ws_db ws_Reader" where
  "ws_store_reader flt broken =
    \<lparr>wsr_Get = ws_Get flt, wsr_List = ws_List flt broken, wsr_GetByShareSlug = ws_GetByShareSlug flt\<rparr>"

definition ws_store_mutator :: "bool \<Rightarrow> time \<Rightarrow> ws_db ws_Mutator" where
  "ws_store_mutator flt dbnow =
    \<lparr>wsm_Insert = ws_Insert flt dbnow, wsm_Update = ws_Update flt dbnow, wsm_Delete = ws_Delete flt,
     wsm_SetShare = ws_SetShare flt dbnow\<rparr>"

section \<open>The service of the annotations\<close>

record 's an_Reader =
  anr_Get :: "string \<Rightarrow> string \<Rightarrow> 's \<Rightarrow> (an_error, Annotation) result"
  anr_List :: "string \<Rightarrow> ListFilter \<Rightarrow> 's \<Rightarrow> (an_error, Annotation list) result"

record 's an_Mutator =
  anm_Insert :: "Annotation \<Rightarrow> 's \<Rightarrow> (an_error, Annotation) result \<times> 's"
  anm_Delete :: "string \<Rightarrow> string \<Rightarrow> 's \<Rightarrow> an_error option \<times> 's"

record an_Options =
  ano_Now :: "Clock option"
  ano_MintID :: "IDGen option"

record 's an_Service =
  ans_r :: "'s an_Reader"
  ans_m :: "'s an_Mutator"
  ans_now :: Clock
  ans_mintID :: IDGen

definition an_NewService :: "'s an_Reader \<Rightarrow> 's an_Mutator \<Rightarrow> an_Options \<Rightarrow> 's an_Service" where
  "an_NewService r m opts =
    \<lparr>ans_r = r, ans_m = m, ans_now = or_else (ano_Now opts) time_Now_UTC,
     ans_mintID = or_else (ano_MintID opts) an_defaultIDGen\<rparr>"

definition ans_Create :: "'s an_Service \<Rightarrow> int list option \<Rightarrow> string \<Rightarrow> string \<Rightarrow> AnCreateRequest \<Rightarrow> 's \<Rightarrow>
    ((an_error, Annotation) result \<times> 's) option" where
  "ans_Create sv entropy tenant author req s =
    (case ValidateScope (ac_Scope req) of Some e \<Rightarrow> Some (Inl (ErrInvalidAnnotation e), s) | None \<Rightarrow>
    (case ValidateScopeID (ac_ScopeID req) of Some e \<Rightarrow> Some (Inl (ErrInvalidAnnotation e), s) | None \<Rightarrow>
    (case ValidateBody (ac_BodyMD req) of Some e \<Rightarrow> Some (Inl (ErrInvalidAnnotation e), s) | None \<Rightarrow>
       if is_zero_time (ac_At req) then Some (Inl (ErrInvalidAnnotation AtRequired), s)
       else (case ans_mintID sv entropy of
               None \<Rightarrow> None
             | Some minted \<Rightarrow>
                 Some (anm_Insert (ans_m sv) \<lparr>an_ID = minted, an_TenantID = tenant, an_Scope = ac_Scope req,
                   an_ScopeID = ac_ScopeID req, an_At = ac_At req, an_BodyMD = ac_BodyMD req, an_AuthorID = author,
                   an_CreatedAt = 0\<rparr> s)))))"

definition ans_Get :: "'s an_Service \<Rightarrow> string \<Rightarrow> string \<Rightarrow> 's \<Rightarrow> (an_error, Annotation) result" where
  "ans_Get sv tenant i s = anr_Get (ans_r sv) tenant i s"

definition ans_List :: "'s an_Service \<Rightarrow> string \<Rightarrow> ListFilter \<Rightarrow> 's \<Rightarrow> (an_error, Annotation list) result" where
  "ans_List sv tenant f s =
    (let f = (if lf_Limit f \<le> 0 then f\<lparr>lf_Limit := DefaultListLimit\<rparr> else f);
         f = (if MaxListLimit < lf_Limit f then f\<lparr>lf_Limit := MaxListLimit\<rparr> else f)
     in case (if lf_Scope f \<noteq> [] then ValidateScope (lf_Scope f) else None) of
          Some e \<Rightarrow> Inl (ErrInvalidAnnotation e)
        | None \<Rightarrow> anr_List (ans_r sv) tenant f s)"

definition ans_Delete :: "'s an_Service \<Rightarrow> string \<Rightarrow> string \<Rightarrow> 's \<Rightarrow> an_error option \<times> 's" where
  "ans_Delete sv tenant i s = anm_Delete (ans_m sv) tenant i s"

definition an_store_reader :: "bool \<Rightarrow> nat option \<Rightarrow> an_db an_Reader" where
  "an_store_reader flt broken = \<lparr>anr_Get = an_Get flt, anr_List = an_List flt broken\<rparr>"

definition an_store_mutator :: "bool \<Rightarrow> time \<Rightarrow> an_db an_Mutator" where
  "an_store_mutator flt dbnow = \<lparr>anm_Insert = an_Insert flt dbnow, anm_Delete = an_Delete flt\<rparr>"

section \<open>The services over the stores\<close>

text \<open>A request that is not valid is answered before an identifier is drawn; otherwise the methods are the
  operations of Workspaces and Annotations with what the generators draw.\<close>

abbreviation pg_workspaces :: "bool \<Rightarrow> nat option \<Rightarrow> time \<Rightarrow> ws_db ws_Service" where
  "pg_workspaces flt broken dbnow \<equiv> ws_NewService (ws_store_reader flt broken) (ws_store_mutator flt dbnow)
     \<lparr>wso_Now = None, wso_MintID = None, wso_MintSlug = None\<rparr>"

abbreviation pg_annotations :: "bool \<Rightarrow> nat option \<Rightarrow> time \<Rightarrow> an_db an_Service" where
  "pg_annotations flt broken dbnow \<equiv> an_NewService (an_store_reader flt broken) (an_store_mutator flt dbnow)
     \<lparr>ano_Now = None, ano_MintID = None\<rparr>"

lemmas service_defs = ws_NewService_def ws_store_reader_def ws_store_mutator_def an_NewService_def an_store_reader_def
  an_store_mutator_def or_else_def time_Now_UTC_def

lemma wss_Create_minted:
  assumes "wss_mintID sv entropy = Some i" "wss_m sv = ws_store_mutator flt dbnow"
  shows "wss_Create sv entropy tn owner req db = Some (ws_Create flt dbnow i tn owner req db)"
  using assms by (simp add: wss_Create_def ws_Create_def ws_store_mutator_def split: option.split)

lemma workspace_service:
  "ws_defaultIDGen entropy = Some i \<Longrightarrow>
     wss_Create (pg_workspaces flt broken dbnow) entropy tn owner req db = Some (ws_Create flt dbnow i tn owner req db)"
  "wss_Get (pg_workspaces flt broken dbnow) tn i db = ws_Get flt tn i db"
  "wss_List (pg_workspaces flt broken dbnow) tn db = ws_List flt broken tn db"
  "wss_Update (pg_workspaces flt broken dbnow) tn i ureq db = ws_Service_Update flt dbnow tn i ureq db"
  "wss_Delete (pg_workspaces flt broken dbnow) tn i db = ws_Delete flt tn i db"
  "wss_Share (pg_workspaces flt broken dbnow) now entropy tn i ttl db
     = ws_Share flt dbnow now (ws_defaultSlugGen entropy) tn i ttl db"
  "wss_Unshare (pg_workspaces flt broken dbnow) tn i db = ws_Unshare flt dbnow tn i db"
  "wss_Resolve (pg_workspaces flt broken dbnow) now slug db = ws_Resolve flt now slug db"
  by (rule wss_Create_minted)
    (simp_all add: service_defs wss_Get_def wss_List_def wss_Update_def ws_Service_Update_def wss_Delete_def wss_Share_def
      ws_Share_def wss_Unshare_def ws_Unshare_def wss_Resolve_def ws_Resolve_def Let_def split: option.split)

lemma ans_Create_minted:
  assumes "ans_mintID sv entropy = Some i" "ans_m sv = an_store_mutator flt dbnow"
  shows "ans_Create sv entropy tn author req db = Some (an_Create flt dbnow i tn author req db)"
  using assms by (simp add: ans_Create_def an_Create_def an_store_mutator_def split: option.split)

lemma annotation_service:
  "an_defaultIDGen entropy = Some i \<Longrightarrow>
     ans_Create (pg_annotations flt broken dbnow) entropy tn author req db = Some (an_Create flt dbnow i tn author req db)"
  "ans_Get (pg_annotations flt broken dbnow) tn i db = an_Get flt tn i db"
  "ans_List (pg_annotations flt broken dbnow) tn f db = an_Service_List flt broken tn f db"
  "ans_Delete (pg_annotations flt broken dbnow) tn i db = an_Delete flt tn i db"
  by (rule ans_Create_minted)
    (simp_all add: service_defs ans_Get_def ans_List_def an_Service_List_def ans_Delete_def Let_def split: option.split)

text \<open>A machine without random bytes panics on a valid request only.\<close>

definition valid_create :: "WsCreateRequest \<Rightarrow> bool" where
  "valid_create req = (ValidateName (wc_Name req) = None \<and> ValidateDescription (wc_Description req) = None
     \<and> ValidateViews (wc_Views req) = None)"

lemma create_panics:
  "wss_Create (pg_workspaces flt broken dbnow) None tn owner req db = None \<longleftrightarrow> valid_create req"
  "ans_Create (pg_annotations flt broken dbnow) None tn author areq adb = None \<longleftrightarrow> ac_valid areq"
  by (auto simp: wss_Create_def ans_Create_def service_defs valid_create_def ac_valid_def ws_defaultIDGen_def an_defaultIDGen_def
      ValidateScope_def ValidateScopeID_def ValidateBody_def is_zero_time_def split: option.split)

section \<open>What reaches a store\<close>

text \<open>A store promises to keep \<open>ok\<close> for records that are \<open>valid\<close>; then the service keeps it for
  every request, since it passes on no other record.\<close>

locale validated_store =
  fixes insert_into :: "'w \<Rightarrow> 's \<Rightarrow> ('e, 'w) result \<times> 's"
    and delete_from :: "string \<Rightarrow> string \<Rightarrow> 's \<Rightarrow> 'e option \<times> 's"
    and valid :: "'w \<Rightarrow> bool"
    and ok :: "'s \<Rightarrow> bool"
  assumes insert_ok: "ok s \<Longrightarrow> valid w \<Longrightarrow> ok (snd (insert_into w s))"
    and delete_ok: "ok s \<Longrightarrow> ok (snd (delete_from tn i s))"
begin

lemma inserted_ok: "insert_into w s = (res, s') \<Longrightarrow> ok s \<Longrightarrow> valid w \<Longrightarrow> ok s'"
  using insert_ok [of s w] by simp

end

definition ws_valid :: "Workspace \<Rightarrow> bool" where
  "ws_valid w = (ValidateName (wk_Name w) = None \<and> ValidateDescription (wk_Description w) = None
     \<and> ValidateViews (wk_Views w) = None)"

definition wu_valid :: "WsUpdateRequest \<Rightarrow> bool" where
  "wu_valid req = (opt_validate ValidateName (wu_Name req) = None
     \<and> opt_validate ValidateDescription (wu_Description req) = None \<and> opt_validate ValidateViews (wu_Views req) = None)"

definition an_valid :: "Annotation \<Rightarrow> bool" where
  "an_valid a = (ValidateScope (an_Scope a) = None \<and> ValidateScopeID (an_ScopeID a) = None
     \<and> ValidateBody (an_BodyMD a) = None \<and> \<not> is_zero_time (an_At a))"

locale workspace_store = validated_store "wsm_Insert m" "wsm_Delete m" ws_valid ok
  for m :: "'s ws_Mutator" and ok :: "'s \<Rightarrow> bool" +
  assumes update_ok: "ok s \<Longrightarrow> wu_valid req \<Longrightarrow> ok (snd (wsm_Update m tn i req s))"
    and share_ok: "ok s \<Longrightarrow> ok (snd (wsm_SetShare m tn i slug e s))"
begin

lemma service_keeps:
  assumes "wss_m sv = m" "ok s"
  shows "wss_Create sv entropy tn owner req s = Some (res, s') \<Longrightarrow> ok s'"
    and "ok (snd (wss_Update sv tn i ureq s))"
    and "ok (snd (wss_Delete sv tn i s))"
    and "ok (snd (wss_Share sv now entropy tn i ttl s))"
    and "ok (snd (wss_Unshare sv tn i s))"
proof -
  show "ok s'" if "wss_Create sv entropy tn owner req s = Some (res, s')"
    using that assms(2) by (auto simp: wss_Create_def ws_valid_def assms(1) elim!: inserted_ok split: option.splits)
  show "ok (snd (wss_Update sv tn i ureq s))"
    using assms update_ok [OF assms(2), of ureq] by (simp add: wss_Update_def wu_valid_def split: option.split)
qed (use assms delete_ok share_ok in \<open>simp_all add: wss_Delete_def wss_Share_def wss_Unshare_def split: option.split\<close>)

end

locale annotation_store = validated_store "anm_Insert m" "anm_Delete m" an_valid ok
  for m :: "'s an_Mutator" and ok :: "'s \<Rightarrow> bool"
begin

lemma service_keeps:
  assumes "ans_m sv = m" "ok s"
  shows "ans_Create sv entropy tn author req s = Some (res, s') \<Longrightarrow> ok s'" "ok (snd (ans_Delete sv tn i s))"
  using assms(2) by (auto simp: ans_Create_def ans_Delete_def an_valid_def delete_ok assms(1) elim!: inserted_ok split: option.splits if_splits)

end

section \<open>The tables\<close>

definition ws_rows_valid :: "ws_db \<Rightarrow> bool" where
  "ws_rows_valid db = list_all (\<lambda>r. ws_valid (ws_scanRow r)) db"

lemma ws_update_row_valid:
  assumes "ws_rows_valid db" "\<And>r. ws_valid (ws_scanRow r) \<Longrightarrow> ws_valid (ws_scanRow (g r))"
  shows "ws_rows_valid (snd (ws_update_row g tn i db))"
  using assms by (auto simp: ws_update_row_snd ws_rows_valid_def list_all_iff)

interpretation pg_ws: workspace_store "ws_store_mutator flt dbnow" ws_rows_valid for flt dbnow
proof
  fix db w tn i req slug e
  assume ok: "ws_rows_valid db"
  show "ws_valid w \<Longrightarrow> ws_rows_valid (snd (wsm_Insert (ws_store_mutator flt dbnow) w db))"
    using ok by (simp add: ws_store_mutator_def ws_Insert_def ws_rows_valid_def ws_valid_def ws_scanRow_def Let_def)
  show "ws_rows_valid (snd (wsm_Delete (ws_store_mutator flt dbnow) tn i db))"
    using ok by (auto simp: ws_store_mutator_def ws_Delete_def ws_rows_valid_def list_all_iff)
  show "wu_valid req \<Longrightarrow> ws_rows_valid (snd (wsm_Update (ws_store_mutator flt dbnow) tn i req db))"
    using ok by (auto simp: ws_store_mutator_def ws_Update_def wu_valid_def ws_valid_def ws_scanRow_def or_else_def
        opt_validate_def intro!: ws_update_row_valid split: option.splits)
  show "ws_rows_valid (snd (wsm_SetShare (ws_store_mutator flt dbnow) tn i slug e db))"
    using ok by (auto simp: ws_store_mutator_def ws_SetShare_def ws_valid_def ws_scanRow_def Let_def intro!: ws_update_row_valid)
qed

definition an_rows_valid :: "an_db \<Rightarrow> bool" where
  "an_rows_valid db = list_all an_valid db"

interpretation pg_an: annotation_store "an_store_mutator flt dbnow" an_rows_valid for flt dbnow
proof
  fix db a tn i
  assume ok: "an_rows_valid db"
  show "an_valid a \<Longrightarrow> an_rows_valid (snd (anm_Insert (an_store_mutator flt dbnow) a db))"
    using ok by (simp add: an_store_mutator_def an_Insert_def an_rows_valid_def an_valid_def Let_def)
  show "an_rows_valid (snd (anm_Delete (an_store_mutator flt dbnow) tn i db))"
    using ok by (auto simp: an_store_mutator_def an_Delete_def an_rows_valid_def list_all_iff)
qed

text \<open>Whatever the tenants do, each row that is ever in a table passes the validation of the service.\<close>

lemma ws_apply_valid:
  assumes "ws_rows_valid db"
  shows "ws_rows_valid (ws_apply tn oper db)"
proof (cases oper)
  case (WoCreate flt created minted owner req)
  let ?sv = "ws_NewService (ws_store_reader flt None) (ws_store_mutator flt created)
     \<lparr>wso_Now = None, wso_MintID = Some (\<lambda>_. Some minted), wso_MintSlug = None\<rparr>"
  have sv: "wss_m ?sv = ws_store_mutator flt created" "wss_mintID ?sv None = Some minted"
    by (simp_all add: ws_NewService_def or_else_def)
  obtain res db' where "ws_Create flt created minted tn owner req db = (res, db')" by (cases "ws_Create flt created minted tn owner req db")
  then show ?thesis
    using pg_ws.service_keeps(1) [OF sv(1) assms, of None tn owner req res db'] wss_Create_minted [OF sv(2,1)]
    by (simp add: WoCreate)
next
  case (WoUpdate flt now i req)
  then show ?thesis using pg_ws.service_keeps(2) [of "pg_workspaces flt None now", OF _ assms]
    by (simp add: workspace_service) (simp add: ws_NewService_def)
next
  case (WoDelete flt i)
  then show ?thesis using pg_ws.service_keeps(3) [of "pg_workspaces flt None 0", OF _ assms]
    by (simp add: workspace_service) (simp add: ws_NewService_def)
next
  case (WoShare flt dbnow now minted i ttl)
  show ?thesis
  proof -
    have "ws_rows_valid (snd (wsm_SetShare (ws_store_mutator flt dbnow) tn i slug e db))" for slug e
      by (rule pg_ws.share_ok [OF assms])
    then show ?thesis using assms by (simp add: WoShare ws_Share_def ws_store_mutator_def Let_def split: option.split)
  qed
next
  case (WoUnshare flt dbnow i)
  then show ?thesis using pg_ws.service_keeps(5) [of "pg_workspaces flt None dbnow", OF _ assms]
    by (simp add: workspace_service) (simp add: ws_NewService_def)
qed

lemma ws_run_valid: "ws_rows_valid (ws_run ops)"
proof -
  have "ws_rows_valid (fold (\<lambda>(tn, oper). ws_apply tn oper) ops db)" if "ws_rows_valid db" for db
    using that by (induction ops arbitrary: db) (auto simp: ws_apply_valid)
  then show ?thesis by (simp add: ws_run_def ws_rows_valid_def)
qed

end
