(* ===== verification/Integrity.thy ===== *)
theory Integrity
  imports Deployment CatalogServices
begin

text \<open>
  What the tables of PostgreSQL keep among each other.  The statements of the stores insert rows whose
  columns refer to rows of other tables (the \<open>REFERENCES\<close> of pkg/store/postgres/migrations); here it is
  shown that in a running deployment these references hold, and more: the owner of a workspace and the
  author of an annotation are users of the row's own tenant, and every objective and workspace passes the
  validation of its service for as long as it is in the table.
\<close>

section \<open>The invariant\<close>

definition tenants_of :: "control_plane \<Rightarrow> string set" where
  "tenants_of p = t_ID ` set (ad_tenants (cp_auth p))"

definition members_of :: "control_plane \<Rightarrow> (string \<times> string) set" where
  "members_of p = (\<lambda>r. (u_TenantID (ur_user r), u_ID (ur_user r))) ` set (ad_users (cp_auth p))"

definition auth_refs :: "auth_db \<Rightarrow> bool" where
  "auth_refs db =
    ((\<forall>r \<in> set (ad_users db). u_TenantID (ur_user r) \<in> t_ID ` set (ad_tenants db) \<and> Role_Valid (u_Role (ur_user r)))
     \<and> (\<forall>x \<in> set (ad_sessions db). find_user db (ses_UserID x) \<noteq> None))"

definition slo_refs :: "slo_db \<Rightarrow> bool" where
  "slo_refs db = (\<forall>r \<in> set (db_slo_state db). sr_slo_id r \<in> slo_ID ` set (db_slos db))"

definition tenant_rows :: "control_plane \<Rightarrow> string set" where
  "tenant_rows p = ts_TenantID ` set (cp_tests p) \<union> pp_TenantID ` set (cp_pops p) \<union> slo_TenantID ` set (db_slos (cp_slo p))
     \<union> vr_TenantID ` set (cp_verdicts p)"

definition member_rows :: "control_plane \<Rightarrow> (string \<times> string) set" where
  "member_rows p = (\<lambda>r. (wr_tenant_id r, wr_owner_user_id r)) ` set (cp_ws p) \<union> (\<lambda>a. (an_TenantID a, an_AuthorID a)) ` set (cp_an p)"

text \<open>Every objective in the catalog passes \<open>Validate\<close>, and what it stores is a float64 in the open unit
  interval.\<close>

definition slo_rows_valid :: "slo_db \<Rightarrow> bool" where
  "slo_rows_valid db = list_all (\<lambda>x. slo_Validate x = None \<and> objective_ok (slo_ObjectivePct x)) (db_slos db)"

definition keys_ok :: "control_plane \<Rightarrow> bool" where
  "keys_ok p = (cp_ok p \<and> auth_ok (cp_auth p) \<and> db_ok (cp_slo p) \<and> slo_rows_valid (cp_slo p)
     \<and> ws_rows_valid (cp_ws p))"

definition refs_ok :: "control_plane \<Rightarrow> bool" where
  "refs_ok p = (auth_refs (cp_auth p) \<and> slo_refs (cp_slo p) \<and> tenant_rows p \<subseteq> tenants_of p \<and> member_rows p \<subseteq> members_of p)"

lemma members_tenants: "auth_refs (cp_auth p) \<Longrightarrow> (tn, i) \<in> members_of p \<Longrightarrow> tn \<in> tenants_of p"
  by (auto simp: members_of_def tenants_of_def auth_refs_def)

section \<open>Objectives\<close>

lemma fl_objective: "f64_lt 0 (fl q) \<Longrightarrow> f64_lt (fl q) 1 \<Longrightarrow> objective_ok (fl q)"
proof -
  assume q: "f64_lt 0 (fl q)" "f64_lt (fl q) 1"
  then have "fl q = FFin (rnd q)" "\<bar>rnd q\<bar> < f64_overflow" by (auto simp: fl_def Let_def f64_ops split: if_splits)
  then show ?thesis using q rnd_rnd by (simp add: objective_ok_def f64_repr_def)
qed

lemma insert_row_valid:
  assumes "insert_row created x db = Inr row" "slo_Validate x = None"
  shows "slo_Validate row = None \<and> objective_ok (slo_ObjectivePct row)"
proof -
  obtain ob f sl where cols: "numeric_col 7 6 (slo_ObjectivePct x) = Some ob" "pg_positive ob" "f64_lt ob 1"
      "pg_positive f" "pg_positive sl" "0 < slo_WindowSeconds x"
    and row: "row = x\<lparr>slo_ObjectivePct := ob, slo_FastBurnThreshold := f, slo_SlowBurnThreshold := sl, slo_CreatedAt := created\<rparr>"
    using assms(1) by (auto simp: insert_row_def split: option.splits if_splits)
  have ob: "f64_lt 0 ob" using cols(2,3) by (auto simp: pg_positive_def f64_ops)
  obtain q where "ob = fl q" using cols(1) ob by (auto simp: numeric_col_def Let_def f64_ops split: f64.splits if_splits)
  then have "objective_ok ob" using fl_objective ob cols(3) by simp
  moreover have "\<not> f64_le y 0" if "pg_positive y" for y
    using that by (cases y) (auto simp: pg_positive_def f64_ops)
  moreover have "\<not> f64_le 1 ob" using cols(3) by (cases ob) (auto simp: f64_ops)
  ultimately show ?thesis using assms(2) cols by (auto simp: row slo_Validate_def split: if_splits)
qed

lemma slo_apply_valid: "slo_rows_valid db \<Longrightarrow> slo_rows_valid (slo_apply tn x db)"
proof (cases x)
  case (SoCreate flt created y)
  moreover assume "slo_rows_valid db"
  ultimately show ?thesis
    by (auto simp: CreateSLO_def slo_rows_valid_def dest: insert_row_valid split: option.split sum.split)
next
  case (SoDelete flt i)
  moreover assume "slo_rows_valid db"
  ultimately show ?thesis by (auto simp: DeleteSLO_def slo_rows_valid_def Let_def list_all_iff)
qed

lemma UpsertState_valid: "slo_rows_valid db \<Longrightarrow> slo_rows_valid (snd (UpsertState flt st db))"
  by (simp add: slo_rows_valid_def UpsertState_def split: option.split)

lemma demo_slo_valid: "slo_Validate ((demo_slo tn)\<lparr>slo_CreatedAt := c\<rparr>) = None"
  "objective_ok (slo_ObjectivePct ((demo_slo tn)\<lparr>slo_CreatedAt := c\<rparr>))"
proof -
  have "\<not> (f64_le (fl (199 / 200)) 0 \<or> f64_le 1 (fl (199 / 200)))" "\<not> (f64_le (fl (72 / 5)) 0 \<or> f64_le (fl 6) 0)"
    by code_simp+
  then show "slo_Validate ((demo_slo tn)\<lparr>slo_CreatedAt := c\<rparr>) = None" by (simp add: slo_Validate_def demo_slo_def)
  have "objective_ok (fl (199 / 200))" by code_simp
  then show "objective_ok (slo_ObjectivePct ((demo_slo tn)\<lparr>slo_CreatedAt := c\<rparr>))" by (simp add: demo_slo_def)
qed

section \<open>Sessions and users\<close>

lemma Repo_CreateSession_snd:
  "snd (Repo_CreateSession flt created x db) = db \<or>
   find_session db (ses_ID x) = None \<and> find_user db (ses_UserID x) \<noteq> None \<and>
   snd (Repo_CreateSession flt created x db) = db\<lparr>ad_sessions := ad_sessions db @ [x\<lparr>ses_CreatedAt := created\<rparr>]\<rparr>"
  by (auto simp: Repo_CreateSession_def)

lemma DeleteSession_snd:
  "\<exists>Q. snd (DeleteSession flt i db) = db\<lparr>ad_sessions := filter Q (ad_sessions db)\<rparr>"
  by (cases flt) (auto simp: DeleteSession_def intro: exI [of _ "\<lambda>_. True"])

lemma session_change_users:
  "session_change db db' \<Longrightarrow> ad_tenants db' = ad_tenants db \<and> ad_users db' = ad_users db"
  by (induction rule: session_change.induct) (auto simp: Repo_CreateSession_def DeleteSession_def)

lemma auth_ok_sessions: "auth_ok db \<Longrightarrow> auth_ok (db\<lparr>ad_sessions := filter Q (ad_sessions db)\<rparr>)"
  by (simp add: auth_ok_def distinct_map inj_on_def)

lemma session_change_ok:
  assumes "session_change db db'" "auth_ok db" "auth_refs db"
  shows "auth_ok db' \<and> auth_refs db'"
  using assms
proof (induction rule: session_change.induct)
  case (opened db flt created x)
  then show ?case
    using Repo_CreateSession_snd [of flt created x db]
    by (auto simp: auth_ok_def auth_refs_def find_session_None find_user_def)
next
  case (closed db flt i)
  then show ?case
    using DeleteSession_snd [of flt i db] auth_ok_sessions [of db]
    by (auto simp: auth_refs_def find_user_def)
qed simp

text \<open>The admin command adds a tenant, a user of a tenant that exists, both or nothing.\<close>

lemma EnsureTenant_snd:
  "snd (EnsureTenant flt created t db) = db \<or>
   snd (EnsureTenant flt created t db) = db\<lparr>ad_tenants := ad_tenants db @ [t\<lparr>t_CreatedAt := created\<rparr>]\<rparr>"
  by (simp add: EnsureTenant_def)

lemma Repo_CreateUser_snd:
  "snd (Repo_CreateUser flt created u h db) = db \<or>
   (\<exists>r. snd (Repo_CreateUser flt created u h db) = db\<lparr>ad_users := ad_users db @ [r]\<rparr>
      \<and> u_TenantID (ur_user r) \<in> t_ID ` set (ad_tenants db) \<and> Role_Valid (u_Role (ur_user r))
      \<and> u_ID (ur_user r) \<notin> (u_ID \<circ> ur_user) ` set (ad_users db) \<and> login_key r \<notin> login_key ` set (ad_users db))"
proof -
  define r where "r = \<lparr>ur_user = u\<lparr>u_Email := to_lower (u_Email u), u_CreatedAt := created\<rparr>, ur_password_hash = h\<rparr>"
  have "snd (Repo_CreateUser flt created u h db) = db \<or>
      snd (Repo_CreateUser flt created u h db) = db\<lparr>ad_users := ad_users db @ [r]\<rparr>
      \<and> u_TenantID (ur_user r) \<in> t_ID ` set (ad_tenants db) \<and> Role_Valid (u_Role (ur_user r))
      \<and> u_ID (ur_user r) \<notin> (u_ID \<circ> ur_user) ` set (ad_users db) \<and> login_key r \<notin> login_key ` set (ad_users db)"
    by (auto simp: Repo_CreateUser_def Let_def r_def list_ex_iff login_key_def citext_eq_def)
  then show ?thesis by blast
qed

definition grows :: "auth_db \<Rightarrow> auth_db \<Rightarrow> bool" where
  "grows db db' =
    ((auth_ok db \<longrightarrow> auth_ok db') \<and> (auth_refs db \<longrightarrow> auth_refs db') \<and> set (ad_tenants db) \<subseteq> set (ad_tenants db')
     \<and> set (ad_users db) \<subseteq> set (ad_users db'))"

lemma grows_refl [simp]: "grows db db"
  by (simp add: grows_def)

lemma grows_trans [trans]: "grows a b \<Longrightarrow> grows b c \<Longrightarrow> grows a c"
  by (auto simp: grows_def)

lemma grows_tenant: "grows db (snd (EnsureTenant flt created t db))"
  using EnsureTenant_snd [of flt created t db] by (auto simp: grows_def auth_ok_def auth_refs_def find_user_def)

lemma find_user_append: "find_user db i \<noteq> None \<Longrightarrow> find_user (db\<lparr>ad_users := ad_users db @ [r]\<rparr>) i \<noteq> None"
  by (auto simp: find_user_None)

lemma grows_user: "grows db (snd (Repo_CreateUser flt created u h db))"
proof -
  consider "snd (Repo_CreateUser flt created u h db) = db"
    | r where "snd (Repo_CreateUser flt created u h db) = db\<lparr>ad_users := ad_users db @ [r]\<rparr>"
      "u_TenantID (ur_user r) \<in> t_ID ` set (ad_tenants db)" "Role_Valid (u_Role (ur_user r))"
      "u_ID (ur_user r) \<notin> (u_ID \<circ> ur_user) ` set (ad_users db)" "login_key r \<notin> login_key ` set (ad_users db)"
    using Repo_CreateUser_snd [of flt created u h db] by blast
  then show ?thesis
  proof cases
    case 2
    then show ?thesis using find_user_append [of db _ r] by (auto simp: grows_def auth_ok_def auth_refs_def)
  qed simp
qed

lemma grows_CreateUser: "grows db (snd (CreateUser svc (Repo_Store flt created) entropy now inp db))"
  using CreateUser_state [of svc "Repo_Store flt created" entropy now inp db] grows_user [of db flt created]
  by (auto simp: repo_operations)

lemma seed_admin_grows: "grows db (snd (seed_admin svc opens migrated flt created entropy now cli f db))"
proof -
  define t where "t = \<lparr>t_ID = sf_tenantID f, t_Name = sf_tenantName f, t_CreatedAt = 0\<rparr>"
  define inp where "inp = \<lparr>ci_TenantID = sf_tenantID f, ci_Email = trim_space (sf_email f),
     ci_Password = (if sf_password f = [] then ce_password cli else sf_password f), ci_Role = RoleAdmin\<rparr>"
  define db1 where "db1 = snd (EnsureTenant flt created t db)"
  have "snd (seed_admin svc opens migrated flt created entropy now cli f db) \<in>
      {db, db1, snd (CreateUser svc (Repo_Store flt created) entropy now inp db1)}"
    by (auto simp: seed_admin_def Let_def db1_def t_def [symmetric] inp_def
        split: option.split prod.split sum.split)
  moreover have "grows db db1" unfolding db1_def by (rule grows_tenant)
  moreover note grows_CreateUser [of db1 svc flt created entropy now inp]
  ultimately show ?thesis using grows_trans by (elim insertE) auto
qed

lemma seedDemo_auth:
  "\<exists>ts. pg_auth (snd (seedDemo flt created tn s)) = (pg_auth s)\<lparr>ad_tenants := ad_tenants (pg_auth s) @ ts\<rparr>"
  by (auto simp: seedDemo_def seed_rows_eq insert_new_def split: option.split tx_fault.split intro: exI [of _ "[]"])

lemma seedDemo_grows: "grows (pg_auth s) (pg_auth (snd (seedDemo flt created tn s)))"
  using seedDemo_auth [of flt created tn s] by (auto simp: grows_def auth_ok_def auth_refs_def find_user_def image_Un)

text \<open>New rows that refer to what is there keep the references.\<close>

lemma grows_sets:
  assumes "grows (cp_auth p) (cp_auth p')"
  shows "tenants_of p \<subseteq> tenants_of p'" "members_of p \<subseteq> members_of p'"
  using assms unfolding grows_def tenants_of_def members_of_def by (blast intro: image_mono)+

lemma refs_grow:
  assumes "refs_ok p" "grows (cp_auth p) (cp_auth p')" "slo_refs (cp_slo p')"
    "tenant_rows p' \<subseteq> tenants_of p' \<union> tenant_rows p" "member_rows p' \<subseteq> members_of p' \<union> member_rows p"
  shows "refs_ok p'"
proof -
  have "auth_refs (cp_auth p')" using assms(1,2) by (simp add: refs_ok_def grows_def)
  moreover have "tenant_rows p' \<subseteq> tenants_of p'"
    using assms(1,4) grows_sets(1) [OF assms(2)] unfolding refs_ok_def by blast
  moreover have "member_rows p' \<subseteq> members_of p'"
    using assms(1,5) grows_sets(2) [OF assms(2)] unfolding refs_ok_def by blast
  ultimately show ?thesis using assms(3) by (simp add: refs_ok_def)
qed

section \<open>The catalogs under a request\<close>

lemma request_user_member:
  assumes "request_user env rq s = Some u"
  shows "(u_TenantID u, u_ID u) \<in> members_of s" "auth_refs (cp_auth s) \<Longrightarrow> Role_Valid (u_Role u)"
proof -
  obtain i where "Whoami (Repo_Store (env_auth_fault env) (env_dbclock env)) i (env_clock env 0) (cp_auth s) = Inr u"
    using assms by (auto simp: request_user_def Authenticate_def Let_def split: if_splits sum.splits)
  then obtain uid r where "find_user (cp_auth s) uid = Some r" "u = ur_user r"
    by (auto simp: Whoami_def repo_operations GetSession_def split: if_splits option.splits sum.splits)
  then show "(u_TenantID u, u_ID u) \<in> members_of s" "auth_refs (cp_auth s) \<Longrightarrow> Role_Valid (u_Role u)"
    using find_user_in by (force simp: members_of_def auth_refs_def)+
qed

lemma ws_SetShare_rows:
  "(\<lambda>r. (wr_tenant_id r, wr_owner_user_id r)) ` set (snd (ws_SetShare flt now tn i slug e db)) \<subseteq>
   (\<lambda>r. (wr_tenant_id r, wr_owner_user_id r)) ` set db"
  using ws_SetShare_snd [of flt now tn i slug e db] by (auto split: if_splits)

lemma ws_apply_rows:
  assumes "op_by u (CWs x)"
  shows "(\<lambda>r. (wr_tenant_id r, wr_owner_user_id r)) ` set (ws_apply (u_TenantID u) x db) \<subseteq>
    insert (u_TenantID u, u_ID u) ((\<lambda>r. (wr_tenant_id r, wr_owner_user_id r)) ` set db)"
proof (cases x)
  case (WoCreate flt created minted owner req)
  then show ?thesis using assms by (auto simp: ws_Create_def ws_Insert_def Let_def split: option.split)
next
  case (WoUpdate flt now i req)
  then show ?thesis using ws_Service_Update_snd [of flt now "u_TenantID u" i req db] by (auto split: if_splits)
next
  case (WoShare flt dbnow now minted i ttl)
  then show ?thesis
    by (simp add: ws_Share_def Let_def subset_insertI subset_insertI2 [OF ws_SetShare_rows] split: option.split)
next
  case (WoUnshare flt dbnow i)
  then show ?thesis by (simp add: ws_Unshare_def ws_SetShare_rows subset_insertI2)
qed (auto simp: ws_Delete_def)

lemma an_apply_rows:
  assumes "op_by u (CAn x)"
  shows "(\<lambda>a. (an_TenantID a, an_AuthorID a)) ` set (an_apply (u_TenantID u) x db) \<subseteq>
    insert (u_TenantID u, u_ID u) ((\<lambda>a. (an_TenantID a, an_AuthorID a)) ` set db)"
  using assms by (cases rule: an_apply_cases [of "u_TenantID u" x db]) (auto simp: stored_def)

lemma ts_apply_rows: "ts_TenantID ` set (ts_apply u x db) \<subseteq> insert (u_TenantID u) (ts_TenantID ` set db)"
  by (cases rule: ts_apply_cases [of u x db]) auto

lemma pp_apply_rows: "pp_TenantID ` set (pp_apply u x db) \<subseteq> insert (u_TenantID u) (pp_TenantID ` set db)"
  by (cases rule: pp_apply_cases [of u x db]) auto

lemma slo_apply_rows: "slo_TenantID ` set (db_slos (slo_apply tn x db)) \<subseteq> insert tn (slo_TenantID ` set (db_slos db))"
  by (cases rule: slo_apply_cases [of tn x db]) auto

lemma slo_apply_refs:
  assumes "slo_refs db" "slo_ids_ok db"
  shows "slo_refs (slo_apply tn x db)"
proof (cases rule: slo_apply_cases [of tn x db])
  case (drop i)
  then show ?thesis using assms by (fastforce simp: slo_refs_def slo_hit_def)
qed (use assms in \<open>auto simp: slo_refs_def\<close>)

lemma slo_apply_db_ok: "db_ok db \<Longrightarrow> db_ok (slo_apply tn x db)"
  by (cases rule: slo_apply_cases [of tn x db]) (auto simp: db_ok_def distinct_map inj_on_def)

lemma cp_apply_tenant_rows: "tenant_rows (cp_apply u x p) \<subseteq> insert (u_TenantID u) (tenant_rows p)"
proof (cases x)
  case (CTest o')
  then show ?thesis using ts_apply_rows [of u o' "cp_tests p"] by (simp add: tenant_rows_def) blast
next
  case (CPop o')
  then show ?thesis using pp_apply_rows [of u o' "cp_pops p"] by (simp add: tenant_rows_def) blast
next
  case (CSlo o')
  then show ?thesis using slo_apply_rows [of "u_TenantID u" o' "cp_slo p"] by (simp add: tenant_rows_def) blast
qed (auto simp: tenant_rows_def)

lemma cp_apply_member_rows:
  assumes "op_by u x"
  shows "member_rows (cp_apply u x p) \<subseteq> insert (u_TenantID u, u_ID u) (member_rows p)"
proof (cases x)
  case (CWs o')
  then show ?thesis using ws_apply_rows [of u o' "cp_ws p"] assms by (simp add: member_rows_def) blast
next
  case (CAn o')
  then show ?thesis using an_apply_rows [of u o' "cp_an p"] assms by (simp add: member_rows_def) blast
qed (auto simp: member_rows_def)

lemma cp_apply_auth [simp]: "cp_auth (cp_apply u x p) = cp_auth p"
  by (cases x) simp_all

lemma cp_apply_valid:
  "ws_rows_valid (cp_ws p) \<Longrightarrow> ws_rows_valid (cp_ws (cp_apply u x p))"
  "slo_rows_valid (cp_slo p) \<Longrightarrow> slo_rows_valid (cp_slo (cp_apply u x p))"
  by (cases x; simp add: ws_apply_valid slo_apply_valid)+

lemma cp_apply_slo:
  assumes "db_ok (cp_slo p)" "slo_refs (cp_slo p)" "slo_ids_ok (cp_slo p)"
  shows "db_ok (cp_slo (cp_apply u x p)) \<and> slo_refs (cp_slo (cp_apply u x p))"
  using assms by (cases x) (simp_all add: slo_apply_db_ok slo_apply_refs)

text \<open>A request that was admitted as a user who is in the table keeps everything, whenever it is handled.\<close>

lemma complete_integrity:
  assumes "keys_ok p" "refs_ok p" "out = admit env rq s0"
    "\<And>u. served_user out = Some u \<Longrightarrow> (u_TenantID u, u_ID u) \<in> members_of p"
  shows "keys_ok (snd (complete env rq out p)) \<and> refs_ok (snd (complete env rq out p))"
proof (rule complete_cases [OF assms(3), of p], goal_cases same session act)
  case (session db)
  then show ?thesis
    using session_change_ok [OF session(2)] session_change_users [OF session(2)] assms
    by (simp add: keys_ok_def refs_ok_def cp_ok_def tenant_rows_def member_rows_def tenants_of_def members_of_def)
next
  case (act u x)
  have u: "(u_TenantID u, u_ID u) \<in> members_of p" by (rule assms(4) [OF act(1)])
  then have t: "u_TenantID u \<in> tenants_of p" using members_tenants assms(2) by (auto simp: refs_ok_def)
  have same: "tenants_of (cp_apply u x p) = tenants_of p" "members_of (cp_apply u x p) = members_of p"
    by (simp_all add: tenants_of_def members_of_def)
  have k: "cp_ok p" "slo_ids_ok (cp_slo p)" "db_ok (cp_slo p)" "auth_ok (cp_auth p)" "slo_refs (cp_slo p)" "ws_rows_valid (cp_ws p)"
    "slo_rows_valid (cp_slo p)"
    using assms by (simp_all add: keys_ok_def cp_ok_def refs_ok_def)
  note slo = cp_apply_slo [OF k(3,5,2), of u x]
  have "refs_ok (cp_apply u x p)"
  proof (rule refs_grow [OF assms(2)])
    show "tenant_rows (cp_apply u x p) \<subseteq> tenants_of (cp_apply u x p) \<union> tenant_rows p"
      unfolding same using cp_apply_tenant_rows t by fast
    show "member_rows (cp_apply u x p) \<subseteq> members_of (cp_apply u x p) \<union> member_rows p"
      unfolding same using cp_apply_member_rows [OF act(3)] u by fast
  qed (use slo in simp_all)
  then show ?thesis using k cp_apply_ok [of p u x] cp_apply_valid [of p u x] slo by (simp add: act(2) keys_ok_def)
qed (use assms(1,2) in simp)

section \<open>The demo rows\<close>

lemma foldl_insert_new_ok:
  assumes "distinct (map key rows)" "list_all Q rows" "list_all Q rs"
  shows "distinct (map key (foldl (insert_new key) rows rs)) \<and> list_all Q (foldl (insert_new key) rows rs)"
  using assms by (induction rs arbitrary: rows) (simp_all add: insert_new_def)

lemma demo_rows_valid:
  "list_all (\<lambda>p. has_prefix (pp_ID p) ''pop-'' \<and> trim_space (pp_Name p) \<noteq> []) (map (demo_pop_row c tn) demo_pops)"
  "list_all (\<lambda>t. validKind (ts_Kind t) \<and> trim_space (ts_Target t) \<noteq> [] \<and> 0 < ts_IntervalMS t \<and> 0 < ts_TimeoutMS t)
     (map (demo_test_row c tn) demo_tests)"
  by code_simp+

lemma seeded_pops_ok: "pp_ok rows \<Longrightarrow> pp_ok (foldl (insert_new pp_ID) rows (map (demo_pop_row c tn) demo_pops))"
  unfolding pp_ok_def by (rule foldl_insert_new_ok [OF _ _ demo_rows_valid(1)]) simp_all

lemma seeded_tests_ok: "ts_ok rows \<Longrightarrow> ts_ok (foldl (insert_new ts_ID) rows (map (demo_test_row c tn) demo_tests))"
  unfolding ts_ok_def by (rule foldl_insert_new_ok [OF _ _ demo_rows_valid(2)]) simp_all

lemma seedDemo_cases:
  obtains (same) "snd (seedDemo flt created tn s) = s"
  | (seeded) "seed_rows created tn s = Inr (snd (seedDemo flt created tn s))"
proof (cases "\<exists>what. flt = Some (TxFails what)")
  case True
  then show thesis using same by (auto simp: seedDemo_def)
next
  case False
  then have "seed_rows created tn s = Inr (snd (seedDemo flt created tn s))"
    by (cases flt) (auto simp: seedDemo_def seed_rows_eq split: tx_fault.split)
  then show thesis by (rule seeded)
qed

lemma seeded_slo_valid:
  assumes "seed_rows created tn s = Inr s'" "slo_rows_valid (pg_slo s)"
  shows "slo_rows_valid (pg_slo s')"
  using assms demo_slo_valid [of created tn] by (auto simp: seed_rows_eq slo_rows_valid_def)

lemma seeded_fields:
  assumes "seed_rows created tn s = Inr s'"
  shows "pg_pops s' = foldl (insert_new pp_ID) (pg_pops s) (map (demo_pop_row created tn) demo_pops)"
    "pg_tests s' = foldl (insert_new ts_ID) (pg_tests s) (map (demo_test_row created tn) demo_tests)"
    "tn \<in> t_ID ` set (ad_tenants (pg_auth s'))"
    "pg_slo s' = pg_slo s \<or> (\<exists>x. pg_slo s' = (pg_slo s)\<lparr>db_slos := db_slos (pg_slo s) @ [x]\<rparr>
       \<and> slo_ID x \<notin> slo_ID ` set (db_slos (pg_slo s)) \<and> slo_TenantID x = tn)"
proof -
  let ?x = "(demo_slo tn)\<lparr>slo_CreatedAt := created\<rparr>"
  have x: "slo_ID ?x = ''slo-cf-1111-availability''" "slo_TenantID ?x = tn" by (simp_all add: demo_slo_def)
  show "pg_pops s' = foldl (insert_new pp_ID) (pg_pops s) (map (demo_pop_row created tn) demo_pops)"
    "pg_tests s' = foldl (insert_new ts_ID) (pg_tests s) (map (demo_test_row created tn) demo_tests)"
    "tn \<in> t_ID ` set (ad_tenants (pg_auth s'))"
    using assms by (auto simp: seed_rows_eq insert_new_def)
  have "pg_slo s' = (if slo_ID ?x \<in> slo_ID ` set (db_slos (pg_slo s)) then pg_slo s
      else (pg_slo s)\<lparr>db_slos := db_slos (pg_slo s) @ [?x]\<rparr>)"
    using assms by (auto simp: seed_rows_eq x(1))
  then show "pg_slo s' = pg_slo s \<or> (\<exists>x. pg_slo s' = (pg_slo s)\<lparr>db_slos := db_slos (pg_slo s) @ [x]\<rparr>
       \<and> slo_ID x \<notin> slo_ID ` set (db_slos (pg_slo s)) \<and> slo_TenantID x = tn)"
    using x(2) by (metis (full_types))
qed

lemma seed_demo_keys:
  assumes "keys_ok p"
  shows "keys_ok (with_tables (snd (seedDemo flt created tn (seed_tables p))) p)"
proof (cases rule: seedDemo_cases [of flt created tn "seed_tables p"])
  case seeded
  define s' where "s' = snd (seedDemo flt created tn (seed_tables p))"
  have f: "pg_pops s' = foldl (insert_new pp_ID) (cp_pops p) (map (demo_pop_row created tn) demo_pops)"
    "pg_tests s' = foldl (insert_new ts_ID) (cp_tests p) (map (demo_test_row created tn) demo_tests)"
    "pg_slo s' = cp_slo p \<or> (\<exists>x. pg_slo s' = (cp_slo p)\<lparr>db_slos := db_slos (cp_slo p) @ [x]\<rparr>
       \<and> slo_ID x \<notin> slo_ID ` set (db_slos (cp_slo p)) \<and> slo_TenantID x = tn)"
    using seeded_fields [OF seeded] unfolding s'_def seed_tables_def pg_db.select_convs by blast+
  have "db_ok (pg_slo s') \<and> slo_ids_ok (pg_slo s')"
    using f(3) assms by (auto simp: keys_ok_def cp_ok_def db_ok_def slo_ids_ok_def)
  moreover have "auth_ok (pg_auth s')"
    using assms seedDemo_grows [of "seed_tables p" flt created tn]
    by (simp add: keys_ok_def grows_def seed_tables_def s'_def)
  moreover have "slo_rows_valid (pg_slo s')"
    using seeded_slo_valid [OF seeded] assms by (simp add: keys_ok_def seed_tables_def s'_def)
  ultimately show ?thesis
    using assms seeded_pops_ok seeded_tests_ok f(1,2)
    by (simp add: keys_ok_def cp_ok_def with_tables_def s'_def [symmetric])
qed (use assms in \<open>simp add: with_tables_def seed_tables_def\<close>)

lemma seed_demo_refs:
  assumes "refs_ok p"
  shows "refs_ok (with_tables (snd (seedDemo flt created tn (seed_tables p))) p)"
proof (cases rule: seedDemo_cases [of flt created tn "seed_tables p"])
  case seeded
  define s' where "s' = snd (seedDemo flt created tn (seed_tables p))"
  have g: "grows (cp_auth p) (pg_auth s')"
    using seedDemo_grows [of "seed_tables p" flt created tn] by (simp add: seed_tables_def s'_def)
  have f: "pg_pops s' = foldl (insert_new pp_ID) (cp_pops p) (map (demo_pop_row created tn) demo_pops)"
    "pg_tests s' = foldl (insert_new ts_ID) (cp_tests p) (map (demo_test_row created tn) demo_tests)"
    "tn \<in> t_ID ` set (ad_tenants (pg_auth s'))"
    "pg_slo s' = cp_slo p \<or> (\<exists>x. pg_slo s' = (cp_slo p)\<lparr>db_slos := db_slos (cp_slo p) @ [x]\<rparr>
       \<and> slo_ID x \<notin> slo_ID ` set (db_slos (cp_slo p)) \<and> slo_TenantID x = tn)"
    using seeded_fields [OF seeded] unfolding s'_def seed_tables_def pg_db.select_convs by blast+
  have "pp_TenantID ` set (pg_pops s') \<subseteq> insert tn (pp_TenantID ` set (cp_pops p))"
    using f(1) seeded_rows(1) [of "cp_pops p" created tn] by auto
  moreover have "ts_TenantID ` set (pg_tests s') \<subseteq> insert tn (ts_TenantID ` set (cp_tests p))"
    using f(2) seeded_rows(2) [of "cp_tests p" created tn] by auto
  moreover have "slo_TenantID ` set (db_slos (pg_slo s')) \<subseteq> insert tn (slo_TenantID ` set (db_slos (cp_slo p)))"
    using f(4) by auto
  ultimately have "tenant_rows (with_tables s' p) \<subseteq> insert tn (tenant_rows p)"
    by (simp add: tenant_rows_def with_tables_def) blast
  moreover have "slo_refs (pg_slo s')" using f(4) assms by (auto simp: refs_ok_def slo_refs_def)
  ultimately show ?thesis
    unfolding s'_def [symmetric]
    by (intro refs_grow [OF assms])
      (use g f(3) in \<open>auto simp: with_tables_def tenants_of_def members_of_def member_rows_def\<close>)
qed (use assms in \<open>simp add: with_tables_def seed_tables_def\<close>)

section \<open>The evaluators\<close>

lemma UpsertState_refs: "slo_refs db \<Longrightarrow> slo_refs (snd (UpsertState flt st db))"
  by (auto simp: slo_refs_def UpsertState_def upsert_row_def excluded_row_def split: option.splits if_splits)

lemma UpsertVerdict_rows:
  "vr_TenantID ` set (snd (UpsertVerdict flt row db)) \<subseteq> insert (vr_TenantID row) (vr_TenantID ` set db)"
  by (auto simp: UpsertVerdict_def Let_def)

lemma anomaly_EvaluateOne_rows:
  "vr_TenantID ` set (snd (snd (anomaly_EvaluateOne cfg env t m db))) \<subseteq> insert (rf_TenantID t) (vr_TenantID ` set db)"
proof (cases "verdict_row cfg env t m")
  case (Inr row)
  then have "snd (snd (anomaly_EvaluateOne cfg env t m db)) = snd (UpsertVerdict (te_putFault env t m) row db)"
    by (simp add: EvaluateOne_row recordTransition_def Let_def split: prod.split option.split)
  then show ?thesis using UpsertVerdict_rows [of "te_putFault env t m" row db] verdict_row_key [OF Inr] by simp
qed (auto simp: EvaluateOne_row)

lemma listed_tenants:
  assumes "ListEnabledTests flt tests = Inr refs" "(t, m) \<in> set (tick_pairs cfg refs)"
  shows "rf_TenantID t \<in> ts_TenantID ` set tests"
  using assms by (auto simp: ListEnabledTests_def tick_pairs_def split: if_splits)

section \<open>The deployment\<close>

text \<open>What the steps in progress rely on: a listed test belongs to a tenant, and a request in flight was admitted in some
  earlier state, as a user who is still there.\<close>

definition work_ok :: "deployment \<Rightarrow> bool" where
  "work_ok s =
    ((\<forall>(t, m) \<in> set (dp_anomaly_work s). rf_TenantID t \<in> tenants_of (dp_plane s))
     \<and> (\<forall>(env, rq, out) \<in> set (dp_inflight s). (\<exists>s0. out = admit env rq s0)
          \<and> (\<forall>u. served_user out = Some u \<longrightarrow> (u_TenantID u, u_ID u) \<in> members_of (dp_plane s))))"

definition dep_ok :: "deployment \<Rightarrow> bool" where
  "dep_ok s = (keys_ok (dp_plane s) \<and> refs_ok (dp_plane s) \<and> work_ok s)"

lemma work_ok_mono:
  assumes "work_ok s" "tenants_of (dp_plane s) \<subseteq> tenants_of (dp_plane s')" "members_of (dp_plane s) \<subseteq> members_of (dp_plane s')"
    "set (dp_anomaly_work s') \<subseteq> set (dp_anomaly_work s)" "set (dp_inflight s') \<subseteq> set (dp_inflight s)"
  shows "work_ok s'"
  using assms unfolding work_ok_def by fast

lemma complete_users:
  assumes "out = admit env rq s0"
  shows "ad_tenants (cp_auth (snd (complete env rq out p))) = ad_tenants (cp_auth p)
    \<and> ad_users (cp_auth (snd (complete env rq out p))) = ad_users (cp_auth p)"
  by (rule complete_cases [OF assms, of p]) (auto dest: session_change_users)

lemma in_flight:
  assumes "dep_ok s" "n < length (dp_inflight s)" "dp_inflight s ! n = (env, rq, out)"
  obtains s0 where "out = admit env rq s0" "\<And>u. served_user out = Some u \<Longrightarrow> (u_TenantID u, u_ID u) \<in> members_of (dp_plane s)"
  using assms nth_mem [OF assms(2)] unfolding dep_ok_def work_ok_def by fastforce

lemma slo_step_ok:
  assumes "keys_ok p" "refs_ok p" "db_ok db" "slo_refs db" "slo_rows_valid db" "db_slos db = db_slos (cp_slo p)"
  shows "keys_ok (p\<lparr>cp_slo := db\<rparr>) \<and> refs_ok (p\<lparr>cp_slo := db\<rparr>)"
  using assms
  by (simp add: keys_ok_def refs_ok_def cp_ok_def slo_ids_ok_def tenant_rows_def member_rows_def tenants_of_def members_of_def)

lemma verdict_step_ok:
  assumes "keys_ok p" "refs_ok p" "vr_TenantID ` set db \<subseteq> insert tn (vr_TenantID ` set (cp_verdicts p))" "tn \<in> tenants_of p"
  shows "keys_ok (p\<lparr>cp_verdicts := db\<rparr>) \<and> refs_ok (p\<lparr>cp_verdicts := db\<rparr>)"
proof -
  have "tenants_of (p\<lparr>cp_verdicts := db\<rparr>) = tenants_of p" by (simp add: tenants_of_def)
  moreover have "tenant_rows (p\<lparr>cp_verdicts := db\<rparr>) \<subseteq> insert tn (tenant_rows p)"
    using assms(3) by (auto simp: tenant_rows_def)
  ultimately have "refs_ok (p\<lparr>cp_verdicts := db\<rparr>)"
    using assms(2,4) by (intro refs_grow [OF assms(2)]) (auto simp: refs_ok_def member_rows_def)
  then show ?thesis using assms(1) by (simp add: keys_ok_def cp_ok_def)
qed

lemma seed_admin_ok:
  assumes "keys_ok p" "refs_ok p" "grows (cp_auth p) db"
  shows "keys_ok (p\<lparr>cp_auth := db\<rparr>) \<and> refs_ok (p\<lparr>cp_auth := db\<rparr>) \<and> tenants_of p \<subseteq> tenants_of (p\<lparr>cp_auth := db\<rparr>)"
proof -
  have "refs_ok (p\<lparr>cp_auth := db\<rparr>)"
    using assms(2,3) by (intro refs_grow [OF assms(2)]) (auto simp: refs_ok_def tenant_rows_def member_rows_def)
  then show ?thesis using assms grows_sets(1) [of p "p\<lparr>cp_auth := db\<rparr>"] by (simp add: keys_ok_def cp_ok_def grows_def)
qed

lemma dep_step_users:
  assumes "dep_ok s"
  shows "tenants_of (dp_plane s) \<subseteq> tenants_of (dp_plane (dep_step w e s))
    \<and> members_of (dp_plane s) \<subseteq> members_of (dp_plane (dep_step w e s))"
proof (cases e)
  case (Handle n)
  show ?thesis
  proof (cases "length (dp_inflight s) \<le> n")
    case False
    obtain env rq out where x: "dp_inflight s ! n = (env, rq, out)" by (cases "dp_inflight s ! n")
    obtain s0 where "out = admit env rq s0" using in_flight [OF assms _ x] False by auto
    from complete_users [OF this] show ?thesis using False by (simp add: Handle x tenants_of_def members_of_def)
  qed (simp add: Handle)
next
  case (SeedAdmin svc opens migrated flt created entropy now cli flags)
  then show ?thesis
    using grows_sets [of "dp_plane s" "dp_plane (dep_step w e s)"]
      seed_admin_grows [of "cp_auth (dp_plane s)" svc opens migrated flt created entropy now cli flags] by simp
next
  case (SeedDemo flt created tn)
  then show ?thesis
    using grows_sets [of "dp_plane s" "dp_plane (dep_step w e s)"] seedDemo_grows [of "seed_tables (dp_plane s)" flt created tn]
    by (simp add: with_tables_def seed_tables_def)
qed (auto simp: tenants_of_def members_of_def split: prod.split option.split sum.split list.split)

lemma dep_step_tables:
  assumes "dep_ok s"
  shows "keys_ok (dp_plane (dep_step w e s)) \<and> refs_ok (dp_plane (dep_step w e s))"
proof -
  have ok: "keys_ok (dp_plane s)" "refs_ok (dp_plane s)" "work_ok s" using assms by (simp_all add: dep_ok_def)
  show ?thesis
  proof (cases e)
    case (Handle n)
    show ?thesis
    proof (cases "length (dp_inflight s) \<le> n")
      case False
      obtain env rq out where x: "dp_inflight s ! n = (env, rq, out)" by (cases "dp_inflight s ! n")
      obtain s0 where "out = admit env rq s0" "\<And>u. served_user out = Some u \<Longrightarrow> (u_TenantID u, u_ID u) \<in> members_of (dp_plane s)"
        using in_flight [OF assms _ x] False by auto
      from complete_integrity [OF ok(1,2) this] show ?thesis using False by (simp add: Handle x)
    qed (use ok in \<open>simp add: Handle\<close>)
  next
    case (SloWrite putFault)
    show ?thesis
    proof (cases "dp_slo_pending s")
      case (Some st)
      then show ?thesis
        using ok slo_step_ok [OF ok(1,2), of "snd (UpsertState putFault st (cp_slo (dp_plane s)))"]
        by (simp add: SloWrite keys_ok_def refs_ok_def db_ok_UpsertState UpsertState_refs UpsertState_valid)
    qed (use ok in \<open>simp add: SloWrite\<close>)
  next
    case (AnomalyNext env)
    show ?thesis
    proof (cases "dp_anomaly_work s")
      case (Cons tm ps)
      obtain t m where tm: "tm = (t, m)" by (cases tm)
      have "rf_TenantID t \<in> tenants_of (dp_plane s)" using ok(3) by (simp add: work_ok_def Cons tm)
      from verdict_step_ok [OF ok(1,2) anomaly_EvaluateOne_rows this] show ?thesis by (simp add: AnomalyNext Cons tm)
    qed (use ok in \<open>simp add: AnomalyNext\<close>)
  next
    case (SeedAdmin svc opens migrated flt created entropy now cli flags)
    show ?thesis
      using seed_admin_ok [OF ok(1,2) seed_admin_grows [of "cp_auth (dp_plane s)" svc opens migrated flt created entropy now cli flags]]
      by (simp add: SeedAdmin)
  next
    case (SeedDemo flt created tn)
    then show ?thesis using ok seed_demo_keys seed_demo_refs by simp
  qed (use ok in \<open>auto simp: keys_ok_def refs_ok_def cp_ok_def tenant_rows_def member_rows_def tenants_of_def members_of_def
      split: prod.split option.split sum.split list.split\<close>)
qed

lemma dep_step_shrinks:
  assumes "\<And>env rq. e \<noteq> Arrive env rq" "\<And>flt. e \<noteq> AnomalyTick flt"
  shows "set (dp_anomaly_work (dep_step w e s)) \<subseteq> set (dp_anomaly_work s) \<and> set (dp_inflight (dep_step w e s)) \<subseteq> set (dp_inflight s)"
  using assms
  by (cases e) (auto simp: Let_def split: prod.split option.split sum.split list.split dest: in_set_takeD in_set_dropD)

lemma dep_step_work:
  assumes "dep_ok s"
  shows "work_ok (dep_step w e s)"
proof -
  have ok: "refs_ok (dp_plane s)" "work_ok s" using assms by (simp_all add: dep_ok_def)
  consider (arrive) env rq where "e = Arrive env rq" | (tick) flt where "e = AnomalyTick flt"
    | (other) "\<And>env rq. e \<noteq> Arrive env rq" "\<And>flt. e \<noteq> AnomalyTick flt" by blast
  then show ?thesis
  proof cases
    case (arrive env rq)
    have "\<And>u. served_user (admit env rq (dp_plane s)) = Some u \<Longrightarrow> (u_TenantID u, u_ID u) \<in> members_of (dp_plane s)"
      using served_user_admit request_user_member(1) by blast
    then show ?thesis using ok(2) by (auto simp: arrive work_ok_def)
  next
    case (tick flt)
    show ?thesis
    proof (cases "dp_anomaly_work s = [] \<and> \<not> flt")
      case True
      then obtain refs where "ListEnabledTests flt (cp_tests (dp_plane s)) = Inr refs" by (simp add: ListEnabledTests_def)
      then show ?thesis using True ok listed_tenants [of flt "cp_tests (dp_plane s)" refs]
        by (fastforce simp: tick work_ok_def refs_ok_def tenant_rows_def)
    next
      case False
      then show ?thesis using ok by (auto simp: tick ListEnabledTests_def)
    qed
  next
    case other
    then show ?thesis using work_ok_mono [OF ok(2)] dep_step_users [OF assms] dep_step_shrinks by blast
  qed
qed

lemma dep_step_ok: "dep_ok s \<Longrightarrow> dep_ok (dep_step w e s)"
  using dep_step_tables [of s w e] dep_step_work [of s w e] by (simp add: dep_ok_def)

lemma fresh_ok: "dep_ok (fresh b)"
  by (simp add: dep_ok_def work_ok_def fresh_def empty_plane_def keys_ok_def refs_ok_def cp_ok_def ts_ok_def pp_ok_def slo_ids_ok_def
      ws_ok_def ws_rows_valid_def slo_rows_valid_def an_ok_def auth_ok_def db_ok_def auth_refs_def slo_refs_def tenant_rows_def member_rows_def)

lemma deployment_ok: "dep_ok (dep_run w evs (fresh b))"
  by (rule dep_run_invariant [of dep_ok]) (simp_all add: dep_step_ok fresh_ok)

text \<open>C2 (type).  The tables stay consistent, whatever requests, ticks, deliveries, seeds and restarts
  interleave and whatever fails: keys are unique, tests, POPs, objectives, annotations and workspaces pass the validation of
  their requests (an objective is a float64 strictly between 0 and 1), every session belongs to a user with a valid role, every
  user and every row of a catalog to a tenant, every evaluation state to an objective, and a workspace's owner and
  an annotation's author are users of the same tenant as the row.\<close>

theorem deployment_integrity:
  "let p = dp_plane (dep_run w evs (fresh b)); db = cp_auth p
   in cp_ok p \<and> auth_ok db \<and> db_ok (cp_slo p) \<and> slo_rows_valid (cp_slo p) \<and> ws_rows_valid (cp_ws p)
    \<and> ses_UserID ` set (ad_sessions db) \<subseteq> (u_ID \<circ> ur_user) ` set (ad_users db)
    \<and> (u_Role \<circ> ur_user) ` set (ad_users db) \<subseteq> Collect Role_Valid
    \<and> (u_TenantID \<circ> ur_user) ` set (ad_users db) \<union> tenant_rows p \<subseteq> t_ID ` set (ad_tenants db)
    \<and> member_rows p \<subseteq> (\<lambda>r. (u_TenantID (ur_user r), u_ID (ur_user r))) ` set (ad_users db)
    \<and> sr_slo_id ` set (db_slo_state (cp_slo p)) \<subseteq> slo_ID ` set (db_slos (cp_slo p))"
  using deployment_ok [of w evs b]
  by (auto simp: Let_def dep_ok_def keys_ok_def refs_ok_def auth_refs_def slo_refs_def members_of_def tenants_of_def find_user_None)

end
