(* ===== verification/EndToEnd.thy ===== *)
theory EndToEnd
  imports Integrity
begin

text \<open>
  What a deployment does from one end to the other: the results that agents publish come back at the
  endpoint of the API.
\<close>

section \<open>Results at the endpoint\<close>

lemma result_row_inject: "result_row r = result_row q \<longleftrightarrow> r = q"
  by (cases r; cases q) (auto simp: result_row_def insert_columns_def insert_args_def)

lemma table_of_results:
  assumes "\<forall>row \<in> set table. \<exists>r \<in> S. row = result_row r"
  shows "\<exists>rs. table = map result_row rs \<and> set rs \<subseteq> S"
  using assms
proof (induction table)
  case (Cons row table)
  then obtain r rs where "row = result_row r" "r \<in> S" "table = map result_row rs" "set rs \<subseteq> S" by auto
  then show ?case by (intro exI [of _ "r # rs"]) simp
qed simp

lemma results_route:
  assumes "i \<noteq> []"
  shows "find (route_match ''GET'' [''v1'', ''tests'', i, ''results'']) routes =
    Some (route ''GET'' [Lit ''v1'', Lit ''tests'', Wild, Lit ''results''] (Some ''tests:read'') HListTestResults)"
  by (rule find_route) (simp_all add: routes_def route_match_def method_match_def path_match_def route_def assms)

lemma all_roles_read_tests:
  assumes "Role_Valid r"
  shows "Authorize r ''tests:read'' = None"
proof -
  have "r \<in> {RoleViewer, RoleOperator, RoleAdmin}" using assms by (auto simp: Role_Valid_def)
  then show ?thesis by (elim insertE) (simp_all, code_simp+)
qed

lemma results_reply:
  assumes "request_user env rq p = Some u" "Role_Valid (u_Role u)" "rq_method rq = ''GET''"
    "rq_path rq = [''v1'', ''tests'', i, ''results'']" "i \<noteq> []"
  shows "fst (api_step env rq p) = respond EText BResults
    (listTestResultsHandler (env_fault env) (env_broken env) (Some u) i (query_param rq ''limit'') (cp_results p))"
proof -
  note route = results_route [OF assms(5)]
  have "serve (Repo_Store (env_auth_fault env) (env_dbclock env)) (rq_cookies rq) (env_clock env 0) (rq_method rq)
      (rq_path rq) (cp_auth p) = Reached HListTestResults (Some u)"
    using assms(1,3,4) all_roles_read_tests [OF assms(2)] route
    by (simp add: serve_def dispatch_def request_user_def Authorize_mw_def route_def)
  moreover have "path_value rq 0 = i"
    using assms(3,4) route by (simp add: path_value_def path_values_def route_def)
  ultimately show ?thesis by (simp add: api_step_def admit_def)
qed

text \<open>The first rows of a sorted list: what is left out is no newer.\<close>

lemma newest_first:
  fixes f :: "'a \<Rightarrow> int"
  defines "rows \<equiv> \<lambda>xs n. take n (sort_key (\<lambda>r. - f r) xs)"
  shows "sorted_wrt (\<lambda>a b. f b \<le> f a) (rows xs n)" "set (rows xs n) \<subseteq> set xs" "length (rows xs n) \<le> n"
    "r \<in> set xs \<Longrightarrow> r \<in> set (rows xs n) \<or> length (rows xs n) = n \<and> (\<forall>q \<in> set (rows xs n). f r \<le> f q)"
proof -
  define ys where "ys = sort_key (\<lambda>r. - f r) xs"
  have "sorted (map (\<lambda>r. - f r) ys)" by (simp add: ys_def)
  then have s: "sorted_wrt (\<lambda>a b. f b \<le> f a) (take n ys @ drop n ys)" by (simp add: sorted_wrt_map)
  have set: "set ys = set xs" by (simp add: ys_def)
  show "sorted_wrt (\<lambda>a b. f b \<le> f a) (rows xs n)" "set (rows xs n) \<subseteq> set xs" "length (rows xs n) \<le> n"
    using s set by (auto simp: rows_def ys_def [symmetric] sorted_wrt_append dest: in_set_takeD)
  show "r \<in> set (rows xs n) \<or> length (rows xs n) = n \<and> (\<forall>q \<in> set (rows xs n). f r \<le> f q)" if "r \<in> set xs"
  proof (cases "r \<in> set (take n ys)")
    case False
    moreover have "r \<in> set (take n ys @ drop n ys)" using that set by simp
    ultimately have d: "r \<in> set (drop n ys)" by (simp only: set_append Un_iff simp_thms)
    then have "n < length ys" by (cases "n < length ys") simp_all
    moreover have "\<forall>q \<in> set (take n ys). f r \<le> f q" using s d unfolding sorted_wrt_append by blast
    ultimately show ?thesis by (simp add: rows_def ys_def [symmetric])
  qed (simp add: rows_def ys_def [symmetric])
qed


section \<open>An instance\<close>

text \<open>A fresh deployment, an admin who is seeded and logs in, and a result that is published and delivered.\<close>

definition story_env :: environment where
  "story_env = demo_env\<lparr>env_decoders := demo_decoders\<lparr>dec_login := \<lambda>_. Some \<lparr>lq_TenantID = ''tnt-a'', lq_Email = ''root@x.io'',
     lq_Password = ''correct-horse-9''\<rparr>\<rparr>\<rparr>"

definition story_wiring :: wiring where
  "story_wiring = \<lparr>wr_marshal = demo_marshal, wr_unmarshal = demo_unmarshal, wr_cooldown = hour_ns,
     wr_anomaly = \<lparr>ec_Interval = minute_ns, ec_Window = hour_ns, ec_Bucket = minute_ns, ec_Metrics = [], 
       ec_DetectorConfig = \<lparr>dc_Period = 0, dc_Alpha = 0, dc_Beta = 0, dc_Gamma = 0, dc_MADThresholdWatch = 0,
         dc_MADThresholdAnomaly = 0, dc_MADThresholdCritical = 0, dc_MinSamples = 0, dc_Calendar = []\<rparr>\<rparr>\<rparr>"

definition story :: "event list" where
  "story = [SeedAdmin demo_service True None False 5 (Some [1]) 5 demo_cli (demo_flags\<lparr>sf_tenantID := ''tnt-a''\<rparr>),
     Arrive story_env (demo_request ''POST'' [''v1'', ''auth'', ''login''] []), Handle 0,
     Fire (\<lambda>_ _. demo_result) 7 \<lparr>ct_ID = ''tst.1'', ct_TenantID = ''tnt-a'', ct_Kind = KindDNS, ct_Target = ''a.example'',
       ct_Interval = second_ns, ct_Timeout = second_ns, ct_Config = NoConfig\<rparr>,
     Deliver (''netsite.canary.results.tst_1'', ''{}'') ExecOk True]"

lemma story_run:
  "dp_sent (dep_run story_wiring story (fresh demo_broker)) = [demo_result]"
  "br_pending (dp_broker (dep_run story_wiring story (fresh demo_broker))) = []"
  "request_user story_env (demo_request ''GET'' [''v1'', ''tests'', ''tst.1'', ''results''] [])
     (dp_plane (dep_run story_wiring story (fresh demo_broker))) =
   Some \<lparr>u_ID = ''usr-01'', u_TenantID = ''tnt-a'', u_Email = ''root@x.io'', u_Role = RoleAdmin, u_CreatedAt = 5\<rparr>"
  by code_simp+


end
