(* ===== verification/Isolation.thy ===== *)
theory Isolation
  imports EndToEnd
begin

text \<open>
  Tenants in a running deployment: next to the requests of other tenants, the evaluators, the consumer, restarts and the
  seed commands work on the same tables.
\<close>

text \<open>What the catalogs hold under an identifier for a tenant; the state of an objective, which the
  evaluator writes, is left out.\<close>

definition entries :: "string \<Rightarrow> string \<Rightarrow> control_plane \<Rightarrow>
    testResponse option \<times> popResponse option \<times> SLO option \<times> ws_row option \<times> Annotation option" where
  "entries tn i p =
    (ts_lookup tn i (cp_tests p), pp_lookup tn i (cp_pops p), map_option fst (slo_lookup tn i (cp_slo p)),
     ws_lookup tn i (cp_ws p), an_lookup tn i (cp_an p))"

text \<open>Histories in which nothing is done in the name of the tenant: no request is handled that was admitted as one of its
  users, before or during the history, and no demo is seeded for it.\<close>

fun not_from :: "string \<Rightarrow> event \<Rightarrow> deployment \<Rightarrow> bool" where
  "not_from tn (Handle n) s =
    (n < length (dp_inflight s) \<longrightarrow> (case dp_inflight s ! n of (env, rq, out) \<Rightarrow> map_option u_TenantID (served_user out) \<noteq> Some tn))"
| "not_from tn (SeedDemo flt created tenant) s = (tenant \<noteq> tn)"
| "not_from tn e s = True"

fun none_from :: "wiring \<Rightarrow> string \<Rightarrow> event list \<Rightarrow> deployment \<Rightarrow> bool" where
  "none_from w tn [] s = True"
| "none_from w tn (e # evs) s = (not_from tn e s \<and> none_from w tn evs (dep_step w e s))"

lemma entries_of_sees: "tenant_sees tn i p = tenant_sees tn i q \<Longrightarrow> entries tn i p = entries tn i q"
  by (simp add: tenant_sees_def entries_def)

lemma slo_lookup_fst: "map_option fst (slo_lookup tn i db) = find (slo_hit tn i) (db_slos db)"
  by (simp add: slo_lookup_def option.map_comp comp_def option.map_ident)

lemma find_append_none: "(\<And>x. x \<in> set ys \<Longrightarrow> \<not> P x) \<Longrightarrow> find P (xs @ ys) = find P xs"
  by (induction xs) (auto simp: find_None_iff)

lemma seed_demo_entries:
  assumes "tenant \<noteq> tn"
  shows "entries tn i (with_tables (snd (seedDemo flt created tenant (seed_tables p))) p) = entries tn i p"
proof (cases rule: seedDemo_cases [of flt created tenant "seed_tables p"])
  case seeded
  define s' where "s' = snd (seedDemo flt created tenant (seed_tables p))"
  have f: "pg_pops s' = foldl (insert_new pp_ID) (cp_pops p) (map (demo_pop_row created tenant) demo_pops)"
    "pg_tests s' = foldl (insert_new ts_ID) (cp_tests p) (map (demo_test_row created tenant) demo_tests)"
    "pg_slo s' = cp_slo p \<or> (\<exists>x. pg_slo s' = (cp_slo p)\<lparr>db_slos := db_slos (cp_slo p) @ [x]\<rparr>
       \<and> slo_ID x \<notin> slo_ID ` set (db_slos (cp_slo p)) \<and> slo_TenantID x = tenant)"
    using seeded_fields [OF seeded] unfolding s'_def seed_tables_def pg_db.select_convs by blast+
  have "pp_lookup tn i (pg_pops s') = pp_lookup tn i (cp_pops p)"
    using f(1) seeded_rows(1) [of "cp_pops p" created tenant] assms
    by (auto simp: pp_lookup_def pp_hit_def intro!: find_append_none)
  moreover have "ts_lookup tn i (pg_tests s') = ts_lookup tn i (cp_tests p)"
    using f(2) seeded_rows(2) [of "cp_tests p" created tenant] assms
    by (auto simp: ts_lookup_def ts_hit_def intro!: find_append_none)
  moreover have "map_option fst (slo_lookup tn i (pg_slo s')) = map_option fst (slo_lookup tn i (cp_slo p))"
    using f(3) assms by (auto simp: slo_lookup_fst slo_hit_def intro!: find_append_none)
  ultimately show ?thesis by (simp add: entries_def with_tables_def s'_def [symmetric])
qed (simp add: with_tables_def seed_tables_def)

lemma entries_step:
  assumes "dep_ok s" "not_from tn e s"
  shows "entries tn i (dp_plane (dep_step w e s)) = entries tn i (dp_plane s)"
proof (cases e)
  case (Handle n)
  show ?thesis
  proof (cases "length (dp_inflight s) \<le> n")
    case False
    obtain env rq out where x: "dp_inflight s ! n = (env, rq, out)" by (cases "dp_inflight s ! n")
    obtain s0 where out: "out = admit env rq s0" using in_flight [OF assms(1) _ x] False by auto
    have "cp_ok (dp_plane s)" using assms(1) by (simp add: dep_ok_def keys_ok_def)
    moreover have "map_option u_TenantID (served_user out) \<noteq> Some tn" using assms(2) False by (simp add: Handle x)
    ultimately have "tenant_sees tn i (snd (complete env rq out (dp_plane s))) = tenant_sees tn i (dp_plane s)"
      by (rule complete_other [OF out])
    from entries_of_sees [OF this] show ?thesis using False by (simp add: Handle x)
  qed (simp add: Handle)
next
  case (SloWrite putFault)
  have "entries tn i (p\<lparr>cp_slo := snd (UpsertState putFault st (cp_slo p))\<rparr>) = entries tn i p" for st p
    by (simp add: entries_def slo_lookup_fst)
  then show ?thesis by (simp add: SloWrite split: option.split)
next
  case (SeedDemo flt created tenant)
  then show ?thesis using assms(2) seed_demo_entries by simp
qed (auto simp: entries_def split: prod.split option.split sum.split list.split)

text \<open>C1 (safety).  Tenants are isolated: whatever requests reach the server, whatever the evaluators, the agents, the
  consumer and the seed commands do meanwhile, in whatever order, with whatever faults and restarts, what a tenant
  has under any identifier in the five catalogs stays as it is as long as no request comes from
  a user of the tenant and no demo is seeded for it.\<close>

theorem deployment_isolation:
  assumes "s = dep_run w before (fresh b)" "none_from w tn evs s"
  shows "entries tn i (dp_plane (dep_run w evs s)) = entries tn i (dp_plane s)"
proof -
  have "dep_ok s" unfolding assms(1) by (rule deployment_ok)
  then show ?thesis using assms(2)
    by (induction evs arbitrary: s) (auto simp: entries_step dep_step_ok)
qed

section \<open>An instance\<close>

text \<open>Next to a tenant with a demo, another signs in, asks to delete the first one's POP by its identifier and to create
  one of its own, which is handled first, and seeds its demo; the evaluator and a restart come in between.\<close>

definition neighbour_start :: deployment where
  "neighbour_start = dep_run story_wiring
     [SeedDemo None 5 ''tnt-b'',
      SeedAdmin demo_service True None False 5 (Some [1]) 5 demo_cli (demo_flags\<lparr>sf_tenantID := ''tnt-a''\<rparr>),
      Arrive story_env (demo_request ''POST'' [''v1'', ''auth'', ''login''] []), Handle 0] (fresh demo_broker)"

definition neighbour_events :: "event list" where
  "neighbour_events =
     [Arrive story_env (demo_request ''DELETE'' [''v1'', ''pops'', ''pop-lhr''] []),
      Arrive story_env (demo_request ''POST'' [''v1'', ''pops''] ''pop-x''),
      AnomalyTick False, Handle 0, SeedDemo None 7 ''tnt-a'', Handle 0, Restart]"

theorem deployment_isolation_witness:
  "map_option pp_Name (fst (snd (entries ''tnt-b'' ''pop-lhr'' (dp_plane (dep_run story_wiring neighbour_events neighbour_start))))) =
     Some ''London''
   \<and> map pp_ID (cp_pops (dp_plane (dep_run story_wiring neighbour_events neighbour_start))) =
     [''pop-lhr'', ''pop-sjc'', ''pop-fra'', ''pop-x'']"
proof -
  have n: "none_from story_wiring ''tnt-b'' neighbour_events neighbour_start" by code_simp
  have v: "map_option pp_Name (fst (snd (entries ''tnt-b'' ''pop-lhr'' (dp_plane neighbour_start)))) = Some ''London''" by code_simp
  have m: "map pp_ID (cp_pops (dp_plane (dep_run story_wiring neighbour_events neighbour_start))) =
     [''pop-lhr'', ''pop-sjc'', ''pop-fra'', ''pop-x'']" by code_simp
  show ?thesis using deployment_isolation [OF neighbour_start_def n, of "''pop-lhr''"] v m by simp
qed

text \<open>What a session was admitted to do it still does after its end: the creation of a POP is admitted, the session
  is logged out, and then the POP is created.\<close>

lemma in_flight_after_logout:
  "(let s = dep_run story_wiring
        [Arrive story_env (demo_request ''POST'' [''v1'', ''pops''] ''pop-x''),
         Arrive story_env (demo_request ''POST'' [''v1'', ''auth'', ''logout''] []), Handle 0, Handle 0] neighbour_start
    in ad_sessions (cp_auth (dp_plane s)) = [] \<and> ''pop-x'' \<in> set (map pp_ID (cp_pops (dp_plane s))))"
  by code_simp

end
