(* ===== verification/Alerts.thy ===== *)
theory Alerts
  imports Integrity
begin

text \<open>
  The alerts of one objective in a running deployment: requests, other objectives, deliveries and restarts
  come between the evaluations, and the objective's state in the table is all that one evaluation knows of the others.
\<close>

section \<open>Alerts of an evaluation\<close>

fun event_of :: "delivery \<Rightarrow> BurnEvent" where
  "event_of (ToDefault ev) = ev"
| "event_of (ToWebhook url ev) = ev"

definition alert_times :: "string \<Rightarrow> (delivery \<times> bool) list \<Rightarrow> time list" where
  "alert_times i alerts = map (\<lambda>(d, _). be_OccurredAt (event_of d)) (filter (\<lambda>(d, ok). ok \<and> be_SLOID (event_of d) = i) alerts)"

lemma alert_times_append [simp]: "alert_times i (as @ bs) = alert_times i as @ alert_times i bs"
  by (simp add: alert_times_def)

lemma burn_event_key [simp]: "be_SLOID (burn_event x m now) = slo_ID x" "be_OccurredAt (burn_event x m now) = now"
  by (simp_all add: burn_event_def Let_def)

lemma notify_step_events:
  "snd (notify_step env cooldown x m now prev) = [] \<or>
   (\<exists>d ok. snd (notify_step env cooldown x m now prev) = [(d, ok)] \<and> event_of d = burn_event x m now)"
  by (auto simp: notify_step_def Let_def split: sum.splits option.splits)

lemma notify_alert_times:
  assumes "notify_step env cooldown x m now prev = (st, alerts)"
  shows "alert_times i alerts = (if slo_ID x = i \<and> delivered alerts then [now] else [])"
  using notify_step_events [of env cooldown x m now prev] assms by (auto simp: alert_times_def delivered_def)

text \<open>What an evaluation reads, sends and is going to write.\<close>

lemma evaluate_begin_Inr:
  assumes "evaluate_begin (GetState flt) src env cooldown x now db = Inr (st, alerts)"
  obtains m prev where "measure_slo src x = Inr m" "GetState False (slo_ID x) db = Inr prev"
    "notify_step env cooldown x m now prev = (st, alerts)"
  using assms by (auto simp: evaluate_begin_def GetState_def split: sum.splits if_splits)

section \<open>What leaves the state of an objective alone\<close>

definition watched :: "string \<Rightarrow> control_plane \<Rightarrow> bool" where
  "watched i p = (i \<in> set (map slo_ID (db_slos (cp_slo p))))"

lemma slo_apply_state:
  assumes "i \<in> set (map slo_ID (db_slos (slo_apply tn x db)))" "slo_ids_ok db"
  shows "find_state (slo_apply tn x db) i = find_state db i"
proof (cases rule: slo_apply_cases [of tn x db])
  case (drop j)
  obtain y where y: "y \<in> set (db_slos db)" "\<not> slo_hit tn j y" "slo_ID y = i" using assms(1) drop(1) by auto
  obtain z where z: "z \<in> set (db_slos db)" "slo_hit tn j z" using drop(2) by blast
  have "i \<noteq> j"
  proof
    assume "i = j"
    then have "y = z" using y z assms(2) by (auto simp: slo_ids_ok_def slo_hit_def distinct_map inj_on_def)
    then show False using y(2) z(2) by simp
  qed
  then show ?thesis unfolding drop(1) find_state_def by (simp, intro find_filter_untouched) auto
qed (simp_all add: find_state_def)

lemma cp_apply_state:
  "watched i (cp_apply u x p) \<Longrightarrow> slo_ids_ok (cp_slo p) \<Longrightarrow> find_state (cp_slo (cp_apply u x p)) i = find_state (cp_slo p) i"
  using slo_apply_state by (cases x) (auto simp: watched_def simp del: set_map)

lemma complete_state:
  assumes "out = admit env rq s0" "watched i (snd (complete env rq out p))" "slo_ids_ok (cp_slo p)"
  shows "find_state (cp_slo (snd (complete env rq out p))) i = find_state (cp_slo p) i"
  by (rule complete_cases [OF assms(1), of p]) (use assms(2,3) cp_apply_state in auto)

lemma seed_demo_state:
  "find_state (pg_slo (snd (seedDemo flt created tn t))) i = find_state (pg_slo t) i"
  by (auto simp: seedDemo_def seed_rows_eq find_state_def split: option.split tx_fault.split)

lemma GetState_find: "find_state db i = find_state db' i \<Longrightarrow> GetState flt i db = GetState flt i db'"
  by (simp add: GetState_def)

section \<open>Steady stretches of a run\<close>

text \<open>The state that the running evaluation is going to write, if it is one of the objective.\<close>

definition pending_of :: "string \<Rightarrow> deployment \<Rightarrow> State option" where
  "pending_of i s = (case dp_slo_pending s of Some p \<Rightarrow> if st_SLOID p = i then Some p else None | None \<Rightarrow> None)"

text \<open>A step is steady for an objective when it does not delete it; if it evaluates it, it does so at a
  proper time and finds the status given, unless it cannot measure; if it writes its state, the write succeeds; and it is not a
  restart between an evaluation of it and the write.\<close>

definition steady_step :: "wiring \<Rightarrow> string \<Rightarrow> Status \<Rightarrow> event \<Rightarrow> deployment \<Rightarrow> bool" where
  "steady_step w i st e s =
    ((watched i (dp_plane s) \<longrightarrow> watched i (dp_plane (dep_step w e s)))
     \<and> (case e of
          SloNext getFault src env \<Rightarrow>
            (case dp_slo_work s of
               (now, x # xs) \<Rightarrow>
                 slo_ID x = i \<longrightarrow> now \<noteq> 0 \<and> (case measure_slo src x of Inl _ \<Rightarrow> True | Inr m \<Rightarrow> ms_status m = st)
             | _ \<Rightarrow> True)
        | SloWrite putFault \<Rightarrow>
            (case pending_of i s of None \<Rightarrow> True | Some p \<Rightarrow> fst (UpsertState putFault p (cp_slo (dp_plane s))) = None)
        | Restart \<Rightarrow> pending_of i s = None
        | _ \<Rightarrow> True))"

fun steady :: "wiring \<Rightarrow> string \<Rightarrow> Status \<Rightarrow> event list \<Rightarrow> deployment \<Rightarrow> bool" where
  "steady w i st [] s = True"
| "steady w i st (e # evs) s = (steady_step w i st e s \<and> steady w i st evs (dep_step w e s))"

text \<open>The alerts so far are spaced, and the last of them is in the state that waits to be written or else in the
  table.\<close>

definition remembered :: "string \<Rightarrow> Status \<Rightarrow> time \<Rightarrow> deployment \<Rightarrow> bool" where
  "remembered i st t s =
    (case pending_of i s of
       Some p \<Rightarrow> st_LastStatus p = st \<and> st_LastAlertedAt p = t
     | None \<Rightarrow> watched i (dp_plane s)
         \<and> (\<exists>cur. GetState False i (cp_slo (dp_plane s)) = Inr cur \<and> st_LastStatus cur = st \<and> st_LastAlertedAt cur = t))"

definition spaced :: "wiring \<Rightarrow> string \<Rightarrow> Status \<Rightarrow> time list \<Rightarrow> deployment \<Rightarrow> bool" where
  "spaced w i st ts s =
    (successively (\<lambda>t t'. wr_cooldown w \<le> time_sub t' t) ts
     \<and> (ts \<noteq> [] \<longrightarrow> burning st \<and> last ts \<noteq> 0 \<and> remembered i st (last ts) s))"

lemma remembered_same:
  assumes "remembered i st t s" "pending_of i s' = pending_of i s" "watched i (dp_plane s) \<Longrightarrow> watched i (dp_plane s')"
    "watched i (dp_plane s') \<Longrightarrow> GetState False i (cp_slo (dp_plane s')) = GetState False i (cp_slo (dp_plane s))"
  shows "remembered i st t s'"
  using assms by (auto simp: remembered_def split: option.splits)

lemma successively_snoc:
  "successively P (xs @ [x]) \<longleftrightarrow> successively P xs \<and> (xs \<noteq> [] \<longrightarrow> P (last xs) x)"
  by (auto simp: successively_append_iff)

text \<open>The steps of an evaluation.\<close>

lemma notify_spaced:
  assumes n: "notify_step env cooldown x m now prev = (p, as)" "slo_ID x = i" "now \<noteq> 0" "ms_status m = st"
    and ts: "successively (\<lambda>t t'. cooldown \<le> time_sub t' t) ts"
      "ts \<noteq> [] \<Longrightarrow> burning st \<and> last ts \<noteq> 0 \<and> st_LastStatus prev = st \<and> st_LastAlertedAt prev = last ts"
  shows "successively (\<lambda>t t'. cooldown \<le> time_sub t' t) (ts @ alert_times i as)
    \<and> (ts @ alert_times i as \<noteq> [] \<longrightarrow> burning st \<and> last (ts @ alert_times i as) \<noteq> 0
         \<and> st_LastAlertedAt p = last (ts @ alert_times i as))"
proof (cases "delivered as")
  case True
  have should: "should_notify cooldown st prev now" using delivered_burning [OF n(1) True] n(4) by simp
  have "cooldown \<le> time_sub now (last ts)" if "ts \<noteq> []"
    using should ts(2) [OF that] by (auto simp: should_notify_def Let_def is_zero_time_def)
  moreover have "alert_times i as = [now]" "st_LastAlertedAt p = now"
    using notify_alert_times [OF n(1)] notify_step_alert_time [OF n(1)] True n(2) by simp_all
  ultimately show ?thesis using ts(1) n(3) should_notify_burning [OF should] by (simp add: successively_snoc)
next
  case False
  then have "alert_times i as = []" "burning st \<Longrightarrow> st_LastAlertedAt p = st_LastAlertedAt prev"
    using notify_alert_times [OF n(1)] notify_step_alert_time [OF n(1)] n(4) by simp_all
  then show ?thesis using ts by auto
qed

lemma begin_spaced:
  assumes "spaced w i st ts s" "dp_slo_pending s = None" "dp_slo_work s = (now, x # xs)" "steady_step w i st (SloNext g src env) s"
  shows "\<exists>as. dp_alerts (dep_step w (SloNext g src env) s) = dp_alerts s @ as
    \<and> spaced w i st (ts @ alert_times i as) (dep_step w (SloNext g src env) s)"
proof (cases "evaluate_begin (GetState g) src env (wr_cooldown w) x now (cp_slo (dp_plane s))")
  case (Inl e)
  have "spaced w i st ts (dep_step w (SloNext g src env) s)"
    using assms(1) remembered_same [of i st "last ts" s "s\<lparr>dp_slo_work := (now, xs)\<rparr>"]
    by (simp add: assms(2,3) Inl spaced_def pending_of_def)
  then show ?thesis by (intro exI [of _ "[]"]) (simp add: assms(2,3) Inl alert_times_def)
next
  case (Inr r)
  obtain p as where r: "r = (p, as)" by (cases r)
  obtain m prev where m: "measure_slo src x = Inr m" and prev: "GetState False (slo_ID x) (cp_slo (dp_plane s)) = Inr prev"
    and n: "notify_step env (wr_cooldown w) x m now prev = (p, as)"
    using evaluate_begin_Inr Inr r by metis
  let ?s' = "s\<lparr>dp_slo_work := (now, xs), dp_slo_pending := Some p, dp_alerts := dp_alerts s @ as\<rparr>"
  have step: "dep_step w (SloNext g src env) s = ?s'" by (simp add: assms(2,3) Inr r)
  have key: "st_SLOID p = slo_ID x" "st_LastStatus p = ms_status m" using notify_step_state [OF n] by auto
  have "spaced w i st (ts @ alert_times i as) ?s'"
  proof (cases "slo_ID x = i")
    case True
    have st: "now \<noteq> 0" "ms_status m = st" using assms(4) True m by (auto simp: steady_step_def assms(3))
    have "pending_of i ?s' = Some p" "pending_of i s = None" by (simp_all add: pending_of_def key True assms(2))
    then show ?thesis using notify_spaced [OF n True st, of ts] assms(1) prev True key(2) st(2)
      by (auto simp: spaced_def remembered_def)
  next
    case False
    then have "alert_times i as = []" "pending_of i ?s' = pending_of i s"
      using notify_alert_times [OF n] by (simp_all add: pending_of_def key assms(2))
    then show ?thesis using assms(1) remembered_same [of i st "last ts" s ?s'] by (simp add: spaced_def)
  qed
  then show ?thesis unfolding step by (intro exI [of _ as]) simp
qed

lemma write_spaced:
  assumes "spaced w i st ts s" "dp_slo_pending s = Some p" "steady_step w i st (SloWrite flt) s"
  shows "spaced w i st ts (dep_step w (SloWrite flt) s)"
proof -
  let ?db = "cp_slo (dp_plane s)"
  define s' where "s' = dep_step w (SloWrite flt) s"
  have pend': "dp_slo_pending s' = None" and db': "cp_slo (dp_plane s') = snd (UpsertState flt p ?db)"
    by (simp_all add: s'_def assms(2))
  have stays: "watched i (dp_plane s) \<Longrightarrow> watched i (dp_plane s')" using assms(3) by (simp add: steady_step_def s'_def)
  have "remembered i st (last ts) s'" if "ts \<noteq> []"
  proof (cases "st_SLOID p = i")
    case True
    then have pend: "pending_of i s = Some p" by (simp add: pending_of_def assms(2))
    have "fst (UpsertState flt p ?db) = None" using assms(3) pend by (simp add: steady_step_def)
    then have up: "UpsertState flt p ?db = (None, cp_slo (dp_plane s'))" using db' by (metis prod.collapse)
    obtain prev where prev: "GetState False (st_SLOID p) ?db = Inr prev" using GetState_total by blast
    obtain cur where cur: "GetState False i (cp_slo (dp_plane s')) = Inr cur" "same_state cur (merged prev p)"
      using GetState_UpsertState_same [OF up prev] True by auto
    have "st_SLOID p \<in> set (map slo_ID (db_slos ?db))" using up by (auto simp: UpsertState_def split: if_splits option.splits)
    then have "watched i (dp_plane s')" using True by (simp add: watched_def db')
    moreover have "st_LastStatus p = st" "st_LastAlertedAt p = last ts" "last ts \<noteq> 0"
      using assms(1) that pend by (auto simp: spaced_def remembered_def)
    ultimately show ?thesis using cur pend' by (auto simp: remembered_def pending_of_def same_state_def merged_def is_zero_time_def)
  next
    case False
    then have "pending_of i s' = pending_of i s" by (simp add: pending_of_def assms(2) pend')
    moreover have "GetState False i (cp_slo (dp_plane s')) = GetState False i ?db"
      unfolding db' using GetState_UpsertState_other False by metis
    ultimately show ?thesis
      using remembered_same [of i st "last ts" s s'] assms(1) stays that by (simp add: spaced_def)
  qed
  then show ?thesis using assms(1) by (simp add: spaced_def s'_def)
qed

text \<open>The other steps send no alert and leave the objective's state alone while it is there.\<close>

lemma quiet_alerts: "(\<And>g src env. e \<noteq> SloNext g src env) \<Longrightarrow> dp_alerts (dep_step w e s) = dp_alerts s"
  by (cases e) (auto split: prod.split option.split sum.split list.split)

lemma quiet_step:
  assumes "dep_ok s" "\<And>g src env. e \<noteq> SloNext g src env" "\<And>flt. e \<noteq> SloWrite flt" "watched i (dp_plane (dep_step w e s))"
  shows "find_state (cp_slo (dp_plane (dep_step w e s))) i = find_state (cp_slo (dp_plane s)) i"
proof (cases e)
  case (Handle n)
  show ?thesis
  proof (cases "length (dp_inflight s) \<le> n")
    case False
    obtain env rq out where x: "dp_inflight s ! n = (env, rq, out)" by (cases "dp_inflight s ! n")
    obtain s0 where out: "out = admit env rq s0" using in_flight [OF assms(1) _ x] False by auto
    have "slo_ids_ok (cp_slo (dp_plane s))" using assms(1) by (simp add: dep_ok_def keys_ok_def cp_ok_def)
    then show ?thesis using complete_state [OF out, of i "dp_plane s"] assms(4) False by (simp add: Handle x)
  qed (simp add: Handle)
next
  case (SeedDemo flt created tn)
  then show ?thesis using seed_demo_state [of flt created tn "seed_tables (dp_plane s)" i] by (simp add: with_tables_def seed_tables_def)
qed (use assms(2,3) in \<open>auto split: prod.split option.split sum.split list.split\<close>)

lemma quiet_pending:
  assumes "\<And>g src env. e \<noteq> SloNext g src env" "\<And>flt. e \<noteq> SloWrite flt" "steady_step w i st e s"
  shows "pending_of i (dep_step w e s) = pending_of i s"
proof (cases "e = Restart")
  case True
  then show ?thesis using assms(3) by (simp add: steady_step_def) (simp add: pending_of_def)
next
  case False
  then have "dp_slo_pending (dep_step w e s) = dp_slo_pending s"
    using assms(1,2) by (cases e) (auto split: prod.split option.split sum.split list.split)
  then show ?thesis by (simp add: pending_of_def)
qed

lemma spaced_step:
  assumes "dep_ok s" "steady_step w i st e s" "spaced w i st ts s"
  shows "\<exists>as. dp_alerts (dep_step w e s) = dp_alerts s @ as \<and> spaced w i st (ts @ alert_times i as) (dep_step w e s)"
proof -
  have stays: "dep_step w e s = s \<Longrightarrow> ?thesis" using assms(3) by (intro exI [of _ "[]"]) (simp add: alert_times_def)
  consider (evaluate) g src env where "e = SloNext g src env" | (store) flt where "e = SloWrite flt"
    | (other) "\<And>g src env. e \<noteq> SloNext g src env" "\<And>flt. e \<noteq> SloWrite flt" by blast
  then show ?thesis
  proof cases
    case (evaluate g src env)
    show ?thesis
    proof (cases "dp_slo_pending s = None \<and> snd (dp_slo_work s) \<noteq> []")
      case True
      then obtain now x xs where work: "dp_slo_work s = (now, x # xs)"
        by (cases "dp_slo_work s"; cases "snd (dp_slo_work s)") auto
      show ?thesis using begin_spaced [OF assms(3) _ work, of g src env] assms(2) True by (simp only: evaluate)
    next
      case False
      then have "dep_step w e s = s" by (cases "dp_slo_work s") (auto simp: evaluate split: option.split list.split)
      then show ?thesis by (rule stays)
    qed
  next
    case (store flt)
    show ?thesis
    proof (cases "dp_slo_pending s")
      case (Some p)
      have "spaced w i st ts (dep_step w e s)" using write_spaced [OF assms(3) Some, of flt] assms(2) by (simp only: store)
      then show ?thesis by (intro exI [of _ "[]"]) (simp add: store Some alert_times_def)
    qed (intro stays, simp add: store)
  next
    case other
    have "GetState False i (cp_slo (dp_plane (dep_step w e s))) = GetState False i (cp_slo (dp_plane s))"
      if "watched i (dp_plane (dep_step w e s))"
      using quiet_step [OF assms(1) other that] by (rule GetState_find)
    then have "spaced w i st ts (dep_step w e s)"
      using remembered_same [of i st "last ts" s "dep_step w e s"] quiet_pending [OF other assms(2)] assms(2,3)
      by (simp add: spaced_def steady_step_def)
    then show ?thesis using quiet_alerts [OF other(1)] by (intro exI [of _ "[]"]) (simp add: alert_times_def)
  qed
qed

lemma spaced_run:
  assumes "dep_ok s" "steady w i st evs s" "spaced w i st ts s"
  shows "\<exists>as. dp_alerts (dep_run w evs s) = dp_alerts s @ as \<and> spaced w i st (ts @ alert_times i as) (dep_run w evs s)"
  using assms
proof (induction evs arbitrary: s ts)
  case Nil
  then show ?case by (intro exI [of _ "[]"]) (simp add: alert_times_def)
next
  case (Cons e evs)
  obtain as where as: "dp_alerts (dep_step w e s) = dp_alerts s @ as" "spaced w i st (ts @ alert_times i as) (dep_step w e s)"
    using spaced_step [of s w i st e ts] Cons.prems by auto
  from Cons.IH [OF dep_step_ok [OF Cons.prems(1)] _ as(2)] Cons.prems(2) obtain bs where
    "dp_alerts (dep_run w evs (dep_step w e s)) = dp_alerts (dep_step w e s) @ bs"
    "spaced w i st ((ts @ alert_times i as) @ alert_times i bs) (dep_run w evs (dep_step w e s))" by auto
  then show ?case using as(1) by (intro exI [of _ "as @ bs"]) simp
qed


section \<open>An instance\<close>

text \<open>The seeded objective burns for an hour; between its evaluations come one that finds no alert due,
  and a restart.\<close>

definition burn_tick :: "time \<Rightarrow> event list" where
  "burn_tick t = SloTick False t # evaluation_events False False all_bad log_env"

definition burn_events :: "event list" where
  "burn_events = burn_tick hour_ns @ burn_tick (hour_ns + minute_ns) @ [Restart] @ burn_tick (2 * hour_ns)"

definition burn_wiring :: wiring where
  "burn_wiring = \<lparr>wr_marshal = \<lambda>_. None, wr_unmarshal = \<lambda>_. None, wr_cooldown = hour_ns,
     wr_anomaly = \<lparr>ec_Interval = minute_ns, ec_Window = hour_ns, ec_Bucket = minute_ns, ec_Metrics = [],
       ec_DetectorConfig = \<lparr>dc_Period = 0, dc_Alpha = 0, dc_Beta = 0, dc_Gamma = 0, dc_MADThresholdWatch = 0,
         dc_MADThresholdAnomaly = 0, dc_MADThresholdCritical = 0, dc_MinSamples = 0, dc_Calendar = []\<rparr>\<rparr>\<rparr>"

definition burn_start :: deployment where
  "burn_start = dep_run burn_wiring [SeedDemo None 5 ''tnt-a''] (fresh \<lparr>br_streams = [], br_consumers = [], br_pending = []\<rparr>)"

definition burn_slo :: SLO where
  "burn_slo = (demo_slo ''tnt-a'')\<lparr>slo_CreatedAt := 5\<rparr>"

lemma burn_slo_key: "slo_ID burn_slo = ''slo-cf-1111-availability''" "slo_Enabled burn_slo" "slo_NotifierURL burn_slo = []"
  by (simp_all add: burn_slo_def demo_slo_def)

lemma burn_slo_bad:
  "\<exists>m. measure_slo all_bad burn_slo = Inr m \<and> ms_status m = StatusFastBurn \<and> numeric_col 10 4 (ms_fastBurn m) \<noteq> None"
proof -
  have "case measure_slo all_bad burn_slo of Inl _ \<Rightarrow> False
     | Inr m \<Rightarrow> ms_status m = StatusFastBurn \<and> numeric_col 10 4 (ms_fastBurn m) \<noteq> None"
    by code_simp
  then show ?thesis by (auto split: sum.splits)
qed

text \<open>A state in which the objective is the only one, and has last been evaluated and alerted as said.\<close>

definition burn_state :: "Status \<Rightarrow> time \<Rightarrow> deployment \<Rightarrow> bool" where
  "burn_state st alerted s =
    (db_ok (cp_slo (dp_plane s)) \<and> db_slos (cp_slo (dp_plane s)) = [burn_slo] \<and> idle s
     \<and> (\<exists>prev. GetState False (slo_ID burn_slo) (cp_slo (dp_plane s)) = Inr prev \<and> st_LastStatus prev = st
          \<and> st_LastAlertedAt prev = alerted))"

lemma burn_alerts:
  assumes "notify_step log_env hour_ns burn_slo m t prev = (p, as)" "ms_status m = StatusFastBurn"
  shows "delivered as \<longleftrightarrow>
    st_LastStatus prev \<noteq> StatusFastBurn \<or> st_LastAlertedAt prev = 0 \<or> hour_ns \<le> time_sub t (st_LastAlertedAt prev)"
proof -
  have should: "should_notify hour_ns (ms_status m) prev t \<longleftrightarrow>
      st_LastStatus prev \<noteq> StatusFastBurn \<or> st_LastAlertedAt prev = 0 \<or> hour_ns \<le> time_sub t (st_LastAlertedAt prev)"
    by (auto simp: should_notify_def Let_def assms(2) burning_def is_zero_time_def)
  have "delivered as" if "should_notify hour_ns (ms_status m) prev t"
  proof -
    have "notify_step log_env hour_ns burn_slo m t prev =
        ((new_state burn_slo m t prev)\<lparr>st_LastAlertedAt := t\<rparr>, [(ToDefault (burn_event burn_slo m t), True)])"
      using that by (intro notify_step_due) (simp_all add: burn_slo_key log_env_def)
    then show ?thesis using assms(1) by (simp add: delivered_def)
  qed
  then show ?thesis using should delivered_burning [OF assms(1)] by blast
qed

lemma burn_round:
  assumes "burn_state st alerted s" "t \<noteq> 0"
  defines "due \<equiv> st \<noteq> StatusFastBurn \<or> alerted = 0 \<or> hour_ns \<le> time_sub t alerted"
    and "s' \<equiv> dep_run burn_wiring (burn_tick t) s"
  shows "steady burn_wiring (slo_ID burn_slo) StatusFastBurn (burn_tick t) s"
    "burn_state StatusFastBurn (if due then t else alerted) s'"
    "\<exists>as. dp_alerts s' = dp_alerts s @ as \<and> alert_times (slo_ID burn_slo) as = (if due then [t] else [])"
    "\<exists>as. dp_alerts (dep_run burn_wiring [SloTick False t, SloNext False all_bad log_env] s) = dp_alerts s @ as
       \<and> alert_times (slo_ID burn_slo) as = (if due then [t] else [])"
proof -
  let ?db = "cp_slo (dp_plane s)"
  let ?e = "EvaluateOne (GetState False) (UpsertState False) all_bad log_env hour_ns burn_slo t ?db"
  obtain m where m: "measure_slo all_bad burn_slo = Inr m" "ms_status m = StatusFastBurn" "numeric_col 10 4 (ms_fastBurn m) \<noteq> None"
    using burn_slo_bad by blast
  obtain prev where db: "db_ok ?db" "db_slos ?db = [burn_slo]" "snd (dp_slo_work s) = []" "dp_slo_pending s = None"
    and prev: "GetState False (slo_ID burn_slo) ?db = Inr prev" "st_LastStatus prev = st" "st_LastAlertedAt prev = alerted"
    using assms(1) by (auto simp: burn_state_def idle_def)
  obtain p as where n: "notify_step log_env hour_ns burn_slo m t prev = (p, as)" by (cases "notify_step log_env hour_ns burn_slo m t prev")
  have begun: "evaluate_begin (GetState False) all_bad log_env hour_ns burn_slo t ?db = Inr (p, as)"
    by (simp add: evaluate_begin_def m(1) prev(1) n)
  have err: "ev_error ?e = None" using EvaluateOne_no_error [OF m(1,3)] db(2) by simp
  have parts: "fst (UpsertState False p ?db) = None" "ev_alerts ?e = as" using err by (simp_all add: EvaluateOne_parts begun)
  have key: "st_SLOID p = slo_ID burn_slo" using notify_step_state [OF n] by simp
  have listed: "ListEnabled False ?db = Inr [burn_slo]"
    using db(2) by (simp add: ListEnabled_def burn_slo_key)
  have cd: "wr_cooldown burn_wiring = hour_ns" by (simp add: burn_wiring_def)
  have half: "dp_alerts (dep_run burn_wiring [SloTick False t, SloNext False all_bad log_env] s) = dp_alerts s @ as"
    by (simp add: listed db(3,4) cd begun)
  have s': "s' = s\<lparr>dp_slo_work := (t, []), dp_plane := (dp_plane s)\<lparr>cp_slo := ev_store ?e\<rparr>, dp_alerts := dp_alerts s @ ev_alerts ?e\<rparr>"
    by (simp add: s'_def burn_tick_def evaluation_events_def listed db(3,4) cd begun EvaluateOne_parts)
  show "steady burn_wiring (slo_ID burn_slo) StatusFastBurn (burn_tick t) s"
    using parts(1) m db assms(2)
    by (simp add: burn_tick_def evaluation_events_def listed steady_step_def watched_def cd begun pending_of_def key)
  have del: "delivered as \<longleftrightarrow> due" using burn_alerts [OF n m(2)] prev by (simp add: due_def)
  have times: "alert_times (slo_ID burn_slo) as = (if due then [t] else [])" using notify_alert_times [OF n] del by simp
  show "\<exists>as. dp_alerts (dep_run burn_wiring [SloTick False t, SloNext False all_bad log_env] s) = dp_alerts s @ as
       \<and> alert_times (slo_ID burn_slo) as = (if due then [t] else [])"
    using half times by blast
  show "\<exists>as. dp_alerts s' = dp_alerts s @ as \<and> alert_times (slo_ID burn_slo) as = (if due then [t] else [])"
    unfolding s' by (rule exI [of _ as]) (simp add: parts(2) times)
  have ok: "reader_ok [burn_slo] ?db" using db by (simp add: reader_ok_def)
  obtain cur where "GetState False (slo_ID burn_slo) (ev_store ?e) = Inr cur" "st_LastStatus cur = StatusFastBurn"
      "st_LastAlertedAt cur = (if due then t else alerted)"
    using store_reader.EvaluateOne_success [OF ok err prev(1) m(1)] assms(2) by (auto simp: m(2) prev(3) del parts(2))
  moreover have "reader_ok [burn_slo] (ev_store ?e)" by (rule store_reader.EvaluateOne_ok [OF ok])
  ultimately show "burn_state StatusFastBurn (if due then t else alerted) s'"
    by (simp add: s' burn_state_def reader_ok_def idle_def db(4))
qed

lemma steady_append: "steady w i st (evs @ evs') s \<longleftrightarrow> steady w i st evs s \<and> steady w i st evs' (dep_run w evs s)"
  by (induction evs arbitrary: s) simp_all

lemma burn_start_state: "burn_state StatusUnknown 0 burn_start"
    by (simp add: burn_start_def burn_state_def burn_slo_def fresh_def empty_plane_def seedDemo_def seed_rows_eq seed_tables_def
        with_tables_def db_ok_def GetState_def find_state_def zero_state_def idle_def)

text \<open>A restart between an alert and the write of its state: the next tick, a minute later, alerts again.\<close>

lemma restart_repeats_alert:
  "\<exists>as. dp_alerts (dep_run burn_wiring ([SloTick False hour_ns, SloNext False all_bad log_env] @ [Restart] @ burn_tick (hour_ns + minute_ns))
        burn_start) = dp_alerts burn_start @ as
    \<and> alert_times (slo_ID burn_slo) as = [hour_ns, hour_ns + minute_ns]"
proof -
  define s1 where "s1 = dep_run burn_wiring [SloTick False hour_ns, SloNext False all_bad log_env] burn_start"
  define s2 where "s2 = dep_step burn_wiring Restart s1"
  have n: "hour_ns \<noteq> 0" "hour_ns + minute_ns \<noteq> 0" "StatusUnknown \<noteq> StatusFastBurn" by code_simp+
  have plane: "dp_plane s1 = dp_plane burn_start"
    by (simp add: s1_def split: prod.split option.split sum.split list.split)
  have b2: "burn_state StatusUnknown 0 s2" using burn_start_state plane by (simp add: s2_def burn_state_def idle_def)
  have "dp_alerts s2 = dp_alerts s1" by (simp add: s2_def)
  then show ?thesis
    using burn_round(4) [OF burn_start_state n(1), folded s1_def] burn_round(3) [OF b2 n(2)] n(3)
    unfolding dep_run_simps(3) s1_def [symmetric] by (auto simp: s2_def)
qed


end
