(* ===== verification/Middleware.thy ===== *)
theory Middleware
  imports ApiSystem "HOL-Library.AList"
begin

text \<open>
  What stands around the handlers of the API: the status recorder and the log line of
  pkg/api/middleware/logging.go, the recovery of recover.go, the header of hsts.go, and the way
  \<open>writeJSON\<close> of pkg/api/auth.go writes a reply.  A handler is the sequence of its calls on the
  response writer, where the next call may depend on what a write returned, and it may panic; a response writer is a record
  of its operations, so that the same handler runs on the writer of the standard library and on the
  recorder around it.
\<close>

section \<open>Writers and handlers\<close>

text \<open>\<open>WriteHeader\<close> says whether it panics, \<open>Write\<close> how many bytes it took and whether there was no error.\<close>

record 'w writer =
  wr_SetHeader :: "string \<Rightarrow> string \<Rightarrow> 'w \<Rightarrow> 'w"
  wr_DelHeader :: "string \<Rightarrow> 'w \<Rightarrow> 'w"
  wr_WriteHeader :: "int \<Rightarrow> 'w \<Rightarrow> bool \<times> 'w"
  wr_Write :: "string \<Rightarrow> 'w \<Rightarrow> (int \<times> bool) \<times> 'w"

datatype proc = Return | Panic | SetHeader string string proc | DelHeader string proc | WriteHeader int proc
  | Write string "int \<times> bool \<Rightarrow> proc"

text \<open>Whether the handler panicked, and the writer it leaves.\<close>

primrec run_proc :: "'w writer \<Rightarrow> proc \<Rightarrow> 'w \<Rightarrow> bool \<times> 'w" where
  "run_proc W Return w = (False, w)"
| "run_proc W Panic w = (True, w)"
| "run_proc W (SetHeader k v p) w = run_proc W p (wr_SetHeader W k v w)"
| "run_proc W (DelHeader k p) w = run_proc W p (wr_DelHeader W k w)"
| "run_proc W (WriteHeader code p) w =
    (if fst (wr_WriteHeader W code w) then (True, snd (wr_WriteHeader W code w))
     else run_proc W p (snd (wr_WriteHeader W code w)))"
| "run_proc W (Write b k) w = run_proc W (k (fst (wr_Write W b w))) (snd (wr_Write W b w))"

section \<open>The writer of the standard library\<close>

text \<open>The headers, the status and the headers that went out with it, and the body.  The first final
  status counts; a later one is dropped, and one that is no status code panics.\<close>

record outgoing =
  og_header :: "(string \<times> string) list"
  og_status :: "int option"
  og_sent :: "(string \<times> string) list"
  og_body :: string

definition std_WriteHeader :: "int \<Rightarrow> outgoing \<Rightarrow> bool \<times> outgoing" where
  "std_WriteHeader code w =
    (if og_status w \<noteq> None then (False, w)
     else if code < 100 \<or> 999 < code then (True, w)
     else if code \<le> 199 \<and> code \<noteq> 101 then (False, w)
     else (False, w\<lparr>og_status := Some code, og_sent := og_header w\<rparr>))"

definition body_allowed :: "int \<Rightarrow> bool" where
  "body_allowed code = (\<not> (100 \<le> code \<and> code \<le> 199) \<and> code \<noteq> 204 \<and> code \<noteq> 304)"

definition std_Write :: "string \<Rightarrow> outgoing \<Rightarrow> (int \<times> bool) \<times> outgoing" where
  "std_Write b w =
    (let w' = snd (std_WriteHeader 200 w)
     in if b = [] then ((0, True), w')
        else if \<not> body_allowed (the (og_status w')) then ((0, False), w')
        else ((int (length b), True), w'\<lparr>og_body := og_body w' @ b\<rparr>))"

definition std_writer :: "outgoing writer" where
  "std_writer = \<lparr>wr_SetHeader = (\<lambda>k v w. w\<lparr>og_header := AList.update k v (og_header w)\<rparr>),
     wr_DelHeader = (\<lambda>k w. w\<lparr>og_header := AList.delete k (og_header w)\<rparr>),
     wr_WriteHeader = std_WriteHeader, wr_Write = std_Write\<rparr>"

text \<open>What the server sends when the handler is through: a response without a status gets 200.\<close>

definition finish :: "outgoing \<Rightarrow> outgoing" where
  "finish w = snd (std_WriteHeader 200 w)"

definition blank :: outgoing where
  "blank = \<lparr>og_header = [], og_status = None, og_sent = [], og_body = []\<rparr>"

section \<open>The recorder and the log line\<close>

record 'w statusRecorder =
  sr_ResponseWriter :: 'w
  sr_status :: int
  sr_bytes :: int

definition recorder_WriteHeader :: "'w writer \<Rightarrow> int \<Rightarrow> 'w statusRecorder \<Rightarrow> bool \<times> 'w statusRecorder" where
  "recorder_WriteHeader W code r =
    (let r = r\<lparr>sr_status := code\<rparr>
     in case wr_WriteHeader W code (sr_ResponseWriter r) of (panics, w) \<Rightarrow> (panics, r\<lparr>sr_ResponseWriter := w\<rparr>))"

definition recorder_Write :: "'w writer \<Rightarrow> string \<Rightarrow> 'w statusRecorder \<Rightarrow> (int \<times> bool) \<times> 'w statusRecorder" where
  "recorder_Write W b r =
    (let r = (if sr_status r = 0 then r\<lparr>sr_status := 200\<rparr> else r)
     in case wr_Write W b (sr_ResponseWriter r) of
          ((n, ok), w) \<Rightarrow> ((n, ok), r\<lparr>sr_ResponseWriter := w, sr_bytes := sr_bytes r + n\<rparr>))"

definition recorder :: "'w writer \<Rightarrow> 'w statusRecorder writer" where
  "recorder W = \<lparr>wr_SetHeader = (\<lambda>k v r. r\<lparr>sr_ResponseWriter := wr_SetHeader W k v (sr_ResponseWriter r)\<rparr>),
     wr_DelHeader = (\<lambda>k r. r\<lparr>sr_ResponseWriter := wr_DelHeader W k (sr_ResponseWriter r)\<rparr>),
     wr_WriteHeader = recorder_WriteHeader W, wr_Write = recorder_Write W\<rparr>"

record log_line =
  ll_method :: string
  ll_path :: string
  ll_status :: int
  ll_bytes :: int

text \<open>The line is written after the handler has returned; a panic passes it by.\<close>

definition Logging :: "'w writer \<Rightarrow> string \<Rightarrow> string \<Rightarrow> ('w statusRecorder \<Rightarrow> bool \<times> 'w statusRecorder) \<Rightarrow> 'w \<Rightarrow>
    log_line option \<times> bool \<times> 'w" where
  "Logging W m path next_h w =
    (case next_h \<lparr>sr_ResponseWriter = w, sr_status = 0, sr_bytes = 0\<rparr> of
       (True, r) \<Rightarrow> (None, True, sr_ResponseWriter r)
     | (False, r) \<Rightarrow>
         (Some \<lparr>ll_method = m, ll_path = path, ll_status = sr_status r, ll_bytes = sr_bytes r\<rparr>, False, sr_ResponseWriter r))"

section \<open>Recovery\<close>

text \<open>\<open>http.Error\<close>.\<close>

definition http_Error :: "string \<Rightarrow> int \<Rightarrow> proc" where
  "http_Error msg code =
    DelHeader ''Content-Length'' (SetHeader ''Content-Type'' ''text/plain; charset=utf-8''
      (SetHeader ''X-Content-Type-Options'' ''nosniff'' (WriteHeader code (Write (msg @ [CHR 0x0A]) (\<lambda>_. Return)))))"

definition Recover :: "'w writer \<Rightarrow> ('w \<Rightarrow> bool \<times> 'w) \<Rightarrow> 'w \<Rightarrow> bool \<times> 'w" where
  "Recover W next_h w =
    (case next_h w of
       (False, w') \<Rightarrow> (False, w')
     | (True, w') \<Rightarrow> run_proc W (http_Error ''internal server error'' 500) w')"

text \<open>The layers in the order of \<open>New\<close>: the log around the recovery around the header around the rest.\<close>

definition hsts_proc :: "Server \<Rightarrow> proc \<Rightarrow> proc" where
  "hsts_proc srv p = foldr (\<lambda>(k, v). SetHeader k v) (HSTS srv) p"

definition layers :: "Server \<Rightarrow> 'w writer \<Rightarrow> string \<Rightarrow> string \<Rightarrow> proc \<Rightarrow> 'w \<Rightarrow> log_line option \<times> bool \<times> 'w" where
  "layers srv W m path p = Logging W m path (Recover (recorder W) (run_proc (recorder W) (hsts_proc srv p)))"

section \<open>Replies\<close>

text \<open>\<open>writeJSON\<close> and \<open>http.Error\<close>; a body that does not encode is not written.\<close>

definition writeJSON :: "('a \<Rightarrow> string option) \<Rightarrow> int \<Rightarrow> 'a \<Rightarrow> proc" where
  "writeJSON encode status body =
    SetHeader ''Content-Type'' ''application/json''
      (WriteHeader status (case encode body of None \<Rightarrow> Return | Some b \<Rightarrow> Write (b @ [CHR 0x0A]) (\<lambda>_. Return)))"

fun reply_proc :: "('a \<Rightarrow> string option) \<Rightarrow> ('e \<Rightarrow> string) \<Rightarrow> ('e, 'a) reply \<Rightarrow> proc" where
  "reply_proc encode detail (Json code x) = writeJSON encode code x"
| "reply_proc encode detail (Empty code) = WriteHeader code Return"
| "reply_proc encode detail (Plain code msg) = http_Error msg code"
| "reply_proc encode detail (Failed code msg e) = http_Error (msg @ detail e) code"

section \<open>The recorder is transparent\<close>

lemma recorder_ops [simp]:
  "wr_SetHeader (recorder W) k v r = r\<lparr>sr_ResponseWriter := wr_SetHeader W k v (sr_ResponseWriter r)\<rparr>"
  "wr_DelHeader (recorder W) k r = r\<lparr>sr_ResponseWriter := wr_DelHeader W k (sr_ResponseWriter r)\<rparr>"
  "wr_WriteHeader (recorder W) code r = recorder_WriteHeader W code r"
  "wr_Write (recorder W) b r = recorder_Write W b r"
  by (simp_all add: recorder_def)

lemma recorder_steps [simp]:
  "fst (recorder_WriteHeader W code r) = fst (wr_WriteHeader W code (sr_ResponseWriter r))"
  "sr_ResponseWriter (snd (recorder_WriteHeader W code r)) = snd (wr_WriteHeader W code (sr_ResponseWriter r))"
  "fst (recorder_Write W b r) = fst (wr_Write W b (sr_ResponseWriter r))"
  "sr_ResponseWriter (snd (recorder_Write W b r)) = snd (wr_Write W b (sr_ResponseWriter r))"
  by (simp_all add: recorder_WriteHeader_def recorder_Write_def Let_def split: prod.split)

text \<open>A writer around another promises that each of its operations does to the inner writer what the inner
  operation does, with the same outcome; then a handler cannot tell them apart.\<close>

locale wrapped_writer =
  fixes outer :: "'r writer" and inner :: "'w writer" and under :: "'r \<Rightarrow> 'w"
  assumes set_header: "under (wr_SetHeader outer k v r) = wr_SetHeader inner k v (under r)"
    and del_header: "under (wr_DelHeader outer k r) = wr_DelHeader inner k (under r)"
    and write_header: "map_prod id under (wr_WriteHeader outer code r) = wr_WriteHeader inner code (under r)"
    and write_body: "map_prod id under (wr_Write outer b r) = wr_Write inner b (under r)"
begin

lemma write_header_parts:
  "fst (wr_WriteHeader outer code r) = fst (wr_WriteHeader inner code (under r))"
  "under (snd (wr_WriteHeader outer code r)) = snd (wr_WriteHeader inner code (under r))"
  by (simp_all add: write_header [symmetric])

lemma write_body_parts:
  "fst (wr_Write outer b r) = fst (wr_Write inner b (under r))"
  "under (snd (wr_Write outer b r)) = snd (wr_Write inner b (under r))"
  by (simp_all add: write_body [symmetric])

lemma run_wrapped: "map_prod id under (run_proc outer p r) = run_proc inner p (under r)"
  by (induction p arbitrary: r) (simp_all add: set_header del_header write_header_parts write_body_parts prod_eq_iff)

lemma recover_wrapped:
  "map_prod id under (Recover outer (run_proc outer p) r) = Recover inner (run_proc inner p) (under r)"
proof -
  obtain a r1 where r1: "run_proc outer p r = (a, r1)" by (cases "run_proc outer p r")
  then have "run_proc inner p (under r) = (a, under r1)" using run_wrapped [of p r] by simp
  then show ?thesis using r1 run_wrapped [of "http_Error ''internal server error'' 500" r1]
    by (cases a) (simp_all add: Recover_def)
qed

end

interpretation rec: wrapped_writer "recorder W" W sr_ResponseWriter for W
  by unfold_locales (simp_all add: prod_eq_iff)

text \<open>C28 (equivalence).  Logging is transparent: on any response writer, whatever a handler does and
  wherever it panics, the writer is left as it would be without the recorder around it, and a panic that
  gets out is the same.\<close>

theorem logging_transparent:
  "snd (layers srv W m path p w) = Recover W (run_proc W (hsts_proc srv p)) w"
proof -
  let ?r = "\<lparr>sr_ResponseWriter = w, sr_status = 0, sr_bytes = 0\<rparr>"
  obtain panics r where r: "Recover (recorder W) (run_proc (recorder W) (hsts_proc srv p)) ?r = (panics, r)"
    by (cases "Recover (recorder W) (run_proc (recorder W) (hsts_proc srv p)) ?r")
  then have "Recover W (run_proc W (hsts_proc srv p)) w = (panics, sr_ResponseWriter r)"
    using rec.recover_wrapped [of W "hsts_proc srv p" ?r] by simp
  then show ?thesis by (cases panics) (simp_all add: layers_def Logging_def r)
qed

section \<open>On the writer of the standard library\<close>

lemma std_ops [simp]:
  "wr_SetHeader std_writer k v w = w\<lparr>og_header := AList.update k v (og_header w)\<rparr>"
  "wr_DelHeader std_writer k w = w\<lparr>og_header := AList.delete k (og_header w)\<rparr>"
  "wr_WriteHeader std_writer code w = std_WriteHeader code w"
  "wr_Write std_writer b w = std_Write b w"
  by (simp_all add: std_writer_def)

lemma std_WriteHeader_sent [simp]: "og_status w = Some c \<Longrightarrow> std_WriteHeader code w = (False, w)"
  by (simp add: std_WriteHeader_def)

lemma std_WriteHeader_final:
  "og_status w = None \<Longrightarrow> 200 \<le> code \<Longrightarrow> code \<le> 999 \<Longrightarrow>
   std_WriteHeader code w = (False, w\<lparr>og_status := Some code, og_sent := og_header w\<rparr>)"
  by (simp add: std_WriteHeader_def)

lemma std_Write_sent:
  "og_status w = Some c \<Longrightarrow> b \<noteq> [] \<Longrightarrow>
   std_Write b w = (if body_allowed c then ((int (length b), True), w\<lparr>og_body := og_body w @ b\<rparr>) else ((0, False), w))"
  by (simp add: std_Write_def)

text \<open>Nothing is in the body before a status is decided.\<close>

definition og_ok :: "outgoing \<Rightarrow> bool" where
  "og_ok w = (og_status w = None \<longrightarrow> og_body w = [])"

lemma run_std_ok: "og_ok w \<Longrightarrow> og_ok (snd (run_proc std_writer p w))"
proof (induction p arbitrary: w)
  case (WriteHeader code p)
  have "og_ok (snd (std_WriteHeader code w))" using WriteHeader.prems by (simp add: std_WriteHeader_def og_ok_def)
  then show ?case using WriteHeader.IH by simp
next
  case (Write b k)
  have "og_ok (snd (std_Write b w))"
    using Write.prems by (simp add: std_Write_def std_WriteHeader_def og_ok_def Let_def)
  then show ?case using Write.IH by simp
qed (simp_all add: og_ok_def)

lemma run_http_Error:
  assumes "200 \<le> code" "code \<le> 999"
  shows "fst (run_proc std_writer (http_Error msg code) w) = False
    \<and> og_status (snd (run_proc std_writer (http_Error msg code) w)) = Some (case og_status w of None \<Rightarrow> code | Some c \<Rightarrow> c)
    \<and> og_body (snd (run_proc std_writer (http_Error msg code) w)) = og_body w @
        (if body_allowed (case og_status w of None \<Rightarrow> code | Some c \<Rightarrow> c) then msg @ [CHR 0x0A] else [])"
  using assms by (cases "og_status w") (simp_all add: http_Error_def std_WriteHeader_final std_Write_sent)

lemma recorded_http_Error:
  "code \<noteq> 0 \<Longrightarrow> \<not> fst (run_proc (recorder W) (http_Error msg code) r) \<Longrightarrow>
   sr_status (snd (run_proc (recorder W) (http_Error msg code) r)) = code"
  by (simp add: http_Error_def recorder_WriteHeader_def recorder_Write_def Let_def split: prod.splits if_splits)

text \<open>C25 (error).  A panic is contained and answered: when a handler panics, the server goes on, one line is
  logged, and it says 500; the client gets 500 with the error text if the handler had not begun its response, and
  otherwise keeps the status that had gone out, with the error text after what was written.\<close>

theorem panic_answered:
  assumes "run_proc std_writer (hsts_proc srv p) blank = (True, w1)"
  shows "\<exists>line w. layers srv std_writer m path p blank = (Some line, False, w)
    \<and> ll_method line = m \<and> ll_path line = path \<and> ll_status line = 500
    \<and> og_status w = Some (case og_status w1 of None \<Rightarrow> 500 | Some c \<Rightarrow> c)
    \<and> og_body w = og_body w1 @ (if body_allowed (the (og_status w)) then ''internal server error'' @ [CHR 0x0A] else [])"
proof -
  let ?r0 = "\<lparr>sr_ResponseWriter = blank, sr_status = 0, sr_bytes = 0\<rparr>" and ?E = "http_Error ''internal server error'' 500"
  obtain r1 where r1: "run_proc (recorder std_writer) (hsts_proc srv p) ?r0 = (True, r1)" "sr_ResponseWriter r1 = w1"
    using rec.run_wrapped [of std_writer "hsts_proc srv p" ?r0] assms by (cases "run_proc (recorder std_writer) (hsts_proc srv p) ?r0") auto
  define r2 where "r2 = snd (run_proc (recorder std_writer) ?E r1)"
  have e: "fst (run_proc std_writer ?E w1) = False"
    "og_status (snd (run_proc std_writer ?E w1)) = Some (case og_status w1 of None \<Rightarrow> 500 | Some c \<Rightarrow> c)"
    "og_body (snd (run_proc std_writer ?E w1)) = og_body w1 @
       (if body_allowed (case og_status w1 of None \<Rightarrow> 500 | Some c \<Rightarrow> c) then ''internal server error'' @ [CHR 0x0A] else [])"
    using run_http_Error [of 500 "''internal server error''" w1] by simp_all
  have err: "fst (run_proc (recorder std_writer) ?E r1) = False" "sr_ResponseWriter r2 = snd (run_proc std_writer ?E w1)"
    using rec.run_wrapped [of std_writer ?E r1] e(1) r1(2) by (auto simp: r2_def prod_eq_iff)
  have st: "sr_status r2 = 500"
    unfolding r2_def using err(1) by (intro recorded_http_Error) simp_all
  have "run_proc (recorder std_writer) ?E r1 = (False, r2)" using err(1) by (simp add: r2_def prod_eq_iff)
  then have "layers srv std_writer m path p blank =
      (Some \<lparr>ll_method = m, ll_path = path, ll_status = 500, ll_bytes = sr_bytes r2\<rparr>, False, sr_ResponseWriter r2)"
    using r1(1) st by (simp add: layers_def Logging_def Recover_def)
  then show ?thesis using e(2,3) by (simp add: err(2))
qed

section \<open>The replies of the API\<close>

named_theorems proper_intros

text \<open>The statuses that the handlers, the authorization and the multiplexer answer with.\<close>

definition proper :: "('e, 'a) reply \<Rightarrow> bool" where
  "proper r = (reply_status r \<in> {200, 201, 204, 400, 401, 403, 404, 405, 409, 422, 500, 501, 502, 503})"

lemma proper_map [simp]: "proper (map_reply f g r) = proper r"
  by (cases r) (simp_all add: proper_def)

lemma proper_consts [simp]:
  "proper (Json c x) = (c \<in> {200, 201, 204, 400, 401, 403, 404, 405, 409, 422, 500, 501, 502, 503})"
  "proper (Empty c) = (c \<in> {200, 201, 204, 400, 401, 403, 404, 405, 409, 422, 500, 501, 502, 503})"
  "proper (Plain c m) = (c \<in> {200, 201, 204, 400, 401, 403, 404, 405, 409, 422, 500, 501, 502, 503})"
  "proper (Failed c m e) = (c \<in> {200, 201, 204, 400, 401, 403, 404, 405, 409, 422, 500, 501, 502, 503})"
  by (simp_all add: proper_def)

lemma proper_guards [intro!]:
  "(\<And>v. proper (k v)) \<Longrightarrow> proper (with_user u k)"
  "(\<And>v. proper (fst (k' v s))) \<Longrightarrow> proper (fst (with_user_st u k' s))"
  "proper r \<Longrightarrow> proper (with_id i r)"
  "proper (fst (q s)) \<Longrightarrow> proper (fst (with_id_st i q s))"
  "(\<And>v. proper (fst (k'' v s))) \<Longrightarrow> proper (fst (with_body b k'' s))"
  by (simp_all add: http_defs split: option.split)

lemma catalogs_proper [proper_intros]:
  "proper (listTestsHandler flt broken user ts)" "proper (fst (createTestHandler flt now entropy user tbody ts))"
  "proper (getTestHandler flt user i ts)" "proper (fst (deleteTestHandler flt user i ts))"
  "proper (listPopsHandler flt broken user ps)" "proper (fst (createPopHandler flt now user pbody ps))"
  "proper (getPopHandler flt user i ps)" "proper (fst (deletePopHandler flt user i ps))"
  unfolding listTestsHandler_def createTestHandler_def getTestHandler_def deleteTestHandler_def listPopsHandler_def
    createPopHandler_def getPopHandler_def deletePopHandler_def
  by (auto simp: Let_def split: option.split sum.split)

lemma slos_proper [proper_intros]:
  "proper (listSLOsHandler flt user db)" "proper (fst (createSLOHandler flt now entropy user body db))"
  "proper (getSLOHandler flt user i db)" "proper (fst (deleteSLOHandler flt user i db))"
  unfolding listSLOsHandler_def createSLOHandler_def getSLOHandler_def deleteSLOHandler_def
  by (auto simp: Let_def split: option.split sum.split prod.split slo_error.split split del: if_split) (auto split: if_split)

lemma workspaces_proper [proper_intros]:
  "proper (listWorkspacesHandler flt broken user db)" "proper (fst (createWorkspaceHandler flt now minted user cbody db))"
  "proper (getWorkspaceHandler flt user i db)" "proper (fst (updateWorkspaceHandler flt now user i ubody db))"
  "proper (fst (deleteWorkspaceHandler flt user i db))" "proper (fst (shareWorkspaceHandler flt dbnow now slug user i ttl db))"
  "proper (fst (unshareWorkspaceHandler flt dbnow user i db))" "proper (resolveShareHandler flt now slug' db)"
  unfolding listWorkspacesHandler_def createWorkspaceHandler_def getWorkspaceHandler_def updateWorkspaceHandler_def
    deleteWorkspaceHandler_def shareWorkspaceHandler_def unshareWorkspaceHandler_def resolveShareHandler_def
  by (auto simp: ws_reply_def ws_failure_def split: option.split sum.split prod.split ws_error.split)

lemma annotations_proper [proper_intros]:
  "proper (listAnnotationsHandler parse flt broken user q db)" "proper (fst (createAnnotationHandler flt now minted user body db))"
  "proper (getAnnotationHandler flt user i db)" "proper (fst (deleteAnnotationHandler flt user i db))"
  unfolding listAnnotationsHandler_def createAnnotationHandler_def getAnnotationHandler_def deleteAnnotationHandler_def
  by (auto split: option.split sum.split prod.split an_error.split)

lemma others_proper [proper_intros]:
  "proper (listAnomalyStateHandler flt user db)" "proper (getAnomalyForTestHandler flt user i db)"
  "proper (getAnomalyForTestMetricHandler flt user i metric db)" "proper (healthHandler v c d ping)"
  "proper (whoamiHandler user)" "proper (fst (fst (logoutHandler st cookies s)))"
  "proper (fst (fst (loginHandler svc st entropy now seen issued lbody s)))"
  "proper (netqlTranslateHandler reg user qbody)" "proper (netqlExecuteHandler reg ch user qbody)"
  "proper (listTestResultsHandler flt broken user i limit rows)"
  unfolding listAnomalyStateHandler_def getAnomalyForTestHandler_def getAnomalyForTestMetricHandler_def healthHandler_def
    whoamiHandler_def logoutHandler_def loginHandler_def netqlTranslateHandler_def netqlExecuteHandler_def listTestResultsHandler_def
  by (auto simp: Let_def verdict_reply_def netqlError_def split: option.split sum.split prod.split netql_error.split)

lemma with_minted_proper: "(\<And>i. proper (fst (k i s))) \<Longrightarrow> proper (fst (with_minted minted k s))"
  by (cases minted) (simp_all add: with_minted_def)

lemma run_handler_proper: "proper (fst (fst (run_handler env rq h user s)))"
  by (cases h) (simp_all add: respond_def case_prod_beta proper_intros with_minted_proper)

lemma dispatch_proper: "dispatch user m path = Answered code \<Longrightarrow> code \<in> {401, 403, 404, 405, 500}"
  by (auto simp: dispatch_def Authorize_mw_def split: option.splits if_splits)

lemma api_step_proper: "proper (fst (fst (api_step env rq s)))"
proof (cases "admit env rq s")
  case (Answered code)
  then have "code \<in> {401, 403, 404, 405, 500}" unfolding admit_def serve_def by (rule dispatch_proper)
  then show ?thesis by (auto simp: api_step_def Answered answered_def)
qed (simp add: api_step_def run_handler_proper)

section \<open>From a request to the log\<close>

text \<open>What the handlers write for a reply; a login and a logout set the cookie first.  The text of a cookie, of
  an error and the JSON of a body are arguments.  The endpoint /metrics is written by the library of Prometheus
  and counts here as a reply of its text.\<close>

record texts =
  tx_encode :: "api_body \<Rightarrow> string option"
  tx_detail :: "api_error \<Rightarrow> string"
  tx_cookie :: "Cookie \<Rightarrow> string"

definition answer_proc :: "texts \<Rightarrow> response \<Rightarrow> proc" where
  "answer_proc t r =
    (case snd r of
       None \<Rightarrow> reply_proc (tx_encode t) (tx_detail t) (fst r)
     | Some c \<Rightarrow> SetHeader ''Set-Cookie'' (tx_cookie t c) (reply_proc (tx_encode t) (tx_detail t) (fst r)))"

fun reply_text :: "texts \<Rightarrow> (api_error, api_body) reply \<Rightarrow> string" where
  "reply_text t (Json code x) = (case tx_encode t x of None \<Rightarrow> [] | Some b \<Rightarrow> b @ [CHR 0x0A])"
| "reply_text t (Empty code) = []"
| "reply_text t (Plain code msg) = msg @ [CHR 0x0A]"
| "reply_text t (Failed code msg e) = (msg @ tx_detail t e) @ [CHR 0x0A]"

text \<open>A recorder that has seen nothing yet, with the writer's state below.\<close>

definition unwritten :: "outgoing statusRecorder \<Rightarrow> bool" where
  "unwritten r = (og_status (sr_ResponseWriter r) = None \<and> og_body (sr_ResponseWriter r) = [] \<and> sr_bytes r = 0)"

lemma recorded_final:
  assumes "unwritten r" "200 \<le> code" "code \<le> 999"
  shows "recorder_WriteHeader std_writer code r =
    (False, r\<lparr>sr_status := code, sr_ResponseWriter := (sr_ResponseWriter r)\<lparr>og_status := Some code,
       og_sent := og_header (sr_ResponseWriter r)\<rparr>\<rparr>)"
  using assms by (simp add: recorder_WriteHeader_def std_WriteHeader_final unwritten_def)

lemma run_reply:
  assumes "unwritten r" "200 \<le> reply_status rep" "reply_status rep \<le> 999"
    "run_proc (recorder std_writer) (reply_proc (tx_encode t) (tx_detail t) rep) r = (panics, r')"
  shows "\<not> panics \<and> sr_status r' = reply_status rep \<and> og_status (sr_ResponseWriter r') = Some (reply_status rep)
    \<and> og_body (sr_ResponseWriter r') = (if body_allowed (reply_status rep) then reply_text t rep else [])
    \<and> sr_bytes r' = int (length (og_body (sr_ResponseWriter r')))
    \<and> (\<forall>k. k \<notin> {''Content-Type'', ''Content-Length'', ''X-Content-Type-Options''} \<longrightarrow>
         map_of (og_sent (sr_ResponseWriter r')) k = map_of (og_header (sr_ResponseWriter r)) k)"
proof -
  have u: "unwritten (r\<lparr>sr_ResponseWriter := (sr_ResponseWriter r)\<lparr>og_header := h\<rparr>\<rparr>)" for h
    using assms(1) by (simp add: unwritten_def)
  have b: "og_body (sr_ResponseWriter r) = []" "sr_bytes r = 0" using assms(1) by (simp_all add: unwritten_def)
  show ?thesis
    using assms b
    by (cases rep)
      (auto simp: writeJSON_def http_Error_def recorded_final [OF u] recorded_final recorder_Write_def std_Write_sent
        update_conv' delete_conv' split: option.splits if_splits)
qed

lemma answer_start:
  "\<exists>h. run_proc (recorder std_writer) (hsts_proc srv (answer_proc t resp)) \<lparr>sr_ResponseWriter = blank, sr_status = 0, sr_bytes = 0\<rparr> =
      run_proc (recorder std_writer) (reply_proc (tx_encode t) (tx_detail t) (fst resp))
        \<lparr>sr_ResponseWriter = blank\<lparr>og_header := h\<rparr>, sr_status = 0, sr_bytes = 0\<rparr>
    \<and> (\<forall>(k, v) \<in> set (HSTS srv). map_of h k = Some v)"
proof (cases "snd resp")
  case None
  then show ?thesis
    by (intro exI [of _ "HSTS srv"]) (simp add: hsts_proc_def HSTS_def answer_proc_def blank_def)
next
  case (Some c)
  then show ?thesis
    by (intro exI [of _ "AList.update ''Set-Cookie'' (tx_cookie t c) (HSTS srv)"])
      (simp add: hsts_proc_def HSTS_def answer_proc_def blank_def update_conv')
qed


section \<open>Instances\<close>

text \<open>A handler that panics after it has begun its response: the client keeps the 200 that went out, and the log
  says 500.\<close>

definition late_panic :: proc where
  "late_panic = Write ''{'' (\<lambda>_. Panic)"

theorem panic_answered_witness:
  "\<forall>srv. \<exists>line w. layers srv std_writer ''GET'' ''/v1/slos'' late_panic blank = (Some line, False, w)
    \<and> ll_status line = 500 \<and> og_status w = Some 200
    \<and> og_body w = ''{internal server error'' @ [CHR 0x0A]"
proof
  fix srv
  define w1 where "w1 = snd (run_proc std_writer (hsts_proc srv late_panic) blank)"
  have w1: "run_proc std_writer (hsts_proc srv late_panic) blank = (True, w1)" "og_status w1 = Some 200" "og_body w1 = ''{''"
    by (cases "srv_tlsEnabled srv";
        simp add: w1_def late_panic_def hsts_proc_def HSTS_def std_Write_def std_WriteHeader_def blank_def Let_def body_allowed_def)+
  from panic_answered [OF w1(1)] w1(2,3)
  show "\<exists>line w. layers srv std_writer ''GET'' ''/v1/slos'' late_panic blank = (Some line, False, w)
    \<and> ll_status line = 500 \<and> og_status w = Some 200 \<and> og_body w = ''{internal server error'' @ [CHR 0x0A]"
    by (fastforce simp: body_allowed_def)
qed

text \<open>A handler that writes nothing is answered with 200 and logged with the status 0.\<close>

lemma silent_handler:
  "layers srv std_writer m path Return w = (Some \<lparr>ll_method = m, ll_path = path, ll_status = 0, ll_bytes = 0\<rparr>, False,
     snd (run_proc std_writer (hsts_proc srv Return) w))"
  "og_status (finish (snd (run_proc std_writer (hsts_proc srv Return) blank))) = Some 200"
  by (simp_all add: layers_def Logging_def Recover_def hsts_proc_def HSTS_def finish_def std_WriteHeader_def blank_def)

end
