(* ===== verification/ServerRun.thy ===== *)
theory ServerRun
  imports ApiServer
begin

text \<open>
  The life of the API server: \<open>Server.Run\<close> of pkg/api/server.go starts a goroutine that listens and sends the error it
  ends with over a channel with room for one, and waits for that error or for the end of its
  context, which it answers with a graceful shutdown.  The two run side by side; the HTTP server of the
  standard library between them is a flag, whether it has been closed, and the number of requests in
  flight.
\<close>

section \<open>State and steps\<close>

datatype serve_error = ServerClosed | ServeError string

datatype run_error = ServeFailed string | ShutdownFailed

datatype listener = Listening | Ended_with serve_error | Gone

datatype main_loop = Selecting | ShuttingDown | Finished "run_error option"

record run_state =
  rn_listener :: listener
  rn_errCh :: "serve_error option"
  rn_main :: main_loop
  rn_cancelled :: bool
  rn_closed :: bool
  rn_requests :: nat

definition run_start :: run_state where
  "run_start = \<lparr>rn_listener = Listening, rn_errCh = None, rn_main = Selecting, rn_cancelled = False, rn_closed = False,
     rn_requests = 0\<rparr>"

definition serve_result :: "serve_error \<Rightarrow> run_error option" where
  "serve_result e = (case e of ServerClosed \<Rightarrow> None | ServeError what \<Rightarrow> Some (ServeFailed what))"

text \<open>A shutdown is through when no request is in flight, or fails when its thirty seconds are over.\<close>

inductive run_step :: "run_state \<Rightarrow> run_state \<Rightarrow> bool" where
  listen_fails: "rn_listener s = Listening \<Longrightarrow> run_step s (s\<lparr>rn_listener := Ended_with (ServeError what)\<rparr>)"
| listen_closed: "rn_listener s = Listening \<Longrightarrow> rn_closed s \<Longrightarrow> run_step s (s\<lparr>rn_listener := Ended_with ServerClosed\<rparr>)"
| send: "rn_listener s = Ended_with e \<Longrightarrow> rn_errCh s = None \<Longrightarrow> run_step s (s\<lparr>rn_listener := Gone, rn_errCh := Some e\<rparr>)"
| accept: "rn_listener s = Listening \<Longrightarrow> \<not> rn_closed s \<Longrightarrow> run_step s (s\<lparr>rn_requests := rn_requests s + 1\<rparr>)"
| answer: "rn_requests s = Suc n \<Longrightarrow> run_step s (s\<lparr>rn_requests := n\<rparr>)"
| cancel: "\<not> rn_cancelled s \<Longrightarrow> run_step s (s\<lparr>rn_cancelled := True\<rparr>)"
| select_err: "rn_main s = Selecting \<Longrightarrow> rn_errCh s = Some e \<Longrightarrow>
    run_step s (s\<lparr>rn_main := Finished (serve_result e), rn_errCh := None\<rparr>)"
| select_done: "rn_main s = Selecting \<Longrightarrow> rn_cancelled s \<Longrightarrow> run_step s (s\<lparr>rn_main := ShuttingDown, rn_closed := True\<rparr>)"
| shutdown: "rn_main s = ShuttingDown \<Longrightarrow> rn_requests s = 0 \<Longrightarrow> run_step s (s\<lparr>rn_main := Finished None\<rparr>)"
| timeout: "rn_main s = ShuttingDown \<Longrightarrow> rn_requests s \<noteq> 0 \<Longrightarrow> run_step s (s\<lparr>rn_main := Finished (Some ShutdownFailed)\<rparr>)"

inductive_cases run_stepE: "run_step s t"

definition reachable_run :: "run_state \<Rightarrow> bool" where
  "reachable_run s = run_step\<^sup>*\<^sup>* run_start s"

section \<open>Invariant\<close>

text \<open>The channel is empty while the listener has something to send; the server is closed from the shutdown on
  and only then ends with \<open>ErrServerClosed\<close>; a run that ended without an error was cancelled and left no request.\<close>

definition run_inv :: "run_state \<Rightarrow> bool" where
  "run_inv s =
    ((rn_errCh s \<noteq> None \<longrightarrow> rn_listener s = Gone)
     \<and> (rn_closed s \<longrightarrow> rn_cancelled s \<and> rn_main s \<noteq> Selecting)
     \<and> (rn_main s = ShuttingDown \<longrightarrow> rn_closed s)
     \<and> (rn_listener s = Ended_with ServerClosed \<or> rn_errCh s = Some ServerClosed \<longrightarrow> rn_closed s)
     \<and> (rn_main s = Finished None \<longrightarrow> rn_closed s \<and> rn_requests s = 0)
     \<and> (\<forall>what. rn_main s = Finished (Some (ServeFailed what)) \<longrightarrow>
          \<not> rn_closed s \<and> rn_listener s = Gone \<and> rn_errCh s = None)
     \<and> (rn_main s = Finished (Some ShutdownFailed) \<longrightarrow> rn_closed s))"

lemma run_inv_step: "run_step s t \<Longrightarrow> run_inv s \<Longrightarrow> run_inv t"
  by (induction rule: run_step.induct) (auto simp: run_inv_def serve_result_def split: serve_error.splits)

lemma run_inv_reachable: "reachable_run s \<Longrightarrow> run_inv s"
  unfolding reachable_run_def
proof (induction rule: rtranclp_induct)
  case (step s t)
  then show ?case using run_inv_step by blast
qed (simp add: run_inv_def run_start_def)

text \<open>C27 (safety).  The ends of the server: it returns no error only after its context was cancelled, it was
  closed and the last request was answered; an error of listening is returned as it is and only when the
  listener ended by itself; and the listener never waits to send its error, since the channel then
  has room, so that it does not outlive the server.\<close>

theorem run_outcomes:
  assumes "reachable_run s"
  shows "(rn_main s = Finished None \<longrightarrow> rn_cancelled s \<and> rn_closed s \<and> rn_requests s = 0)
    \<and> (rn_main s = Finished (Some (ServeFailed what)) \<longrightarrow> \<not> rn_closed s \<and> rn_listener s = Gone)
    \<and> (rn_listener s = Ended_with e \<longrightarrow> rn_errCh s = None)"
  using run_inv_reachable [OF assms] by (auto simp: run_inv_def)

section \<open>Shutting down ends\<close>

fun listener_left :: "listener \<Rightarrow> nat" where
  "listener_left Listening = 2"
| "listener_left (Ended_with e) = 1"
| "listener_left Gone = 0"

definition steps_left :: "run_state \<Rightarrow> nat" where
  "steps_left s = rn_requests s + listener_left (rn_listener s) + (case rn_main s of Finished _ \<Rightarrow> 0 | _ \<Rightarrow> 1)"

lemma closed_step:
  "run_step s t \<Longrightarrow> run_inv s \<Longrightarrow> rn_closed s \<Longrightarrow> steps_left t < steps_left s \<and> rn_closed t \<and> run_inv t"
  using run_inv_step [of s t] by (elim run_stepE) (auto simp: run_inv_def steps_left_def)

lemma closed_run:
  assumes "(run_step ^^ n) s t" "run_inv s" "rn_closed s"
  shows "n + steps_left t \<le> steps_left s \<and> rn_closed t \<and> run_inv t"
  using assms
proof (induction n arbitrary: t)
  case (Suc n)
  then obtain u where u: "(run_step ^^ n) s u" "run_step u t" by auto
  then show ?case using Suc.IH [OF u(1) Suc.prems(2,3)] closed_step [OF u(2)] by auto
qed simp

lemma closed_stuck:
  assumes "run_inv s" "rn_closed s" "\<forall>t. \<not> run_step s t"
  shows "(\<exists>r. rn_main s = Finished r) \<and> rn_listener s = Gone \<and> rn_requests s = 0"
proof -
  have "rn_requests s = 0" using assms(3) run_step.answer by (cases "rn_requests s") blast+
  moreover have "rn_listener s = Gone"
  proof (cases "rn_listener s")
    case Listening
    then show ?thesis using assms(2,3) run_step.listen_closed by blast
  next
    case (Ended_with e)
    then have "rn_errCh s = None" using assms(1) by (cases "rn_errCh s") (auto simp: run_inv_def)
    then show ?thesis using Ended_with assms(3) run_step.send by blast
  qed
  moreover have "\<exists>r. rn_main s = Finished r"
    using assms calculation(1) run_step.shutdown by (cases "rn_main s") (auto simp: run_inv_def)
  ultimately show ?thesis by blast
qed


section \<open>Instances\<close>

text \<open>A request is in flight when the context is cancelled; the server closes and waits for it.\<close>

definition run_closing :: run_state where
  "run_closing = \<lparr>rn_listener = Listening, rn_errCh = None, rn_main = ShuttingDown, rn_cancelled = True, rn_closed = True,
     rn_requests = 1\<rparr>"

definition run_ended :: run_state where
  "run_ended = \<lparr>rn_listener = Gone, rn_errCh = Some ServerClosed, rn_main = Finished None, rn_cancelled = True, rn_closed = True,
     rn_requests = 0\<rparr>"

lemma run_closing_reachable: "reachable_run run_closing"
proof -
  have "run_step run_start (run_start\<lparr>rn_requests := 1\<rparr>)"
    using run_step.accept [of run_start] by (simp add: run_start_def)
  moreover have "run_step (run_start\<lparr>rn_requests := 1\<rparr>) (run_start\<lparr>rn_requests := 1, rn_cancelled := True\<rparr>)"
    using run_step.cancel [of "run_start\<lparr>rn_requests := 1\<rparr>"] by (simp add: run_start_def)
  moreover have "run_step (run_start\<lparr>rn_requests := 1, rn_cancelled := True\<rparr>) run_closing"
    using run_step.select_done [of "run_start\<lparr>rn_requests := 1, rn_cancelled := True\<rparr>"]
    by (simp add: run_start_def run_closing_def)
  ultimately show ?thesis unfolding reachable_run_def by (meson rtranclp.rtrancl_refl rtranclp.rtrancl_into_rtrancl)
qed

lemma run_closing_ends: "(run_step ^^ 4) run_closing run_ended"
proof -
  have "run_step run_closing (run_closing\<lparr>rn_requests := 0\<rparr>)"
    using run_step.answer [of run_closing 0] by (simp add: run_closing_def)
  moreover have "run_step (run_closing\<lparr>rn_requests := 0\<rparr>) (run_closing\<lparr>rn_requests := 0, rn_main := Finished None\<rparr>)"
    using run_step.shutdown [of "run_closing\<lparr>rn_requests := 0\<rparr>"] by (simp add: run_closing_def)
  moreover have "run_step (run_closing\<lparr>rn_requests := 0, rn_main := Finished None\<rparr>)
      (run_closing\<lparr>rn_requests := 0, rn_main := Finished None, rn_listener := Ended_with ServerClosed\<rparr>)"
    using run_step.listen_closed [of "run_closing\<lparr>rn_requests := 0, rn_main := Finished None\<rparr>"] by (simp add: run_closing_def)
  moreover have "run_step (run_closing\<lparr>rn_requests := 0, rn_main := Finished None, rn_listener := Ended_with ServerClosed\<rparr>) run_ended"
    using run_step.send [of "run_closing\<lparr>rn_requests := 0, rn_main := Finished None, rn_listener := Ended_with ServerClosed\<rparr>"]
    by (simp add: run_closing_def run_ended_def)
  ultimately show ?thesis by (simp add: numeral_eq_Suc) blast
qed

lemma run_ended_reachable: "reachable_run run_ended"
  using run_closing_reachable run_closing_ends unfolding reachable_run_def
  by (meson relpowp_imp_rtranclp rtranclp_trans)

theorem run_outcomes_witness: "reachable_run run_ended \<and> rn_main run_ended = Finished None \<and> rn_requests run_ended = 0"
  using run_outcomes [OF run_ended_reachable] run_ended_reachable by (simp add: run_ended_def)


end
