(* ===== verification/Telemetry.thy ===== *)
theory Telemetry
  imports GoBase "HOL-Library.AList"
begin

text \<open>
  The adapters of pkg/integrations/otel: trace headers on NATS messages (nats.go), a span for each query of
  PostgreSQL (db.go) and the wrapper of the handlers (http.go).  The library of OpenTelemetry is a record of
  the functions that the adapters call; what they do to spans is the list of calls in their order.
\<close>

section \<open>Spans and the library\<close>

datatype span_call = SpanStart string "(string \<times> string) list" | SpanRecordError string | SpanStatusError string | SpanEnd

text \<open>\<open>start\<close> gives the context with the new span, the propagator injects a context into a carrier and
  extracts one from it.  A carrier is a map, listed in some order.\<close>

record 'c otel =
  ot_Start :: "string \<Rightarrow> 'c \<Rightarrow> 'c"
  ot_Inject :: "'c \<Rightarrow> (string \<times> string) list"
  ot_Extract :: "'c \<Rightarrow> (string \<times> string) list \<Rightarrow> 'c"

section \<open>Messages\<close>

type_synonym nats_header = "(string \<times> string list) list"

record Msg =
  mg_Subject :: string
  mg_Data :: string
  mg_Header :: "nats_header option"

definition header_set :: "nats_header \<Rightarrow> string \<times> string \<Rightarrow> nats_header" where
  "header_set h kv = AList.update (fst kv) [snd kv] h"

text \<open>The result of publishing, the calls on the span and the state of JetStream.\<close>

definition PublishWithTrace :: "'c otel \<Rightarrow> (Msg \<Rightarrow> 's \<Rightarrow> (string, 'ack) result \<times> 's) \<Rightarrow> 'c \<Rightarrow> string \<Rightarrow> string \<Rightarrow> 's \<Rightarrow>
    (string, 'ack) result \<times> span_call list \<times> 's" where
  "PublishWithTrace ot publish ctx subject data s =
    (let ctx' = ot_Start ot ''nats.publish'' ctx;
         begun = SpanStart ''nats.publish'' [(''messaging.system'', ''nats''), (''messaging.destination'', subject)];
         msg = \<lparr>mg_Subject = subject, mg_Data = data, mg_Header = Some (foldl header_set [] (ot_Inject ot ctx'))\<rparr>
     in case publish msg s of
          (Inr ack, s') \<Rightarrow> (Inr ack, [begun, SpanEnd], s')
        | (Inl e, s') \<Rightarrow> (Inl e, [begun, SpanRecordError e, SpanStatusError e, SpanEnd], s'))"

definition header_carrier :: "nats_header \<Rightarrow> (string \<times> string) list" where
  "header_carrier h = map (\<lambda>(k, vs). (k, hd vs)) (filter (\<lambda>(k, vs). vs \<noteq> []) h)"

definition ConsumeContext :: "'c otel \<Rightarrow> 'c \<Rightarrow> Msg option \<Rightarrow> 'c" where
  "ConsumeContext ot parent msg =
    (case msg of
       None \<Rightarrow> parent
     | Some m \<Rightarrow> (case mg_Header m of None \<Rightarrow> parent | Some h \<Rightarrow> ot_Extract ot parent (header_carrier h)))"

lemma update_new: "k \<notin> fst ` set xs \<Longrightarrow> AList.update k v xs = xs @ [(k, v)]"
  by (induction xs) auto

lemma foldl_header_set:
  "distinct (map fst kvs) \<Longrightarrow> fst ` set h \<inter> fst ` set kvs = {} \<Longrightarrow>
   foldl header_set h kvs = h @ map (\<lambda>(k, v). (k, [v])) kvs"
  by (induction kvs arbitrary: h) (auto simp: header_set_def update_new image_iff)

lemma carrier_of_header: "distinct (map fst kvs) \<Longrightarrow> header_carrier (foldl header_set [] kvs) = kvs"
  by (simp add: foldl_header_set header_carrier_def filter_map comp_def case_prod_beta)

text \<open>A trace crosses the bus: with a broker that hands on the message it accepted, and a
  propagator whose extraction recovers the trace that was injected, the context of the consumer belongs to the
  trace of the producer's span; and the span of the producer is started once and ended once, with the error on it
  when the broker refused the message.\<close>

theorem trace_roundtrip:
  assumes "\<And>parent c. trace (ot_Extract ot parent (ot_Inject ot c)) = trace c" "\<And>c. distinct (map fst (ot_Inject ot c))"
  shows "\<exists>msg calls. PublishWithTrace ot publish ctx subject data s = (fst (publish msg s), calls, snd (publish msg s))
    \<and> mg_Subject msg = subject \<and> mg_Data msg = data
    \<and> trace (ConsumeContext ot parent (Some msg)) = trace (ot_Start ot ''nats.publish'' ctx)
    \<and> (\<exists>attrs. calls = SpanStart ''nats.publish'' attrs #
          (case fst (publish msg s) of Inl e \<Rightarrow> [SpanRecordError e, SpanStatusError e] | Inr _ \<Rightarrow> []) @ [SpanEnd])"
proof -
  define msg where "msg = \<lparr>mg_Subject = subject, mg_Data = data,
     mg_Header = Some (foldl header_set [] (ot_Inject ot (ot_Start ot ''nats.publish'' ctx)))\<rparr>"
  have "trace (ConsumeContext ot parent (Some msg)) = trace (ot_Start ot ''nats.publish'' ctx)"
    by (simp add: ConsumeContext_def msg_def carrier_of_header assms)
  then show ?thesis
    by (intro exI [of _ msg]) (simp add: PublishWithTrace_def Let_def msg_def [symmetric] split: prod.split sum.split, simp add: msg_def)
qed

section \<open>Queries\<close>

text \<open>A context as a list of values, the innermost first; a query runs between the two calls of the tracer.\<close>

type_synonym 'v value_context = "(string \<times> 'v) list"

definition pgxSpanKey :: string where "pgxSpanKey = ''pgxSpanKey''"

definition TraceQueryStart :: "string \<Rightarrow> nat \<Rightarrow> nat value_context \<Rightarrow> span_call list \<times> nat value_context" where
  "TraceQueryStart sql sp ctx =
    ([SpanStart ''pgx.query'' [(''db.system'', ''postgresql''), (''db.statement'', sql)]], (pgxSpanKey, sp) # ctx)"

text \<open>The span that is ended, and the calls on it.\<close>

definition TraceQueryEnd :: "string option \<Rightarrow> nat value_context \<Rightarrow> (nat \<times> span_call list) option" where
  "TraceQueryEnd err ctx =
    (case map_of ctx pgxSpanKey of
       None \<Rightarrow> None
     | Some sp \<Rightarrow>
         Some (sp, (case err of None \<Rightarrow> [] | Some e \<Rightarrow> [SpanRecordError e, SpanStatusError e]) @ [SpanEnd]))"

lemma traced_query:
  "TraceQueryEnd err (snd (TraceQueryStart sql sp ctx)) =
    Some (sp, (case err of None \<Rightarrow> [] | Some e \<Rightarrow> [SpanRecordError e, SpanStatusError e]) @ [SpanEnd])"
  by (simp add: TraceQueryEnd_def TraceQueryStart_def)

lemma untraced_query: "map_of ctx pgxSpanKey = None \<Longrightarrow> TraceQueryEnd err ctx = None"
  by (simp add: TraceQueryEnd_def)

section \<open>Spans of requests\<close>

text \<open>pkg/integrations/otel/http.go names the span of a handler; \<open>newHandler\<close> is the library's, and a function
  is turned into a handler by \<open>handlerFunc\<close>.\<close>

definition otel_Middleware :: "('h \<Rightarrow> string \<Rightarrow> 'h) \<Rightarrow> string \<Rightarrow> 'h \<Rightarrow> 'h" where
  "otel_Middleware newHandler operation handler = newHandler handler operation"

definition otel_MiddlewareFor :: "('h \<Rightarrow> string \<Rightarrow> 'h) \<Rightarrow> ('f \<Rightarrow> 'h) \<Rightarrow> string \<Rightarrow> 'f \<Rightarrow> 'h" where
  "otel_MiddlewareFor newHandler handlerFunc operation fn = otel_Middleware newHandler operation (handlerFunc fn)"

section \<open>An instance\<close>

text \<open>Contexts as traces with a number, carried in the header of the W3C.\<close>

definition demo_otel :: "string otel" where
  "demo_otel = \<lparr>ot_Start = (\<lambda>_ c. c), ot_Inject = (\<lambda>c. [(''traceparent'', c), (''tracestate'', [])]),
     ot_Extract = (\<lambda>p kvs. case map_of kvs ''traceparent'' of None \<Rightarrow> p | Some c \<Rightarrow> c)\<rparr>"

theorem trace_roundtrip_witness:
  "\<exists>msg calls. PublishWithTrace demo_otel (\<lambda>m s. (Inl ''no stream'', s)) ''t-1'' ''a.b'' ''{}'' () = (Inl ''no stream'' :: (string, unit) result, calls, ())
    \<and> ConsumeContext demo_otel ''root'' (Some msg) = ''t-1'' \<and> length calls = 4"
  using trace_roundtrip [of "\<lambda>c. c" demo_otel "\<lambda>m s. (Inl ''no stream'' :: (string, unit) result, s)" "''t-1''" "''a.b''" "''{}''" "()" "''root''"]
  by (auto simp: demo_otel_def)

end
