(* ===== verification/Cli.thy ===== *)
theory Cli
  imports Seed
begin

text \<open>
  The command line of \<open>ns\<close>: the exit code of \<open>run\<close> (cmd/ns/main.go), the banner of pkg/version/version.go, and
  the seed commands from their flags to what they print (cmd/ns/seed.go and cmd/ns/seed_demo.go).  Parsing the
  arguments is the work of the command library, which hands a command its flags.
\<close>

section \<open>Version\<close>

record build =
  bu_Version :: string
  bu_Commit :: string
  bu_BuildDate :: string

text \<open>What an unsigned local build has.\<close>

definition dev_build :: build where
  "dev_build = \<lparr>bu_Version = ''dev'', bu_Commit = ''unknown'', bu_BuildDate = ''unknown''\<rparr>"

definition version_String :: "build \<Rightarrow> string" where
  "version_String b = ''netsite '' @ bu_Version b @ '' (commit '' @ bu_Commit b @ '', built '' @ bu_BuildDate b @ '')''"

section \<open>Commands\<close>

definition newline :: string where "newline = [CHR 0x0A]"

text \<open>The em dash of the texts, in UTF-8.\<close>

definition em_dash :: string where "em_dash = [CHR 0xE2, CHR 0x80, CHR 0x94]"

fun seed_admin_text :: "seed_result \<Rightarrow> string" where
  "seed_admin_text (SeedExists tenant email) =
    ''admin already exists for tenant='' @ tenant @ '' email='' @ email @ '' '' @ em_dash @ '' nothing to do'' @ newline"
| "seed_admin_text (SeedCreated tenant email i) =
    ''created tenant='' @ tenant @ '' admin='' @ email @ '' id='' @ i @ newline"

definition seed_demo_text :: "string \<Rightarrow> seedCounts \<Rightarrow> string" where
  "seed_demo_text tenant c =
    ''seeded tenant='' @ tenant @ '' pops='' @ itoa (int (sc_pops c)) @ '' tests='' @ itoa (int (sc_tests c)) @
    '' slos='' @ itoa (int (sc_slos c)) @ '' (idempotent '' @ em_dash @ '' pre-existing rows left alone)'' @ newline"

text \<open>\<open>ns seed demo\<close> before its transaction.\<close>

definition seed_demo :: "bool \<Rightarrow> mig_error option \<Rightarrow> tx_fault option \<Rightarrow> time \<Rightarrow> cli_env \<Rightarrow> string \<Rightarrow> pg_db \<Rightarrow>
    (seed_error, seedCounts) result \<times> pg_db" where
  "seed_demo opens migrated flt created env tenant s =
    (if ce_dsn env = [] then (Inl DsnRequired, s)
     else if \<not> opens then (Inl ConnectFailed, s)
     else (case migrated of
             Some e \<Rightarrow> (Inl (MigrateFailed e), s)
           | None \<Rightarrow> seedDemo flt created tenant s))"

text \<open>The surroundings of a call: what the connection, the migrations, the clock and the random source do.\<close>

record cli_host =
  ch_service :: Service
  ch_opens :: bool
  ch_migrated :: "mig_error option"
  ch_fault :: bool
  ch_tx_fault :: "tx_fault option"
  ch_created :: time
  ch_entropy :: "int list option"
  ch_now :: time
  ch_env :: cli_env
  ch_build :: build

datatype command = CVersion | CSeedAdmin seed_flags | CSeedDemo string | CHelp string | CUsage string

datatype cli_error = CommandFailed seed_error | UsageError

text \<open>The output of a command and its error; a call that the library answers itself prints its text, and an unknown
  command or flag is an error.\<close>

definition execute :: "cli_host \<Rightarrow> command \<Rightarrow> pg_db \<Rightarrow> (string \<times> cli_error option) \<times> pg_db" where
  "execute h c s =
    (case c of
       CVersion \<Rightarrow> ((version_String (ch_build h) @ newline, None), s)
     | CSeedAdmin f \<Rightarrow>
         (case seed_admin (ch_service h) (ch_opens h) (ch_migrated h) (ch_fault h) (ch_created h) (ch_entropy h) (ch_now h)
             (ch_env h) f (pg_auth s) of
            (Inl e, db) \<Rightarrow> (([], Some (CommandFailed e)), s\<lparr>pg_auth := db\<rparr>)
          | (Inr r, db) \<Rightarrow> ((seed_admin_text r, None), s\<lparr>pg_auth := db\<rparr>))
     | CSeedDemo tenant \<Rightarrow>
         (case seed_demo (ch_opens h) (ch_migrated h) (ch_tx_fault h) (ch_created h) (ch_env h) tenant s of
            (Inl e, s') \<Rightarrow> (([], Some (CommandFailed e)), s')
          | (Inr counts, s') \<Rightarrow> ((seed_demo_text tenant counts, None), s'))
     | CHelp text \<Rightarrow> ((text, None), s)
     | CUsage text \<Rightarrow> (([], Some UsageError), s))"

definition cli_run :: "cli_host \<Rightarrow> command \<Rightarrow> pg_db \<Rightarrow> int \<times> string \<times> pg_db" where
  "cli_run h c s =
    (case execute h c s of ((out, err), s') \<Rightarrow> (if err = None then 0 else 1, out, s'))"

section \<open>What a call leaves\<close>

lemma seed_demo_failed: "fst (seed_demo opens migrated flt created env tenant s) = Inl e \<Longrightarrow> flt \<noteq> Some TxCommitLost \<Longrightarrow>
   snd (seed_demo opens migrated flt created env tenant s) = s"
  by (auto simp: seed_demo_def seedDemo_def seed_rows_eq split: if_splits option.splits tx_fault.splits)

text \<open>A demo command that fails has changed nothing, unless only the answer to its commit was lost.\<close>

lemma demo_exit_code:
  "fst (cli_run h (CSeedDemo tenant) s) \<noteq> 0 \<Longrightarrow> ch_tx_fault h \<noteq> Some TxCommitLost \<Longrightarrow> snd (snd (cli_run h (CSeedDemo tenant) s)) = s"
  using seed_demo_failed [of "ch_opens h" "ch_migrated h" "ch_tx_fault h" "ch_created h" "ch_env h" tenant s]
  by (auto simp: cli_run_def execute_def split: prod.splits sum.splits)

lemma version_banner: "cli_run h CVersion s = (0, version_String (ch_build h) @ newline, s)"
  by (simp add: cli_run_def execute_def)

lemma dev_banner: "version_String dev_build = ''netsite dev (commit unknown, built unknown)''"
  by (simp add: version_String_def dev_build_def)

end
