(* ===== verification/Spec2Isabelle.thy ===== *)
theory Spec2Isabelle
  imports NetqlSyntax NetqlClickHouse NetqlProm NetqlAutocomplete SloEvaluator ApiServer Ingest TlsFingerprint AnomalyQuiet ApiSystem
    Seed Boot Isolation Alerts Middleware ServerRun Telemetry Cli CatalogServices
begin

text \<open>
  NetSite watches services from points of presence (POPs): agents run DNS, HTTP and TLS tests and publish
  the results through NATS JetStream, a control plane stores them in ClickHouse, evaluates objectives and
  anomalies on them, and answers queries, among them queries in its own language netql, over HTTP.  This
  library models the Go code of that program; the names of definitions and record fields are those of the
  source, with a prefix where two packages use the same name.

  \<^bold>\<open>Layers.\<close>

  \<^item> The language and its library: GoBase (bytes, slices, text, durations, sorting), GoFloat (float64 as
    rounded rationals), GoDuration (\<open>time.ParseDuration\<close>), GoHash (MD5 and SHA-256).
  \<^item> netql, pkg/netql: NetqlTypes (types.go), NetqlLex (lexer.go), NetqlParse (parser.go), NetqlRegistry
    (registry.go, check.go), NetqlClickHouse (translate_ch.go), NetqlProm (translate_prom.go),
    NetqlAutocomplete (autocomplete.go); NetqlSyntax is the specification of the concrete syntax.
  \<^item> Objectives, pkg/slo: SloTypes, SloStore, SloEvaluator (evaluator.go, notifier.go).
  \<^item> Users and sessions, pkg/auth: AuthRbac, AuthStore (repo.go), AuthService.
  \<^item> Agents: Canary and TlsFingerprint (pkg/canary), PopAgent (pkg/popagent).
  \<^item> The result stream: NatsStreams (pkg/store/nats/streams.go), Ingest (pkg/canary/ingest).
  \<^item> Anomalies, pkg/anomaly: AnomalyDetect (the numerical part), AnomalyQuiet (what it does on a series of
    zeros), AnomalyState (store, series source, evaluator).
  \<^item> Catalogs of the control plane: Workspaces (pkg/workspaces), Annotations (pkg/annotations), Catalog
    (tests and POPs in pkg/api); CatalogServices has the services of the first two over the interfaces that
    they are given, and shows that the stores make them the operations of Workspaces and Annotations.
  \<^item> The HTTP surface, pkg/api: Http (replies), ApiServer (routes and middleware), ApiHandlers and ApiQuery
    (the handlers), ApiSystem (all of them over one state).
  \<^item> Around the handlers: Middleware (pkg/api/middleware/logging.go, recover.go, and how a reply is
    written), ServerRun (the listener and the shutdown of \<open>Server.Run\<close>), Telemetry (pkg/integrations/otel/nats.go,
    db.go and http.go).
  \<^item> Start-up: Migrations (pkg/store/postgres/migrate.go, pkg/store/clickhouse/schema.go), Services (the
    constructors of connections and telemetry), DevTLS (cmd/ns-controlplane/devtls.go), Seed and Cli (cmd/ns,
    pkg/version), Boot (cmd/ns-controlplane, cmd/ns-pop).
  \<^item> The whole: Deployment (agents, broker, consumer, evaluators, server and seeds on the same
    tables), Integrity (what its tables keep among each other), Isolation (of tenants), Alerts (of
    objectives), EndToEnd (from an agent to the endpoint).

  \<^bold>\<open>How the parts interact.\<close>  An agent runs a test (Canary), publishes the result (PopAgent) to the stream
  (NatsStreams) from which the consumer inserts it into the table canary_results (Ingest).  The evaluators
  (SloEvaluator, AnomalyState) read that table and write their state to PostgreSQL.  A request goes
  through the front handler (Boot), the middleware and the route table (ApiServer) to a handler
  (ApiHandlers, ApiQuery, Catalog), which calls one service and that its store; the reply passes the layers of
  Middleware.  \<open>control_plane\<close> of ApiSystem is the record of all these tables, \<open>api_step\<close> one request and
  \<open>api_run\<close> a sequence of requests.  \<open>dep_step\<close> of Deployment adds the goroutines that work on the same tables: an
  event is the arrival of a request or the handling of one that is in flight, a test that fires, a delivery to the
  consumer, the beginning of a tick, the reading part or the write of one evaluation, a restart, or a seed command, and \<open>dep_run\<close> is any interleaving of them from the first boot on.

  \<^bold>\<open>State and errors.\<close>  A table is the list of its rows with the constraints of its migration; an operation
  of a store is the effect of its SQL statement, takes the faults and the clock of the database as
  arguments and returns the new table.  An operation that can fail returns an option or a sum whose left
  side is the error; every early return of the source is a branch.  Goroutines are modelled as the order in
  which their steps take effect; a request is authenticated in one step (\<open>admit\<close>) and handled in a later one
  (\<open>complete\<close>), with any number of requests in flight; the evaluation of an objective reads and alerts in one
  step (\<open>evaluate_begin\<close>) and writes its state in another, so that requests, deliveries, deletions and restarts
  fall between them; the list that a tick works off may be out of date.  A handler, a delivery and
  an anomaly evaluation are one step each.  A handler below the middleware is the tree of its calls on the response writer.

  \<^bold>\<open>Interfaces.\<close>  \<open>tenant_table\<close> is the contract of the catalogs (objectives, workspaces, annotations, tests
  and POPs): a row is seen and changed by its tenant only; the isolation of tenants in ApiSystem rests on
  its five interpretations.  \<open>auth_store\<close> is what the service of sessions relies on, with the PostgreSQL
  store as its model; \<open>slo_reader\<close> is the state store of the evaluator; \<open>jetstream\<close> is what the declaration
  of streams and consumers relies on, with the broker of Ingest as its model; \<open>schema_runner\<close> is what
  applying one file can do, with an instance for each database; \<open>wrapped_writer\<close> is what a response writer around
  another promises, with the recorder of the request log as its instance; \<open>validated_store\<close>, with its extensions for
  workspaces and annotations, is a table into which a service puts only what it has validated.

  \<^bold>\<open>What the lemmas show.\<close>  Language: the lexer and the parser return on every input and read back what the
  printer writes; the type checker accepts exactly the well-typed queries; the ClickHouse text depends on
  the literals through their number only and binds them in order; PromQL literals cannot end early.
  Objectives: no two alerts of an objective within the cool-down, one objective does not disturb another,
  the bounds of the burn rate.  Sessions: a session authenticates from its login to its expiry or
  logout, and a route answers only users whose role allows its action.  Stream: no accepted result is
  lost, whatever fails, and a quiet round drains the stream.  Anomalies: the calendar search equals its
  specification, an evaluation changes the verdict of its own pair only, the first failure of a quiet test
  is not reported.  Catalogs: shared links open exactly while they should, annotations do not change.
  System: tenants are isolated, references between the tables hold and rows stay valid, results that agents publish come back at the
  endpoint and alerts keep their distance in every run of a deployment, which refines the pipeline of Ingest;
  what a reader sees does not depend on other tenants.  Server: the log says what was answered, a panic is
  contained, a shutdown ends.  Start-up: each migration file takes effect exactly once however often a
  run breaks off, and a server that comes up has its schemas, its stream and its transport policy.

  \<^bold>\<open>Bounds and fuel.\<close>  The parser gets four units of fuel for each token and four more, which is enough since
  a token is consumed at the latest at every fourth call (\<open>Parse_not_out_of_fuel\<close>).  The shortest decimal of
  a float64 is searched with up to 17 digits, which determine it; the decimal expansion of a finite
  float64 stops after at most 1074 digits behind the point, and the search for a decimal exponent has 800
  steps for a range of less than 700.  The groups of an IPv6 address are at most eight.  Every other
  recursion ends by structure or by a proved measure.  Machine integers wrap where the source can overflow
  (durations, TTLs), code points and hashes are words.

  \<^bold>\<open>Parameters.\<close>  Code that is not in the repository is an argument: bcrypt, the random source, the clocks,
  the answers of PostgreSQL, ClickHouse and JetStream including lost ones, the resolver, the dialer and the
  HTTP transport of the runners, the JSON and YAML decoders, the parser of RFC 3339 times, the exporters of
  the telemetry library.

  \<^bold>\<open>Not modelled.\<close>  The texts that are only printed (log lines apart from their fields, most error texts, HTML pages,
  help texts); the sign of zero, fused multiplication and the rounding of times to microseconds in
  PostgreSQL; concurrent runs of the schema runners, two statements of one handler with another step between
  them, and the same for an anomaly evaluation; the redirects of the multiplexer for paths that are not clean; symbolic links below the directory for
  temporary files; and the parsing of command-line arguments.
\<close>

end
